(* ===== verification/Prelude.thy ===== *)
theory Prelude
  imports Main "HOL-Library.List_Lexorder" "HOL-Library.Char_ord" "HOL-Library.AList"
begin

text \<open>
  What every component of the PettyFlow model shares: the Python string operations the source
  calls, decimal printing, separators, slices, and the fact collections of the development.

  Conventions of the whole development:
  \<^item> a Python \<open>str\<close> is a \<open>string\<close> whose characters are the code points U+0000 to U+00FF;
    case mapping acts on the ASCII letters;
  \<^item> a Python \<open>int\<close> is an \<open>int\<close>; a \<open>datetime\<close> is an \<open>int\<close> (microseconds, or seconds where
    the source works with seconds), a fresh \<open>uuid4\<close> and the clock are arguments;
  \<^item> a \<open>dict\<close> that is only looked up is a map, a \<open>dict\<close> whose insertion order matters is an
    association list updated by \<open>AList.update\<close> (update in place, or append);
  \<^item> an operation that can raise returns \<open>'e + 'a\<close>, and a stateful operation returns the
    outcome together with the state it leaves, also when it raises.
\<close>

section \<open>Fact collections\<close>

named_theorems str_simps \<open>string operations of the source\<close>
named_theorems window_simps \<open>sliding windows\<close>

section \<open>Money\<close>

text \<open>All amounts are fixed-point integers scaled by ten thousand.\<close>

type_synonym scaled = int
type_synonym time = int

definition max_int64 :: int where
  "max_int64 = 2 ^ 63 - 1"

section \<open>Results\<close>

text \<open>Sequencing of operations that can raise: an error skips the rest.\<close>

definition bind_result :: "'e + 'a \<Rightarrow> ('a \<Rightarrow> 'e + 'b) \<Rightarrow> 'e + 'b" where
  "bind_result r f = (case r of Inl e \<Rightarrow> Inl e | Inr a \<Rightarrow> f a)"

lemma bind_result_simps [simp]:
  "bind_result (Inl e) f = Inl e"
  "bind_result (Inr a) f = f a"
  by (simp_all add: bind_result_def)

lemma bind_result_Inr_iff:
  "bind_result r f = Inr b \<longleftrightarrow> (\<exists>a. r = Inr a \<and> f a = Inr b)"
  by (auto simp: bind_result_def split: sum.splits)

text \<open>What an HTTP endpoint answers: a status with a body, or an error status.\<close>

datatype 'a http = HttpOk nat 'a | HttpError nat

section \<open>Characters and strings\<close>

definition char_code :: "char \<Rightarrow> nat" where
  "char_code c = of_char c"

text \<open>The white space \<open>str.strip\<close> removes, below U+0100.\<close>

definition is_space :: "char \<Rightarrow> bool" where
  "is_space c = (let n = char_code c in
     (9 \<le> n \<and> n \<le> 13) \<or> (28 \<le> n \<and> n \<le> 32) \<or> n = 133 \<or> n = 160)"

definition py_strip :: "string \<Rightarrow> string" where
  "py_strip s = rev (dropWhile is_space (rev (dropWhile is_space s)))"

definition is_lower_ascii :: "char \<Rightarrow> bool" where
  "is_lower_ascii c = (97 \<le> char_code c \<and> char_code c \<le> 122)"

definition is_upper_ascii :: "char \<Rightarrow> bool" where
  "is_upper_ascii c = (65 \<le> char_code c \<and> char_code c \<le> 90)"

definition is_alpha_ascii :: "char \<Rightarrow> bool" where
  "is_alpha_ascii c = (is_lower_ascii c \<or> is_upper_ascii c)"

definition upper_char :: "char \<Rightarrow> char" where
  "upper_char c = (if is_lower_ascii c then char_of (char_code c - 32) else c)"

definition lower_char :: "char \<Rightarrow> char" where
  "lower_char c = (if is_upper_ascii c then char_of (char_code c + 32) else c)"

definition py_upper :: "string \<Rightarrow> string" where
  "py_upper s = map upper_char s"

definition py_lower :: "string \<Rightarrow> string" where
  "py_lower s = map lower_char s"

lemma char_code_less [simp]: "char_code c < 256"
  by (simp add: char_code_def)

lemma char_code_char_of [simp]: "n < 256 \<Longrightarrow> char_code (char_of n) = n"
  by (simp add: char_code_def)

lemma char_code_inj: "char_code c = char_code d \<longleftrightarrow> c = d"
  unfolding char_code_def by (metis char_of_char)

lemma char_code_upper_char:
  "char_code (upper_char c) = (if is_lower_ascii c then char_code c - 32 else char_code c)"
  using char_code_less [of c] by (auto simp: upper_char_def simp del: char_code_less)

lemma not_lower_upper_char [simp]: "\<not> is_lower_ascii (upper_char c)"
  by (auto simp: is_lower_ascii_def char_code_upper_char split: if_splits)

lemma upper_char_idem [simp]: "upper_char (upper_char c) = upper_char c"
  by (simp add: upper_char_def [of "upper_char c"])

lemma is_space_upper_char [simp]: "is_space (upper_char c) = is_space c"
  by (auto simp: is_space_def is_lower_ascii_def char_code_upper_char Let_def)

lemma is_alpha_upper_char [simp]: "is_alpha_ascii (upper_char c) = is_alpha_ascii c"
  by (auto simp: is_alpha_ascii_def is_lower_ascii_def is_upper_ascii_def char_code_upper_char)

lemma py_upper_idem [simp, str_simps]: "py_upper (py_upper s) = py_upper s"
  by (simp add: py_upper_def)

lemma length_py_upper [simp, str_simps]: "length (py_upper s) = length s"
  by (simp add: py_upper_def)

lemma py_upper_Nil_iff [simp]: "py_upper s = [] \<longleftrightarrow> s = []"
  by (simp add: py_upper_def)

lemma dropWhile_dropWhile [simp]: "dropWhile P (dropWhile P xs) = dropWhile P xs"
  by (induction xs) auto

lemma dropWhile_idle: "xs = [] \<or> \<not> P (hd xs) \<Longrightarrow> dropWhile P xs = xs"
  by (cases xs) auto

lemma hd_dropWhile_neg: "dropWhile P xs \<noteq> [] \<Longrightarrow> \<not> P (hd (dropWhile P xs))"
  by (induction xs) auto

lemma hd_rev_dropWhile_rev:
  "ys \<noteq> [] \<Longrightarrow> \<not> P (hd ys) \<Longrightarrow> hd (rev (dropWhile P (rev ys))) = hd ys"
proof (cases ys)
  case (Cons y zs)
  assume "\<not> P (hd ys)"
  with Cons have "dropWhile P (rev zs @ [y]) = dropWhile P (rev zs) @ [y]"
    by (induction "rev zs") (auto simp: dropWhile_append)
  with Cons show ?thesis by simp
qed auto

lemma py_strip_idem [simp, str_simps]: "py_strip (py_strip s) = py_strip s"
proof -
  let ?l = "dropWhile is_space s"
  let ?r = "rev (dropWhile is_space (rev ?l))"
  have "dropWhile is_space ?r = ?r"
  proof (cases "?l = []")
    case True
    then show ?thesis by (simp only: True dropWhile.simps rev.simps)
  next
    case False
    then have "\<not> is_space (hd ?l)" by (rule hd_dropWhile_neg)
    with False have "hd ?r = hd ?l" by (intro hd_rev_dropWhile_rev)
    with \<open>\<not> is_space (hd ?l)\<close> show ?thesis by (intro dropWhile_idle) auto
  qed
  then show ?thesis by (simp add: py_strip_def)
qed

lemma dropWhile_map_space:
  "dropWhile is_space (map upper_char s) = map upper_char (dropWhile is_space s)"
  by (induction s) auto

lemma py_strip_upper [str_simps]: "py_strip (py_upper s) = py_upper (py_strip s)"
  by (simp add: py_strip_def py_upper_def dropWhile_map_space rev_map)

lemma py_strip_Nil [simp]: "py_strip [] = []"
  by (simp add: py_strip_def)

lemma py_strip_blank_iff: "py_strip s = [] \<longleftrightarrow> (\<forall>c \<in> set s. is_space c)"
proof -
  have "py_strip s = [] \<longleftrightarrow> (\<forall>c \<in> set (dropWhile is_space s). is_space c)"
    by (simp add: py_strip_def)
  also have "\<dots> \<longleftrightarrow> dropWhile is_space s = []"
    by (metis hd_dropWhile_neg hd_in_set empty_iff list.set(1))
  finally show ?thesis by simp
qed

text \<open>The Python \<open>s or d\<close> on an optional text.\<close>

definition text_or :: "string option \<Rightarrow> string \<Rightarrow> string" where
  "text_or s d = (case s of None \<Rightarrow> d | Some t \<Rightarrow> if t = [] then d else t)"

lemma text_or_simps [simp]: "text_or None d = d" "text_or (Some s) d = (if s = [] then d else s)"
  by (simp_all add: text_or_def)

section \<open>Decimal printing\<close>

text \<open>The conversion \<open>%d\<close>: the decimal digits of an integer, with a sign when negative.\<close>

definition digit_char :: "nat \<Rightarrow> char" where
  "digit_char d = char_of (48 + d)"

fun show_nat :: "nat \<Rightarrow> string" where
  "show_nat n =
     (if n < 10 then [digit_char n] else show_nat (n div 10) @ [digit_char (n mod 10)])"

declare show_nat.simps [simp del]

definition show_int :: "int \<Rightarrow> string" where
  "show_int i = (if i < 0 then CHR ''-'' # show_nat (nat (- i)) else show_nat (nat i))"

definition read_nat :: "string \<Rightarrow> nat" where
  "read_nat s = foldl (\<lambda>a c. 10 * a + (char_code c - 48)) 0 s"

definition is_digit :: "char \<Rightarrow> bool" where
  "is_digit c = (48 \<le> char_code c \<and> char_code c \<le> 57)"

lemma digit_char_numerals [simp]:
  "digit_char 0 = CHR ''0''" "digit_char (Suc 0) = CHR ''1''" "digit_char 2 = CHR ''2''"
  "digit_char 3 = CHR ''3''" "digit_char 4 = CHR ''4''" "digit_char 5 = CHR ''5''"
  "digit_char 6 = CHR ''6''" "digit_char 7 = CHR ''7''" "digit_char 8 = CHR ''8''"
  "digit_char 9 = CHR ''9''"
  by (simp_all add: digit_char_def) code_simp+

lemma char_code_digit_char [simp]: "d < 10 \<Longrightarrow> char_code (digit_char d) = 48 + d"
  by (simp add: digit_char_def)

lemma read_show_nat [simp]: "read_nat (show_nat n) = n"
proof (induction n rule: show_nat.induct)
  case (1 n)
  then show ?case
    by (cases "n < 10") (auto simp: show_nat.simps [of n] read_nat_def)
qed

lemma show_nat_inject [simp]: "show_nat m = show_nat n \<longleftrightarrow> m = n"
  by (metis read_show_nat)

lemma show_nat_digits: "c \<in> set (show_nat n) \<Longrightarrow> is_digit c"
proof (induction n rule: show_nat.induct)
  case (1 n)
  then show ?case
    by (cases "n < 10") (auto simp: show_nat.simps [of n] is_digit_def)
qed

lemma show_nat_not_Nil [simp]: "show_nat n \<noteq> []"
  by (subst show_nat.simps) auto

lemma minus_not_digit: "\<not> is_digit (CHR ''-'')"
  by (simp add: is_digit_def char_code_def)

lemma show_nat_no_minus: "show_nat n \<noteq> CHR ''-'' # s"
  using show_nat_digits [of "CHR ''-''" n] minus_not_digit by (metis list.set_intros(1))

lemma show_int_inject [simp]: "show_int i = show_int j \<longleftrightarrow> i = j"
  using show_nat_no_minus [of "nat i"] show_nat_no_minus [of "nat j"]
    show_nat_no_minus [of "nat i", symmetric] show_nat_no_minus [of "nat j", symmetric]
  by (auto simp: show_int_def)

lemma show_int_chars: "c \<in> set (show_int i) \<Longrightarrow> is_digit c \<or> c = CHR ''-''"
  by (auto simp: show_int_def dest: show_nat_digits split: if_splits)

lemma show_int_not_Nil [simp]: "show_int i \<noteq> []"
  by (simp add: show_int_def)

lemma not_in_show_int: "\<not> is_digit c \<Longrightarrow> c \<noteq> CHR ''-'' \<Longrightarrow> c \<notin> set (show_int i)"
  using show_int_chars by blast

text \<open>The format \<open>0nd\<close> for natural numbers: zeros on the left up to the width.\<close>

definition zfill :: "nat \<Rightarrow> string \<Rightarrow> string" where
  "zfill n s = replicate (n - length s) (CHR ''0'') @ s"

lemma read_nat_zeros: "read_nat (replicate n (CHR ''0'') @ s) = read_nat s"
proof (induction n)
  case (Suc n)
  have "char_code (CHR ''0'') = 48" by (simp add: char_code_def)
  with Suc show ?case by (simp add: read_nat_def)
qed simp

lemma zfill_inject [simp]: "zfill n (show_nat i) = zfill n (show_nat j) \<longleftrightarrow> i = j"
  by (metis read_nat_zeros read_show_nat zfill_def)

section \<open>Separators\<close>

fun join :: "'a list \<Rightarrow> 'a list list \<Rightarrow> 'a list" where
  "join sep [] = []"
| "join sep [x] = x"
| "join sep (x # y # ys) = x @ sep @ join sep (y # ys)"

lemma append_sep_eq:
  "c \<notin> set a \<Longrightarrow> c \<notin> set b \<Longrightarrow> a @ c # u = b @ c # v \<longleftrightarrow> a = b \<and> u = v"
proof (induction a arbitrary: b)
  case Nil
  then show ?case by (cases b) auto
next
  case (Cons x a)
  then show ?case by (cases b) auto
qed

lemma append_sep_eq_last:
  assumes "c \<notin> set v" "c \<notin> set w"
  shows "a @ c # v = b @ c # w \<longleftrightarrow> a = b \<and> v = w"
proof -
  have "a @ c # v = b @ c # w \<longleftrightarrow> rev v @ c # rev a = rev w @ c # rev b"
    using rev_is_rev_conv [of "a @ c # v" "b @ c # w"] by simp
  also have "\<dots> \<longleftrightarrow> rev v = rev w \<and> rev a = rev b"
    using assms by (intro append_sep_eq) simp_all
  finally show ?thesis by auto
qed

lemma append_sep_neq:
  "c \<notin> set a \<Longrightarrow> c \<notin> set b \<Longrightarrow> a @ c # u \<noteq> b"
  by auto

lemma join_inject:
  assumes "\<forall>x \<in> set xs. c \<notin> set x \<and> x \<noteq> []" and "\<forall>x \<in> set ys. c \<notin> set x \<and> x \<noteq> []"
  shows "join [c] xs = join [c] ys \<longleftrightarrow> xs = ys"
  using assms
proof (induction "[c]" xs arbitrary: ys rule: join.induct)
  case 1
  show ?case
    using 1 by (cases "([c], ys)" rule: join.cases) auto
next
  case (2 x)
  then show ?case
    by (cases "([c], ys)" rule: join.cases) (auto dest: append_sep_neq)
next
  case (3 x y xs)
  show ?case
  proof (cases "([c], ys)" rule: join.cases)
    case (3 sep x' y' zs)
    with "3.prems" "3.hyps" [of "y' # zs"] show ?thesis
      by (auto simp: append_sep_eq)
  qed (use "3.prems" in \<open>auto dest: append_sep_neq\<close>)
qed

text \<open>\<open>p in s\<close> on texts, and \<open>s.split(sep)\<close>.\<close>

fun is_infix :: "string \<Rightarrow> string \<Rightarrow> bool" where
  "is_infix p [] = (p = [])"
| "is_infix p (c # s) = (take (length p) (c # s) = p \<or> is_infix p s)"

fun split_on :: "char \<Rightarrow> string \<Rightarrow> string list" where
  "split_on sep [] = [[]]"
| "split_on sep (c # s) =
     (if c = sep then [] # split_on sep s
      else case split_on sep s of [] \<Rightarrow> [[c]] | w # ws \<Rightarrow> (c # w) # ws)"

lemma split_on_append: "sep \<notin> set a \<Longrightarrow> split_on sep (a @ sep # b) = a # split_on sep b"
  by (induction a) auto

lemma split_on_single: "sep \<notin> set a \<Longrightarrow> split_on sep a = [a]"
  by (induction a) auto

lemma split_on_ne: "split_on sep s \<noteq> []"
  by (induction s) (auto split: list.splits)

lemma split_on_join: "split_on sep s = ws \<Longrightarrow> join [sep] ws = s"
proof (induction s arbitrary: ws)
  case (Cons c s)
  obtain w us where ws: "split_on sep s = w # us" using split_on_ne by (metis neq_Nil_conv)
  with Cons.IH have "join [sep] (w # us) = s" by blast
  with Cons.prems ws show ?case by (cases us) (auto split: if_splits)
qed simp

section \<open>Amounts of whole cents\<close>

text \<open>The two-decimal text of an amount in ten-thousandths, and the amount such a text stands for.\<close>

definition amount_text :: "scaled \<Rightarrow> string" where
  "amount_text n = show_nat (nat (n div 10000)) @ ''.'' @ zfill 2 (show_nat (nat (n mod 10000 div 100)))"

definition amount_of_text :: "string \<Rightarrow> scaled option" where
  "amount_of_text s =
     (case split_on (CHR ''.'') s of
        [w, f] \<Rightarrow> if w \<noteq> [] \<and> length f = 2 \<and> list_all is_digit (w @ f)
          then Some (10000 * int (read_nat w) + 100 * int (read_nat f)) else None
      | _ \<Rightarrow> None)"

lemma amount_text_chars: "c \<in> set (amount_text n) \<Longrightarrow> is_digit c \<or> c = CHR ''.''"
  by (auto simp: amount_text_def zfill_def is_digit_def char_code_def dest: show_nat_digits)

lemma length_two_digits:
  assumes "n < 100"
  shows "length (show_nat n) \<le> 2"
proof (cases "n < 10")
  case False
  then have "n div 10 < 10" using assms by simp
  with False show ?thesis by (subst show_nat.simps, subst show_nat.simps) simp
qed (simp add: show_nat.simps [of n])

lemma amount_of_amount_text:
  assumes "0 \<le> n" "n mod 100 = 0"
  shows "amount_of_text (amount_text n) = Some n"
proof -
  define w f where "w = show_nat (nat (n div 10000))" and "f = zfill 2 (show_nat (nat (n mod 10000 div 100)))"
  have digits: "\<forall>c \<in> set w. is_digit c" "\<forall>c \<in> set f. is_digit c"
    by (auto simp: w_def f_def zfill_def is_digit_def char_code_def dest: show_nat_digits)
  have "\<not> is_digit (CHR ''.'')" by (simp add: is_digit_def char_code_def)
  with digits have dot: "CHR ''.'' \<notin> set w" "CHR ''.'' \<notin> set f" by blast+
  have "nat (n mod 10000 div 100) < 100" by (simp add: nat_less_iff)
  then have f: "length f = 2" using length_two_digits by (simp add: f_def zfill_def)
  have w: "w \<noteq> []" "list_all is_digit (w @ f)" using digits by (auto simp: w_def list_all_iff)
  have "read_nat w = nat (n div 10000)" "read_nat f = nat (n mod 10000 div 100)"
    by (simp_all add: w_def f_def zfill_def read_nat_zeros)
  then have "10000 * int (read_nat w) + 100 * int (read_nat f) = 10000 * (n div 10000) + 100 * (n mod 10000 div 100)"
    using assms(1) by simp
  also have "100 * (n mod 10000 div 100) = n mod 10000"
  proof -
    have "n mod 10000 mod 100 = 0" using assms(2) by (simp add: mod_mod_cancel)
    then show ?thesis by (metis add.right_neutral mult_div_mod_eq)
  qed
  also have "10000 * (n div 10000) + n mod 10000 = n" by simp
  finally have n: "10000 * int (read_nat w) + 100 * int (read_nat f) = n" .
  have split: "split_on (CHR ''.'') (w @ CHR ''.'' # f) = [w, f]"
    by (simp only: split_on_append [OF dot(1)] split_on_single [OF dot(2)])
  have "amount_text n = w @ CHR ''.'' # f" by (simp add: amount_text_def w_def f_def)
  then show ?thesis by (simp only: amount_of_text_def split list.case w f n HOL.simp_thms if_True)
qed

section \<open>UTF-8\<close>

text \<open>\<open>str.encode\<close> on code points below U+0100: one byte below 128, two from there.\<close>

definition utf8_char :: "char \<Rightarrow> string" where
  "utf8_char c =
     (if char_code c < 128 then [c]
      else [char_of (192 + char_code c div 64), char_of (128 + char_code c mod 64)])"

definition utf8 :: "string \<Rightarrow> string" where
  "utf8 s = concat (map utf8_char s)"

lemma utf8_simps [simp]: "utf8 [] = []" "utf8 (c # s) = utf8_char c @ utf8 s"
  by (simp_all add: utf8_def)

lemma utf8_char_high:
  assumes "128 \<le> char_code c"
  shows "char_code (char_of (192 + char_code c div 64)) = 192 + char_code c div 64"
    and "char_code (char_of (128 + char_code c mod 64)) = 128 + char_code c mod 64"
  using char_code_less [of c] by (auto simp del: char_code_less intro!: char_code_char_of)

lemma utf8_char_not_Nil [simp]: "utf8_char c \<noteq> []"
  by (simp add: utf8_char_def)

lemma utf8_char_ascii_mem: "char_code d < 128 \<Longrightarrow> d \<in> set (utf8_char c) \<longleftrightarrow> d = c"
  using utf8_char_high [of c] by (auto simp: utf8_char_def split: if_splits)

lemma utf8_ascii_mem: "char_code d < 128 \<Longrightarrow> d \<in> set (utf8 s) \<longleftrightarrow> d \<in> set s"
  by (induction s) (auto simp: utf8_char_ascii_mem)

lemma utf8_char_prefix_eq:
  "utf8_char c @ u = utf8_char d @ v \<Longrightarrow> c = d \<and> u = v"
proof -
  assume eq: "utf8_char c @ u = utf8_char d @ v"
  show ?thesis
    using eq utf8_char_high [of c] utf8_char_high [of d]
    by (auto simp: utf8_char_def char_code_inj [symmetric] not_less
        simp del: char_code_less split: if_splits)
       (metis div_mult_mod_eq)
qed

lemma utf8_inject [simp]: "utf8 s = utf8 t \<longleftrightarrow> s = t"
proof (induction s arbitrary: t)
  case Nil
  then show ?case by (cases t) auto
next
  case (Cons c s)
  then show ?case by (cases t) (auto dest: utf8_char_prefix_eq)
qed

section \<open>Slices\<close>

text \<open>Python's \<open>xs[i:j]\<close>: a negative bound counts from the end, both are clipped.\<close>

definition slice_bound :: "nat \<Rightarrow> int \<Rightarrow> nat" where
  "slice_bound n i = (if i < 0 then nat (max 0 (int n + i)) else min n (nat i))"

definition py_slice :: "'a list \<Rightarrow> int \<Rightarrow> int \<Rightarrow> 'a list" where
  "py_slice xs i j =
     (let lo = slice_bound (length xs) i; hi = slice_bound (length xs) j
      in take (hi - lo) (drop lo xs))"

lemma py_slice_nonneg:
  "0 \<le> i \<Longrightarrow> 0 \<le> k \<Longrightarrow> py_slice xs i (i + k) = take (nat k) (drop (nat i) xs)"
  by (auto simp: py_slice_def slice_bound_def Let_def min_def nat_add_distrib)

lemma set_py_slice: "set (py_slice xs i j) \<subseteq> set xs"
  unfolding py_slice_def Let_def by (meson set_drop_subset set_take_subset subset_trans)

section \<open>Lists and sums\<close>

lemma distinct_singleton: "distinct xs \<Longrightarrow> set xs = {a} \<Longrightarrow> xs = [a]"
  by (cases xs; cases "tl xs") auto

lemma dropWhile_sorted_filter:
  "sorted (map f xs) \<Longrightarrow> dropWhile (\<lambda>x. f x < c) xs = filter (\<lambda>x. c \<le> f x) xs"
proof (induction xs)
  case (Cons x xs)
  show ?case
  proof (cases "f x < c")
    case True
    with Cons show ?thesis by simp
  next
    case False
    with Cons.prems have "\<forall>y \<in> set xs. c \<le> f y" by fastforce
    with False show ?thesis by (simp add: filter_id_conv)
  qed
qed simp

lemma sorted_last_ge: "sorted (map f xs) \<Longrightarrow> x \<in> set xs \<Longrightarrow> f x \<le> f (last xs)"
  by (induction xs rule: rev_induct) (auto simp: sorted_append)

lemma map_of_sort_key: "distinct (map fst xs) \<Longrightarrow> map_of (sort_key fst xs) = map_of xs"
proof -
  assume d: "distinct (map fst xs)"
  then have "distinct (map fst (sort_key fst xs))" by (simp only: distinct_map distinct_sort set_sort)
  with d show ?thesis by (simp add: map_of_inject_set)
qed

text \<open>Sorting by the key commutes with a map that keeps the keys.\<close>

lemma insort_key_map_fst:
  assumes "\<And>x. fst (f x) = fst x"
  shows "insort_key fst (f x) (map f xs) = map f (insort_key fst x xs)"
  using assms by (induction xs) auto

lemma sort_key_map_fst:
  assumes "\<And>x. fst (f x) = fst x"
  shows "sort_key fst (map f xs) = map f (sort_key fst xs)"
  by (induction xs) (simp_all add: insort_key_map_fst assms)

lemma sum_list_filter_split:
  fixes f :: "'a \<Rightarrow> 'b::comm_monoid_add"
  shows "sum_list (map f xs) =
    sum_list (map f (filter P xs)) + sum_list (map f (filter (\<lambda>x. \<not> P x) xs))"
  by (induction xs) (auto simp: ac_simps)

end
