(* ===== verification/Journal.thy ===== *)
theory Journal
  imports Prelude "HOL-Library.Multiset"
begin

text \<open>
  The double-entry contract: an entry is a list of lines, each a debit or a credit with an
  amount, and the component's check accepts the entry exactly when the two totals agree. The
  ledger batch and the two ERP journal formats interpret it; the variance analyzer and the
  replenishment builders are its clients.
\<close>

definition total_where :: "('l \<Rightarrow> bool) \<Rightarrow> ('l \<Rightarrow> int) \<Rightarrow> 'l list \<Rightarrow> int" where
  "total_where P f xs = sum_list (map f (filter P xs))"

lemma total_where_simps [simp]:
  "total_where P f [] = 0"
  "total_where P f (x # xs) = (if P x then f x else 0) + total_where P f xs"
  "total_where P f (xs @ ys) = total_where P f xs + total_where P f ys"
  by (simp_all add: total_where_def)

lemma total_where_mset: "mset xs = mset ys \<Longrightarrow> total_where P f xs = total_where P f ys"
  unfolding total_where_def by (metis mset_filter mset_map sum_mset_sum_list)

locale journal =
  fixes entry_lines :: "'e \<Rightarrow> 'l list"
    and debit_line :: "'l \<Rightarrow> bool"
    and credit_line :: "'l \<Rightarrow> bool"
    and line_amount :: "'l \<Rightarrow> int"
    and accepts :: "'e \<Rightarrow> bool"
  assumes accepts_iff: "accepts e \<longleftrightarrow>
      total_where debit_line line_amount (entry_lines e) =
      total_where credit_line line_amount (entry_lines e)"
    and one_side: "credit_line l \<longleftrightarrow> \<not> debit_line l"
begin

lemma accepts_net_zero: "accepts e \<longleftrightarrow>
    sum_list (map (\<lambda>l. if debit_line l then line_amount l else - line_amount l) (entry_lines e)) = 0"
proof -
  have "sum_list (map (\<lambda>l. if debit_line l then line_amount l else - line_amount l) xs) =
      total_where debit_line line_amount xs - total_where credit_line line_amount xs" for xs
    by (induction xs) (auto simp: one_side)
  then show ?thesis by (simp add: accepts_iff)
qed

lemma accepts_order: "mset (entry_lines e) = mset (entry_lines e') \<Longrightarrow> accepts e = accepts e'"
  using total_where_mset by (metis accepts_iff)

lemma accepts_pair:
  assumes "entry_lines e = [d, c]" "debit_line d" "credit_line c"
  shows "accepts e \<longleftrightarrow> line_amount d = line_amount c"
  using assms by (simp add: accepts_iff one_side)

lemma accepts_merge:
  assumes "entry_lines e = entry_lines a @ entry_lines b" "accepts a"
  shows "accepts e \<longleftrightarrow> accepts b"
  using assms by (simp add: accepts_iff)

end

end
