(* ===== verification/Ledger.thy ===== *)
theory Ledger
  imports Journal
begin

text \<open>
  \<^verbatim>\<open>src/domain/ledger/entry.py\<close>: accounts, posting legs and transaction batches with the
  zero-sum check. The two float conversions of that file are not modelled.
\<close>

datatype account_category = ASSET | LIABILITY | EQUITY | EXPENSE | REVENUE

datatype entry_type = DEBIT | CREDIT

definition SCALE_FACTOR :: int where
  "SCALE_FACTOR = 10000"

record account =
  acc_account_id :: string
  acc_tenant_id :: string
  acc_name :: string
  acc_category :: account_category
  acc_currency :: string
  acc_created_at :: time

record posting_leg =
  pl_account_id :: string
  pl_entry_type :: entry_type
  pl_amount_scaled :: scaled

record transaction_batch =
  tb_transaction_id :: string
  tb_tenant_id :: string
  tb_description :: string
  tb_legs :: "posting_leg list"
  tb_timestamp :: string

datatype ledger_error =
    LegNotPositive int
  | UnbalancedLedgerEntry string int int

text \<open>\<open>PostingLeg.__post_init__\<close>: only a positive amount makes a leg.\<close>

definition mk_posting_leg :: "string \<Rightarrow> entry_type \<Rightarrow> scaled \<Rightarrow> ledger_error + posting_leg" where
  "mk_posting_leg acct typ amt =
     (if amt \<le> 0 then Inl (LegNotPositive amt)
      else Inr \<lparr>pl_account_id = acct, pl_entry_type = typ, pl_amount_scaled = amt\<rparr>)"

text \<open>The accumulating loop of \<open>validate_balance\<close>: total debits, then total credits.\<close>

fun tally_legs :: "posting_leg list \<Rightarrow> int \<Rightarrow> int \<Rightarrow> int \<times> int" where
  "tally_legs [] td tc = (td, tc)"
| "tally_legs (leg # legs) td tc =
     (if pl_entry_type leg = DEBIT then tally_legs legs (td + pl_amount_scaled leg) tc
      else tally_legs legs td (tc + pl_amount_scaled leg))"

definition validate_balance :: "transaction_batch \<Rightarrow> ledger_error + bool" where
  "validate_balance tx =
     (let (td, tc) = tally_legs (tb_legs tx) 0 0
      in if td \<noteq> tc then Inl (UnbalancedLedgerEntry (tb_transaction_id tx) td tc) else Inr True)"

definition debit_total :: "posting_leg list \<Rightarrow> int" where
  "debit_total = total_where (\<lambda>l. pl_entry_type l = DEBIT) pl_amount_scaled"

definition credit_total :: "posting_leg list \<Rightarrow> int" where
  "credit_total = total_where (\<lambda>l. pl_entry_type l = CREDIT) pl_amount_scaled"

text \<open>The effect of a list of legs on one account: debits less credits.\<close>

definition account_effect :: "string \<Rightarrow> posting_leg list \<Rightarrow> int" where
  "account_effect a legs =
     debit_total (filter (\<lambda>l. pl_account_id l = a) legs) -
     credit_total (filter (\<lambda>l. pl_account_id l = a) legs)"

lemma entry_type_not_DEBIT [simp]: "t \<noteq> DEBIT \<longleftrightarrow> t = CREDIT"
  by (cases t) auto

lemma totals_simps [simp]:
  "debit_total [] = 0" "credit_total [] = 0"
  "debit_total (l # ls) = (if pl_entry_type l = DEBIT then pl_amount_scaled l else 0) + debit_total ls"
  "credit_total (l # ls) = (if pl_entry_type l = CREDIT then pl_amount_scaled l else 0) + credit_total ls"
  by (simp_all add: debit_total_def credit_total_def)

lemma tally_legs_totals:
  "tally_legs legs td tc = (td + debit_total legs, tc + credit_total legs)"
  by (induction legs td tc rule: tally_legs.induct) auto

interpretation batch_journal: journal tb_legs "\<lambda>l. pl_entry_type l = DEBIT"
  "\<lambda>l. pl_entry_type l = CREDIT" pl_amount_scaled "\<lambda>tx. validate_balance tx = Inr True"
  by unfold_locales
    (auto simp: validate_balance_def tally_legs_totals debit_total_def credit_total_def)

lemma validate_balance_cases:
  "validate_balance tx = Inr True \<or>
   (\<exists>td tc. validate_balance tx = Inl (UnbalancedLedgerEntry (tb_transaction_id tx) td tc))"
  by (auto simp: validate_balance_def split: prod.splits)

text \<open>The check of a batch computes the two column totals of its legs: it returns True
  exactly when they agree, and otherwise raises the unbalanced-entry error carrying both
  totals.\<close>

theorem validate_balance_totals:
  "validate_balance tx =
     (if debit_total (tb_legs tx) = credit_total (tb_legs tx) then Inr True
      else Inl (UnbalancedLedgerEntry (tb_transaction_id tx)
             (debit_total (tb_legs tx)) (credit_total (tb_legs tx))))"
  by (simp add: validate_balance_def tally_legs_totals)

text \<open>A balanced batch moves value between accounts without creating any: over any finite set of
  accounts that covers its legs, the effects add up to zero.\<close>

lemma account_effect_Cons:
  "account_effect a (l # ls) =
     (if pl_account_id l = a
      then (if pl_entry_type l = DEBIT then pl_amount_scaled l else - pl_amount_scaled l) else 0)
     + account_effect a ls"
  by (auto simp: account_effect_def)

lemma account_effect_sum:
  "finite A \<Longrightarrow> pl_account_id ` set legs \<subseteq> A \<Longrightarrow>
   (\<Sum>a\<in>A. account_effect a legs) = debit_total legs - credit_total legs"
proof (induction legs)
  case Nil
  then show ?case by (simp add: account_effect_def)
next
  case (Cons l ls)
  have "(\<Sum>a\<in>A. account_effect a (l # ls)) =
      (\<Sum>a\<in>A. if pl_account_id l = a
        then (if pl_entry_type l = DEBIT then pl_amount_scaled l else - pl_amount_scaled l) else 0)
      + (\<Sum>a\<in>A. account_effect a ls)"
    by (simp add: account_effect_Cons sum.distrib)
  with Cons show ?case by (auto simp: sum.delta)
qed

text \<open>Zero-sum posting: if a batch passes the check, the net effects of its legs over all
  the accounts it touches add up to zero, whatever the order or number of legs.\<close>

theorem validated_batch_conserves:
  assumes "validate_balance tx = Inr True"
  shows "(\<Sum>a \<in> pl_account_id ` set (tb_legs tx). account_effect a (tb_legs tx)) = 0"
  using assms account_effect_sum [of "pl_account_id ` set (tb_legs tx)" "tb_legs tx"]
  by (simp add: validate_balance_def tally_legs_totals split: if_splits)

definition sample_batch :: transaction_batch where
  "sample_batch = \<lparr>tb_transaction_id = ''tx-1'', tb_tenant_id = ''acme'',
     tb_description = ''pens'',
     tb_legs = [\<lparr>pl_account_id = ''exp'', pl_entry_type = DEBIT, pl_amount_scaled = 50\<rparr>,
                \<lparr>pl_account_id = ''cash'', pl_entry_type = CREDIT, pl_amount_scaled = 50\<rparr>],
     tb_timestamp = ''2026-08-18T00:00:00''\<rparr>"

theorem validated_batch_conserves_witness:
  "(\<Sum>a \<in> pl_account_id ` set (tb_legs sample_batch). account_effect a (tb_legs sample_batch)) = 0"
  by (rule validated_batch_conserves) (simp add: sample_batch_def validate_balance_def)

end
