(* ===== verification/Mac_Chain.thy ===== *)
theory Mac_Chain
  imports Prelude
begin

text \<open>
  The contract of a keyed hash chain: a list of blocks, each carrying the digest of its own
  content and the digest of the block before it, and a verifier that walks the list from a
  genesis value. The ledger chain and the audit log interpret it.
\<close>

locale mac_chain =
  fixes content :: "'b \<Rightarrow> 'c"
    and digest :: "'c \<Rightarrow> 'h"
    and prev :: "'b \<Rightarrow> 'h"
    and cur :: "'b \<Rightarrow> 'h"
    and at_index :: "nat \<Rightarrow> 'b \<Rightarrow> bool"
    and verifies :: "nat \<Rightarrow> 'h \<Rightarrow> 'b list \<Rightarrow> bool"
  assumes verifies_Nil: "verifies i h []"
    and verifies_Cons: "verifies i h (b # bs) \<longleftrightarrow>
      at_index i b \<and> prev b = h \<and> digest (content b) = cur b \<and> verifies (Suc i) (cur b) bs"
    and content_prev: "content b = content b' \<Longrightarrow> prev b = prev b'"
begin

definition head_from :: "'h \<Rightarrow> 'b list \<Rightarrow> 'h" where
  "head_from h bs = (if bs = [] then h else cur (last bs))"

lemma head_from_simps [simp]:
  "head_from h [] = h"
  "head_from h (bs @ [b]) = cur b"
  by (simp_all add: head_from_def)

lemma head_from_Cons: "head_from h (b # bs) = head_from (cur b) bs"
  by (simp add: head_from_def)

lemma verifies_append:
  "verifies i h (bs @ cs) \<longleftrightarrow>
     verifies i h bs \<and> verifies (i + length bs) (head_from h bs) cs"
  by (induction bs arbitrary: i h) (auto simp: verifies_Nil verifies_Cons head_from_Cons)

lemma verifies_snoc:
  "verifies i h (bs @ [b]) \<longleftrightarrow>
     verifies i h bs \<and> at_index (i + length bs) b \<and> prev b = head_from h bs \<and>
     digest (content b) = cur b"
  by (simp add: verifies_append verifies_Cons verifies_Nil)

lemma verifies_prefix: "verifies i h bs \<Longrightarrow> verifies i h (take n bs)"
  by (metis append_take_drop_id verifies_append)

lemma verifies_nth:
  assumes "verifies i h bs" "n < length bs"
  shows "at_index (i + n) (bs ! n)" "digest (content (bs ! n)) = cur (bs ! n)"
    "prev (bs ! n) = head_from h (take n bs)"
proof -
  have "bs = take n bs @ bs ! n # drop (Suc n) bs"
    using assms(2) by (simp add: id_take_nth_drop)
  with assms have "verifies (i + length (take n bs)) (head_from h (take n bs))
      (bs ! n # drop (Suc n) bs)"
    by (metis verifies_append)
  with assms(2) show "at_index (i + n) (bs ! n)" "digest (content (bs ! n)) = cur (bs ! n)"
    "prev (bs ! n) = head_from h (take n bs)"
    by (simp_all add: verifies_Cons)
qed

text \<open>Rewriting one block under its old digest is seen, unless the two contents collide.\<close>

lemma rewritten_block_refused:
  assumes "verifies i h bs" "n < length bs" "cur b = cur (bs ! n)"
    and "digest (content b) \<noteq> digest (content (bs ! n))"
  shows "\<not> verifies i h (bs[n := b])"
proof
  assume "verifies i h (bs[n := b])"
  then have "digest (content b) = cur b"
    using verifies_nth(2) [of i h "bs[n := b]" n] assms(2) by simp
  with assms show False using verifies_nth(2) [OF assms(1,2)] by simp
qed

text \<open>Replacing a block that has a successor is seen as soon as its digest changes.\<close>

lemma replaced_block_refused:
  assumes "verifies i h bs" "Suc n < length bs" "cur b \<noteq> cur (bs ! n)"
  shows "\<not> verifies i h (bs[n := b])"
proof
  assume "verifies i h (bs[n := b])"
  then have "prev (bs ! Suc n) = head_from h (take (Suc n) (bs[n := b]))"
    using verifies_nth(3) [of i h "bs[n := b]" "Suc n"] assms(2) by simp
  moreover have "prev (bs ! Suc n) = head_from h (take (Suc n) bs)"
    using assms by (intro verifies_nth(3)) auto
  ultimately show False
    using assms(2,3) by (simp add: take_Suc_conv_app_nth)
qed

text \<open>
  The head digest commits to the whole history: two verified chains of the same length with the
  same head have the same contents and the same digests, when no two of their contents collide.
\<close>

lemma head_commits:
  assumes "verifies i h bs" "verifies i h cs" "length bs = length cs"
    and "head_from h bs = head_from h cs"
    and "inj_on digest (content ` (set bs \<union> set cs))"
  shows "map content bs = map content cs \<and> map cur bs = map cur cs"
  using assms
proof (induction bs arbitrary: cs rule: rev_induct)
  case Nil
  then show ?case by simp
next
  case (snoc b bs)
  have "cs \<noteq> []" using snoc.prems(3) by auto
  then obtain cs' c where cs: "cs = cs' @ [c]"
    by (cases cs rule: rev_cases) simp_all
  have "cur b = cur c" using snoc.prems(4) by (simp add: cs)
  moreover have "digest (content b) = cur b" "digest (content c) = cur c"
    using snoc.prems(1,2) by (simp_all add: cs verifies_snoc)
  ultimately have "digest (content b) = digest (content c)" by simp
  then have same: "content b = content c"
    by (rule inj_onD [OF snoc.prems(5)]) (simp_all add: cs)
  then have "prev b = prev c" by (rule content_prev)
  with snoc.prems(1,2) have "head_from h bs = head_from h cs'"
    by (simp add: cs verifies_snoc)
  moreover have "inj_on digest (content ` (set bs \<union> set cs'))"
    using snoc.prems(5) by (rule inj_on_subset) (auto simp: cs)
  ultimately have "map content bs = map content cs' \<and> map cur bs = map cur cs'"
    using snoc.prems(1-3) by (intro snoc.IH) (auto simp: cs verifies_snoc)
  with same \<open>cur b = cur c\<close> show ?case by (simp add: cs)
qed

end

text \<open>
  With the position written into every block and checked, the length need not be known: the
  head of a non-empty chain also commits to how long the chain is.
\<close>

locale numbered_mac_chain = mac_chain +
  assumes at_index_content: "at_index i b \<Longrightarrow> at_index j b' \<Longrightarrow> content b = content b' \<Longrightarrow> i = j"
begin

lemma head_commits_length:
  assumes "verifies i h bs" "verifies i h cs" "bs \<noteq> []" "cs \<noteq> []"
    and "head_from h bs = head_from h cs"
    and "inj_on digest (content ` (set bs \<union> set cs))"
  shows "map content bs = map content cs \<and> map cur bs = map cur cs"
proof -
  obtain bs' b where bs: "bs = bs' @ [b]" using assms(3) by (cases bs rule: rev_cases) auto
  obtain cs' c where cs: "cs = cs' @ [c]" using assms(4) by (cases cs rule: rev_cases) auto
  note eqs = bs cs
  have "digest (content b) = digest (content c)"
    using assms(1,2,5) by (simp add: eqs verifies_snoc)
  then have "content b = content c"
    by (rule inj_onD [OF assms(6)]) (simp_all add: eqs)
  moreover have "at_index (i + length bs') b" "at_index (i + length cs') c"
    using assms(1,2) by (simp_all add: eqs verifies_snoc)
  ultimately have "i + length bs' = i + length cs'" by (metis at_index_content)
  then have "length bs = length cs" by (simp add: eqs)
  then show ?thesis
    using assms by (intro head_commits)
qed

end

end
