(* ===== verification/Hash_Chain.thy ===== *)
theory Hash_Chain
  imports Ledger Mac_Chain
begin

text \<open>
  \<^verbatim>\<open>src/domain/ledger/hash_chain.py\<close>: the tenant's append-only chain of ledger blocks. The keyed
  digest \<open>hmac.digest(key, payload, "sha256")\<close> is the parameter \<open>mac\<close>, a function from key and
  payload to the digest's bytes. \<open>_ENCODE_CACHE\<close> is a map threaded through \<open>append_transaction\<close>.
\<close>

section \<open>Data\<close>

definition GENESIS_PREVIOUS_HASH :: string where
  "GENESIS_PREVIOUS_HASH = replicate 32 (CHR ''0'')"

definition DEBIT_BYTES :: string where "DEBIT_BYTES = ''DEBIT''"
definition CREDIT_BYTES :: string where "CREDIT_BYTES = ''CREDIT''"

type_synonym encode_cache = "string \<rightharpoonup> string"
type_synonym mac = "string \<Rightarrow> string \<Rightarrow> string"

record leg_payload =
  lg_acct :: string
  lg_type :: string
  lg_amt :: int

record ledger_block =
  lb_sequence_number :: int
  lb_tenant_id :: string
  lb_transaction_id :: string
  lb_description :: string
  lb_legs_payload :: "leg_payload list"
  lb_previous_hash :: string
  lb_current_hash :: string
  lb_timestamp :: string

record ledger_chain =
  lc_tenant_id :: string
  lc_secret_key :: string
  lc_blocks :: "ledger_block list"

datatype chain_error =
    CrossTenantTransaction string string
  | BatchRejected ledger_error
  | ChainBreak int string string
  | TamperDetected int string string string

section \<open>Canonical bytes\<close>

text \<open>A leg reaches the formatter as a \<open>dict\<close> of a stored block or as a \<open>PostingLeg\<close>.\<close>

datatype any_leg = DictLeg leg_payload | ObjLeg posting_leg

fun entry_type_value :: "entry_type \<Rightarrow> string" where
  "entry_type_value DEBIT = ''DEBIT''"
| "entry_type_value CREDIT = ''CREDIT''"

definition type_bytes :: "string \<Rightarrow> string" where
  "type_bytes t =
     (if t = ''DEBIT'' then DEBIT_BYTES
      else if t = ''CREDIT'' then CREDIT_BYTES
      else utf8 t)"

definition leg_part :: "string \<Rightarrow> string \<Rightarrow> int \<Rightarrow> string" where
  "leg_part acct type_b amt = acct @ '':'' @ type_b @ '':'' @ show_int amt"

fun canonical_leg :: "any_leg \<Rightarrow> string" where
  "canonical_leg (DictLeg d) = leg_part (utf8 (lg_acct d)) (type_bytes (lg_type d)) (lg_amt d)"
| "canonical_leg (ObjLeg l) =
     leg_part (utf8 (pl_account_id l)) (type_bytes (entry_type_value (pl_entry_type l)))
       (pl_amount_scaled l)"

definition payload_format ::
  "int \<Rightarrow> string \<Rightarrow> string \<Rightarrow> string \<Rightarrow> string \<Rightarrow> string \<Rightarrow> string \<Rightarrow> string" where
  "payload_format seq tenant_b tx_b desc_b prev ts_b legs_b =
     show_int seq @ ''|'' @ tenant_b @ ''|'' @ tx_b @ ''|'' @ desc_b @ ''|'' @ prev @ ''|'' @
     ts_b @ ''|'' @ legs_b"

definition compute_canonical_bytes ::
  "int \<Rightarrow> string \<Rightarrow> string \<Rightarrow> string \<Rightarrow> string \<Rightarrow> string \<Rightarrow> any_leg list \<Rightarrow> string" where
  "compute_canonical_bytes seq tenant_id tx_id description previous_hash timestamp legs =
     payload_format seq (utf8 tenant_id) (utf8 tx_id) (utf8 description) previous_hash
       (utf8 timestamp) (join '';'' (map canonical_leg legs))"

definition to_canonical_bytes :: "ledger_block \<Rightarrow> string" where
  "to_canonical_bytes b =
     compute_canonical_bytes (lb_sequence_number b) (lb_tenant_id b) (lb_transaction_id b)
       (lb_description b) (lb_previous_hash b) (lb_timestamp b)
       (map DictLeg (lb_legs_payload b))"

section \<open>Appending\<close>

definition get_bytes :: "string \<Rightarrow> encode_cache \<Rightarrow> string \<times> encode_cache" where
  "get_bytes s cache =
     (case cache s of
        None \<Rightarrow> (utf8 s, cache(s \<mapsto> utf8 s))
      | Some b \<Rightarrow> (b, cache))"

text \<open>The loop over the legs, which builds the byte parts and the stored dictionaries.\<close>

fun serialize_legs ::
  "posting_leg list \<Rightarrow> encode_cache \<Rightarrow> string list \<times> leg_payload list \<times> encode_cache" where
  "serialize_legs [] cache = ([], [], cache)"
| "serialize_legs (leg # legs) cache =
     (let type_raw = entry_type_value (pl_entry_type leg);
          (acct_b, cache1) = get_bytes (pl_account_id leg) cache;
          (type_b, cache2) =
            (if type_raw = ''DEBIT'' then (DEBIT_BYTES, cache1)
             else if type_raw = ''CREDIT'' then (CREDIT_BYTES, cache1)
             else get_bytes type_raw cache1);
          (parts, dicts, cache3) = serialize_legs legs cache2
      in (leg_part acct_b type_b (pl_amount_scaled leg) # parts,
          \<lparr>lg_acct = pl_account_id leg, lg_type = type_raw, lg_amt = pl_amount_scaled leg\<rparr> # dicts,
          cache3))"

definition head_hash :: "ledger_block list \<Rightarrow> string" where
  "head_hash bs = (if bs = [] then GENESIS_PREVIOUS_HASH else lb_current_hash (last bs))"

definition new_chain :: "string \<Rightarrow> string \<Rightarrow> ledger_chain" where
  "new_chain tenant key = \<lparr>lc_tenant_id = tenant, lc_secret_key = key, lc_blocks = []\<rparr>"

definition compute_hmac :: "mac \<Rightarrow> ledger_chain \<Rightarrow> string \<Rightarrow> string" where
  "compute_hmac mac ch payload = mac (lc_secret_key ch) payload"

definition append_transaction ::
  "mac \<Rightarrow> ledger_chain \<Rightarrow> encode_cache \<Rightarrow> transaction_batch \<Rightarrow>
   (chain_error + ledger_block) \<times> ledger_chain \<times> encode_cache" where
  "append_transaction mac ch cache tx =
     (if tb_tenant_id tx \<noteq> lc_tenant_id ch
      then (Inl (CrossTenantTransaction (lc_tenant_id ch) (tb_tenant_id tx)), ch, cache)
      else case validate_balance tx of
        Inl e \<Rightarrow> (Inl (BatchRejected e), ch, cache)
      | Inr _ \<Rightarrow>
        (let previous_hash = head_hash (lc_blocks ch);
             seq_num = int (length (lc_blocks ch)) + 1;
             (tenant_b, c1) = get_bytes (tb_tenant_id tx) cache;
             (tx_b, c2) = get_bytes (tb_transaction_id tx) c1;
             (desc_b, c3) = get_bytes (tb_description tx) c2;
             (ts_b, c4) = get_bytes (tb_timestamp tx) c3;
             (parts, dicts, c5) = serialize_legs (tb_legs tx) c4;
             payload = payload_format seq_num tenant_b tx_b desc_b previous_hash ts_b
                         (join '';'' parts);
             block = \<lparr>lb_sequence_number = seq_num, lb_tenant_id = tb_tenant_id tx,
                      lb_transaction_id = tb_transaction_id tx,
                      lb_description = tb_description tx, lb_legs_payload = dicts,
                      lb_previous_hash = previous_hash,
                      lb_current_hash = mac (lc_secret_key ch) payload,
                      lb_timestamp = tb_timestamp tx\<rparr>
         in (Inr block, ch\<lparr>lc_blocks := lc_blocks ch @ [block]\<rparr>, c5)))"

section \<open>Verifying\<close>

text \<open>\<open>h.hex()[:8]\<close> shows the first four bytes.\<close>

definition hex8 :: "string \<Rightarrow> string" where
  "hex8 h = take 4 h"

fun verify_blocks :: "mac \<Rightarrow> ledger_chain \<Rightarrow> string \<Rightarrow> ledger_block list \<Rightarrow> chain_error + bool" where
  "verify_blocks mac ch expected [] = Inr True"
| "verify_blocks mac ch expected (b # bs) =
     (if lb_previous_hash b \<noteq> expected
      then Inl (ChainBreak (lb_sequence_number b) (hex8 expected) (hex8 (lb_previous_hash b)))
      else let computed = compute_hmac mac ch (to_canonical_bytes b)
           in if computed \<noteq> lb_current_hash b
              then Inl (TamperDetected (lb_sequence_number b) (lb_transaction_id b)
                          (hex8 computed) (hex8 (lb_current_hash b)))
              else verify_blocks mac ch (lb_current_hash b) bs)"

definition verify_integrity :: "mac \<Rightarrow> ledger_chain \<Rightarrow> chain_error + bool" where
  "verify_integrity mac ch = verify_blocks mac ch GENESIS_PREVIOUS_HASH (lc_blocks ch)"

section \<open>The encode cache and the inlined payload\<close>

definition cache_ok :: "encode_cache \<Rightarrow> bool" where
  "cache_ok cache \<longleftrightarrow> (\<forall>s b. cache s = Some b \<longrightarrow> b = utf8 s)"

lemma cache_ok_empty [simp]: "cache_ok Map.empty"
  by (simp add: cache_ok_def)

lemma get_bytes_utf8:
  assumes "cache_ok cache"
  obtains c where "get_bytes s cache = (utf8 s, c)" "cache_ok c"
  using assms by (cases "cache s") (auto simp: get_bytes_def cache_ok_def)

definition leg_dict :: "posting_leg \<Rightarrow> leg_payload" where
  "leg_dict l = \<lparr>lg_acct = pl_account_id l, lg_type = entry_type_value (pl_entry_type l),
                lg_amt = pl_amount_scaled l\<rparr>"

lemma canonical_leg_dict [simp]: "canonical_leg (DictLeg (leg_dict l)) = canonical_leg (ObjLeg l)"
  by (simp add: leg_dict_def)

lemma serialize_legs_eq:
  assumes "cache_ok cache"
  obtains c where
    "serialize_legs legs cache = (map (\<lambda>l. canonical_leg (ObjLeg l)) legs, map leg_dict legs, c)"
    "cache_ok c"
  using assms
proof (induction legs arbitrary: cache thesis)
  case Nil
  then show ?case by simp
next
  case (Cons l legs)
  obtain c1 where c1: "get_bytes (pl_account_id l) cache = (utf8 (pl_account_id l), c1)" "cache_ok c1"
    using Cons.prems(2) by (rule get_bytes_utf8)
  obtain c2 where "serialize_legs legs c1 =
      (map (\<lambda>l. canonical_leg (ObjLeg l)) legs, map leg_dict legs, c2)" "cache_ok c2"
    using c1(2) by (rule Cons.IH [rotated])
  with c1 show ?case
    by (intro Cons.prems(1) [of c2]; cases "pl_entry_type l")
      (simp_all add: leg_dict_def type_bytes_def Let_def)
qed

text \<open>The block the un-inlined code would build: its hash is the digest of \<open>to_canonical_bytes\<close>.\<close>

definition unsealed_block :: "ledger_chain \<Rightarrow> transaction_batch \<Rightarrow> ledger_block" where
  "unsealed_block ch tx =
     \<lparr>lb_sequence_number = int (length (lc_blocks ch)) + 1, lb_tenant_id = tb_tenant_id tx,
      lb_transaction_id = tb_transaction_id tx, lb_description = tb_description tx,
      lb_legs_payload = map leg_dict (tb_legs tx), lb_previous_hash = head_hash (lc_blocks ch),
      lb_current_hash = [], lb_timestamp = tb_timestamp tx\<rparr>"

definition sealed_block :: "mac \<Rightarrow> ledger_chain \<Rightarrow> transaction_batch \<Rightarrow> ledger_block" where
  "sealed_block mac ch tx =
     (let b = unsealed_block ch tx
      in b\<lparr>lb_current_hash := compute_hmac mac ch (to_canonical_bytes b)\<rparr>)"

lemma to_canonical_bytes_current_hash [simp]:
  "to_canonical_bytes (b\<lparr>lb_current_hash := h\<rparr>) = to_canonical_bytes b"
  by (simp add: to_canonical_bytes_def)

lemma append_accepted:
  assumes "cache_ok cache" "tb_tenant_id tx = lc_tenant_id ch" "validate_balance tx = Inr True"
  obtains c where "append_transaction mac ch cache tx =
      (Inr (sealed_block mac ch tx),
       ch\<lparr>lc_blocks := lc_blocks ch @ [sealed_block mac ch tx]\<rparr>, c)" "cache_ok c"
proof -
  obtain c1 where c1: "get_bytes (tb_tenant_id tx) cache = (utf8 (tb_tenant_id tx), c1)" "cache_ok c1"
    using assms(1) by (rule get_bytes_utf8)
  obtain c2 where c2: "get_bytes (tb_transaction_id tx) c1 = (utf8 (tb_transaction_id tx), c2)"
    "cache_ok c2" using c1(2) by (rule get_bytes_utf8)
  obtain c3 where c3: "get_bytes (tb_description tx) c2 = (utf8 (tb_description tx), c3)"
    "cache_ok c3" using c2(2) by (rule get_bytes_utf8)
  obtain c4 where c4: "get_bytes (tb_timestamp tx) c3 = (utf8 (tb_timestamp tx), c4)" "cache_ok c4"
    using c3(2) by (rule get_bytes_utf8)
  obtain c5 where c5: "serialize_legs (tb_legs tx) c4 =
      (map (\<lambda>l. canonical_leg (ObjLeg l)) (tb_legs tx), map leg_dict (tb_legs tx), c5)" "cache_ok c5"
    using c4(2) by (rule serialize_legs_eq)
  show thesis
  proof (rule that)
    show "append_transaction mac ch cache tx =
      (Inr (sealed_block mac ch tx),
       ch\<lparr>lc_blocks := lc_blocks ch @ [sealed_block mac ch tx]\<rparr>, c5)"
      unfolding append_transaction_def
      using assms(2,3) c1(1) c2(1) c3(1) c4(1) c5(1)
      by (simp add: sealed_block_def unsealed_block_def to_canonical_bytes_def
          compute_canonical_bytes_def compute_hmac_def comp_def Let_def leg_dict_def)
  qed (rule c5(2))
qed

lemma append_refused:
  assumes "\<not> (tb_tenant_id tx = lc_tenant_id ch \<and> validate_balance tx = Inr True)"
  obtains e where "append_transaction mac ch cache tx = (Inl e, ch, cache)"
proof (cases "tb_tenant_id tx = lc_tenant_id ch")
  case True
  with assms obtain e where "validate_balance tx = Inl e" using validate_balance_cases [of tx] by auto
  with True show thesis by (intro that) (simp add: append_transaction_def)
next
  case False
  then show thesis by (intro that) (simp add: append_transaction_def)
qed

section \<open>Canonical bytes of delimiter-free blocks are injective\<close>

definition unsigned :: "ledger_block \<Rightarrow> ledger_block" where
  "unsigned b = b\<lparr>lb_current_hash := []\<rparr>"

definition leg_free :: "leg_payload \<Rightarrow> bool" where
  "leg_free l \<longleftrightarrow>
     CHR '':'' \<notin> set (lg_acct l) \<and> CHR '';'' \<notin> set (lg_acct l) \<and>
     CHR '':'' \<notin> set (lg_type l) \<and> CHR '';'' \<notin> set (lg_type l)"

definition delimiter_free :: "ledger_block \<Rightarrow> bool" where
  "delimiter_free b \<longleftrightarrow>
     CHR ''|'' \<notin> set (lb_tenant_id b) \<and> CHR ''|'' \<notin> set (lb_transaction_id b) \<and>
     CHR ''|'' \<notin> set (lb_description b) \<and> CHR ''|'' \<notin> set (lb_timestamp b) \<and>
     (\<forall>l \<in> set (lb_legs_payload b). leg_free l)"

lemma delimiters_ascii [simp]:
  "char_code (CHR ''|'') < 128" "char_code (CHR '':'') < 128" "char_code (CHR '';'') < 128"
  "\<not> is_digit (CHR ''|'')" "\<not> is_digit (CHR '':'')" "\<not> is_digit (CHR '';'')"
  by (simp_all add: char_code_def is_digit_def)

lemma delimiters_not_in_show_int [simp]:
  "CHR ''|'' \<notin> set (show_int i)" "CHR '':'' \<notin> set (show_int i)" "CHR '';'' \<notin> set (show_int i)"
  by (simp_all add: not_in_show_int)

lemma type_bytes_utf8: "type_bytes t = utf8 t"
  by (simp add: type_bytes_def DEBIT_BYTES_def CREDIT_BYTES_def utf8_char_def char_code_def)

lemma canonical_leg_inject:
  assumes "leg_free l" "leg_free m"
  shows "canonical_leg (DictLeg l) = canonical_leg (DictLeg m) \<longleftrightarrow> l = m"
proof -
  have "utf8 (lg_acct l) @ CHR '':'' # utf8 (lg_type l) @ CHR '':'' # show_int (lg_amt l) =
      utf8 (lg_acct m) @ CHR '':'' # utf8 (lg_type m) @ CHR '':'' # show_int (lg_amt m) \<longleftrightarrow>
      lg_acct l = lg_acct m \<and> lg_type l = lg_type m \<and> lg_amt l = lg_amt m"
    using assms by (simp add: leg_free_def append_sep_eq utf8_ascii_mem)
  then show ?thesis
    by (simp add: leg_part_def type_bytes_utf8 leg_payload.equality) (auto intro: leg_payload.equality)
qed

lemma canonical_leg_clean:
  "leg_free l \<Longrightarrow> CHR '';'' \<notin> set (canonical_leg (DictLeg l)) \<and> canonical_leg (DictLeg l) \<noteq> []"
  by (simp add: leg_free_def leg_part_def type_bytes_utf8 utf8_ascii_mem)

lemma canonical_legs_inject:
  assumes "\<forall>l \<in> set ls. leg_free l" "\<forall>m \<in> set ms. leg_free m"
  shows "join '';'' (map (\<lambda>l. canonical_leg (DictLeg l)) ls) =
      join '';'' (map (\<lambda>l. canonical_leg (DictLeg l)) ms) \<longleftrightarrow> ls = ms"
proof -
  have "join '';'' (map (\<lambda>l. canonical_leg (DictLeg l)) ls) =
      join '';'' (map (\<lambda>l. canonical_leg (DictLeg l)) ms) \<longleftrightarrow>
      map (\<lambda>l. canonical_leg (DictLeg l)) ls = map (\<lambda>l. canonical_leg (DictLeg l)) ms"
    using assms by (intro join_inject) (auto dest: canonical_leg_clean simp del: canonical_leg.simps)
  also have "\<dots> \<longleftrightarrow> ls = ms"
    using assms canonical_leg_inject
    by (intro inj_on_map_eq_map inj_onI) (auto simp del: canonical_leg.simps)
  finally show ?thesis .
qed

lemma canonical_inject:
  assumes "delimiter_free b" "delimiter_free c"
    and "length (lb_previous_hash b) = length (lb_previous_hash c)"
  shows "to_canonical_bytes b = to_canonical_bytes c \<longleftrightarrow> unsigned b = unsigned c"
proof
  assume "to_canonical_bytes b = to_canonical_bytes c"
  then have "lb_sequence_number b = lb_sequence_number c \<and> lb_tenant_id b = lb_tenant_id c \<and>
      lb_transaction_id b = lb_transaction_id c \<and> lb_description b = lb_description c \<and>
      lb_previous_hash b = lb_previous_hash c \<and> lb_timestamp b = lb_timestamp c \<and>
      join '';'' (map (\<lambda>l. canonical_leg (DictLeg l)) (lb_legs_payload b)) =
      join '';'' (map (\<lambda>l. canonical_leg (DictLeg l)) (lb_legs_payload c))"
    using assms
    by (simp add: to_canonical_bytes_def compute_canonical_bytes_def payload_format_def
        delimiter_free_def append_sep_eq utf8_ascii_mem comp_def del: canonical_leg.simps)
  moreover have "\<forall>l \<in> set (lb_legs_payload b). leg_free l" "\<forall>l \<in> set (lb_legs_payload c). leg_free l"
    using assms(1,2) by (simp_all add: delimiter_free_def)
  moreover from calculation have "lb_legs_payload b = lb_legs_payload c"
    by (simp add: canonical_legs_inject del: canonical_leg.simps)
  ultimately show "unsigned b = unsigned c"
    unfolding unsigned_def by (intro ledger_block.equality) simp_all
next
  assume "unsigned b = unsigned c"
  then show "to_canonical_bytes b = to_canonical_bytes c"
    unfolding unsigned_def by (metis to_canonical_bytes_current_hash)
qed

section \<open>The chain contract\<close>

lemma verify_blocks_Cons:
  "verify_blocks mac ch h (b # bs) = Inr True \<longleftrightarrow>
     lb_previous_hash b = h \<and> mac (lc_secret_key ch) (to_canonical_bytes b) = lb_current_hash b \<and>
     verify_blocks mac ch (lb_current_hash b) bs = Inr True"
  by (simp add: compute_hmac_def Let_def)

interpretation ledger_mac: mac_chain unsigned "\<lambda>c. mac (lc_secret_key ch) (to_canonical_bytes c)"
  lb_previous_hash lb_current_hash "\<lambda>_ _. True"
  "\<lambda>_ h bs. verify_blocks mac ch h bs = Inr True" for mac ch
proof unfold_locales
  show "unsigned b = unsigned b' \<Longrightarrow> lb_previous_hash b = lb_previous_hash b'" for b b'
    unfolding unsigned_def by (drule arg_cong [where f = lb_previous_hash]) simp
qed (simp_all add: verify_blocks_Cons unsigned_def del: verify_blocks.simps(2))

lemma head_hash_head_from: "head_hash bs = ledger_mac.head_from GENESIS_PREVIOUS_HASH bs"
  by (simp add: head_hash_def ledger_mac.head_from_def)

lemma to_canonical_bytes_unsigned [simp]: "to_canonical_bytes (unsigned b) = to_canonical_bytes b"
  by (simp add: unsigned_def)

lemma verify_blocks_key:
  "lc_secret_key ch = lc_secret_key ch' \<Longrightarrow> verify_blocks mac ch h bs = verify_blocks mac ch' h bs"
  by (induction bs arbitrary: h) (simp_all add: compute_hmac_def Let_def)

lemma verify_blocks_lc_blocks [simp]:
  "verify_blocks mac (ch\<lparr>lc_blocks := xs\<rparr>) h bs = verify_blocks mac ch h bs"
  by (rule verify_blocks_key) simp

lemma sealed_block_fields [simp]:
  "lb_previous_hash (sealed_block mac ch tx) = head_hash (lc_blocks ch)"
  "lb_current_hash (sealed_block mac ch tx) =
     mac (lc_secret_key ch) (to_canonical_bytes (sealed_block mac ch tx))"
  "lb_sequence_number (sealed_block mac ch tx) = int (length (lc_blocks ch)) + 1"
  "lb_tenant_id (sealed_block mac ch tx) = tb_tenant_id tx"
  "lb_transaction_id (sealed_block mac ch tx) = tb_transaction_id tx"
  "lb_legs_payload (sealed_block mac ch tx) = map leg_dict (tb_legs tx)"
  by (simp_all add: sealed_block_def Let_def compute_hmac_def) (simp_all add: unsealed_block_def)

lemma sealed_block_verifies:
  "verify_integrity mac ch = Inr True \<Longrightarrow>
   verify_integrity mac (ch\<lparr>lc_blocks := lc_blocks ch @ [sealed_block mac ch tx]\<rparr>) = Inr True"
  unfolding verify_integrity_def
  by (simp add: ledger_mac.verifies_snoc head_hash_head_from del: verify_blocks.simps)

section \<open>Runs of appends\<close>

fun append_all :: "mac \<Rightarrow> ledger_chain \<Rightarrow> encode_cache \<Rightarrow> transaction_batch list \<Rightarrow>
    ledger_chain \<times> encode_cache" where
  "append_all mac ch cache [] = (ch, cache)"
| "append_all mac ch cache (tx # txs) =
     (let (_, ch', cache') = append_transaction mac ch cache tx in append_all mac ch' cache' txs)"

definition admissible :: "string \<Rightarrow> transaction_batch \<Rightarrow> bool" where
  "admissible tenant tx \<longleftrightarrow> tb_tenant_id tx = tenant \<and> validate_balance tx = Inr True"

definition chain_records :: "mac \<Rightarrow> ledger_chain \<Rightarrow> transaction_batch list \<Rightarrow> bool" where
  "chain_records mac ch txs \<longleftrightarrow>
     verify_integrity mac ch = Inr True \<and>
     map lb_sequence_number (lc_blocks ch) = map (\<lambda>n. int n + 1) [0..<length txs] \<and>
     map lb_tenant_id (lc_blocks ch) = map tb_tenant_id txs \<and>
     map lb_transaction_id (lc_blocks ch) = map tb_transaction_id txs \<and>
     map lb_legs_payload (lc_blocks ch) = map (\<lambda>tx. map leg_dict (tb_legs tx)) txs"

lemma chain_records_snoc:
  assumes "chain_records mac ch txs"
  shows "chain_records mac (ch\<lparr>lc_blocks := lc_blocks ch @ [sealed_block mac ch tx]\<rparr>) (txs @ [tx])"
proof -
  have "length (lc_blocks ch) = length txs"
    using assms unfolding chain_records_def by (metis length_map)
  with assms show ?thesis
    by (simp add: chain_records_def sealed_block_verifies)
qed

lemma append_all_records:
  assumes "cache_ok cache" "chain_records mac ch done"
  shows "chain_records mac (fst (append_all mac ch cache txs))
           (done @ filter (admissible (lc_tenant_id ch)) txs)"
  using assms
proof (induction txs arbitrary: ch cache "done")
  case Nil
  then show ?case by simp
next
  case (Cons tx txs)
  show ?case
  proof (cases "admissible (lc_tenant_id ch) tx")
    case True
    then obtain c where c: "append_transaction mac ch cache tx =
      (Inr (sealed_block mac ch tx),
       ch\<lparr>lc_blocks := lc_blocks ch @ [sealed_block mac ch tx]\<rparr>, c)" "cache_ok c"
      using append_accepted [OF Cons.prems(1), of tx ch mac] by (auto simp: admissible_def)
    from Cons.IH [OF c(2) chain_records_snoc [OF Cons.prems(2), of tx]] c(1) True
    show ?thesis by simp
  next
    case False
    then obtain e where "append_transaction mac ch cache tx = (Inl e, ch, cache)"
      unfolding admissible_def by (rule append_refused)
    with Cons False show ?thesis by simp
  qed
qed

text \<open>C6. Feeding any sequence of batches to a fresh chain leaves a chain that verifies and that
  records exactly the balanced batches of its own tenant, in their order, under consecutive
  sequence numbers from 1; the others change nothing. In particular the payload that
  \<open>append_transaction\<close> builds inline, through the encode cache, is the one that
  \<open>to_canonical_bytes\<close> recomputes.\<close>

theorem appends_record_and_verify:
  "chain_records mac (fst (append_all mac (new_chain tenant key) Map.empty txs))
     (filter (admissible tenant) txs)"
proof -
  have "chain_records mac (new_chain tenant key) []"
    by (simp add: chain_records_def new_chain_def verify_integrity_def)
  then show ?thesis
    using append_all_records [of Map.empty mac "new_chain tenant key" "[]" txs]
    by (simp add: new_chain_def)
qed

section \<open>Tampering\<close>

lemma verify_blocks_append:
  "verify_blocks mac ch h bs = Inr True \<Longrightarrow>
   verify_blocks mac ch h (bs @ cs) = verify_blocks mac ch (ledger_mac.head_from h bs) cs"
  by (induction bs arbitrary: h)
    (auto simp: ledger_mac.head_from_Cons verify_blocks_Cons compute_hmac_def Let_def
      split: if_splits)

lemma verified_previous_length:
  assumes "\<forall>p. length (mac (lc_secret_key ch) p) = 32" "length h = 32"
    and "verify_blocks mac ch h bs = Inr True" "b \<in> set bs"
  shows "length (lb_previous_hash b) = 32"
  using assms
proof (induction bs arbitrary: h)
  case (Cons c cs)
  have c: "lb_previous_hash c = h" "mac (lc_secret_key ch) (to_canonical_bytes c) = lb_current_hash c"
    "verify_blocks mac ch (lb_current_hash c) cs = Inr True"
    using Cons.prems(3) by (simp_all only: verify_blocks_Cons)
  then have "length (lb_current_hash c) = 32" using Cons.prems(1) by metis
  with c Cons show ?case by auto
qed simp

lemma unsigned_cur_inject:
  "unsigned b = unsigned c \<Longrightarrow> lb_current_hash b = lb_current_hash c \<Longrightarrow> b = c"
  by (cases b; cases c) (simp add: unsigned_def)

lemma payload_digest_inj:
  assumes "\<forall>b \<in> B. delimiter_free b" "\<forall>b \<in> B. length (lb_previous_hash b) = 32"
    and "inj_on (mac k) (to_canonical_bytes ` B)"
  shows "inj_on (\<lambda>c. mac k (to_canonical_bytes c)) (unsigned ` B)"
proof (rule inj_onI)
  fix c d
  assume "c \<in> unsigned ` B" "d \<in> unsigned ` B"
    and eq: "mac k (to_canonical_bytes c) = mac k (to_canonical_bytes d)"
  then obtain b b' where b: "b \<in> B" "b' \<in> B" "c = unsigned b" "d = unsigned b'" by blast
  with eq have "to_canonical_bytes b = to_canonical_bytes b'"
    by (intro inj_onD [OF assms(3)]) simp_all
  with b assms(1,2) show "c = d" using canonical_inject [of b b'] by simp
qed

lemma replaced_same_payload:
  "verify_blocks mac ch h bs = Inr True \<Longrightarrow> n < length bs \<Longrightarrow>
   to_canonical_bytes c = to_canonical_bytes (bs ! n) \<Longrightarrow>
   lb_previous_hash c = lb_previous_hash (bs ! n) \<Longrightarrow>
   lb_current_hash c = lb_current_hash (bs ! n) \<Longrightarrow>
   verify_blocks mac ch h (bs[n := c]) = Inr True"
proof (induction bs arbitrary: h n)
  case (Cons b bs)
  then show ?case by (cases n) (simp_all add: verify_blocks_Cons del: verify_blocks.simps)
qed simp

lemma bar_utf8 [simp]: "utf8_char (CHR ''|'') = ''|''" "utf8 (s @ t) = utf8 s @ utf8 t"
  by (simp_all add: utf8_char_def utf8_def)

lemma unsigned_cur_maps:
  "map unsigned bs = map unsigned cs \<Longrightarrow> map lb_current_hash bs = map lb_current_hash cs \<Longrightarrow> bs = cs"
proof (induction bs arbitrary: cs)
  case (Cons b bs)
  then show ?case by (cases cs) (auto intro: unsigned_cur_inject)
qed simp

text \<open>Rewriting the contents of a stored block while keeping its two hashes is reported at that
  block, with the block's sequence number, as long as the keyed digest of the new contents differs
  from the old one.\<close>

theorem rewritten_block_reported:
  assumes "verify_integrity mac ch = Inr True" "n < length (lc_blocks ch)"
    and "lb_previous_hash b = lb_previous_hash (lc_blocks ch ! n)"
    and "lb_current_hash b = lb_current_hash (lc_blocks ch ! n)"
    and "mac (lc_secret_key ch) (to_canonical_bytes b) \<noteq>
         mac (lc_secret_key ch) (to_canonical_bytes (lc_blocks ch ! n))"
  shows "verify_integrity mac (ch\<lparr>lc_blocks := (lc_blocks ch)[n := b]\<rparr>) =
    Inl (TamperDetected (lb_sequence_number b) (lb_transaction_id b)
      (hex8 (mac (lc_secret_key ch) (to_canonical_bytes b)))
      (hex8 (lb_current_hash (lc_blocks ch ! n))))"
proof -
  let ?bs = "lc_blocks ch" and ?h = GENESIS_PREVIOUS_HASH
  have ok: "verify_blocks mac ch ?h ?bs = Inr True"
    using assms(1) by (simp add: verify_integrity_def)
  have "verify_blocks mac ch ?h (take n ?bs) = Inr True"
    by (rule ledger_mac.verifies_prefix [OF ok])
  then have "verify_blocks mac ch ?h (?bs[n := b]) =
      verify_blocks mac ch (ledger_mac.head_from ?h (take n ?bs)) (b # drop (Suc n) ?bs)"
    using assms(2) by (simp only: upd_conv_take_nth_drop verify_blocks_append)
  moreover have "lb_previous_hash b = ledger_mac.head_from ?h (take n ?bs)"
    using ledger_mac.verifies_nth(3) [OF ok assms(2)] assms(3) by simp
  moreover have "mac (lc_secret_key ch) (to_canonical_bytes (?bs ! n)) = lb_current_hash (?bs ! n)"
    using ledger_mac.verifies_nth(2) [OF ok assms(2)] by simp
  ultimately show ?thesis
    using assms(4,5) by (simp add: verify_integrity_def compute_hmac_def)
qed

text \<open>C15. The newest hash commits to the whole ledger: two chains under one key that both verify,
  with equally many blocks and the same head hash, are equal block by block, provided that no
  field contains a delimiter, that the digest has 32 bytes, and that it does not collide on the
  payloads of the two chains.\<close>

theorem head_hash_commits:
  assumes "verify_integrity mac ch = Inr True" "verify_integrity mac ch' = Inr True"
    and "lc_secret_key ch' = lc_secret_key ch" "length (lc_blocks ch) = length (lc_blocks ch')"
    and "head_hash (lc_blocks ch) = head_hash (lc_blocks ch')"
    and "\<forall>b \<in> set (lc_blocks ch) \<union> set (lc_blocks ch'). delimiter_free b"
    and "\<forall>p. length (mac (lc_secret_key ch) p) = 32"
    and "inj_on (mac (lc_secret_key ch))
          (to_canonical_bytes ` (set (lc_blocks ch) \<union> set (lc_blocks ch')))"
  shows "lc_blocks ch = lc_blocks ch'"
proof -
  let ?h = GENESIS_PREVIOUS_HASH
  have v: "verify_blocks mac ch ?h (lc_blocks ch) = Inr True"
    "verify_blocks mac ch ?h (lc_blocks ch') = Inr True"
    using assms(1,2) verify_blocks_key [OF assms(3)] by (simp_all add: verify_integrity_def)
  have "\<forall>b \<in> set (lc_blocks ch) \<union> set (lc_blocks ch'). length (lb_previous_hash b) = 32"
    using verified_previous_length [OF assms(7) _ v(1)] verified_previous_length [OF assms(7) _ v(2)]
    by (auto simp: GENESIS_PREVIOUS_HASH_def)
  then have "inj_on (\<lambda>c. mac (lc_secret_key ch) (to_canonical_bytes c))
      (unsigned ` (set (lc_blocks ch) \<union> set (lc_blocks ch')))"
    using assms(6,8) by (intro payload_digest_inj) auto
  then have "map unsigned (lc_blocks ch) = map unsigned (lc_blocks ch') \<and>
      map lb_current_hash (lc_blocks ch) = map lb_current_hash (lc_blocks ch')"
    using assms(4,5) v by (intro ledger_mac.head_commits) (auto simp: head_hash_head_from)
  then show ?thesis by (blast intro: unsigned_cur_maps)
qed

text \<open>A delimiter inside a field defeats the chain: when a description contains a bar, moving
  the text before it from the description into the transaction id gives another block with the
  same payload, so that the altered chain still verifies.\<close>

theorem moved_delimiter_undetected:
  assumes "verify_integrity mac ch = Inr True" "n < length (lc_blocks ch)"
    and "lb_description (lc_blocks ch ! n) = u @ ''|'' @ v"
  shows "verify_integrity mac (ch\<lparr>lc_blocks := (lc_blocks ch)[n := (lc_blocks ch ! n)
      \<lparr>lb_transaction_id := lb_transaction_id (lc_blocks ch ! n) @ ''|'' @ u,
       lb_description := v\<rparr>]\<rparr>) = Inr True"
proof -
  let ?b = "lc_blocks ch ! n"
  let ?c = "?b\<lparr>lb_transaction_id := lb_transaction_id ?b @ ''|'' @ u, lb_description := v\<rparr>"
  have ok: "verify_blocks mac ch GENESIS_PREVIOUS_HASH (lc_blocks ch) = Inr True"
    using assms(1) by (simp add: verify_integrity_def)
  have "to_canonical_bytes ?c = to_canonical_bytes ?b"
    using assms(3)
    by (simp add: to_canonical_bytes_def compute_canonical_bytes_def payload_format_def)
  then show ?thesis
    using replaced_same_payload [OF ok assms(2), of ?c] by (simp add: verify_integrity_def)
qed

section \<open>A concrete chain\<close>

text \<open>A digest for the examples: the first 32 bytes of the padded payload.\<close>

definition demo_mac :: mac where
  "demo_mac k p = take 32 (p @ replicate 32 (CHR ''0''))"

definition demo_chain :: ledger_chain where
  "demo_chain = fst (append_all demo_mac (new_chain ''acme'' ''k'') Map.empty
     [sample_batch, sample_batch\<lparr>tb_transaction_id := ''tx-2'', tb_description := ''ink|red''\<rparr>])"

definition plain_chain :: ledger_chain where
  "plain_chain = fst (append_all demo_mac (new_chain ''acme'' ''k'') Map.empty
     [sample_batch, sample_batch\<lparr>tb_transaction_id := ''tx-2''\<rparr>])"


lemma demo_chains_verify:
  "verify_integrity demo_mac demo_chain = Inr True"
  "verify_integrity demo_mac plain_chain = Inr True"
  by code_simp+

theorem rewritten_block_reported_witness:
  "verify_integrity demo_mac (demo_chain\<lparr>lc_blocks := (lc_blocks demo_chain)
     [0 := (lc_blocks demo_chain ! 0)\<lparr>lb_tenant_id := ''evil''\<rparr>]\<rparr>) =
   Inl (TamperDetected 1 ''tx-1'' ''1|ev'' ''1|ac'')"
proof -
  let ?b = "(lc_blocks demo_chain ! 0)\<lparr>lb_tenant_id := ''evil''\<rparr>"
  have "0 < length (lc_blocks demo_chain)"
    "demo_mac (lc_secret_key demo_chain) (to_canonical_bytes ?b) \<noteq>
     demo_mac (lc_secret_key demo_chain) (to_canonical_bytes (lc_blocks demo_chain ! 0))"
    "lb_sequence_number ?b = 1" "lb_transaction_id ?b = ''tx-1''"
    "hex8 (demo_mac (lc_secret_key demo_chain) (to_canonical_bytes ?b)) = ''1|ev''"
    "hex8 (lb_current_hash (lc_blocks demo_chain ! 0)) = ''1|ac''"
    by code_simp+
  then show ?thesis
    using rewritten_block_reported [OF demo_chains_verify(1), of 0 ?b] by simp
qed

theorem head_hash_commits_witness: "lc_blocks plain_chain = lc_blocks plain_chain"
proof (rule head_hash_commits [of demo_mac])
  show "\<forall>b \<in> set (lc_blocks plain_chain) \<union> set (lc_blocks plain_chain). delimiter_free b"
    by code_simp
  have ne: "demo_mac (lc_secret_key plain_chain) (to_canonical_bytes (lc_blocks plain_chain ! 0)) \<noteq>
      demo_mac (lc_secret_key plain_chain) (to_canonical_bytes (lc_blocks plain_chain ! 1))"
    by code_simp
  have "length (lc_blocks plain_chain) = 2" by code_simp
  then obtain b c where bc: "lc_blocks plain_chain = [b, c]"
    by (auto simp: length_Suc_conv numeral_2_eq_2)
  show "inj_on (demo_mac (lc_secret_key plain_chain))
     (to_canonical_bytes ` (set (lc_blocks plain_chain) \<union> set (lc_blocks plain_chain)))"
    using ne by (simp add: bc inj_on_def)
qed (simp_all add: demo_chains_verify demo_mac_def min_def)

theorem moved_delimiter_undetected_witness:
  "verify_integrity demo_mac (demo_chain\<lparr>lc_blocks := (lc_blocks demo_chain)
     [1 := (lc_blocks demo_chain ! 1)\<lparr>lb_transaction_id := ''tx-2|ink'',
        lb_description := ''red''\<rparr>]\<rparr>) = Inr True"
proof -
  have "1 < length (lc_blocks demo_chain)"
    "lb_description (lc_blocks demo_chain ! 1) = ''ink'' @ ''|'' @ ''red''"
    "lb_transaction_id (lc_blocks demo_chain ! 1) = ''tx-2''"
    by code_simp+
  then show ?thesis
    using moved_delimiter_undetected [OF demo_chains_verify(1), of 1 "''ink''" "''red''"] by simp
qed

end
