(* ===== verification/Json.thy ===== *)
theory Json
  imports Prelude
begin

text \<open>
  The part of Python's \<open>json\<close> module the components use: \<open>dumps\<close> with its two separator styles
  and \<open>sort_keys\<close>, with \<open>ensure_ascii\<close> escapes, and \<open>loads\<close>. A float is carried by its
  text, \<open>NaN\<close> and the infinities included; an escape of a code point from U+0100 is outside the character type and is refused.
\<close>

section \<open>Values\<close>

datatype json =
    JNull
  | JBool bool
  | JInt int
  | JFloat string
  | JStr string
  | JList "json list"
  | JDict "(string \<times> json) list"

datatype json_style = Spaced | Compact

fun item_sep :: "json_style \<Rightarrow> string" where
  "item_sep Spaced = '', ''"
| "item_sep Compact = '',''"

fun key_sep :: "json_style \<Rightarrow> string" where
  "key_sep Spaced = '': ''"
| "key_sep Compact = '':''"

section \<open>Printing\<close>

definition hex_digit :: "nat \<Rightarrow> char" where
  "hex_digit n = ''0123456789abcdef'' ! n"

definition escape_char :: "char \<Rightarrow> string" where
  "escape_char c =
     (if c = CHR 0x22 then [CHR 0x5C, CHR 0x22]
      else if c = CHR 0x5C then [CHR 0x5C, CHR 0x5C]
      else if c = CHR 0x0A then [CHR 0x5C, CHR ''n'']
      else if c = CHR 0x0D then [CHR 0x5C, CHR ''r'']
      else if c = CHR 0x09 then [CHR 0x5C, CHR ''t'']
      else if c = CHR 0x08 then [CHR 0x5C, CHR ''b'']
      else if c = CHR 0x0C then [CHR 0x5C, CHR ''f'']
      else if 32 \<le> char_code c \<and> char_code c \<le> 126 then [c]
      else [CHR 0x5C, CHR ''u'', CHR ''0'', CHR ''0'',
            hex_digit (char_code c div 16), hex_digit (char_code c mod 16)])"

definition escape :: "string \<Rightarrow> string" where
  "escape s = concat (map escape_char s)"

definition quote :: "string \<Rightarrow> string" where
  "quote s = CHR 0x22 # escape s @ [CHR 0x22]"

fun print_json :: "json_style \<Rightarrow> json \<Rightarrow> string" where
  "print_json st JNull = ''null''"
| "print_json st (JBool b) = (if b then ''true'' else ''false'')"
| "print_json st (JInt i) = show_int i"
| "print_json st (JFloat r) = r"
| "print_json st (JStr s) = quote s"
| "print_json st (JList xs) = ''['' @ join (item_sep st) (map (print_json st) xs) @ '']''"
| "print_json st (JDict kvs) =
     ''{'' @ join (item_sep st) (map (\<lambda>(k, v). quote k @ key_sep st @ print_json st v) kvs) @ ''}''"

fun sort_json :: "json \<Rightarrow> json" where
  "sort_json (JList xs) = JList (map sort_json xs)"
| "sort_json (JDict kvs) = JDict (sort_key fst (map (\<lambda>(k, v). (k, sort_json v)) kvs))"
| "sort_json j = j"

definition dumps :: "json_style \<Rightarrow> bool \<Rightarrow> json \<Rightarrow> string" where
  "dumps st sorting j = print_json st (if sorting then sort_json j else j)"

section \<open>Parsing\<close>

definition json_ws :: "char \<Rightarrow> bool" where
  "json_ws c = (c = CHR '' '' \<or> c = CHR 0x09 \<or> c = CHR 0x0A \<or> c = CHR 0x0D)"

definition skip_ws :: "string \<Rightarrow> string" where
  "skip_ws s = dropWhile json_ws s"

definition hex_value :: "char \<Rightarrow> nat option" where
  "hex_value c =
     (if is_digit c then Some (char_code c - 48)
      else if 97 \<le> char_code c \<and> char_code c \<le> 102 then Some (char_code c - 87)
      else if 65 \<le> char_code c \<and> char_code c \<le> 70 then Some (char_code c - 55)
      else None)"

definition unescape_short :: "char \<Rightarrow> char option" where
  "unescape_short c =
     (if c = CHR 0x22 \<or> c = CHR 0x5C \<or> c = CHR ''/'' then Some c
      else if c = CHR ''n'' then Some (CHR 0x0A)
      else if c = CHR ''r'' then Some (CHR 0x0D)
      else if c = CHR ''t'' then Some (CHR 0x09)
      else if c = CHR ''b'' then Some (CHR 0x08)
      else if c = CHR ''f'' then Some (CHR 0x0C)
      else None)"

fun unescape_hex :: "string \<Rightarrow> (char \<times> string) option" where
  "unescape_hex (a # b # c # d # s) =
     (case (hex_value a, hex_value b, hex_value c, hex_value d) of
        (Some 0, Some 0, Some i, Some j) \<Rightarrow> Some (char_of (16 * i + j), s)
      | _ \<Rightarrow> None)"
| "unescape_hex _ = None"

text \<open>One character of a string body: the end, a character with the rest, or an error.\<close>

datatype scan = ScanEnd string | ScanChar char string | ScanError

fun scan_char :: "string \<Rightarrow> scan" where
  "scan_char [] = ScanError"
| "scan_char (c # s) =
     (if c = CHR 0x22 then ScanEnd s
      else if c = CHR 0x5C then
        (case s of [] \<Rightarrow> ScanError
         | e # s' \<Rightarrow>
           (if e = CHR ''u'' then
              (case unescape_hex s' of None \<Rightarrow> ScanError | Some (d, r) \<Rightarrow> ScanChar d r)
            else case unescape_short e of None \<Rightarrow> ScanError | Some d \<Rightarrow> ScanChar d s'))
      else if char_code c < 32 then ScanError else ScanChar c s)"

lemma unescape_hex_length: "unescape_hex s = Some (d, r) \<Longrightarrow> length r < length s"
  by (induction s rule: unescape_hex.induct) (auto split: option.splits nat.splits)

lemma scan_char_length: "scan_char s = ScanChar d r \<Longrightarrow> length r < length s"
  by (cases s) (auto split: if_splits list.splits option.splits dest: unescape_hex_length)

function scan_str :: "string \<Rightarrow> (string \<times> string) option" where
  "scan_str s =
     (case scan_char s of
        ScanError \<Rightarrow> None
      | ScanEnd r \<Rightarrow> Some ([], r)
      | ScanChar d r \<Rightarrow> map_option (apfst (Cons d)) (scan_str r))"
  by auto
termination
  by (relation "measure length") (auto dest: scan_char_length)

declare scan_str.simps [simp del]

definition num_char :: "char \<Rightarrow> bool" where
  "num_char c = (is_digit c \<or> c = CHR ''-'' \<or> c = CHR ''+'' \<or> c = CHR ''.'' \<or> c = CHR ''e'' \<or> c = CHR ''E'')"

definition natural_text :: "string \<Rightarrow> bool" where
  "natural_text t = (t \<noteq> [] \<and> (\<forall>c \<in> set t. is_digit c) \<and> (hd t = CHR ''0'' \<longrightarrow> length t = 1))"

definition drop_minus :: "string \<Rightarrow> string" where
  "drop_minus t = (if t \<noteq> [] \<and> hd t = CHR ''-'' then tl t else t)"

definition digits_text :: "string \<Rightarrow> bool" where
  "digits_text t = (t \<noteq> [] \<and> (\<forall>c \<in> set t. is_digit c))"

text \<open>The two optional parts of a float: a fraction, then an exponent; one must be there.\<close>

definition exponent_text :: "string \<Rightarrow> bool" where
  "exponent_text t = (t \<noteq> [] \<and> hd t \<in> {CHR ''e'', CHR ''E''} \<and>
     (let u = tl t in digits_text (if u \<noteq> [] \<and> hd u \<in> {CHR ''-'', CHR ''+''} then tl u else u)))"

definition float_text :: "string \<Rightarrow> bool" where
  "float_text t =
     (let u = drop_minus t; n = takeWhile is_digit u; r = dropWhile is_digit u
      in natural_text n \<and>
         (if r \<noteq> [] \<and> hd r = CHR ''.'' then
            (let f = takeWhile is_digit (tl r); x = dropWhile is_digit (tl r)
             in digits_text f \<and> (x = [] \<or> exponent_text x))
          else exponent_text r))"

definition read_int :: "string \<Rightarrow> int" where
  "read_int t = (if t \<noteq> [] \<and> hd t = CHR ''-'' then - int (read_nat (tl t)) else int (read_nat t))"

definition parse_number :: "string \<Rightarrow> (json \<times> string) option" where
  "parse_number s =
     (let t = takeWhile num_char s; r = dropWhile num_char s
      in if natural_text (drop_minus t) then Some (JInt (read_int t), r)
         else if float_text t then Some (JFloat t, r)
         else if take 3 s = ''NaN'' then Some (JFloat ''NaN'', drop 3 s)
         else if take 8 s = ''Infinity'' then Some (JFloat ''Infinity'', drop 8 s)
         else if take 9 s = ''-Infinity'' then Some (JFloat ''-Infinity'', drop 9 s)
         else None)"

text \<open>The values proper, with fuel: every call spends one unit, and twice the length of the text
  is enough.\<close>

fun parse_value :: "nat \<Rightarrow> string \<Rightarrow> (json \<times> string) option"
  and parse_items :: "nat \<Rightarrow> string \<Rightarrow> (json list \<times> string) option"
  and parse_members :: "nat \<Rightarrow> string \<Rightarrow> ((string \<times> json) list \<times> string) option" where
  "parse_value 0 s = None"
| "parse_value (Suc n) s =
     (if s = [] then None
      else if hd s = CHR 0x22 then map_option (apfst JStr) (scan_str (tl s))
      else if hd s = CHR ''['' then
        (let r = skip_ws (tl s)
         in if r \<noteq> [] \<and> hd r = CHR '']'' then Some (JList [], tl r)
            else map_option (apfst JList) (parse_items n r))
      else if hd s = CHR ''{'' then
        (let r = skip_ws (tl s)
         in if r \<noteq> [] \<and> hd r = CHR ''}'' then Some (JDict [], tl r)
            else map_option (apfst JDict) (parse_members n r))
      else if take 4 s = ''null'' then Some (JNull, drop 4 s)
      else if take 4 s = ''true'' then Some (JBool True, drop 4 s)
      else if take 5 s = ''false'' then Some (JBool False, drop 5 s)
      else parse_number s)"
| "parse_items 0 s = None"
| "parse_items (Suc n) s =
     (case parse_value n s of
        None \<Rightarrow> None
      | Some (v, r) \<Rightarrow>
        (case skip_ws r of
           [] \<Rightarrow> None
         | c # r' \<Rightarrow>
           (if c = CHR '']'' then Some ([v], r')
            else if c = CHR '','' then map_option (apfst (Cons v)) (parse_items n (skip_ws r'))
            else None)))"
| "parse_members 0 s = None"
| "parse_members (Suc n) s =
     (if s = [] \<or> hd s \<noteq> CHR 0x22 then None
      else case scan_str (tl s) of
        None \<Rightarrow> None
      | Some (k, r) \<Rightarrow>
        (case skip_ws r of
           [] \<Rightarrow> None
         | c # r' \<Rightarrow>
           (if c \<noteq> CHR '':'' then None
            else case parse_value n (skip_ws r') of
              None \<Rightarrow> None
            | Some (v, q) \<Rightarrow>
              (case skip_ws q of
                 [] \<Rightarrow> None
               | d # q' \<Rightarrow>
                 (if d = CHR ''}'' then Some ([(k, v)], q')
                  else if d = CHR '','' then
                    map_option (apfst (Cons (k, v))) (parse_members n (skip_ws q'))
                  else None)))))"

text \<open>\<open>json.loads\<close>; a repeated key of an object keeps its first place and its last value.\<close>

fun last_wins :: "json \<Rightarrow> json" where
  "last_wins (JList xs) = JList (map last_wins xs)"
| "last_wins (JDict kvs) =
     JDict (fold (\<lambda>(k, v) d. AList.update k v d) (map (\<lambda>(k, v). (k, last_wins v)) kvs) [])"
| "last_wins j = j"

definition loads :: "string \<Rightarrow> json option" where
  "loads s =
     (case parse_value (2 * length s + 2) (skip_ws s) of
        Some (j, r) \<Rightarrow> if skip_ws r = [] then Some (last_wins j) else None
      | None \<Rightarrow> None)"

section \<open>Round trip\<close>

fun wf_json :: "json \<Rightarrow> bool" where
  "wf_json (JFloat t) = (float_text t \<and> list_all num_char t \<and> \<not> natural_text (drop_minus t))"
| "wf_json (JList xs) = list_all wf_json xs"
| "wf_json (JDict kvs) = (distinct (map fst kvs) \<and> list_all (\<lambda>(k, v). wf_json v) kvs)"
| "wf_json j = True"

lemma char_code_numeral [simp]: "char_code (CHR 0x22) = 34" "char_code (CHR 0x5C) = 92"
  by (simp_all add: char_code_def)

lemma hex_value_digit: "n < 16 \<Longrightarrow> hex_value (hex_digit n) = Some n"
proof -
  assume "n < 16"
  then have "n \<in> set [0..<16]" by simp
  moreover have "list_all (\<lambda>n. hex_value (hex_digit n) = Some n) [0..<16]" by code_simp
  ultimately show ?thesis by (simp add: list_all_iff)
qed

lemma scan_escape_char: "scan_char (escape_char c @ t) = ScanChar c t"
proof -
  have "char_code c div 16 < 16" "char_code c mod 16 < 16"
    using char_code_less [of c] by (simp_all del: char_code_less)
  moreover have "char_of (16 * (char_code c div 16) + char_code c mod 16) = c"
    by (simp add: char_code_def)
  moreover have "hex_value (CHR ''0'') = Some 0" by code_simp
  ultimately have "unescape_hex (CHR ''0'' # CHR ''0'' # hex_digit (char_code c div 16) #
      hex_digit (char_code c mod 16) # t) = Some (c, t)"
    by (simp add: hex_value_digit)
  then show ?thesis
    by (simp add: escape_char_def unescape_short_def)
qed

lemma scan_str_escape: "scan_str (escape s @ CHR 0x22 # r) = Some (s, r)"
proof (induction s)
  case Nil
  then show ?case by (simp add: escape_def scan_str.simps)
next
  case (Cons c s)
  have "scan_str (escape (c # s) @ CHR 0x22 # r) =
      map_option (apfst (Cons c)) (scan_str (escape s @ CHR 0x22 # r))"
    by (subst scan_str.simps) (simp add: escape_def scan_escape_char)
  with Cons show ?case by simp
qed

definition stops_number :: "string \<Rightarrow> bool" where
  "stops_number r \<longleftrightarrow> r = [] \<or> \<not> num_char (hd r)"

lemma num_token:
  assumes "\<forall>c \<in> set t. num_char c" "stops_number r"
  shows "takeWhile num_char (t @ r) = t" "dropWhile num_char (t @ r) = r"
proof -
  have "takeWhile num_char r = []" "dropWhile num_char r = r"
    using assms(2) by (cases r; simp add: stops_number_def)+
  with assms(1) show "takeWhile num_char (t @ r) = t" "dropWhile num_char (t @ r) = r"
    by simp_all
qed

lemma show_nat_leading: "n \<noteq> 0 \<Longrightarrow> hd (show_nat n) \<noteq> CHR ''0''"
proof (induction n rule: show_nat.induct)
  case (1 n)
  show ?case
  proof (cases "n < 10")
    case True
    with 1 have "char_code (digit_char n) \<noteq> 48" by simp
    then have "digit_char n \<noteq> CHR ''0''" by (auto simp: char_code_def)
    with True show ?thesis by (simp add: show_nat.simps [of n])
  next
    case False
    then have "n div 10 \<noteq> 0" by (simp add: div_eq_0_iff)
    with False 1 show ?thesis by (simp add: show_nat.simps [of n])
  qed
qed

lemma natural_show_nat: "natural_text (show_nat n)"
  using show_nat_leading [of n] show_nat_digits [of _ n]
  by (cases "n = 0") (auto simp: natural_text_def show_nat.simps [of 0])

lemma drop_minus_show_int: "drop_minus (show_int i) = show_nat (nat \<bar>i\<bar>)"
proof -
  have "hd (show_nat n) \<noteq> CHR ''-''" for n
    using show_nat_digits [of "hd (show_nat n)" n] minus_not_digit hd_in_set show_nat_not_Nil by metis
  then show ?thesis by (auto simp: drop_minus_def show_int_def)
qed

lemma read_show_int: "read_int (show_int i) = i"
proof -
  have "hd (show_nat n) \<noteq> CHR ''-''" for n
    using show_nat_digits [of "hd (show_nat n)" n] minus_not_digit hd_in_set show_nat_not_Nil by metis
  then show ?thesis by (auto simp: read_int_def show_int_def)
qed

lemma num_char_show_int: "\<forall>c \<in> set (show_int i). num_char c"
  using show_int_chars by (auto simp: num_char_def)

lemma parse_number_show_int:
  "stops_number r \<Longrightarrow> parse_number (show_int i @ r) = Some (JInt i, r)"
  unfolding parse_number_def num_token [OF num_char_show_int]
  by (simp add: drop_minus_show_int natural_show_nat read_show_int)

lemma parse_number_float:
  assumes "wf_json (JFloat t)" "stops_number r"
  shows "parse_number (t @ r) = Some (JFloat t, r)"
proof -
  have "\<forall>c \<in> set t. num_char c" using assms(1) by (simp add: list_all_iff)
  from num_token [OF this assms(2)] assms(1) show ?thesis
    unfolding parse_number_def by (simp only: Let_def wf_json.simps if_False if_True)
qed

text \<open>How a printed value begins.\<close>

definition value_start :: "string \<Rightarrow> bool" where
  "value_start s \<longleftrightarrow> s \<noteq> [] \<and> \<not> json_ws (hd s) \<and> hd s \<noteq> CHR '']'' \<and> hd s \<noteq> CHR ''}''"

definition number_start :: "string \<Rightarrow> bool" where
  "number_start s \<longleftrightarrow> s \<noteq> [] \<and> (is_digit (hd s) \<or> hd s = CHR ''-'')"

lemma is_digit_numeral [simp]:
  "\<not> is_digit (CHR 0x22)" "\<not> is_digit (CHR ''['')" "\<not> is_digit (CHR ''{'')" "\<not> is_digit (CHR '']'')"
  "\<not> is_digit (CHR ''}'')" "\<not> is_digit (CHR ''n'')" "\<not> is_digit (CHR ''t'')" "\<not> is_digit (CHR ''f'')"
  "\<not> is_digit (CHR '' '')" "\<not> is_digit (CHR 0x09)" "\<not> is_digit (CHR 0x0A)" "\<not> is_digit (CHR 0x0D)"
  "\<not> is_digit (CHR '','')"
  by (simp_all add: is_digit_def char_code_def)

lemma number_start_value_start: "number_start s \<Longrightarrow> value_start s"
  by (auto simp: number_start_def value_start_def json_ws_def)

lemma number_start_show_int: "number_start (show_int i)"
  unfolding number_start_def
  using show_int_chars [of "hd (show_int i)" i] hd_in_set [of "show_int i"] by auto

lemma number_start_float: "float_text t \<Longrightarrow> number_start t"
proof -
  assume "float_text t"
  then have n: "natural_text (takeWhile is_digit (drop_minus t))"
    by (simp add: float_text_def Let_def)
  then have "drop_minus t \<noteq> []" by (auto simp: natural_text_def)
  then have "t \<noteq> []" by (auto simp: drop_minus_def)
  moreover have "is_digit (hd (drop_minus t))"
    using n by (cases "drop_minus t") (auto simp: natural_text_def split: if_splits)
  ultimately show ?thesis by (auto simp: number_start_def drop_minus_def split: if_splits)
qed

lemma value_start_print: "wf_json j \<Longrightarrow> value_start (print_json st j)"
  by (cases j) (auto simp: number_start_value_start number_start_show_int number_start_float
      value_start_def [of "_ # _"] json_ws_def quote_def)

lemma value_start_append: "value_start s \<Longrightarrow> value_start (s @ t)"
  by (auto simp: value_start_def)

lemma skip_ws_value: "value_start s \<Longrightarrow> skip_ws s = s"
  by (cases s) (auto simp: value_start_def skip_ws_def)

lemma parse_value_number:
  assumes "number_start s"
  shows "parse_value (Suc n) s = parse_number s"
proof -
  have "take 4 s \<noteq> ''null'' \<and> take 4 s \<noteq> ''true'' \<and> take 5 s \<noteq> ''false''"
    using assms by (cases s) (auto simp: number_start_def)
  with assms show ?thesis by (auto simp: number_start_def)
qed

lemma item_sep_split: "\<exists>w. item_sep st = CHR '','' # w \<and> list_all json_ws w"
  by (cases st) (simp_all add: json_ws_def)

lemma key_sep_split: "\<exists>w. key_sep st = CHR '':'' # w \<and> list_all json_ws w"
  by (cases st) (simp_all add: json_ws_def)

lemma skip_ws_prefix: "list_all json_ws w \<Longrightarrow> value_start s \<Longrightarrow> skip_ws (w @ s) = s"
  by (induction w) (auto simp: skip_ws_value skip_ws_def value_start_def, metis dropWhile.simps(2) list.exhaust_sel)

lemma skip_ws_Cons: "\<not> json_ws c \<Longrightarrow> skip_ws (c # s) = c # s"
  by (simp add: skip_ws_def)

lemma not_ws [simp]: "\<not> json_ws (CHR '','')" "\<not> json_ws (CHR '':'')" "\<not> json_ws (CHR '']'')"
  "\<not> json_ws (CHR ''}'')" "\<not> json_ws (CHR 0x22)"
  by (simp_all add: json_ws_def)

lemma stops_number_Cons [simp]:
  "stops_number (CHR '','' # r)" "stops_number (CHR '']'' # r)" "stops_number (CHR ''}'' # r)"
  "stops_number []"
  by (simp_all add: stops_number_def num_char_def)

lemma join_ne:
  "xs \<noteq> [] \<Longrightarrow> join sep (x # xs) = x @ sep @ join sep xs"
  by (cases xs) auto

definition parses :: "json_style \<Rightarrow> json \<Rightarrow> bool" where
  "parses st v \<longleftrightarrow> (\<forall>n r. 2 * length (print_json st v) \<le> n \<longrightarrow> stops_number r \<longrightarrow>
     parse_value n (print_json st v @ r) = Some (v, r))"

lemma value_start_join:
  "xs \<noteq> [] \<Longrightarrow> value_start (hd xs) \<Longrightarrow> value_start (join sep xs @ t)"
  by (cases "(sep, xs)" rule: join.cases) (auto simp: value_start_append)

lemma parse_items_print:
  assumes "xs \<noteq> []" "\<forall>v \<in> set xs. wf_json v \<and> parses st v"
    and "2 * length (join (item_sep st) (map (print_json st) xs)) + 1 \<le> n"
  shows "parse_items n (join (item_sep st) (map (print_json st) xs) @ CHR '']'' # r) = Some (xs, r)"
  using assms
proof (induction xs arbitrary: n)
  case (Cons v vs)
  from Cons.prems(3) obtain m where n: "n = Suc m" by (cases n) auto
  have v: "parses st v" using Cons.prems(2) by simp
  show ?case
  proof (cases "vs = []")
    case True
    with v Cons.prems(3) n
    have "parse_value m (print_json st v @ CHR '']'' # r) = Some (v, CHR '']'' # r)"
      by (simp add: parses_def)
    with True n show ?thesis by (simp add: skip_ws_Cons)
  next
    case False
    let ?J = "join (item_sep st) (map (print_json st) vs)"
    obtain w where w: "item_sep st = CHR '','' # w" "list_all json_ws w"
      using item_sep_split by blast
    have J: "join (item_sep st) (map (print_json st) (v # vs)) = print_json st v @ CHR '','' # w @ ?J"
      using False w by (simp add: join_ne)
    with Cons.prems(3) n have len: "2 * length (print_json st v) \<le> m" "2 * length ?J + 1 \<le> m"
      by simp_all
    have "parse_value m (print_json st v @ CHR '','' # w @ ?J @ CHR '']'' # r) =
        Some (v, CHR '','' # w @ ?J @ CHR '']'' # r)"
      using v len by (simp add: parses_def)
    moreover have "skip_ws (w @ ?J @ CHR '']'' # r) = ?J @ CHR '']'' # r"
      using False Cons.prems(2) w(2)
      by (intro skip_ws_prefix value_start_join) (auto simp: hd_map value_start_print)
    moreover have "parse_items m (?J @ CHR '']'' # r) = Some (vs, r)"
      using False Cons.prems(2) len(2) by (intro Cons.IH) simp_all
    ultimately show ?thesis
      unfolding J n parse_items.simps by (simp add: skip_ws_Cons)
  qed
qed simp

definition print_member :: "json_style \<Rightarrow> string \<times> json \<Rightarrow> string" where
  "print_member st = (\<lambda>(k, v). quote k @ key_sep st @ print_json st v)"

lemma value_start_quote: "value_start (quote k @ s)"
  by (simp add: value_start_def quote_def json_ws_def)

lemma parse_members_print:
  assumes "kvs \<noteq> []" "\<forall>(k, v) \<in> set kvs. wf_json v \<and> parses st v"
    and "2 * length (join (item_sep st) (map (print_member st) kvs)) + 1 \<le> n"
  shows "parse_members n (join (item_sep st) (map (print_member st) kvs) @ CHR ''}'' # r) =
    Some (kvs, r)"
  using assms
proof (induction kvs arbitrary: n)
  case (Cons kv kvs)
  obtain k v where kv: "kv = (k, v)" by (cases kv)
  from Cons.prems(3) obtain m where n: "n = Suc m" by (cases n) auto
  have v: "parses st v" "wf_json v" using Cons.prems(2) kv by auto
  obtain u where u: "key_sep st = CHR '':'' # u" "list_all json_ws u"
    using key_sep_split by blast
  have q: "quote k \<noteq> []" "hd (quote k) = CHR 0x22" "scan_str (tl (quote k) @ s) = Some (k, s)" for s
    by (simp_all add: quote_def scan_str_escape)
  have val: "skip_ws (u @ print_json st v @ s) = print_json st v @ s" for s
    using u(2) v(2) by (intro skip_ws_prefix value_start_append value_start_print)
  show ?case
  proof (cases "kvs = []")
    case True
    with v Cons.prems(3) n kv u(1)
    have "parse_value m (print_json st v @ CHR ''}'' # r) = Some (v, CHR ''}'' # r)"
      by (simp add: parses_def print_member_def)
    with True n kv u(1) q val show ?thesis by (simp add: print_member_def skip_ws_Cons)
  next
    case False
    let ?J = "join (item_sep st) (map (print_member st) kvs)"
    obtain w where w: "item_sep st = CHR '','' # w" "list_all json_ws w"
      using item_sep_split by blast
    have J: "join (item_sep st) (map (print_member st) (kv # kvs)) =
        quote k @ CHR '':'' # u @ print_json st v @ CHR '','' # w @ ?J"
      using False w u kv by (simp add: join_ne print_member_def)
    with Cons.prems(3) n have len: "2 * length (print_json st v) \<le> m" "2 * length ?J + 1 \<le> m"
      by simp_all
    have "parse_value m (print_json st v @ CHR '','' # w @ ?J @ CHR ''}'' # r) =
        Some (v, CHR '','' # w @ ?J @ CHR ''}'' # r)"
      using v len by (simp add: parses_def)
    moreover have "value_start (hd (map (print_member st) kvs))"
      using False value_start_quote by (simp add: hd_map print_member_def split: prod.splits)
    then have "skip_ws (w @ ?J @ CHR ''}'' # r) = ?J @ CHR ''}'' # r"
      using False w(2) by (intro skip_ws_prefix value_start_join) auto
    moreover have "parse_members m (?J @ CHR ''}'' # r) = Some (kvs, r)"
      using False Cons.prems(2) len(2) by (intro Cons.IH) auto
    ultimately show ?thesis
      using q val unfolding J n parse_members.simps by (simp add: skip_ws_Cons kv)
  qed
qed simp

lemma print_json_dict:
  "print_json st (JDict kvs) = ''{'' @ join (item_sep st) (map (print_member st) kvs) @ ''}''"
  by (simp add: print_member_def)

lemma parsesI:
  assumes "print_json st v \<noteq> []"
    and "\<And>m r. 2 * length (print_json st v) \<le> Suc m \<Longrightarrow> stops_number r \<Longrightarrow>
      parse_value (Suc m) (print_json st v @ r) = Some (v, r)"
  shows "parses st v"
  unfolding parses_def
proof (intro allI impI)
  fix n r
  assume n: "2 * length (print_json st v) \<le> n" and r: "stops_number r"
  moreover from n assms(1) obtain m where "n = Suc m" by (cases n) auto
  ultimately show "parse_value n (print_json st v @ r) = Some (v, r)"
    using assms(2) by simp
qed

lemma number_start_append: "number_start s \<Longrightarrow> number_start (s @ t)"
  by (auto simp: number_start_def)

lemma parses_items: "list_all wf_json xs \<Longrightarrow> (\<And>v. v \<in> set xs \<Longrightarrow> wf_json v \<Longrightarrow> parses st v) \<Longrightarrow>
  parses st (JList xs)"
proof (rule parsesI)
  fix m r
  assume wf: "list_all wf_json xs" and IH: "\<And>v. v \<in> set xs \<Longrightarrow> wf_json v \<Longrightarrow> parses st v"
    and m: "2 * length (print_json st (JList xs)) \<le> Suc m"
  let ?J = "join (item_sep st) (map (print_json st) xs)"
  show "parse_value (Suc m) (print_json st (JList xs) @ r) = Some (JList xs, r)"
  proof (cases "xs = []")
    case True
    then show ?thesis by (simp add: skip_ws_Cons)
  next
    case False
    have "parse_items m (?J @ CHR '']'' # r) = Some (xs, r)"
      using False wf IH m by (intro parse_items_print) (auto simp: list_all_iff)
    moreover have vs: "value_start (?J @ CHR '']'' # r)"
      using False wf by (intro value_start_join) (auto simp: hd_map value_start_print list_all_iff)
    ultimately show ?thesis
      using skip_ws_value [OF vs] by (simp add: value_start_def)
  qed
qed simp

lemma parses_members:
  "list_all (\<lambda>(k, v). wf_json v) kvs \<Longrightarrow> (\<And>k v. (k, v) \<in> set kvs \<Longrightarrow> wf_json v \<Longrightarrow> parses st v) \<Longrightarrow>
  parses st (JDict kvs)"
proof (rule parsesI)
  fix m r
  assume wf: "list_all (\<lambda>(k, v). wf_json v) kvs"
    and IH: "\<And>k v. (k, v) \<in> set kvs \<Longrightarrow> wf_json v \<Longrightarrow> parses st v"
    and m: "2 * length (print_json st (JDict kvs)) \<le> Suc m"
  let ?J = "join (item_sep st) (map (print_member st) kvs)"
  show "parse_value (Suc m) (print_json st (JDict kvs) @ r) = Some (JDict kvs, r)"
  proof (cases "kvs = []")
    case True
    then show ?thesis by (simp add: skip_ws_Cons)
  next
    case False
    have "parse_members m (?J @ CHR ''}'' # r) = Some (kvs, r)"
      using False wf IH m unfolding print_json_dict
      by (intro parse_members_print) (auto simp: list_all_iff)
    moreover have "value_start (hd (map (print_member st) kvs))"
      using False value_start_quote by (simp add: hd_map print_member_def split: prod.splits)
    then have vs: "value_start (?J @ CHR ''}'' # r)"
      using False by (intro value_start_join) auto
    ultimately show ?thesis
      using skip_ws_value [OF vs] unfolding print_json_dict by (simp add: value_start_def)
  qed
qed simp

lemma parses_print: "wf_json j \<Longrightarrow> parses st j"
proof (induction j)
  case (JInt i)
  show ?case
    by (rule parsesI) (simp_all add: parse_value_number number_start_append number_start_show_int
        parse_number_show_int del: parse_value.simps)
next
  case (JFloat t)
  then have "number_start t" by (simp add: number_start_float)
  with JFloat show ?case
    by (intro parsesI) (auto simp: parse_value_number number_start_append parse_number_float
        number_start_def simp del: parse_value.simps wf_json.simps)
next
  case (JStr s)
  show ?case by (rule parsesI) (simp_all add: quote_def scan_str_escape)
next
  case (JList xs)
  then show ?case by (intro parses_items) auto
next
  case (JDict kvs)
  then show ?case by (intro parses_members) (auto simp: snds.simps)
qed (auto intro!: parsesI split: if_splits)

lemma wf_sort_json: "wf_json j \<Longrightarrow> wf_json (sort_json j)"
proof (induction j)
  case (JDict kvs)
  have "map fst (map (\<lambda>(k, v). (k, sort_json v)) kvs) = map fst kvs"
    by (simp add: split_beta comp_def)
  then have "distinct (map fst (map (\<lambda>(k, v). (k, sort_json v)) kvs))"
    using JDict.prems by (simp only: wf_json.simps)
  then have "distinct (map fst (sort_key fst (map (\<lambda>(k, v). (k, sort_json v)) kvs)))"
    by (simp only: distinct_map distinct_sort set_sort)
  with JDict show ?case by (auto simp: list_all_iff snds.simps)
qed (auto simp: list_all_iff)

lemma update_fresh: "k \<notin> fst ` set d \<Longrightarrow> AList.update k v d = d @ [(k, v)]"
  by (induction d) auto

lemma fold_update_distinct:
  "distinct (map fst (d @ kvs)) \<Longrightarrow> fold (\<lambda>(k, v) d. AList.update k v d) kvs d = d @ kvs"
proof (induction kvs arbitrary: d)
  case (Cons kv kvs)
  obtain k v where kv: "kv = (k, v)" by (cases kv)
  with Cons.prems have "AList.update k v d = d @ [(k, v)]"
    by (intro update_fresh) auto
  with Cons kv show ?case by simp
qed simp

lemma last_wins_wf: "wf_json j \<Longrightarrow> last_wins j = j"
proof (induction j)
  case (JDict kvs)
  have "map (\<lambda>(k, v). (k, last_wins v)) kvs = kvs"
    using JDict by (intro map_idI) (auto simp: list_all_iff snds.simps)
  with JDict.prems fold_update_distinct [of "[]" kvs] show ?case by simp
qed (auto simp: list_all_iff intro!: map_idI)

lemma loads_print: "wf_json j \<Longrightarrow> loads (print_json st j) = Some j"
proof -
  assume wf: "wf_json j"
  have "parse_value (2 * length (print_json st j) + 2) (print_json st j @ []) = Some (j, [])"
    by (rule parses_print [OF wf, of st, unfolded parses_def, rule_format]) simp_all
  moreover have "skip_ws (print_json st j) = print_json st j"
    using wf by (intro skip_ws_value value_start_print)
  ultimately show ?thesis
    using wf by (simp add: loads_def last_wins_wf skip_ws_def)
qed

lemma loads_dumps:
  "wf_json j \<Longrightarrow> loads (dumps st sorting j) = Some (if sorting then sort_json j else j)"
  by (simp add: dumps_def loads_print wf_sort_json)

text \<open>Hence the canonical text identifies a value up to the order of its keys.\<close>

lemma dumps_sorted_inject:
  assumes "wf_json j" "wf_json k"
  shows "dumps st True j = dumps st True k \<longleftrightarrow> sort_json j = sort_json k"
proof
  assume "dumps st True j = dumps st True k"
  then have "loads (dumps st True j) = loads (dumps st True k)" by simp
  then show "sort_json j = sort_json k" by (simp add: loads_dumps assms)
qed (simp add: dumps_def)

lemma dumps_not_Nil: "wf_json j \<Longrightarrow> dumps st sorting j \<noteq> []"
  using value_start_print wf_sort_json by (auto simp: dumps_def value_start_def)

section \<open>Metadata\<close>

text \<open>A dictionary from text to text, as requests and results carry it.\<close>

type_synonym tags = "(string \<times> string) list"

definition json_tags :: "tags \<Rightarrow> json" where
  "json_tags m = JDict (map (\<lambda>(k, v). (k, JStr v)) m)"

definition json_opt :: "string option \<Rightarrow> json" where
  "json_opt s = (case s of None \<Rightarrow> JNull | Some t \<Rightarrow> JStr t)"

fun tags_of_json :: "json \<Rightarrow> tags option" where
  "tags_of_json (JDict kvs) =
     those (map (\<lambda>(k, v). case v of JStr s \<Rightarrow> Some (k, s) | _ \<Rightarrow> None) kvs)"
| "tags_of_json j = None"

lemma wf_json_tags [simp]: "wf_json (json_tags m) \<longleftrightarrow> distinct (map fst m)"
  by (auto simp: json_tags_def list_all_iff comp_def case_prod_unfold)

lemma sort_json_tags: "sort_json (json_tags m) = json_tags (sort_key fst m)"
proof -
  have "map (\<lambda>(k, v). (k, sort_json v)) (map (\<lambda>(k, v). (k, JStr v)) m) = map (\<lambda>(k, v). (k, JStr v)) m"
    by (induction m) auto
  moreover have "sort_key fst (map (\<lambda>(k, v). (k, JStr v)) m) = map (\<lambda>(k, v). (k, JStr v)) (sort_key fst m)"
    by (rule sort_key_map_fst) auto
  ultimately show ?thesis by (simp only: json_tags_def sort_json.simps)
qed

lemma tags_of_json_tags [simp]: "tags_of_json (json_tags m) = Some m"
proof -
  have "those (map (\<lambda>(k, v). case v of JStr s \<Rightarrow> Some (k, s) | _ \<Rightarrow> None) (map (\<lambda>(k, v). (k, JStr v)) m)) = Some m"
    by (induction m) auto
  then show ?thesis by (simp add: json_tags_def)
qed

end
