(* ===== verification/Audit_Log.thy ===== *)
theory Audit_Log
  imports Mac_Chain Json
begin

text \<open>
  \<^verbatim>\<open>src/infrastructure/audit/tamper_log.py\<close>: the per-tenant append-only audit log. The function
  from secret and material to the hexadecimal HMAC-SHA256 is the parameter \<open>hx\<close>; the uuid's hex
  text and the time stamp of an entry are arguments of \<open>append_event\<close>.
\<close>

section \<open>State\<close>

definition GENESIS_HASH :: string where
  "GENESIS_HASH = replicate 64 (CHR ''0'')"

record audit_entry =
  ae_entry_id :: string
  ae_sequence_number :: int
  ae_tenant_id :: string
  ae_event_type :: string
  ae_actor_id :: string
  ae_payload_json :: string
  ae_timestamp :: string
  ae_prev_hash :: string
  ae_current_hash :: string

datatype audit_error =
    BrokenSequence nat int int
  | HashLinkMismatch int string string
  | TamperedPayload int string

record audit_logger =
  al_secret :: string
  al_store :: "string \<rightharpoonup> audit_entry list"

type_synonym hexmac = "string \<Rightarrow> string \<Rightarrow> string"

section \<open>Operations\<close>

definition audit_material ::
  "string \<Rightarrow> int \<Rightarrow> string \<Rightarrow> string \<Rightarrow> string \<Rightarrow> string \<Rightarrow> string \<Rightarrow> string" where
  "audit_material prev seq tenant event actor payload ts =
     prev @ ''|'' @ show_int seq @ ''|'' @ tenant @ ''|'' @ event @ ''|'' @
     actor @ ''|'' @ payload @ ''|'' @ ts"

definition audit_compute_hash ::
  "hexmac \<Rightarrow> string \<Rightarrow> string \<Rightarrow> int \<Rightarrow> string \<Rightarrow> string \<Rightarrow> string \<Rightarrow> string \<Rightarrow> string \<Rightarrow> string" where
  "audit_compute_hash hx secret prev seq tenant event actor payload ts =
     hx secret (utf8 (audit_material prev seq tenant event actor payload ts))"

definition new_audit_logger :: "string \<Rightarrow> audit_logger" where
  "new_audit_logger secret = \<lparr>al_secret = secret, al_store = Map.empty\<rparr>"

definition audit_head :: "audit_entry list \<Rightarrow> string" where
  "audit_head es = (if es = [] then GENESIS_HASH else ae_current_hash (last es))"

definition append_event ::
  "hexmac \<Rightarrow> string \<Rightarrow> string \<Rightarrow> audit_logger \<Rightarrow> string \<Rightarrow> string \<Rightarrow> string \<Rightarrow> json \<Rightarrow>
   audit_entry \<times> audit_logger" where
  "append_event hx uuid_hex now lg tenant event actor payload =
     (let entries = (case al_store lg tenant of None \<Rightarrow> [] | Some es \<Rightarrow> es);
          seq = int (length entries) + 1;
          prev = audit_head entries;
          payload_json = dumps Spaced True payload;
          entry = \<lparr>ae_entry_id = ''AUD-'' @ py_upper (take 12 uuid_hex), ae_sequence_number = seq,
                   ae_tenant_id = tenant, ae_event_type = event, ae_actor_id = actor,
                   ae_payload_json = payload_json, ae_timestamp = now, ae_prev_hash = prev,
                   ae_current_hash = audit_compute_hash hx (al_secret lg) prev seq tenant event
                     actor payload_json now\<rparr>
      in (entry, lg\<lparr>al_store := (al_store lg)(tenant \<mapsto> entries @ [entry])\<rparr>))"

definition get_entries :: "audit_logger \<Rightarrow> string \<Rightarrow> audit_entry list" where
  "get_entries lg tenant = (case al_store lg tenant of None \<Rightarrow> [] | Some es \<Rightarrow> es)"

text \<open>The loop of \<open>verify_integrity\<close>, from position \<open>i\<close> with the hash it expects.\<close>

fun verify_entries ::
  "hexmac \<Rightarrow> string \<Rightarrow> nat \<Rightarrow> string \<Rightarrow> audit_entry list \<Rightarrow> audit_error + bool" where
  "verify_entries hx secret i expected [] = Inr True"
| "verify_entries hx secret i expected (e # es) =
     (if ae_sequence_number e \<noteq> int i + 1
      then Inl (BrokenSequence i (int i + 1) (ae_sequence_number e))
      else if ae_prev_hash e \<noteq> expected
      then Inl (HashLinkMismatch (ae_sequence_number e) (ae_prev_hash e) expected)
      else let computed = audit_compute_hash hx secret (ae_prev_hash e) (ae_sequence_number e)
                 (ae_tenant_id e) (ae_event_type e) (ae_actor_id e) (ae_payload_json e)
                 (ae_timestamp e)
           in if ae_current_hash e \<noteq> computed
              then Inl (TamperedPayload (ae_sequence_number e) (ae_entry_id e))
              else verify_entries hx secret (Suc i) (ae_current_hash e) es)"

definition audit_verify_integrity :: "hexmac \<Rightarrow> audit_logger \<Rightarrow> string \<Rightarrow> audit_error + bool" where
  "audit_verify_integrity hx lg tenant =
     (let entries = (case al_store lg tenant of None \<Rightarrow> [] | Some es \<Rightarrow> es)
      in if entries = [] then Inr True
         else verify_entries hx (al_secret lg) 0 GENESIS_HASH entries)"

text \<open>\<open>AuditEntry.to_dict\<close>: the stored payload is parsed again.\<close>

definition audit_to_dict :: "audit_entry \<Rightarrow> json option" where
  "audit_to_dict e =
     map_option (\<lambda>payload. JDict
       [(''entry_id'', JStr (ae_entry_id e)), (''sequence_number'', JInt (ae_sequence_number e)),
        (''tenant_id'', JStr (ae_tenant_id e)), (''event_type'', JStr (ae_event_type e)),
        (''actor_id'', JStr (ae_actor_id e)), (''payload'', payload),
        (''timestamp'', JStr (ae_timestamp e)), (''prev_hash'', JStr (ae_prev_hash e)),
        (''current_hash'', JStr (ae_current_hash e))]) (loads (ae_payload_json e))"

section \<open>The numbered chain contract\<close>

text \<open>What the hash of an entry covers: every field but the entry id and the hash itself.\<close>

definition covered :: "audit_entry \<Rightarrow> audit_entry" where
  "covered e = e\<lparr>ae_entry_id := [], ae_current_hash := []\<rparr>"

definition entry_material :: "audit_entry \<Rightarrow> string" where
  "entry_material e = audit_material (ae_prev_hash e) (ae_sequence_number e) (ae_tenant_id e)
     (ae_event_type e) (ae_actor_id e) (ae_payload_json e) (ae_timestamp e)"

definition entry_digest :: "hexmac \<Rightarrow> string \<Rightarrow> audit_entry \<Rightarrow> string" where
  "entry_digest hx secret e = hx secret (utf8 (entry_material e))"

lemma entry_digest_compute:
  "audit_compute_hash hx secret (ae_prev_hash e) (ae_sequence_number e) (ae_tenant_id e)
     (ae_event_type e) (ae_actor_id e) (ae_payload_json e) (ae_timestamp e) = entry_digest hx secret e"
  by (simp add: audit_compute_hash_def entry_digest_def entry_material_def)

lemma entry_material_covered [simp]: "entry_material (covered e) = entry_material e"
  by (simp add: entry_material_def covered_def)

lemma entry_digest_covered [simp]: "entry_digest hx secret (covered e) = entry_digest hx secret e"
  by (simp add: entry_digest_def)

lemma verify_entries_Cons:
  "verify_entries hx secret i h (e # es) = Inr True \<longleftrightarrow>
     ae_sequence_number e = int i + 1 \<and> ae_prev_hash e = h \<and>
     entry_digest hx secret e = ae_current_hash e \<and>
     verify_entries hx secret (Suc i) (ae_current_hash e) es = Inr True"
  unfolding verify_entries.simps entry_digest_compute Let_def by auto

interpretation audit_chain: numbered_mac_chain covered "entry_digest hx secret" ae_prev_hash
  ae_current_hash "\<lambda>i e. ae_sequence_number e = int i + 1"
  "\<lambda>i h es. verify_entries hx secret i h es = Inr True" for hx secret
proof unfold_locales
  show "covered b = covered b' \<Longrightarrow> ae_prev_hash b = ae_prev_hash b'" for b b'
    unfolding covered_def by (drule arg_cong [where f = ae_prev_hash]) simp
  show "ae_sequence_number b = int i + 1 \<Longrightarrow> ae_sequence_number b' = int j + 1 \<Longrightarrow>
      covered b = covered b' \<Longrightarrow> i = j" for b b' i j
    unfolding covered_def by (drule arg_cong [where f = ae_sequence_number]) simp
qed (simp_all add: verify_entries_Cons del: verify_entries.simps(2))

lemma audit_verify_entries:
  "audit_verify_integrity hx lg tenant = Inr True \<longleftrightarrow>
     verify_entries hx (al_secret lg) 0 GENESIS_HASH (get_entries lg tenant) = Inr True"
  by (auto simp: audit_verify_integrity_def get_entries_def Let_def)

lemma audit_head_from: "audit_head es = audit_chain.head_from GENESIS_HASH es"
  by (simp add: audit_head_def audit_chain.head_from_def)

section \<open>Runs of events\<close>

record audit_event =
  ev_uuid_hex :: string
  ev_now :: string
  ev_tenant :: string
  ev_type :: string
  ev_actor :: string
  ev_payload :: json

definition log_event :: "hexmac \<Rightarrow> audit_logger \<Rightarrow> audit_event \<Rightarrow> audit_logger" where
  "log_event hx lg ev = snd (append_event hx (ev_uuid_hex ev) (ev_now ev) lg (ev_tenant ev)
     (ev_type ev) (ev_actor ev) (ev_payload ev))"

definition log_all :: "hexmac \<Rightarrow> string \<Rightarrow> audit_event list \<Rightarrow> audit_logger" where
  "log_all hx secret evs = foldl (log_event hx) (new_audit_logger secret) evs"

text \<open>What an entry says about the event it records.\<close>

definition entry_facts :: "audit_entry \<Rightarrow> string \<times> string \<times> string \<times> string \<times> string" where
  "entry_facts e = (ae_tenant_id e, ae_event_type e, ae_actor_id e, ae_payload_json e, ae_timestamp e)"

definition event_facts :: "audit_event \<Rightarrow> string \<times> string \<times> string \<times> string \<times> string" where
  "event_facts ev = (ev_tenant ev, ev_type ev, ev_actor ev, dumps Spaced True (ev_payload ev), ev_now ev)"

lemma log_event_secret [simp]: "al_secret (log_event hx lg ev) = al_secret lg"
  by (simp add: log_event_def append_event_def Let_def)

lemma log_event_other: "t \<noteq> ev_tenant ev \<Longrightarrow> get_entries (log_event hx lg ev) t = get_entries lg t"
  by (simp add: log_event_def append_event_def get_entries_def Let_def)

lemma log_event_own:
  obtains e where "get_entries (log_event hx lg ev) (ev_tenant ev) = get_entries lg (ev_tenant ev) @ [e]"
    "ae_sequence_number e = int (length (get_entries lg (ev_tenant ev))) + 1"
    "ae_prev_hash e = audit_head (get_entries lg (ev_tenant ev))"
    "entry_digest hx (al_secret lg) e = ae_current_hash e" "entry_facts e = event_facts ev"
  by (rule that [of "fst (append_event hx (ev_uuid_hex ev) (ev_now ev) lg (ev_tenant ev)
     (ev_type ev) (ev_actor ev) (ev_payload ev))"])
    (simp_all add: log_event_def append_event_def get_entries_def Let_def entry_digest_def
      entry_material_def audit_compute_hash_def entry_facts_def event_facts_def)

definition log_records :: "hexmac \<Rightarrow> audit_logger \<Rightarrow> audit_event list \<Rightarrow> string \<Rightarrow> bool" where
  "log_records hx lg evs t \<longleftrightarrow>
     verify_entries hx (al_secret lg) 0 GENESIS_HASH (get_entries lg t) = Inr True \<and>
     map entry_facts (get_entries lg t) = map event_facts (filter (\<lambda>ev. ev_tenant ev = t) evs)"

lemma log_event_records:
  assumes "log_records hx lg evs t"
  shows "log_records hx (log_event hx lg ev) (evs @ [ev]) t"
proof (cases "t = ev_tenant ev")
  case True
  obtain e where e: "get_entries (log_event hx lg ev) (ev_tenant ev) = get_entries lg (ev_tenant ev) @ [e]"
    "ae_sequence_number e = int (length (get_entries lg (ev_tenant ev))) + 1"
    "ae_prev_hash e = audit_head (get_entries lg (ev_tenant ev))"
    "entry_digest hx (al_secret lg) e = ae_current_hash e" "entry_facts e = event_facts ev"
    by (rule log_event_own)
  with assms True show ?thesis
    by (simp add: log_records_def audit_chain.verifies_snoc audit_head_from)
next
  case False
  with assms show ?thesis by (simp add: log_records_def log_event_other)
qed

lemma log_all_records: "log_records hx (log_all hx secret evs) evs t"
proof (induction evs rule: rev_induct)
  case Nil
  then show ?case by (simp add: log_all_def new_audit_logger_def log_records_def get_entries_def)
next
  case (snoc ev evs)
  then show ?case using log_event_records by (simp add: log_all_def)
qed

text \<open>C16. Whatever events of whatever tenants are appended in whatever order, every tenant's log
  verifies afterwards and holds exactly that tenant's events, in their order, with the payload
  as canonical JSON.\<close>

theorem audit_runs_verify:
  "audit_verify_integrity hx (log_all hx secret evs) t = Inr True \<and>
   map entry_facts (get_entries (log_all hx secret evs) t) =
     map event_facts (filter (\<lambda>ev. ev_tenant ev = t) evs)"
  using log_all_records [of hx secret evs t] by (simp add: log_records_def audit_verify_entries)

text \<open>The payload survives the log: reading the newest entry back with \<open>to_dict\<close> gives the
  appended payload, its keys sorted at every level.\<close>

theorem audit_payload_roundtrip:
  assumes "wf_json payload"
  shows "\<exists>fields. audit_to_dict (fst (append_event hx u now lg tenant event actor payload)) =
      Some (JDict fields) \<and> map_of fields ''payload'' = Some (sort_json payload)"
  using assms by (simp add: audit_to_dict_def append_event_def Let_def loads_dumps)

theorem audit_payload_roundtrip_witness:
  "\<exists>fields. audit_to_dict (fst (append_event (\<lambda>k m. m) ''0f'' ''t0'' (new_audit_logger ''k'') ''acme''
      ''EVT'' ''u1'' (JDict [(''b'', JInt 7), (''a'', JList [JStr ''x|y'', JBool True, JFloat ''0.5''])]))) =
      Some (JDict fields) \<and> map_of fields ''payload'' =
      Some (sort_json (JDict [(''b'', JInt 7), (''a'', JList [JStr ''x|y'', JBool True, JFloat ''0.5''])]))"
  by (rule audit_payload_roundtrip) code_simp

section \<open>A concrete log\<close>

definition bar_free :: "audit_entry \<Rightarrow> bool" where
  "bar_free e \<longleftrightarrow> CHR ''|'' \<notin> set (ae_tenant_id e) \<and> CHR ''|'' \<notin> set (ae_event_type e) \<and>
     CHR ''|'' \<notin> set (ae_actor_id e) \<and> CHR ''|'' \<notin> set (ae_timestamp e)"

definition demo_hx :: hexmac where
  "demo_hx k m = map (\<lambda>c. if c = CHR ''|'' then CHR ''/'' else c) m"

definition demo_log :: audit_logger where
  "demo_log = log_all demo_hx ''k''
     [\<lparr>ev_uuid_hex = ''0a1b'', ev_now = ''t1'', ev_tenant = ''acme'', ev_type = ''SUBMIT'',
       ev_actor = ''u1'', ev_payload = JDict [(''amt'', JInt 5)]\<rparr>,
      \<lparr>ev_uuid_hex = ''0a1c'', ev_now = ''t2'', ev_tenant = ''acme'', ev_type = ''SUBMIT'',
       ev_actor = ''u2'', ev_payload = JDict [(''amt'', JInt 6)]\<rparr>]"

lemma demo_log_verifies: "audit_verify_integrity demo_hx demo_log ''acme'' = Inr True"
  using log_all_records by (simp add: demo_log_def log_records_def audit_verify_entries)

lemma demo_log_two_entries:
  obtains e f where "get_entries demo_log ''acme'' = [e, f]" "bar_free e" "bar_free f"
    "demo_hx (al_secret demo_log) (utf8 (entry_material e)) \<noteq>
     demo_hx (al_secret demo_log) (utf8 (entry_material f))"
proof -
  have "length (get_entries demo_log ''acme'') = 2" by code_simp
  then obtain e f where ef: "get_entries demo_log ''acme'' = [e, f]"
    by (auto simp: length_Suc_conv numeral_2_eq_2)
  moreover have "list_all bar_free (get_entries demo_log ''acme'')" by code_simp
  moreover have "demo_hx (al_secret demo_log) (utf8 (entry_material (get_entries demo_log ''acme'' ! 0))) \<noteq>
      demo_hx (al_secret demo_log) (utf8 (entry_material (get_entries demo_log ''acme'' ! 1)))"
    by code_simp
  ultimately show thesis by (intro that [of e f]) simp_all
qed

section \<open>What verification sees and what it does not\<close>

lemma audit_material_inject:
  assumes "CHR ''|'' \<notin> set pr" "CHR ''|'' \<notin> set pr'" "CHR ''|'' \<notin> set tn" "CHR ''|'' \<notin> set tn'"
    and "CHR ''|'' \<notin> set et" "CHR ''|'' \<notin> set et'" "CHR ''|'' \<notin> set ac" "CHR ''|'' \<notin> set ac'"
    and "CHR ''|'' \<notin> set ts" "CHR ''|'' \<notin> set ts'"
  shows "audit_material pr sq tn et ac pl ts = audit_material pr' sq' tn' et' ac' pl' ts' \<longleftrightarrow>
    pr = pr' \<and> sq = sq' \<and> tn = tn' \<and> et = et' \<and> ac = ac' \<and> pl = pl' \<and> ts = ts'"
proof -
  have "CHR ''|'' \<notin> set (show_int k)" for k
    by (intro not_in_show_int) (simp_all add: is_digit_def char_code_def)
  with assms show ?thesis
    by (simp add: audit_material_def append_sep_eq append_sep_eq_last)
qed

lemma entry_material_inject:
  assumes "bar_free e" "bar_free f"
    and "CHR ''|'' \<notin> set (ae_prev_hash e)" "CHR ''|'' \<notin> set (ae_prev_hash f)"
    and "entry_material e = entry_material f"
  shows "covered e = covered f"
  using assms unfolding entry_material_def bar_free_def covered_def
  by (intro audit_entry.equality) (simp_all add: audit_material_inject)

lemma entry_digest_inj:
  assumes "\<forall>e \<in> E. bar_free e \<and> CHR ''|'' \<notin> set (ae_prev_hash e)"
    and "inj_on (hx secret) ((\<lambda>e. utf8 (entry_material e)) ` E)"
  shows "inj_on (entry_digest hx secret) (covered ` E)"
proof (rule inj_onI)
  fix x y
  assume "x \<in> covered ` E" "y \<in> covered ` E" "entry_digest hx secret x = entry_digest hx secret y"
  then obtain e f where ef: "e \<in> E" "f \<in> E" "x = covered e" "y = covered f"
    "hx secret (utf8 (entry_material e)) = hx secret (utf8 (entry_material f))"
    by (auto simp: entry_digest_def)
  have "utf8 (entry_material e) = utf8 (entry_material f)"
    by (rule inj_onD [OF assms(2) ef(5)]) (use ef in simp_all)
  then have same: "entry_material e = entry_material f" by simp
  have "covered e = covered f"
    using assms(1) ef(1,2) same by (intro entry_material_inject) simp_all
  with ef show "x = y" by simp
qed

lemma verified_prev_bar_free:
  assumes "\<forall>m. CHR ''|'' \<notin> set (hx secret m)" "CHR ''|'' \<notin> set h"
    and "verify_entries hx secret i h es = Inr True" "e \<in> set es"
  shows "CHR ''|'' \<notin> set (ae_prev_hash e)"
  using assms
proof (induction es arbitrary: i h)
  case (Cons f fs)
  have f: "ae_prev_hash f = h" "entry_digest hx secret f = ae_current_hash f"
    "verify_entries hx secret (Suc i) (ae_current_hash f) fs = Inr True"
    using Cons.prems(3) unfolding verify_entries_Cons by blast+
  then have "CHR ''|'' \<notin> set (ae_current_hash f)"
    using Cons.prems(1) unfolding entry_digest_def by metis
  with f Cons show ?case by auto
qed simp

text \<open>The newest hash of a tenant's log commits to the whole log, its length included: two
  non-empty logs that verify under one secret and end in the same hash record the same entries,
  field by field except for the entry ids, if the keyed hash produces no bar and does not collide
  on the two logs, and no tenant, event, actor or time stamp contains a bar. The payload may.\<close>

theorem audit_head_commits:
  assumes "audit_verify_integrity hx lg t = Inr True" "audit_verify_integrity hx lg' t = Inr True"
    and "al_secret lg' = al_secret lg" "get_entries lg t \<noteq> []" "get_entries lg' t \<noteq> []"
    and "audit_head (get_entries lg t) = audit_head (get_entries lg' t)"
    and "\<forall>m. CHR ''|'' \<notin> set (hx (al_secret lg) m)"
    and "\<forall>e \<in> set (get_entries lg t) \<union> set (get_entries lg' t). bar_free e"
    and "inj_on (hx (al_secret lg))
      ((\<lambda>e. utf8 (entry_material e)) ` (set (get_entries lg t) \<union> set (get_entries lg' t)))"
  shows "map covered (get_entries lg t) = map covered (get_entries lg' t) \<and>
    map ae_current_hash (get_entries lg t) = map ae_current_hash (get_entries lg' t)"
proof -
  let ?E = "set (get_entries lg t) \<union> set (get_entries lg' t)"
  have v: "verify_entries hx (al_secret lg) 0 GENESIS_HASH (get_entries lg t) = Inr True"
    "verify_entries hx (al_secret lg) 0 GENESIS_HASH (get_entries lg' t) = Inr True"
    using assms(1-3) by (simp_all add: audit_verify_entries)
  have "CHR ''|'' \<notin> set GENESIS_HASH" by (simp add: GENESIS_HASH_def)
  then have "\<forall>e \<in> ?E. bar_free e \<and> CHR ''|'' \<notin> set (ae_prev_hash e)"
    using assms(8) verified_prev_bar_free [OF assms(7) _ v(1)] verified_prev_bar_free [OF assms(7) _ v(2)]
    by blast
  then have "inj_on (entry_digest hx (al_secret lg)) (covered ` ?E)"
    using assms(9) by (rule entry_digest_inj)
  with v assms(4-6) show ?thesis
    by (intro audit_chain.head_commits_length) (simp_all add: audit_head_from)
qed

text \<open>What the verification of a log cannot see: its newest entries can be dropped, and every
  entry id can be rewritten, and it still passes.\<close>

theorem truncation_and_relabelling_undetected:
  assumes "audit_verify_integrity hx lg t = Inr True"
  shows "audit_verify_integrity hx (lg\<lparr>al_store := (al_store lg)
      (t \<mapsto> take n (map (\<lambda>e. e\<lparr>ae_entry_id := f e\<rparr>) (get_entries lg t)))\<rparr>) t = Inr True"
proof -
  have relabel: "verify_entries hx s i h (map (\<lambda>e. e\<lparr>ae_entry_id := f e\<rparr>) es) = Inr True"
    if "verify_entries hx s i h es = Inr True" for s i h es
    using that
  proof (induction es arbitrary: i h)
    case (Cons e es)
    have "entry_digest hx s (e\<lparr>ae_entry_id := f e\<rparr>) = entry_digest hx s e"
      by (simp add: entry_digest_def entry_material_def)
    with Cons show ?case by (simp add: verify_entries_Cons del: verify_entries.simps)
  qed simp
  show ?thesis
    using audit_chain.verifies_prefix [OF relabel] assms
    by (simp add: audit_verify_entries) (simp add: get_entries_def)
qed

theorem audit_head_commits_witness:
  "map covered (get_entries demo_log ''acme'') = map covered (get_entries demo_log ''acme'') \<and>
   map ae_current_hash (get_entries demo_log ''acme'') = map ae_current_hash (get_entries demo_log ''acme'')"
proof (rule demo_log_two_entries)
  fix e f
  assume ef: "get_entries demo_log ''acme'' = [e, f]" "bar_free e" "bar_free f"
    "demo_hx (al_secret demo_log) (utf8 (entry_material e)) \<noteq>
     demo_hx (al_secret demo_log) (utf8 (entry_material f))"
  show ?thesis
  proof (rule audit_head_commits [of demo_hx])
    show "inj_on (demo_hx (al_secret demo_log)) ((\<lambda>e. utf8 (entry_material e)) `
        (set (get_entries demo_log ''acme'') \<union> set (get_entries demo_log ''acme'')))"
      using ef(4) by (simp add: ef(1) inj_on_def)
  qed (use ef in \<open>auto simp: demo_log_verifies demo_hx_def\<close>)
qed

theorem truncation_and_relabelling_undetected_witness:
  "audit_verify_integrity demo_hx (demo_log\<lparr>al_store := (al_store demo_log)
      (''acme'' \<mapsto> take 1 (map (\<lambda>e. e\<lparr>ae_entry_id := ''AUD-FORGED''\<rparr>)
        (get_entries demo_log ''acme'')))\<rparr>) ''acme'' = Inr True"
  by (rule truncation_and_relabelling_undetected [OF demo_log_verifies])

end
