(* ===== verification/Funds.thy ===== *)
theory Funds
  imports Prelude
begin

text \<open>
  \<^verbatim>\<open>src/domain/funds/service.py\<close>: tenant-scoped funds and the float their custodians hold. A fund
  id made by \<open>uuid4\<close> is an argument of \<open>create_fund\<close>; the lock makes each operation one step.
\<close>

section \<open>State and operations\<close>

type_synonym uuid = string

record fund =
  fd_fund_id :: uuid
  fd_tenant_id :: uuid
  fd_name :: string
  fd_currency :: string
  fd_custodian_id :: uuid
  fd_available_amount_scaled :: scaled

record custodian_balance =
  cb_fund_id :: uuid
  cb_tenant_id :: uuid
  cb_custodian_id :: uuid
  cb_currency :: string
  cb_amount_scaled :: scaled

record fund_state =
  fs_funds :: "uuid \<times> uuid \<rightharpoonup> fund"
  fs_balances :: "uuid \<times> uuid \<times> uuid \<rightharpoonup> scaled"

datatype fund_error =
    AmountNotAllowed string bool
  | AmountExceedsInt64 string
  | BadCurrencyCode
  | BlankName
  | FundNotFound
  | InsufficientAvailable
  | InsufficientAllocated

definition empty_funds :: fund_state where
  "empty_funds = \<lparr>fs_funds = Map.empty, fs_balances = Map.empty\<rparr>"

definition validate_amount :: "scaled \<Rightarrow> string \<Rightarrow> bool \<Rightarrow> fund_error + unit" where
  "validate_amount amount name allow_zero =
     (if amount < 0 \<or> amount = 0 \<and> \<not> allow_zero then Inl (AmountNotAllowed name allow_zero)
      else if amount > max_int64 then Inl (AmountExceedsInt64 name)
      else Inr ())"

definition normalize_currency :: "string \<Rightarrow> fund_error + string" where
  "normalize_currency currency =
     (let normalized = py_upper currency
      in if length normalized \<noteq> 3 then Inl BadCurrencyCode
         else if \<not> list_all is_alpha_ascii normalized then Inl BadCurrencyCode
         else Inr normalized)"

definition get_fund :: "fund_state \<Rightarrow> uuid \<Rightarrow> uuid \<Rightarrow> fund_error + fund" where
  "get_fund st tenant fid =
     (case fs_funds st (tenant, fid) of None \<Rightarrow> Inl FundNotFound | Some f \<Rightarrow> Inr f)"

definition balance_of :: "fund_state \<Rightarrow> uuid \<times> uuid \<times> uuid \<Rightarrow> scaled" where
  "balance_of st key = (case fs_balances st key of None \<Rightarrow> 0 | Some b \<Rightarrow> b)"

definition create_fund ::
  "uuid \<Rightarrow> fund_state \<Rightarrow> uuid \<Rightarrow> string \<Rightarrow> string \<Rightarrow> uuid \<Rightarrow> scaled \<Rightarrow> (fund_error + fund) \<times> fund_state" where
  "create_fund new_id st tenant name currency custodian initial =
     (case validate_amount initial ''initial_amount_scaled'' True of
        Inl e \<Rightarrow> (Inl e, st)
      | Inr _ \<Rightarrow>
        (case normalize_currency currency of
           Inl e \<Rightarrow> (Inl e, st)
         | Inr cur \<Rightarrow>
           if py_strip name = [] then (Inl BlankName, st)
           else let fund = \<lparr>fd_fund_id = new_id, fd_tenant_id = tenant, fd_name = py_strip name,
                      fd_currency = cur, fd_custodian_id = custodian,
                      fd_available_amount_scaled = initial\<rparr>
                in (Inr fund, st\<lparr>fs_funds := (fs_funds st)((tenant, new_id) \<mapsto> fund)\<rparr>)))"

definition allocate_float ::
  "fund_state \<Rightarrow> uuid \<Rightarrow> uuid \<Rightarrow> uuid \<Rightarrow> scaled \<Rightarrow> (fund_error + custodian_balance) \<times> fund_state" where
  "allocate_float st tenant fid custodian amount =
     (case validate_amount amount ''amount_scaled'' False of
        Inl e \<Rightarrow> (Inl e, st)
      | Inr _ \<Rightarrow>
        (case get_fund st tenant fid of
           Inl e \<Rightarrow> (Inl e, st)
         | Inr fund \<Rightarrow>
           if fd_available_amount_scaled fund < amount then (Inl InsufficientAvailable, st)
           else let updated = fund\<lparr>fd_available_amount_scaled := fd_available_amount_scaled fund - amount\<rparr>;
                    key = (tenant, fid, custodian);
                    balance = balance_of st key + amount
                in (Inr \<lparr>cb_fund_id = fid, cb_tenant_id = tenant, cb_custodian_id = custodian,
                          cb_currency = fd_currency fund, cb_amount_scaled = balance\<rparr>,
                    st\<lparr>fs_funds := (fs_funds st)((tenant, fid) \<mapsto> updated),
                       fs_balances := (fs_balances st)(key \<mapsto> balance)\<rparr>)))"

definition issue_disbursement ::
  "fund_state \<Rightarrow> uuid \<Rightarrow> uuid \<Rightarrow> uuid \<Rightarrow> scaled \<Rightarrow> (fund_error + custodian_balance) \<times> fund_state" where
  "issue_disbursement st tenant fid custodian amount =
     (case validate_amount amount ''amount_scaled'' False of
        Inl e \<Rightarrow> (Inl e, st)
      | Inr _ \<Rightarrow>
        (case get_fund st tenant fid of
           Inl e \<Rightarrow> (Inl e, st)
         | Inr fund \<Rightarrow>
           let key = (tenant, fid, custodian); balance = balance_of st key
           in if balance < amount then (Inl InsufficientAllocated, st)
              else let updated_balance = balance - amount
                   in (Inr \<lparr>cb_fund_id = fid, cb_tenant_id = tenant, cb_custodian_id = custodian,
                             cb_currency = fd_currency fund, cb_amount_scaled = updated_balance\<rparr>,
                       st\<lparr>fs_balances := (fs_balances st)(key \<mapsto> updated_balance)\<rparr>)))"

definition get_custodian_balance ::
  "fund_state \<Rightarrow> uuid \<Rightarrow> uuid \<Rightarrow> uuid \<Rightarrow> fund_error + custodian_balance" where
  "get_custodian_balance st tenant fid custodian =
     (case get_fund st tenant fid of
        Inl e \<Rightarrow> Inl e
      | Inr fund \<Rightarrow> Inr \<lparr>cb_fund_id = fid, cb_tenant_id = tenant, cb_custodian_id = custodian,
          cb_currency = fd_currency fund, cb_amount_scaled = balance_of st (tenant, fid, custodian)\<rparr>)"

section \<open>The successful operations\<close>

lemma validate_amount_Inr [simp]:
  "validate_amount a n z = Inr u \<longleftrightarrow> (if z then 0 \<le> a else 0 < a) \<and> a \<le> max_int64"
  by (auto simp: validate_amount_def)

lemma create_fund_Inr:
  assumes "create_fund new_id st tenant name currency custodian initial = (Inr f, st')"
  shows "0 \<le> initial \<and> initial \<le> max_int64 \<and> fd_available_amount_scaled f = initial \<and>
    fs_funds st' = (fs_funds st)((tenant, new_id) \<mapsto> f) \<and> fs_balances st' = fs_balances st"
  using assms unfolding create_fund_def
  by (auto simp: Let_def split: sum.splits if_splits)

lemma allocate_float_Inr:
  assumes "allocate_float st tenant fid custodian amount = (Inr b, st')"
  obtains f where "fs_funds st (tenant, fid) = Some f" "0 < amount"
    "amount \<le> fd_available_amount_scaled f"
    "fs_funds st' = (fs_funds st)((tenant, fid) \<mapsto>
       f\<lparr>fd_available_amount_scaled := fd_available_amount_scaled f - amount\<rparr>)"
    "fs_balances st' = (fs_balances st)((tenant, fid, custodian) \<mapsto>
       balance_of st (tenant, fid, custodian) + amount)"
    "cb_amount_scaled b = balance_of st (tenant, fid, custodian) + amount"
  using assms unfolding allocate_float_def get_fund_def
  by (auto simp: Let_def split: sum.splits if_splits option.splits)

lemma issue_disbursement_Inr:
  assumes "issue_disbursement st tenant fid custodian amount = (Inr b, st')"
  obtains f where "fs_funds st (tenant, fid) = Some f" "0 < amount"
    "amount \<le> balance_of st (tenant, fid, custodian)" "fs_funds st' = fs_funds st"
    "fs_balances st' = (fs_balances st)((tenant, fid, custodian) \<mapsto>
       balance_of st (tenant, fid, custodian) - amount)"
    "cb_amount_scaled b = balance_of st (tenant, fid, custodian) - amount"
  using assms unfolding issue_disbursement_def get_fund_def
  by (auto simp: Let_def split: sum.splits if_splits option.splits)

lemma failed_operation_keeps_state:
  "create_fund new_id st tenant name currency custodian initial = (Inl e, st') \<Longrightarrow> st' = st"
  "allocate_float st tenant fid custodian amount = (Inl e, st') \<Longrightarrow> st' = st"
  "issue_disbursement st tenant fid custodian amount = (Inl e, st') \<Longrightarrow> st' = st"
  by (auto simp: create_fund_def allocate_float_def issue_disbursement_def Let_def
      split: sum.splits if_splits)

section \<open>Conservation of the float\<close>

text \<open>
  The histories of a service: the funds' initial amounts and the amounts issued so far are
  carried along. A failed operation keeps the state, and a fresh fund id is new to the tenant.
\<close>

inductive fund_history :: "(uuid \<times> uuid \<Rightarrow> int) \<Rightarrow> (uuid \<times> uuid \<Rightarrow> int) \<Rightarrow> fund_state \<Rightarrow> bool" where
  start: "fund_history (\<lambda>_. 0) (\<lambda>_. 0) empty_funds"
| create: "fund_history ini out st \<Longrightarrow> fs_funds st (tenant, new_id) = None \<Longrightarrow>
    create_fund new_id st tenant name currency custodian amount = (Inr f, st') \<Longrightarrow>
    fund_history (ini((tenant, new_id) := amount)) out st'"
| allocate: "fund_history ini out st \<Longrightarrow>
    allocate_float st tenant fid custodian amount = (Inr b, st') \<Longrightarrow> fund_history ini out st'"
| issue: "fund_history ini out st \<Longrightarrow>
    issue_disbursement st tenant fid custodian amount = (Inr b, st') \<Longrightarrow>
    fund_history ini (out((tenant, fid) := out (tenant, fid) + amount)) st'"

definition held_in :: "uuid \<times> uuid \<Rightarrow> (uuid \<times> uuid \<times> uuid \<rightharpoonup> scaled) \<Rightarrow> int" where
  "held_in tf bal = (\<Sum>k \<in> dom bal. if (fst k, fst (snd k)) = tf then the (bal k) else 0)"

definition custody :: "fund_state \<Rightarrow> uuid \<times> uuid \<Rightarrow> int" where
  "custody st tf = held_in tf (fs_balances st)"

lemma held_in_update:
  assumes "finite (dom bal)"
  shows "held_in tf (bal(k \<mapsto> v)) = held_in tf bal +
    (if (fst k, fst (snd k)) = tf then v - (case bal k of None \<Rightarrow> 0 | Some b \<Rightarrow> b) else 0)"
proof -
  let ?g = "\<lambda>b k. if (fst k, fst (snd k)) = tf then the (b k) else (0::int)"
  let ?D = "dom bal - {k}"
  have rest: "sum (?g (bal(k \<mapsto> v))) ?D = sum (?g bal) ?D"
    by (rule sum.cong) auto
  have "held_in tf (bal(k \<mapsto> v)) = ?g (bal(k \<mapsto> v)) k + sum (?g bal) ?D"
    using assms rest by (simp add: held_in_def sum.insert_remove)
  moreover have "held_in tf bal = (if k \<in> dom bal then ?g bal k else 0) + sum (?g bal) ?D"
    using assms unfolding held_in_def by (cases "k \<in> dom bal") (auto simp: sum.remove)
  ultimately show ?thesis by (auto split: option.splits)
qed

lemma held_in_nonneg: "\<forall>k b. bal k = Some b \<longrightarrow> 0 \<le> b \<Longrightarrow> 0 \<le> held_in tf bal"
  unfolding held_in_def by (intro sum_nonneg) auto

definition fund_inv :: "(uuid \<times> uuid \<Rightarrow> int) \<Rightarrow> (uuid \<times> uuid \<Rightarrow> int) \<Rightarrow> fund_state \<Rightarrow> bool" where
  "fund_inv ini out st \<longleftrightarrow>
     finite (dom (fs_balances st)) \<and>
     (\<forall>k b. fs_balances st k = Some b \<longrightarrow> 0 \<le> b \<and> (fst k, fst (snd k)) \<in> dom (fs_funds st)) \<and>
     (\<forall>tf. tf \<notin> dom (fs_funds st) \<longrightarrow> out tf = 0) \<and>
     (\<forall>tf f. fs_funds st tf = Some f \<longrightarrow> 0 \<le> fd_available_amount_scaled f \<and> 0 \<le> out tf \<and>
        ini tf \<le> max_int64 \<and> fd_available_amount_scaled f + custody st tf + out tf = ini tf)"

lemma fund_invD:
  assumes "fund_inv ini out st"
  shows "finite (dom (fs_balances st))"
    and "fs_balances st k = Some b \<Longrightarrow> 0 \<le> b"
    and "fs_balances st k = Some b \<Longrightarrow> (fst k, fst (snd k)) \<in> dom (fs_funds st)"
    and "fs_funds st tf = Some f \<Longrightarrow> 0 \<le> fd_available_amount_scaled f \<and> 0 \<le> out tf \<and>
        ini tf \<le> max_int64 \<and> fd_available_amount_scaled f + custody st tf + out tf = ini tf"
  using assms by (simp_all add: fund_inv_def del: split_paired_All)

lemma balance_of_nonneg: "fund_inv ini out st \<Longrightarrow> 0 \<le> balance_of st k"
  unfolding fund_inv_def balance_of_def
  by (auto split: option.splits simp del: split_paired_All)

lemma custody_no_fund:
  assumes "fund_inv ini out st" "tf \<notin> dom (fs_funds st)"
  shows "custody st tf = 0"
  unfolding custody_def held_in_def
proof (rule sum.neutral, intro ballI)
  fix k
  assume "k \<in> dom (fs_balances st)"
  then have "(fst k, fst (snd k)) \<in> dom (fs_funds st)"
    using assms(1) unfolding fund_inv_def by (auto simp del: split_paired_All)
  with assms(2) show "(if (fst k, fst (snd k)) = tf then the (fs_balances st k) else 0) = 0" by auto
qed

lemma fund_inv_create:
  assumes inv: "fund_inv ini out st" and new: "fs_funds st (tenant, new_id) = None"
    and c: "create_fund new_id st tenant name currency custodian amount = (Inr f, st')"
  shows "fund_inv (ini((tenant, new_id) := amount)) out st'"
proof -
  note facts = create_fund_Inr [OF c]
  have "custody st (tenant, new_id) = 0" using inv new by (intro custody_no_fund) auto
  moreover have "custody st' tf = custody st tf" for tf using facts by (simp add: custody_def)
  ultimately show ?thesis
    using inv new facts unfolding fund_inv_def by (auto simp: domIff simp del: split_paired_All)
qed

lemma fund_inv_allocate:
  assumes inv: "fund_inv ini out st"
    and a: "allocate_float st tenant fid custodian amount = (Inr b, st')"
  shows "fund_inv ini out st'"
proof -
  obtain f where f: "fs_funds st (tenant, fid) = Some f" "0 < amount"
    "amount \<le> fd_available_amount_scaled f"
    "fs_funds st' = (fs_funds st)((tenant, fid) \<mapsto>
       f\<lparr>fd_available_amount_scaled := fd_available_amount_scaled f - amount\<rparr>)"
    "fs_balances st' = (fs_balances st)((tenant, fid, custodian) \<mapsto>
       balance_of st (tenant, fid, custodian) + amount)"
    using a by (rule allocate_float_Inr)
  have "custody st' tf = custody st tf + (if (tenant, fid) = tf then amount else 0)" for tf
    using inv by (simp add: custody_def f(5) held_in_update fund_inv_def balance_of_def
        split: option.splits)
  with inv f balance_of_nonneg [OF inv, of "(tenant, fid, custodian)"] show ?thesis
    unfolding fund_inv_def by (auto simp del: split_paired_All)
qed

lemma fund_inv_issue:
  assumes inv: "fund_inv ini out st"
    and a: "issue_disbursement st tenant fid custodian amount = (Inr b, st')"
  shows "fund_inv ini (out((tenant, fid) := out (tenant, fid) + amount)) st'"
proof -
  obtain f where f: "fs_funds st (tenant, fid) = Some f" "0 < amount"
    "amount \<le> balance_of st (tenant, fid, custodian)" "fs_funds st' = fs_funds st"
    "fs_balances st' = (fs_balances st)((tenant, fid, custodian) \<mapsto>
       balance_of st (tenant, fid, custodian) - amount)"
    using a by (rule issue_disbursement_Inr)
  have cust: "custody st' tf = custody st tf - (if (tenant, fid) = tf then amount else 0)" for tf
    using inv by (simp add: custody_def f(5) held_in_update fund_inv_def balance_of_def
        split: option.splits)
  have old: "0 \<le> fd_available_amount_scaled g \<and> 0 \<le> out tf \<and> ini tf \<le> max_int64 \<and>
      fd_available_amount_scaled g + custody st tf + out tf = ini tf"
    if "fs_funds st tf = Some g" for tf g
    using inv that unfolding fund_inv_def by blast
  have "0 \<le> fd_available_amount_scaled g \<and>
      0 \<le> (out((tenant, fid) := out (tenant, fid) + amount)) tf \<and> ini tf \<le> max_int64 \<and>
      fd_available_amount_scaled g + custody st' tf +
        (out((tenant, fid) := out (tenant, fid) + amount)) tf = ini tf"
    if "fs_funds st' tf = Some g" for tf g
    using old [of tf g] cust [of tf] that f(2,4) by (cases "tf = (tenant, fid)") auto
  with inv f show ?thesis
    unfolding fund_inv_def by (auto simp del: split_paired_All)
qed

lemma fund_history_inv: "fund_history ini out st \<Longrightarrow> fund_inv ini out st"
proof (induction rule: fund_history.induct)
  case start
  then show ?case by (simp add: fund_inv_def empty_funds_def)
next
  case create
  then show ?case by (blast intro: fund_inv_create)
next
  case allocate
  then show ?case by (blast intro: fund_inv_allocate)
next
  case issue
  then show ?case by (blast intro: fund_inv_issue)
qed

text \<open>C1. No operation creates or loses money: in every history of a service, what is still
  available in a fund, what its custodians hold and what was issued from it add up to the fund's
  initial amount, and none of the three is negative.\<close>

theorem float_conserved:
  assumes "fund_history ini out st" "fs_funds st tf = Some f"
  shows "fd_available_amount_scaled f + custody st tf + out tf = ini tf \<and>
    0 \<le> fd_available_amount_scaled f \<and> 0 \<le> custody st tf \<and> 0 \<le> out tf"
proof -
  have inv: "fund_inv ini out st" using assms(1) by (rule fund_history_inv)
  have "0 \<le> custody st tf"
    unfolding custody_def by (rule held_in_nonneg) (use fund_invD(2) [OF inv] in blast)
  with fund_invD(4) [OF inv assms(2)] show ?thesis by simp
qed

text \<open>The balance of a custodian stays inside int64 although \<open>allocate_float\<close> adds to it
  without a check: in every history it lies between zero and the initial amount of its fund, which
  \<open>create_fund\<close> has bounded.\<close>

theorem custodian_balance_bounded:
  assumes "fund_history ini out st" "fs_balances st (t, f, c) = Some b"
  shows "0 \<le> b \<and> b \<le> ini (t, f) \<and> ini (t, f) \<le> max_int64"
proof -
  have inv: "fund_inv ini out st" using assms(1) by (rule fund_history_inv)
  obtain fd where fd: "fs_funds st (t, f) = Some fd"
    using fund_invD(3) [OF inv assms(2)] by auto
  have "0 \<le> (if (fst k, fst (snd k)) = (t, f) then the (fs_balances st k) else 0)"
    if "k \<in> dom (fs_balances st)" for k
    using that fund_invD(2) [OF inv, of k] by auto
  with assms(2) have "b \<le> custody st (t, f)"
    using member_le_sum [OF _ _ fund_invD(1) [OF inv], of "(t, f, c)"
      "\<lambda>k. if (fst k, fst (snd k)) = (t, f) then the (fs_balances st k) else 0"]
    unfolding custody_def held_in_def by (simp add: domI)
  moreover note fund_invD(4) [OF inv fd] fund_invD(2) [OF inv assms(2)]
  ultimately show ?thesis by linarith
qed

section \<open>A concrete history\<close>

definition demo_created :: fund_state where
  "demo_created = snd (create_fund ''f1'' empty_funds ''t1'' '' petty '' ''usd'' ''c0'' 100)"

definition demo_allocated :: fund_state where
  "demo_allocated = snd (allocate_float demo_created ''t1'' ''f1'' ''c1'' 60)"

definition demo_issued :: fund_state where
  "demo_issued = snd (issue_disbursement demo_allocated ''t1'' ''f1'' ''c1'' 25)"

lemma demo_history:
  "fund_history ((\<lambda>_. 0)((''t1'', ''f1'') := 100)) ((\<lambda>_. 0)((''t1'', ''f1'') := 25)) demo_issued"
proof -
  have "fst (create_fund ''f1'' empty_funds ''t1'' '' petty '' ''usd'' ''c0'' 100) =
      Inr \<lparr>fd_fund_id = ''f1'', fd_tenant_id = ''t1'', fd_name = ''petty'', fd_currency = ''USD'',
           fd_custodian_id = ''c0'', fd_available_amount_scaled = 100\<rparr>" by code_simp
  then obtain f where c: "create_fund ''f1'' empty_funds ''t1'' '' petty '' ''usd'' ''c0'' 100 =
      (Inr f, demo_created)"
    by (metis demo_created_def prod.collapse)
  have "fst (allocate_float demo_created ''t1'' ''f1'' ''c1'' 60) =
      Inr \<lparr>cb_fund_id = ''f1'', cb_tenant_id = ''t1'', cb_custodian_id = ''c1'', cb_currency = ''USD'',
           cb_amount_scaled = 60\<rparr>" by code_simp
  then obtain b where a: "allocate_float demo_created ''t1'' ''f1'' ''c1'' 60 = (Inr b, demo_allocated)"
    by (metis demo_allocated_def prod.collapse)
  have "fst (issue_disbursement demo_allocated ''t1'' ''f1'' ''c1'' 25) =
      Inr \<lparr>cb_fund_id = ''f1'', cb_tenant_id = ''t1'', cb_custodian_id = ''c1'', cb_currency = ''USD'',
           cb_amount_scaled = 35\<rparr>" by code_simp
  then obtain d where i: "issue_disbursement demo_allocated ''t1'' ''f1'' ''c1'' 25 = (Inr d, demo_issued)"
    by (metis demo_issued_def prod.collapse)
  have "fs_funds empty_funds (''t1'', ''f1'') = None" by (simp add: empty_funds_def)
  note fund_history.allocate [OF fund_history.create [OF fund_history.start this c] a]
  from fund_history.issue [OF this i] show ?thesis by simp
qed

theorem float_conserved_witness:
  "custody demo_issued (''t1'', ''f1'') = 35"
proof -
  have "map_option fd_available_amount_scaled (fs_funds demo_issued (''t1'', ''f1'')) = Some 40"
    by code_simp
  then obtain f where "fs_funds demo_issued (''t1'', ''f1'') = Some f" "fd_available_amount_scaled f = 40"
    by auto
  then show ?thesis using float_conserved [OF demo_history, of "(''t1'', ''f1'')" f] by simp
qed

theorem custodian_balance_bounded_witness: "0 \<le> (35::int) \<and> (35::int) \<le> 100 \<and> (100::int) \<le> max_int64"
proof -
  have "fs_balances demo_issued (''t1'', ''f1'', ''c1'') = Some 35" by code_simp
  from custodian_balance_bounded [OF demo_history this] show ?thesis by simp
qed

end
