(* ===== verification/Float_Api.thy ===== *)
theory Float_Api
  imports Funds
begin

text \<open>
  The two front ends of the fund service: \<^verbatim>\<open>src/api/rest/float_router.py\<close> and
  \<^verbatim>\<open>src/api/grpc/float_handler.py\<close>. The request validation the pydantic fields declare is written
  out; an exception no handler catches is the status 500 the server answers with. An aborted
  gRPC call raises its status, so nothing after it runs.
\<close>

section \<open>UUID texts\<close>

text \<open>A \<open>UUID\<close> value is its 32 lower-case hex digits; \<open>UUID(text)\<close> and \<open>str(uuid)\<close> as in the
  standard library.\<close>

function remove_all :: "string \<Rightarrow> string \<Rightarrow> string" where
  "remove_all p s =
     (if p = [] \<or> s = [] then s
      else if take (length p) s = p then remove_all p (drop (length p) s)
      else hd s # remove_all p (tl s))"
  by auto
termination
  by (relation "measure (\<lambda>(p, s). length s)") (auto simp: length_greater_0_conv)

declare remove_all.simps [simp del]

definition is_hex :: "char \<Rightarrow> bool" where
  "is_hex c = (is_digit c \<or> (97 \<le> char_code c \<and> char_code c \<le> 102) \<or>
     (65 \<le> char_code c \<and> char_code c \<le> 70))"

definition is_brace :: "char \<Rightarrow> bool" where
  "is_brace c = (c = CHR ''{'' \<or> c = CHR ''}'')"

definition strip_braces :: "string \<Rightarrow> string" where
  "strip_braces s = rev (dropWhile is_brace (rev (dropWhile is_brace s)))"

text \<open>The digits \<open>int(text, 16)\<close> reads: blanks around, a sign (no minus is left here), the prefix of
  hexadecimal numbers and single underscores between the digits are accepted.\<close>

definition int16_digits :: "string \<Rightarrow> string option" where
  "int16_digits s =
     (let t = py_strip s;
          u = (if take 1 t = ''+'' then tl t else t);
          v = (if take 2 u = ''0x'' \<or> take 2 u = ''0X''
               then (if take 1 (drop 2 u) = ''_'' then drop 3 u else drop 2 u) else u);
          groups = split_on (CHR ''_'') v
      in if list_all (\<lambda>g. g \<noteq> [] \<and> list_all is_hex g) groups then Some (concat groups) else None)"

definition parse_uuid :: "string \<Rightarrow> uuid option" where
  "parse_uuid s =
     (let h = filter (\<lambda>c. c \<noteq> CHR ''-'') (strip_braces (remove_all ''uuid:'' (remove_all ''urn:'' s)))
      in if length h = 32 then map_option (\<lambda>d. zfill 32 (py_lower d)) (int16_digits h) else None)"

definition uuid_text :: "uuid \<Rightarrow> string" where
  "uuid_text u = take 8 u @ ''-'' @ take 4 (drop 8 u) @ ''-'' @ take 4 (drop 12 u) @ ''-'' @
     take 4 (drop 16 u) @ ''-'' @ drop 20 u"

section \<open>REST\<close>

definition create_request_valid :: "string \<Rightarrow> string \<Rightarrow> scaled \<Rightarrow> bool" where
  "create_request_valid name currency amount =
     (1 \<le> length name \<and> length name \<le> 255 \<and> py_strip name \<noteq> [] \<and>
      length currency = 3 \<and> list_all is_alpha_ascii currency \<and> 0 \<le> amount)"

definition rest_create_fund ::
  "uuid \<Rightarrow> fund_state \<Rightarrow> uuid \<Rightarrow> string \<Rightarrow> string \<Rightarrow> uuid \<Rightarrow> scaled \<Rightarrow> fund http \<times> fund_state" where
  "rest_create_fund new_id st tenant name currency custodian amount =
     (if \<not> create_request_valid name currency amount then (HttpError 422, st)
      else case create_fund new_id st tenant (py_strip name) (py_upper currency) custodian amount of
        (Inr f, st') \<Rightarrow> (HttpOk 201 f, st')
      | (Inl e, st') \<Rightarrow> (HttpError 500, st'))"

datatype mutation = Allocate | Issue

definition run_mutation ::
  "mutation \<Rightarrow> fund_state \<Rightarrow> uuid \<Rightarrow> uuid \<Rightarrow> uuid \<Rightarrow> scaled \<Rightarrow> (fund_error + custodian_balance) \<times> fund_state" where
  "run_mutation m st tenant fid custodian amount =
     (case m of Allocate \<Rightarrow> allocate_float st tenant fid custodian amount
      | Issue \<Rightarrow> issue_disbursement st tenant fid custodian amount)"

fun rest_error :: "fund_error \<Rightarrow> nat" where
  "rest_error FundNotFound = 404"
| "rest_error InsufficientAvailable = 409"
| "rest_error InsufficientAllocated = 409"
| "rest_error _ = 500"

definition rest_mutate ::
  "mutation \<Rightarrow> fund_state \<Rightarrow> uuid \<Rightarrow> uuid \<Rightarrow> uuid \<Rightarrow> scaled \<Rightarrow> custodian_balance http \<times> fund_state" where
  "rest_mutate m st tenant fid custodian amount =
     (if amount \<le> 0 then (HttpError 422, st)
      else case run_mutation m st tenant fid custodian amount of
        (Inr b, st') \<Rightarrow> (HttpOk 200 b, st')
      | (Inl e, st') \<Rightarrow> (HttpError (rest_error e), st'))"

definition rest_get_balance :: "fund_state \<Rightarrow> uuid \<Rightarrow> uuid \<Rightarrow> uuid \<Rightarrow> custodian_balance http" where
  "rest_get_balance st tenant fid custodian =
     (case get_custodian_balance st tenant fid custodian of
        Inr b \<Rightarrow> HttpOk 200 b | Inl e \<Rightarrow> HttpError (rest_error e))"

section \<open>gRPC\<close>

datatype 'a grpc = GrpcOk 'a | InvalidArgument | NotFound | FailedPrecondition | Unknown

fun grpc_error :: "fund_error \<Rightarrow> 'a grpc" where
  "grpc_error FundNotFound = NotFound"
| "grpc_error InsufficientAvailable = FailedPrecondition"
| "grpc_error InsufficientAllocated = FailedPrecondition"
| "grpc_error _ = InvalidArgument"

record fund_message =
  fm_fund_id :: string
  fm_tenant_id :: string
  fm_name :: string
  fm_currency :: string
  fm_custodian_id :: string
  fm_available_amount_scaled :: scaled

record balance_message =
  bm_fund_id :: string
  bm_tenant_id :: string
  bm_custodian_id :: string
  bm_currency :: string
  bm_amount_scaled :: scaled

definition balance_message_of :: "custodian_balance \<Rightarrow> balance_message" where
  "balance_message_of b = \<lparr>bm_fund_id = uuid_text (cb_fund_id b),
     bm_tenant_id = uuid_text (cb_tenant_id b), bm_custodian_id = uuid_text (cb_custodian_id b),
     bm_currency = cb_currency b, bm_amount_scaled = cb_amount_scaled b\<rparr>"

definition grpc_create_fund ::
  "uuid \<Rightarrow> fund_state \<Rightarrow> string \<Rightarrow> string \<Rightarrow> string \<Rightarrow> string \<Rightarrow> scaled \<Rightarrow> fund_message grpc \<times> fund_state" where
  "grpc_create_fund new_id st tenant_text name currency custodian_text amount =
     (case (parse_uuid tenant_text, parse_uuid custodian_text) of
        (Some tenant, Some custodian) \<Rightarrow>
          (case create_fund new_id st tenant name currency custodian amount of
             (Inl e, st') \<Rightarrow> (InvalidArgument, st')
           | (Inr f, st') \<Rightarrow>
             (GrpcOk \<lparr>fm_fund_id = uuid_text (fd_fund_id f), fm_tenant_id = uuid_text (fd_tenant_id f),
                fm_name = fd_name f, fm_currency = fd_currency f,
                fm_custodian_id = uuid_text (fd_custodian_id f),
                fm_available_amount_scaled = fd_available_amount_scaled f\<rparr>, st'))
      | _ \<Rightarrow> (InvalidArgument, st))"

definition grpc_mutate ::
  "mutation \<Rightarrow> fund_state \<Rightarrow> string \<Rightarrow> string \<Rightarrow> string \<Rightarrow> scaled \<Rightarrow> balance_message grpc \<times> fund_state" where
  "grpc_mutate m st tenant_text fund_text custodian_text amount =
     (case (parse_uuid tenant_text, parse_uuid fund_text, parse_uuid custodian_text) of
        (Some tenant, Some fid, Some custodian) \<Rightarrow>
          (case run_mutation m st tenant fid custodian amount of
             (Inl e, st') \<Rightarrow> (grpc_error e, st')
           | (Inr b, st') \<Rightarrow> (GrpcOk (balance_message_of b), st'))
      | _ \<Rightarrow> (InvalidArgument, st))"

definition grpc_get_balance :: "fund_state \<Rightarrow> string \<Rightarrow> string \<Rightarrow> string \<Rightarrow> balance_message grpc" where
  "grpc_get_balance st tenant_text fund_text custodian_text =
     (case (parse_uuid tenant_text, parse_uuid fund_text, parse_uuid custodian_text) of
        (Some tenant, Some fid, Some custodian) \<Rightarrow>
          (case get_custodian_balance st tenant fid custodian of
             Inl e \<Rightarrow> grpc_error e | Inr b \<Rightarrow> GrpcOk (balance_message_of b))
      | _ \<Rightarrow> InvalidArgument)"

section \<open>The two front ends agree\<close>

definition is_uuid :: "uuid \<Rightarrow> bool" where
  "is_uuid u = (length u = 32 \<and> list_all (\<lambda>c. is_hex c \<and> \<not> is_upper_ascii c) u)"

lemma hex_not_special:
  "is_hex c \<Longrightarrow> c \<noteq> CHR ''-'' \<and> \<not> is_brace c \<and> c \<noteq> CHR ''u''"
  by (auto simp: is_hex_def is_brace_def is_digit_def char_code_def)

lemma hex_in_number: "is_hex c \<Longrightarrow> \<not> is_space c \<and> c \<noteq> CHR ''+'' \<and> c \<noteq> CHR ''x'' \<and> c \<noteq> CHR ''X'' \<and> c \<noteq> CHR ''_''"
  by (auto simp: is_hex_def is_space_def is_digit_def char_code_def)

lemma int16_hex:
  assumes "list_all is_hex s" "s \<noteq> []"
  shows "int16_digits s = Some s"
proof -
  have hex: "is_hex c" if "c \<in> set s" for c using assms(1) that by (simp add: list_all_iff)
  have none: "dropWhile is_space xs = xs" if "set xs \<subseteq> set s" for xs
    using that hex hex_in_number by (cases xs) auto
  have strip: "py_strip s = s" by (simp only: py_strip_def none rev_rev_ident set_rev subset_refl)
  have "take 1 s \<noteq> [c]" if "\<not> is_hex c" for c
    using that hex assms(2) by (cases s) auto
  moreover have "take 2 s \<noteq> [d, c]" if "\<not> is_hex c" for c d
    using that hex in_set_takeD [of c 2 s] by auto
  moreover have "\<not> is_hex (CHR ''+'')" "\<not> is_hex (CHR ''x'')" "\<not> is_hex (CHR ''X'')" using hex_in_number by blast+
  moreover have "split_on (CHR ''_'') s = [s]" using hex hex_in_number by (intro split_on_single) blast
  ultimately show ?thesis using assms by (simp add: int16_digits_def strip)
qed

lemma remove_all_idle: "p \<noteq> [] \<Longrightarrow> hd p \<notin> set s \<Longrightarrow> remove_all p s = s"
proof (induction s)
  case Nil
  then show ?case by (simp add: remove_all.simps)
next
  case (Cons c s)
  then have "take (length p) (c # s) \<noteq> p" by (cases p) auto
  with Cons show ?case by (subst remove_all.simps) auto
qed

lemma strip_braces_idle: "\<forall>c \<in> set s. \<not> is_brace c \<Longrightarrow> strip_braces s = s"
proof -
  assume s: "\<forall>c \<in> set s. \<not> is_brace c"
  have none: "dropWhile is_brace xs = xs" if "\<forall>c \<in> set xs. \<not> is_brace c" for xs
    using that by (cases xs) auto
  have "dropWhile is_brace s = s" "dropWhile is_brace (rev s) = rev s"
    using s by (auto intro!: none)
  then show ?thesis by (simp only: strip_braces_def rev_rev_ident)
qed

lemma uuid_text_chars:
  assumes "is_uuid u" "c \<in> set (uuid_text u)"
  shows "is_hex c \<or> c = CHR ''-''"
proof -
  have "set (uuid_text u) \<subseteq> set u \<union> {CHR ''-''}"
    by (auto simp: uuid_text_def dest!: in_set_takeD in_set_dropD)
  with assms show ?thesis by (auto simp: is_uuid_def list_all_iff)
qed

lemma uuid_text_filter: "is_uuid u \<Longrightarrow> filter (\<lambda>c. c \<noteq> CHR ''-'') (uuid_text u) = u"
proof -
  assume u: "is_uuid u"
  have idle: "filter (\<lambda>c. c \<noteq> CHR ''-'') xs = xs" if "set xs \<subseteq> set u" for xs
    using u that hex_not_special by (auto simp: is_uuid_def list_all_iff filter_id_conv)
  have "filter (\<lambda>c. c \<noteq> CHR ''-'') (uuid_text u) =
      take 8 u @ take 4 (drop 8 u) @ take 4 (drop 12 u) @ take 4 (drop 16 u) @ drop 20 u"
    by (simp add: uuid_text_def idle set_take_subset set_drop_subset
        order_trans [OF set_take_subset set_drop_subset])
  also have "take 4 (drop n u) @ drop (n + 4) u = drop n u" for n
    by (metis append_take_drop_id drop_drop add.commute)
  from this [of 16] this [of 12] this [of 8]
  have "take 8 u @ take 4 (drop 8 u) @ take 4 (drop 12 u) @ take 4 (drop 16 u) @ drop 20 u = u"
    by simp
  finally show ?thesis .
qed

lemma lower_hex: "list_all (\<lambda>c. is_hex c \<and> \<not> is_upper_ascii c) u \<Longrightarrow> py_lower u = u"
  by (induction u) (auto simp: py_lower_def lower_char_def)

text \<open>The ids of a response are accepted back as they were sent.\<close>

lemma parse_uuid_text: "is_uuid u \<Longrightarrow> parse_uuid (uuid_text u) = Some u"
proof -
  assume u: "is_uuid u"
  then have h: "\<forall>c \<in> set (uuid_text u). is_hex c \<or> c = CHR ''-''" using uuid_text_chars by blast
  then have "CHR ''u'' \<notin> set (uuid_text u)" using hex_not_special by fastforce
  then have "remove_all ''uuid:'' (remove_all ''urn:'' (uuid_text u)) = uuid_text u"
    by (simp add: remove_all_idle)
  moreover have "strip_braces (uuid_text u) = uuid_text u"
    using h hex_not_special by (intro strip_braces_idle) (auto simp: is_brace_def)
  moreover have "int16_digits u = Some u" using u by (intro int16_hex) (auto simp: is_uuid_def list_all_iff)
  ultimately show ?thesis
    using u unfolding parse_uuid_def by (simp add: uuid_text_filter) (simp add: is_uuid_def lower_hex zfill_def)
qed

fun same_outcome :: "custodian_balance http \<Rightarrow> balance_message grpc \<Rightarrow> bool" where
  "same_outcome (HttpOk n b) g = (n = 200 \<and> g = GrpcOk (balance_message_of b))"
| "same_outcome (HttpError n) g =
     (n = 422 \<and> g = InvalidArgument \<or> n = 404 \<and> g = NotFound \<or> n = 409 \<and> g = FailedPrecondition)"

lemma run_mutation_error:
  assumes "run_mutation m st t f c amount = (Inl e, st')" "0 < amount" "amount \<le> max_int64"
  shows "e \<in> {FundNotFound, InsufficientAvailable, InsufficientAllocated}"
  using assms
  by (cases m) (auto simp: run_mutation_def allocate_float_def issue_disbursement_def get_fund_def
      validate_amount_def Let_def split: if_splits option.splits)

lemma run_mutation_nonpositive:
  "amount \<le> 0 \<Longrightarrow> run_mutation m st t f c amount = (Inl (AmountNotAllowed ''amount_scaled'' False), st)"
  by (cases m) (auto simp: run_mutation_def allocate_float_def issue_disbursement_def
      validate_amount_def)

text \<open>C17. For every amount a protobuf int64 can carry, the REST and the gRPC front end answer a
  mutation alike (200, 404, 409 and 422 against OK, NOT\_FOUND, FAILED\_PRECONDITION and
  INVALID\_ARGUMENT), carry the same balance and leave the same state.\<close>

theorem rest_grpc_mutations_agree:
  assumes "is_uuid t" "is_uuid f" "is_uuid c" "amount \<le> max_int64"
  shows "same_outcome (fst (rest_mutate m st t f c amount))
      (fst (grpc_mutate m st (uuid_text t) (uuid_text f) (uuid_text c) amount)) \<and>
    snd (rest_mutate m st t f c amount) =
      snd (grpc_mutate m st (uuid_text t) (uuid_text f) (uuid_text c) amount)"
proof (cases "amount \<le> 0")
  case True
  then show ?thesis
    using assms by (simp add: rest_mutate_def grpc_mutate_def parse_uuid_text run_mutation_nonpositive)
next
  case False
  obtain r st' where r: "run_mutation m st t f c amount = (r, st')" by (cases "run_mutation m st t f c amount")
  show ?thesis
  proof (cases r)
    case (Inl e)
    with r False assms(4) have "e \<in> {FundNotFound, InsufficientAvailable, InsufficientAllocated}"
      using run_mutation_error by simp
    with Inl r False assms show ?thesis
      by (auto simp: rest_mutate_def grpc_mutate_def parse_uuid_text)
  next
    case (Inr b)
    with r False assms show ?thesis
      by (simp add: rest_mutate_def grpc_mutate_def parse_uuid_text)
  qed
qed

text \<open>Above int64 they part: a REST request with such an amount passes the request validation and
  ends in an unhandled error (500) on every mutating endpoint, although the service refused it
  with the error that gRPC reports as INVALID\_ARGUMENT. The state is kept.\<close>

theorem oversized_amount_unhandled:
  assumes "max_int64 < amount" "create_request_valid name currency amount"
  shows "rest_create_fund new_id st t name currency c amount = (HttpError 500, st) \<and>
    rest_mutate m st t f c amount = (HttpError 500, st) \<and>
    (\<exists>e. run_mutation m st t f c amount = (Inl e, st) \<and> grpc_error e = (InvalidArgument :: unit grpc))"
proof -
  have big: "validate_amount amount n z = Inl (AmountExceedsInt64 n)" for n z
    using assms(1) by (auto simp: validate_amount_def max_int64_def)
  have "\<not> amount \<le> 0" using assms(1) by (simp add: max_int64_def)
  moreover have "run_mutation m st t f c amount = (Inl (AmountExceedsInt64 ''amount_scaled''), st)"
    using big by (cases m) (simp_all add: run_mutation_def allocate_float_def issue_disbursement_def)
  ultimately show ?thesis
    using assms(2) big by (simp add: rest_mutate_def rest_create_fund_def create_fund_def)
qed

theorem rest_grpc_mutations_agree_witness:
  "snd (rest_mutate Allocate demo_created (replicate 32 (CHR ''a'')) (replicate 32 (CHR ''b''))
      (replicate 32 (CHR ''c'')) 7) =
   snd (grpc_mutate Allocate demo_created (uuid_text (replicate 32 (CHR ''a'')))
      (uuid_text (replicate 32 (CHR ''b''))) (uuid_text (replicate 32 (CHR ''c''))) 7)"
proof -
  have "is_uuid (replicate 32 (CHR ''a''))" "is_uuid (replicate 32 (CHR ''b''))"
    "is_uuid (replicate 32 (CHR ''c''))" "(7::int) \<le> max_int64" by code_simp+
  from rest_grpc_mutations_agree [OF this] show ?thesis by blast
qed

theorem oversized_amount_unhandled_witness:
  "rest_create_fund ''f1'' empty_funds ''t1'' ''petty'' ''usd'' ''c0'' (2 ^ 63) = (HttpError 500, empty_funds)"
proof -
  have "max_int64 < 2 ^ 63" by (simp add: max_int64_def)
  moreover have "create_request_valid ''petty'' ''usd'' (2 ^ 63)" by code_simp
  ultimately show ?thesis using oversized_amount_unhandled by blast
qed

end
