(* ===== verification/Currency.thy ===== *)
theory Currency
  imports Prelude
begin

text \<open>
  \<^verbatim>\<open>src/domain/currency/exchange_rates.py\<close>: the rate table, its sorted index, the memo of
  resolved rates, lookup with triangulation through USD, conversion and revaluation. A float rate
  reaches the table through its sign test and through \<open>int(round(rate * RATE_SCALE))\<close>; both are
  parameters (\<open>float_ops\<close>). Today's date is an argument.
\<close>

section \<open>State and errors\<close>

definition RATE_SCALE :: int where "RATE_SCALE = 1000000"

record 'r float_ops =
  fo_nonpos :: "'r \<Rightarrow> bool"
  fo_scale :: "'r \<Rightarrow> int"

datatype currency_error =
    BadCurrency string
  | RateNotPositive
  | BlankSource
  | BadDateFormat
  | RateVanishes string string
  | StoredRateInvalid string string
  | CrossRateInvalid string string string
  | NoRateFound string string string
  | NegativeAmount
  | ConversionRateNotPositive string string

record rate_store =
  rs_rates :: "string \<times> string \<times> string \<rightharpoonup> int"
  rs_index :: "string \<times> string \<rightharpoonup> (string \<times> int) list"
  rs_cache :: "string \<times> string \<times> string \<rightharpoonup> int"

definition empty_rates :: rate_store where
  "empty_rates = \<lparr>rs_rates = Map.empty, rs_index = Map.empty, rs_cache = Map.empty\<rparr>"

text \<open>\<open>str.isalpha\<close> below U+0100.\<close>

definition py_isalpha_char :: "char \<Rightarrow> bool" where
  "py_isalpha_char c = (is_alpha_ascii c \<or> char_code c \<in> {170, 181, 186} \<or>
     (192 \<le> char_code c \<and> char_code c \<noteq> 215 \<and> char_code c \<noteq> 247))"

definition normalize_currency_code :: "string \<Rightarrow> string \<Rightarrow> currency_error + string" where
  "normalize_currency_code currency field =
     (let normalized = py_upper (py_strip currency)
      in if length normalized \<noteq> 3 \<or> \<not> list_all py_isalpha_char normalized
         then Inl (BadCurrency field) else Inr normalized)"

definition date_or_today :: "string option \<Rightarrow> string \<Rightarrow> string" where
  "date_or_today d today = (case d of None \<Rightarrow> today | Some s \<Rightarrow> if s = [] then today else s)"

section \<open>The sorted index\<close>

text \<open>The scan of \<open>_index_rate\<close> for an entry of the same date.\<close>

fun replace_date :: "string \<Rightarrow> int \<Rightarrow> (string \<times> int) list \<Rightarrow> (string \<times> int) list option" where
  "replace_date d r [] = None"
| "replace_date d r (e # es) =
     (if fst e = d then Some ((d, r) # es) else map_option (Cons e) (replace_date d r es))"

definition index_rate :: "string \<Rightarrow> string \<Rightarrow> string \<Rightarrow> int \<Rightarrow> rate_store \<Rightarrow> rate_store" where
  "index_rate base quote d r st =
     (let entries = (case rs_index st (base, quote) of None \<Rightarrow> [] | Some es \<Rightarrow> es);
          entries' = (case replace_date d r entries of
             Some es \<Rightarrow> sort_key fst es
           | None \<Rightarrow> sort_key fst (entries @ [(d, r)]))
      in st\<lparr>rs_index := (rs_index st)((base, quote) \<mapsto> entries')\<rparr>)"

text \<open>\<open>bisect.bisect_right\<close>: the insertion point after the entries equal to \<open>x\<close>.\<close>

function bisect_loop :: "'a::linorder list \<Rightarrow> 'a \<Rightarrow> nat \<Rightarrow> nat \<Rightarrow> nat" where
  "bisect_loop a x lo hi =
     (if lo < hi then
        (let mid = (lo + hi) div 2
         in if x < a ! mid then bisect_loop a x lo mid else bisect_loop a x (mid + 1) hi)
      else lo)"
  by auto
termination
  by (relation "measure (\<lambda>(a, x, lo, hi). hi - lo)") auto

declare bisect_loop.simps [simp del]

definition bisect_right :: "'a::linorder list \<Rightarrow> 'a \<Rightarrow> nat" where
  "bisect_right a x = bisect_loop a x 0 (length a)"

definition lookup_indexed_rate ::
  "rate_store \<Rightarrow> string \<Rightarrow> string \<Rightarrow> string \<Rightarrow> currency_error + int option" where
  "lookup_indexed_rate st base quote d =
     (let entries = (case rs_index st (base, quote) of None \<Rightarrow> [] | Some es \<Rightarrow> es)
      in if entries = [] then Inr None
         else let index = int (bisect_right (map fst entries) d) - 1;
                  selected = snd (if index \<ge> 0 then entries ! nat index else entries ! 0)
              in if selected \<le> 0 then Inl (StoredRateInvalid base quote) else Inr (Some selected))"

section \<open>Registering a rate\<close>

definition inverse_rate :: "int \<Rightarrow> int" where
  "inverse_rate scaled = (RATE_SCALE * RATE_SCALE + scaled div 2) div scaled"

definition set_rate ::
  "'r float_ops \<Rightarrow> string \<Rightarrow> rate_store \<Rightarrow> string \<Rightarrow> string \<Rightarrow> 'r \<Rightarrow> string option \<Rightarrow> string \<Rightarrow>
   (currency_error + unit) \<times> rate_store" where
  "set_rate fo today st base_currency quote_currency rate effective_date source =
     (case normalize_currency_code base_currency ''base_currency'' of
        Inl e \<Rightarrow> (Inl e, st)
      | Inr base \<Rightarrow>
        (case normalize_currency_code quote_currency ''quote_currency'' of
           Inl e \<Rightarrow> (Inl e, st)
         | Inr quote \<Rightarrow>
           if fo_nonpos fo rate then (Inl RateNotPositive, st)
           else if py_strip source = [] then (Inl BlankSource, st)
           else let d = date_or_today effective_date today; scaled = fo_scale fo rate
           in if length d \<noteq> 10 then (Inl BadDateFormat, st)
              else if scaled \<le> 0 then (Inl (RateVanishes base quote), st)
              else
                let st1 = index_rate base quote d scaled
                      (st\<lparr>rs_rates := (rs_rates st)((base, quote, d) \<mapsto> scaled)\<rparr>);
                    rev_rate = inverse_rate scaled;
                    st2 = (if scaled > 0
                      then index_rate quote base d rev_rate
                        (st1\<lparr>rs_rates := (rs_rates st1)((quote, base, d) \<mapsto> rev_rate)\<rparr>)
                      else st1)
                in (Inr (), st2\<lparr>rs_cache := Map.empty\<rparr>)))"

section \<open>Looking a rate up\<close>

definition cache_rate :: "string \<times> string \<times> string \<Rightarrow> int \<Rightarrow> rate_store \<Rightarrow> rate_store" where
  "cache_rate key r st = st\<lparr>rs_cache := (rs_cache st)(key \<mapsto> r)\<rparr>"

text \<open>The recursion through USD ends because each leg has USD on one side.\<close>

definition non_usd :: "string \<Rightarrow> nat" where
  "non_usd c = (if normalize_currency_code c ''from_currency'' = Inr ''USD'' then 0 else 1)"

lemma normalize_field:
  "normalize_currency_code c f = Inr n \<longleftrightarrow> normalize_currency_code c g = Inr n"
  by (auto simp: normalize_currency_code_def Let_def)

lemma normalize_usd [simp]: "normalize_currency_code ''USD'' f = Inr ''USD''"
proof -
  have "normalize_currency_code ''USD'' ''from_currency'' = Inr ''USD''" by code_simp
  then show ?thesis using normalize_field by blast
qed

lemma normalize_idem:
  assumes "normalize_currency_code c f = Inr n"
  shows "normalize_currency_code n g = Inr n"
  using assms by (auto simp: normalize_currency_code_def Let_def py_strip_upper split: if_splits)

lemma non_usd_norm: "normalize_currency_code c f = Inr n \<Longrightarrow> non_usd c = (if n = ''USD'' then 0 else 1)"
  using normalize_field [of c f n "''from_currency''"] by (auto simp: non_usd_def)

function get_rate_scaled ::
  "string \<Rightarrow> rate_store \<Rightarrow> string \<Rightarrow> string \<Rightarrow> string option \<Rightarrow> (currency_error + int) \<times> rate_store" where
  "get_rate_scaled today st from_currency to_currency date =
     (case normalize_currency_code from_currency ''from_currency'' of
        Inl e \<Rightarrow> (Inl e, st)
      | Inr fc \<Rightarrow>
        (case normalize_currency_code to_currency ''to_currency'' of
           Inl e \<Rightarrow> (Inl e, st)
         | Inr tc \<Rightarrow>
           let dt = date_or_today date today in
           if fc = tc then (Inr RATE_SCALE, st)
           else case rs_cache st (fc, tc, dt) of
             Some r \<Rightarrow> (Inr r, st)
           | None \<Rightarrow>
             (case rs_rates st (fc, tc, dt) of
                Some r \<Rightarrow>
                  if r \<le> 0 then (Inl (StoredRateInvalid fc tc), st)
                  else (Inr r, cache_rate (fc, tc, dt) r st)
              | None \<Rightarrow>
                (case lookup_indexed_rate st fc tc dt of
                   Inl e \<Rightarrow> (Inl e, st)
                 | Inr (Some r) \<Rightarrow> (Inr r, cache_rate (fc, tc, dt) r st)
                 | Inr None \<Rightarrow>
                   if fc \<noteq> ''USD'' \<and> tc \<noteq> ''USD'' then
                     (case get_rate_scaled today st fc ''USD'' (Some dt) of
                        (Inl e, st1) \<Rightarrow> (Inl e, st1)
                      | (Inr a, st1) \<Rightarrow>
                        (case get_rate_scaled today st1 ''USD'' tc (Some dt) of
                           (Inl e, st2) \<Rightarrow> (Inl e, st2)
                         | (Inr b, st2) \<Rightarrow>
                           if a \<le> 0 \<or> b \<le> 0 then (Inl (CrossRateInvalid fc tc dt), st2)
                           else let r = (a * b + RATE_SCALE div 2) div RATE_SCALE
                                in (Inr r, cache_rate (fc, tc, dt) r st2)))
                   else (Inl (NoRateFound fc tc dt), st)))))"
  by pat_completeness auto
termination
proof (relation "measure (\<lambda>(today, st, f, t, d). non_usd f + non_usd t)", goal_cases)
  case 1
  then show ?case by simp
next
  case (2 today st f t d fc tc)
  then have "non_usd fc = 1" "non_usd f = 1" "non_usd t = 1" "non_usd ''USD'' = 0"
    using non_usd_norm normalize_idem by (auto simp: non_usd_def)
  then show ?case by simp
next
  case (3 today st f t d fc tc)
  then have "non_usd tc = 1" "non_usd f = 1" "non_usd t = 1" "non_usd ''USD'' = 0"
    using non_usd_norm normalize_idem by (auto simp: non_usd_def)
  then show ?case by simp
qed

declare get_rate_scaled.simps [simp del]

section \<open>Conversion and revaluation\<close>

definition convert ::
  "string \<Rightarrow> rate_store \<Rightarrow> scaled \<Rightarrow> string \<Rightarrow> string \<Rightarrow> string option \<Rightarrow> (currency_error + scaled) \<times> rate_store" where
  "convert today st amount from_currency to_currency date =
     (if amount < 0 then (Inl NegativeAmount, st)
      else case normalize_currency_code from_currency ''from_currency'' of
        Inl e \<Rightarrow> (Inl e, st)
      | Inr fc \<Rightarrow>
        (case normalize_currency_code to_currency ''to_currency'' of
           Inl e \<Rightarrow> (Inl e, st)
         | Inr tc \<Rightarrow>
           if fc = tc then (Inr amount, st)
           else case get_rate_scaled today st fc tc date of
             (Inl e, st') \<Rightarrow> (Inl e, st')
           | (Inr r, st') \<Rightarrow>
             if r \<le> 0 then (Inl (ConversionRateNotPositive fc tc), st')
             else (Inr ((amount * r + RATE_SCALE div 2) div RATE_SCALE), st')))"

definition revalue_amount ::
  "string \<Rightarrow> rate_store \<Rightarrow> scaled \<Rightarrow> string \<Rightarrow> string \<Rightarrow> string \<Rightarrow> string option \<Rightarrow>
   (currency_error + scaled \<times> scaled \<times> scaled) \<times> rate_store" where
  "revalue_amount today st amount from_currency base_currency historical_date current_date =
     (if amount < 0 then (Inl NegativeAmount, st)
      else let curr_dt = date_or_today current_date today
      in case convert today st amount from_currency base_currency (Some historical_date) of
           (Inl e, st1) \<Rightarrow> (Inl e, st1)
         | (Inr hist, st1) \<Rightarrow>
           (case convert today st1 amount from_currency base_currency (Some curr_dt) of
              (Inl e, st2) \<Rightarrow> (Inl e, st2)
            | (Inr now_val, st2) \<Rightarrow> (Inr (hist, now_val, now_val - hist), st2)))"

section \<open>Bisection\<close>

definition splits_at :: "'a::linorder list \<Rightarrow> 'a \<Rightarrow> nat \<Rightarrow> bool" where
  "splits_at a x k \<longleftrightarrow> k \<le> length a \<and> (\<forall>i < k. a ! i \<le> x) \<and> (\<forall>i. k \<le> i \<and> i < length a \<longrightarrow> x < a ! i)"

lemma bisect_loop_splits:
  assumes "sorted a" "lo \<le> hi" "hi \<le> length a" "\<forall>i < lo. a ! i \<le> x"
    and "\<forall>i. hi \<le> i \<and> i < length a \<longrightarrow> x < a ! i"
  shows "splits_at a x (bisect_loop a x lo hi)"
  using assms
proof (induction a x lo hi rule: bisect_loop.induct)
  case (1 a x lo hi)
  note prems = "1.prems"
  show ?case
  proof (cases "lo < hi")
    case False
    with prems show ?thesis
      by (subst bisect_loop.simps) (auto simp: splits_at_def)
  next
    case True
    define mid where "mid = (lo + hi) div 2"
    have mid: "lo \<le> mid" "mid < hi" using True by (auto simp: mid_def)
    show ?thesis
    proof (cases "x < a ! mid")
      case below: True
      have "\<forall>i. mid \<le> i \<and> i < length a \<longrightarrow> x < a ! i"
        using sorted_nth_mono [OF prems(1)] below by fastforce
      then have "splits_at a x (bisect_loop a x lo mid)"
        using "1.IH"(1) [OF True mid_def below] prems mid by simp
      with True below show ?thesis
        by (subst bisect_loop.simps) (simp add: mid_def Let_def)
    next
      case above: False
      have "\<forall>i < mid + 1. a ! i \<le> x"
      proof (intro allI impI)
        fix i
        assume "i < mid + 1"
        then have "a ! i \<le> a ! mid" using sorted_nth_mono [OF prems(1)] mid prems(3) by simp
        with above show "a ! i \<le> x" by simp
      qed
      then have "splits_at a x (bisect_loop a x (mid + 1) hi)"
        using "1.IH"(2) [OF True mid_def above] prems mid by simp
      with True above show ?thesis
        by (subst bisect_loop.simps) (simp add: mid_def Let_def)
    qed
  qed
qed

lemma bisect_right_splits: "sorted a \<Longrightarrow> splits_at a x (bisect_right a x)"
  unfolding bisect_right_def by (rule bisect_loop_splits) auto

lemma splits_at_filter:
  assumes "splits_at (map f xs) x k"
  shows "filter (\<lambda>y. f y \<le> x) xs = take k xs" "k \<le> length xs"
proof -
  have k: "k \<le> length xs" "\<And>i. i < k \<Longrightarrow> f (xs ! i) \<le> x"
    "\<And>i. k \<le> i \<Longrightarrow> i < length xs \<Longrightarrow> x < f (xs ! i)"
    using assms by (auto simp: splits_at_def)
  have "filter (\<lambda>y. f y \<le> x) (take k xs) = take k xs"
    using k(1,2) by (auto simp: filter_id_conv in_set_conv_nth)
  moreover have "filter (\<lambda>y. f y \<le> x) (drop k xs) = []"
    using k(3) by (auto simp: filter_empty_conv in_set_conv_nth not_le)
  ultimately show "filter (\<lambda>y. f y \<le> x) xs = take k xs"
    by (metis append_take_drop_id filter_append append_Nil2)
  show "k \<le> length xs" by (rule k(1))
qed

section \<open>The reference lookup\<close>

definition entries_of :: "rate_store \<Rightarrow> string \<times> string \<Rightarrow> (string \<times> int) list" where
  "entries_of st pair = (case rs_index st pair of None \<Rightarrow> [] | Some es \<Rightarrow> es)"

text \<open>The latest entry not after the date, or the earliest when all are later.\<close>

definition pick_rate :: "string \<Rightarrow> (string \<times> int) list \<Rightarrow> int option" where
  "pick_rate d es =
     (if es = [] then None
      else let past = filter (\<lambda>e. fst e \<le> d) es
           in Some (snd (if past = [] then hd es else last past)))"

definition direct_rate :: "rate_store \<Rightarrow> string \<Rightarrow> string \<Rightarrow> string \<Rightarrow> currency_error + int option" where
  "direct_rate st f t d =
     (case pick_rate d (entries_of st (f, t)) of
        None \<Rightarrow> Inr None
      | Some r \<Rightarrow> if r \<le> 0 then Inl (StoredRateInvalid f t) else Inr (Some r))"

definition usd_leg :: "rate_store \<Rightarrow> string \<Rightarrow> string \<Rightarrow> string \<Rightarrow> currency_error + int" where
  "usd_leg st f t d =
     (if f = t then Inr RATE_SCALE
      else case direct_rate st f t d of
        Inl e \<Rightarrow> Inl e
      | Inr None \<Rightarrow> Inl (NoRateFound f t d)
      | Inr (Some r) \<Rightarrow> Inr r)"

definition resolve_rate :: "rate_store \<Rightarrow> string \<Rightarrow> string \<Rightarrow> string \<Rightarrow> currency_error + int" where
  "resolve_rate st f t d =
     (if f = ''USD'' \<or> t = ''USD'' \<or> f = t then usd_leg st f t d
      else case direct_rate st f t d of
        Inl e \<Rightarrow> Inl e
      | Inr (Some r) \<Rightarrow> Inr r
      | Inr None \<Rightarrow>
        bind_result (usd_leg st f ''USD'' d) (\<lambda>a.
        bind_result (usd_leg st ''USD'' t d) (\<lambda>b.
        Inr ((a * b + RATE_SCALE div 2) div RATE_SCALE))))"

definition table_ok :: "rate_store \<Rightarrow> bool" where
  "table_ok st \<longleftrightarrow>
     (\<forall>p. sorted (map fst (entries_of st p)) \<and> distinct (map fst (entries_of st p))) \<and>
     (\<forall>b q d. rs_rates st (b, q, d) = map_of (entries_of st (b, q)) d)"

definition cache_valid :: "rate_store \<Rightarrow> bool" where
  "cache_valid st \<longleftrightarrow> (\<forall>f t d r. rs_cache st (f, t, d) = Some r \<longrightarrow> resolve_rate st f t d = Inr r)"

lemma last_take: "0 < n \<Longrightarrow> n \<le> length xs \<Longrightarrow> last (take n xs) = xs ! (n - 1)"
  by (cases n) (auto simp: take_Suc_conv_app_nth)

lemma lookup_indexed_direct:
  assumes "table_ok st"
  shows "lookup_indexed_rate st b q d = direct_rate st b q d"
proof (cases "entries_of st (b, q) = []")
  case True
  then show ?thesis
    unfolding lookup_indexed_rate_def entries_of_def [symmetric]
    by (simp add: direct_rate_def pick_rate_def)
next
  case False
  let ?es = "entries_of st (b, q)"
  let ?n = "bisect_right (map fst ?es) d"
  have "splits_at (map fst ?es) d ?n"
    using assms by (intro bisect_right_splits) (simp add: table_ok_def)
  note past = splits_at_filter [OF this]
  have "(if int ?n - 1 \<ge> 0 then ?es ! nat (int ?n - 1) else ?es ! 0) =
      (if filter (\<lambda>e. fst e \<le> d) ?es = [] then hd ?es else last (filter (\<lambda>e. fst e \<le> d) ?es))"
    using False past(2) by (auto simp: past(1) last_take hd_conv_nth nat_diff_distrib')
  with False show ?thesis
    unfolding lookup_indexed_rate_def entries_of_def [symmetric]
    by (simp add: direct_rate_def pick_rate_def Let_def)
qed

lemma pick_exact:
  assumes "sorted (map fst es)" "distinct (map fst es)" "map_of es d = Some r"
  shows "pick_rate d es = Some r"
proof -
  let ?past = "filter (\<lambda>e. fst e \<le> d) es"
  have mem: "(d, r) \<in> set ?past" using map_of_SomeD [OF assms(3)] by simp
  then have "?past \<noteq> []" by (metis empty_iff list.set(1))
  moreover have "sorted (map fst ?past)" using assms(1) by (rule sorted_filter)
  from sorted_last_ge [OF this mem] have "d \<le> fst (last ?past)" by simp
  moreover have "last ?past \<in> set ?past" using \<open>?past \<noteq> []\<close> by (rule last_in_set)
  ultimately have "fst (last ?past) = d" "last ?past \<in> set es" by auto
  then have "map_of es d = Some (snd (last ?past))"
    using assms(2) by (metis map_of_is_SomeI prod.collapse)
  with assms(3) \<open>?past \<noteq> []\<close> show ?thesis by (auto simp: pick_rate_def Let_def)
qed

section \<open>Registering keeps table and index in step\<close>

lemma replace_date_None: "replace_date d r es = None \<Longrightarrow> d \<notin> fst ` set es"
  by (induction es) (auto split: if_splits)

lemma replace_date_Some:
  "replace_date d r es = Some es' \<Longrightarrow> map fst es' = map fst es \<and> map_of es' = (map_of es)(d \<mapsto> r)"
  by (induction es arbitrary: es') (auto split: if_splits simp: fun_eq_iff)

lemma entries_index_rate:
  assumes "distinct (map fst (entries_of st (b, q)))"
  shows "map_of (entries_of (index_rate b q d r st) (b, q)) = (map_of (entries_of st (b, q)))(d \<mapsto> r)"
    and "sorted (map fst (entries_of (index_rate b q d r st) (b, q)))"
    and "distinct (map fst (entries_of (index_rate b q d r st) (b, q)))"
    and "p \<noteq> (b, q) \<Longrightarrow> entries_of (index_rate b q d r st) p = entries_of st p"
    and "rs_rates (index_rate b q d r st) = rs_rates st"
proof -
  let ?es = "entries_of st (b, q)"
  define new where "new = (case replace_date d r ?es of Some es \<Rightarrow> es | None \<Rightarrow> ?es @ [(d, r)])"
  have e: "entries_of (index_rate b q d r st) (b, q) = sort_key fst new"
    unfolding index_rate_def entries_of_def [symmetric]
    by (simp add: entries_of_def [of "_\<lparr>rs_index := _\<rparr>"] new_def Let_def split: option.splits)
  have new: "distinct (map fst new)" "map_of new = (map_of ?es)(d \<mapsto> r)"
  proof (atomize (full), cases "replace_date d r ?es")
    case None
    then have "map_of ?es d = None" using replace_date_None by (simp add: map_of_eq_None_iff)
    then show "distinct (map fst new) \<and> map_of new = (map_of ?es)(d \<mapsto> r)"
      using None assms replace_date_None [OF None]
      by (auto simp: new_def fun_eq_iff map_add_def split: option.splits)
  next
    case (Some es)
    then show "distinct (map fst new) \<and> map_of new = (map_of ?es)(d \<mapsto> r)"
      using assms replace_date_Some [OF Some] by (simp add: new_def)
  qed
  then show "map_of (entries_of (index_rate b q d r st) (b, q)) = (map_of ?es)(d \<mapsto> r)"
    by (simp add: e map_of_sort_key)
  show "sorted (map fst (entries_of (index_rate b q d r st) (b, q)))" by (simp add: e)
  show "distinct (map fst (entries_of (index_rate b q d r st) (b, q)))"
    using new(1) unfolding e by (simp only: distinct_map distinct_sort set_sort)
  show "p \<noteq> (b, q) \<Longrightarrow> entries_of (index_rate b q d r st) p = entries_of st p"
    by (auto simp: index_rate_def entries_of_def Let_def)
  show "rs_rates (index_rate b q d r st) = rs_rates st" by (simp add: index_rate_def Let_def)
qed

lemma table_ok_step:
  assumes "table_ok st"
  shows "table_ok (index_rate b q d r (st\<lparr>rs_rates := (rs_rates st)((b, q, d) \<mapsto> r)\<rparr>))"
proof -
  let ?st = "st\<lparr>rs_rates := (rs_rates st)((b, q, d) \<mapsto> r)\<rparr>"
  have same: "entries_of ?st = entries_of st" by (simp add: entries_of_def fun_eq_iff)
  have "distinct (map fst (entries_of ?st (b, q)))" using assms by (simp add: same table_ok_def)
  note e = entries_index_rate [OF this, where d = d and r = r]
  have old: "sorted (map fst (entries_of st p)) \<and> distinct (map fst (entries_of st p))" for p
    using assms unfolding table_ok_def by blast
  show ?thesis
    unfolding table_ok_def
  proof (intro conjI allI)
    fix p
    show "sorted (map fst (entries_of (index_rate b q d r ?st) p))"
      using old e(2) e(4) [of p] same by (cases "p = (b, q)") simp_all
    show "distinct (map fst (entries_of (index_rate b q d r ?st) p))"
      using old e(3) e(4) [of p] same by (cases "p = (b, q)") simp_all
  next
    fix x y z
    show "rs_rates (index_rate b q d r ?st) (x, y, z) =
        map_of (entries_of (index_rate b q d r ?st) (x, y)) z"
      using assms e(1) e(4) [of "(x, y)"] same
      by (cases "(x, y) = (b, q)") (auto simp: table_ok_def e(5))
  qed
qed

lemma table_ok_cache [simp]: "table_ok (st\<lparr>rs_cache := c\<rparr>) = table_ok st"
  by (simp add: table_ok_def entries_of_def)

definition store_ok :: "rate_store \<Rightarrow> bool" where
  "store_ok st \<longleftrightarrow> table_ok st \<and> cache_valid st"

lemma store_ok_empty: "store_ok empty_rates"
  by (simp add: store_ok_def table_ok_def cache_valid_def empty_rates_def entries_of_def)

lemma store_ok_set_rate:
  assumes "store_ok st" "set_rate fo today st b q r d src = (res, st')"
  shows "store_ok st'"
proof -
  have "table_ok st" using assms(1) by (simp add: store_ok_def)
  with assms show ?thesis
    unfolding set_rate_def
    by (auto simp: Let_def store_ok_def cache_valid_def intro!: table_ok_step split: sum.splits if_splits)
qed

section \<open>The lookup refines the reference\<close>

definition same_table :: "rate_store \<Rightarrow> rate_store \<Rightarrow> bool" where
  "same_table st st' \<longleftrightarrow> rs_index st' = rs_index st \<and> rs_rates st' = rs_rates st"

lemma same_table_refl [simp]: "same_table st st"
  by (simp add: same_table_def)

lemma same_table_resolve: "same_table st st' \<Longrightarrow> resolve_rate st' = resolve_rate st"
proof -
  assume "same_table st st'"
  then have "entries_of st' p = entries_of st p" for p by (simp add: same_table_def entries_of_def)
  then have "direct_rate st' f t d = direct_rate st f t d" for f t d by (simp only: direct_rate_def)
  then have "usd_leg st' f t d = usd_leg st f t d" "direct_rate st' f t d = direct_rate st f t d" for f t d
    by (simp_all only: usd_leg_def)
  then show ?thesis by (intro ext) (simp only: resolve_rate_def)
qed

lemma store_ok_cache_rate:
  assumes "store_ok st" "resolve_rate st f t d = Inr r"
  shows "store_ok (cache_rate (f, t, d) r st)" "same_table st (cache_rate (f, t, d) r st)"
proof -
  show same: "same_table st (cache_rate (f, t, d) r st)" by (simp add: same_table_def cache_rate_def)
  with assms show "store_ok (cache_rate (f, t, d) r st)"
    by (auto simp: store_ok_def cache_valid_def same_table_resolve [OF same])
      (auto simp: cache_rate_def split: if_splits)
qed

definition resolves :: "rate_store \<Rightarrow> (currency_error + int) \<times> rate_store \<Rightarrow> currency_error + int \<Rightarrow> bool" where
  "resolves st out ref \<longleftrightarrow> fst out = ref \<and> store_ok (snd out) \<and> same_table st (snd out)"

lemma resolves_cached:
  "store_ok st' \<Longrightarrow> same_table st st' \<Longrightarrow> resolve_rate st' f t d = Inr r \<Longrightarrow>
   resolves st (Inr r, cache_rate (f, t, d) r st') (Inr r)"
  using store_ok_cache_rate [of st' f t d r] by (simp add: resolves_def same_table_def)

text \<open>A lookup that the exact table or the index answers needs no recursion.\<close>

lemma stored_direct:
  assumes "table_ok st" "rs_rates st (f, t, d) = Some r"
  shows "direct_rate st f t d = (if r \<le> 0 then Inl (StoredRateInvalid f t) else Inr (Some r))"
proof -
  have "pick_rate d (entries_of st (f, t)) = Some r"
    using assms by (intro pick_exact) (auto simp: table_ok_def)
  then show ?thesis by (simp add: direct_rate_def)
qed

lemma get_rate_usd_leg:
  assumes ok: "store_ok st"
    and n: "normalize_currency_code from_c ''from_currency'' = Inr f"
      "normalize_currency_code to_c ''to_currency'' = Inr t"
    and usd: "f = ''USD'' \<or> t = ''USD'' \<or> f = t \<or> direct_rate st f t (date_or_today d today) \<noteq> Inr None"
  shows "resolves st (get_rate_scaled today st from_c to_c d) (resolve_rate st f t (date_or_today d today))"
proof (cases "f = t")
  case True
  with ok n show ?thesis
    by (simp add: get_rate_scaled.simps [of today st from_c] resolves_def resolve_rate_def
        usd_leg_def Let_def)
next
  case False
  let ?d = "date_or_today d today"
  have table: "table_ok st" using ok by (simp add: store_ok_def)
  show ?thesis
  proof (cases "rs_cache st (f, t, ?d)")
    case (Some r)
    then have "resolve_rate st f t ?d = Inr r" using ok by (simp add: store_ok_def cache_valid_def)
    with False Some ok n show ?thesis
      by (simp add: get_rate_scaled.simps [of today st from_c] resolves_def Let_def)
  next
    case None
    have stored: "rs_rates st (f, t, ?d) = Some r \<Longrightarrow> direct_rate st f t ?d =
        (if r \<le> 0 then Inl (StoredRateInvalid f t) else Inr (Some r))" for r
      using stored_direct [OF table] .
    have indexed: "lookup_indexed_rate st f t ?d = direct_rate st f t ?d"
      using table by (rule lookup_indexed_direct)
    have hit: "resolve_rate st f t ?d = Inr r" if "direct_rate st f t ?d = Inr (Some r)" for r
      using that False by (simp add: resolve_rate_def usd_leg_def)
    have err: "resolve_rate st f t ?d = Inl e" if "direct_rate st f t ?d = Inl e" for e
      using that False by (simp add: resolve_rate_def usd_leg_def)
    have miss: "resolve_rate st f t ?d = Inl (NoRateFound f t ?d)"
      if "direct_rate st f t ?d = Inr None"
      using that usd False by (auto simp: resolve_rate_def usd_leg_def)
    show ?thesis
    proof (cases "rs_rates st (f, t, ?d)")
      case (Some r)
      have "get_rate_scaled today st from_c to_c d =
          (if r \<le> 0 then (Inl (StoredRateInvalid f t), st) else (Inr r, cache_rate (f, t, ?d) r st))"
        using n False None Some by (simp add: get_rate_scaled.simps [of today st from_c] Let_def)
      with stored [OF Some] hit err ok show ?thesis
        by (auto simp: resolves_def [of _ "(Inl _, _)"] intro!: resolves_cached)
    next
      case no_rate: None
      have out: "get_rate_scaled today st from_c to_c d =
          (case direct_rate st f t ?d of Inl e \<Rightarrow> (Inl e, st)
           | Inr (Some r) \<Rightarrow> (Inr r, cache_rate (f, t, ?d) r st)
           | Inr None \<Rightarrow> (Inl (NoRateFound f t ?d), st))"
        if "f = ''USD'' \<or> t = ''USD'' \<or> direct_rate st f t ?d \<noteq> Inr None"
        using that n False None no_rate indexed
        by (subst get_rate_scaled.simps) (auto simp: Let_def split: sum.splits option.splits)
      have "f = ''USD'' \<or> t = ''USD'' \<or> direct_rate st f t ?d \<noteq> Inr None"
        using usd False by blast
      note out = out [OF this]
      show ?thesis
      proof (cases "direct_rate st f t ?d")
        case (Inl e)
        with out err ok show ?thesis by (simp add: resolves_def)
      next
        case (Inr x)
        with out hit miss ok show ?thesis
          by (cases x) (auto simp: resolves_def [of _ "(Inl _, _)"] intro!: resolves_cached)
      qed
    qed
  qed
qed

lemma date_or_today_idem [simp]: "date_or_today (Some (date_or_today d today)) today = date_or_today d today"
  by (auto simp: date_or_today_def split: option.splits)

lemma usd_leg_pos: "usd_leg st f t d = Inr r \<Longrightarrow> 0 < r"
  by (auto simp: usd_leg_def direct_rate_def RATE_SCALE_def split: if_splits option.splits sum.splits)

lemma resolve_usd: "f = ''USD'' \<or> t = ''USD'' \<Longrightarrow> resolve_rate st f t d = usd_leg st f t d"
  by (auto simp: resolve_rate_def)

lemma resolves_same_table:
  "resolves st out ref \<Longrightarrow> resolve_rate (snd out) = resolve_rate st"
  by (simp add: resolves_def same_table_resolve)

lemma get_rate_cross:
  assumes ok: "store_ok st"
    and n: "normalize_currency_code from_c ''from_currency'' = Inr f"
      "normalize_currency_code to_c ''to_currency'' = Inr t"
    and ne: "f \<noteq> ''USD''" "t \<noteq> ''USD''" "f \<noteq> t"
    and none: "direct_rate st f t (date_or_today d today) = Inr None"
    and uncached: "rs_cache st (f, t, date_or_today d today) = None"
  shows "resolves st (get_rate_scaled today st from_c to_c d) (resolve_rate st f t (date_or_today d today))"
proof -
  let ?d = "date_or_today d today"
  let ?out1 = "get_rate_scaled today st f ''USD'' (Some ?d)"
  let ?out2 = "get_rate_scaled today (snd ?out1) ''USD'' t (Some ?d)"
  have table: "table_ok st" using ok by (simp add: store_ok_def)
  have norm: "normalize_currency_code f ''from_currency'' = Inr f"
    "normalize_currency_code t ''to_currency'' = Inr t"
    using n normalize_idem by blast+
  have r1: "resolves st ?out1 (usd_leg st f ''USD'' ?d)"
    using get_rate_usd_leg [OF ok norm(1), of "''USD''" "''USD''" "Some ?d" today] resolve_usd by simp
  then have ok1: "store_ok (snd ?out1)" by (simp add: resolves_def)
  have r2: "resolves (snd ?out1) ?out2 (usd_leg st ''USD'' t ?d)"
    using get_rate_usd_leg [OF ok1 _ norm(2), of "''USD''" "''USD''" "Some ?d" today]
      resolves_same_table [OF r1] resolve_usd by simp
  have rates: "rs_rates st (f, t, ?d) = None"
  proof (cases "rs_rates st (f, t, ?d)")
    case (Some r)
    from stored_direct [OF table this] none show ?thesis by (simp split: if_splits)
  qed
  have lookup: "lookup_indexed_rate st f t ?d = Inr None"
    using lookup_indexed_direct [OF table] none by simp
  have ref: "resolve_rate st f t ?d = bind_result (usd_leg st f ''USD'' ?d) (\<lambda>a.
      bind_result (usd_leg st ''USD'' t ?d) (\<lambda>b.
      Inr ((a * b + RATE_SCALE div 2) div RATE_SCALE)))"
    using ne none by (simp add: resolve_rate_def)
  note out = get_rate_scaled.simps [of today st from_c to_c d]
  show ?thesis
  proof (cases "usd_leg st f ''USD'' ?d")
    case (Inl e)
    with r1 obtain st1 where "?out1 = (Inl e, st1)" by (cases ?out1) (auto simp: resolves_def)
    with r1 Inl ref n ne uncached rates lookup show ?thesis
      by (simp add: out Let_def resolves_def)
  next
    case a: (Inr a)
    with r1 obtain st1 where st1: "?out1 = (Inr a, st1)" by (cases ?out1) (auto simp: resolves_def)
    show ?thesis
    proof (cases "usd_leg st ''USD'' t ?d")
      case (Inl e)
      with r2 st1 obtain st2 where "get_rate_scaled today st1 ''USD'' t (Some ?d) = (Inl e, st2)"
        by (cases ?out2) (auto simp: resolves_def)
      with r1 r2 st1 a Inl ref n ne uncached rates lookup show ?thesis
        by (simp add: out Let_def resolves_def same_table_def)
    next
      case b: (Inr b)
      with r2 st1 obtain st2 where st2: "get_rate_scaled today st1 ''USD'' t (Some ?d) = (Inr b, st2)"
        by (cases ?out2) (auto simp: resolves_def)
      have pos: "0 < a" "0 < b" using a b by (auto dest: usd_leg_pos)
      let ?r = "(a * b + RATE_SCALE div 2) div RATE_SCALE"
      have "get_rate_scaled today st from_c to_c d = (Inr ?r, cache_rate (f, t, ?d) ?r st2)"
        using st1 st2 pos n ne uncached rates lookup by (simp add: out Let_def)
      moreover have "store_ok st2" "same_table st st2"
        using r1 r2 st1 st2 by (simp_all add: resolves_def same_table_def)
      moreover have "resolve_rate st f t ?d = Inr ?r" using ref a b by simp
      ultimately show ?thesis
        using resolves_cached same_table_resolve by metis
    qed
  qed
qed

lemma get_rate_resolved:
  assumes ok: "store_ok st"
    and n: "normalize_currency_code from_c ''from_currency'' = Inr f"
      "normalize_currency_code to_c ''to_currency'' = Inr t"
  shows "resolves st (get_rate_scaled today st from_c to_c d) (resolve_rate st f t (date_or_today d today))"
proof (cases "f = ''USD'' \<or> t = ''USD'' \<or> f = t \<or> direct_rate st f t (date_or_today d today) \<noteq> Inr None")
  case True
  with assms show ?thesis by (rule get_rate_usd_leg)
next
  case False
  show ?thesis
  proof (cases "rs_cache st (f, t, date_or_today d today)")
    case None
    with False assms show ?thesis by (intro get_rate_cross) auto
  next
    case (Some r)
    then have "resolve_rate st f t (date_or_today d today) = Inr r"
      using ok by (simp add: store_ok_def cache_valid_def)
    with Some False ok n show ?thesis
      by (simp add: get_rate_scaled.simps [of today st from_c] resolves_def Let_def)
  qed
qed

lemma get_rate_bad_code:
  assumes "\<not> (\<exists>f t. normalize_currency_code from_c ''from_currency'' = Inr f \<and>
      normalize_currency_code to_c ''to_currency'' = Inr t)"
  shows "\<exists>field. get_rate_scaled today st from_c to_c d = (Inl (BadCurrency field), st)"
  using assms
  by (subst get_rate_scaled.simps)
    (auto simp: normalize_currency_code_def Let_def split: sum.splits if_splits)

section \<open>Histories and the properties\<close>

lemma store_ok_get_rate: "store_ok st \<Longrightarrow> store_ok (snd (get_rate_scaled today st f t d))"
proof (cases "\<exists>x y. normalize_currency_code f ''from_currency'' = Inr x \<and>
    normalize_currency_code t ''to_currency'' = Inr y")
  case True
  assume "store_ok st"
  with True show ?thesis using get_rate_resolved by (fastforce simp: resolves_def)
next
  case False
  assume ok: "store_ok st"
  obtain e where "get_rate_scaled today st f t d = (Inl e, st)"
    using get_rate_bad_code [OF False, of today st d] by blast
  with ok show ?thesis by simp
qed

lemma store_ok_convert: "store_ok st \<Longrightarrow> store_ok (snd (convert today st a f t d))"
proof -
  assume ok: "store_ok st"
  have "store_ok (snd (get_rate_scaled today st x y d))" for x y
    using ok by (rule store_ok_get_rate)
  then have "store_ok st'" if "get_rate_scaled today st x y d = (res, st')" for x y res st'
    using that by (metis snd_conv)
  with ok show ?thesis
    by (auto simp: convert_def split: sum.splits prod.splits if_splits)
qed

inductive rates_reachable :: "'r float_ops \<Rightarrow> rate_store \<Rightarrow> bool" for fo where
  empty: "rates_reachable fo empty_rates"
| set_rate: "rates_reachable fo st \<Longrightarrow> set_rate fo today st b q r d src = (res, st') \<Longrightarrow>
    rates_reachable fo st'"
| get_rate: "rates_reachable fo st \<Longrightarrow> get_rate_scaled today st f t d = (res, st') \<Longrightarrow>
    rates_reachable fo st'"
| convert: "rates_reachable fo st \<Longrightarrow> convert today st a f t d = (res, st') \<Longrightarrow> rates_reachable fo st'"

lemma rates_reachable_ok: "rates_reachable fo st \<Longrightarrow> store_ok st"
proof (induction rule: rates_reachable.induct)
  case empty
  show ?case by (rule store_ok_empty)
next
  case set_rate
  then show ?case by (blast intro: store_ok_set_rate)
next
  case (get_rate st today f t d res st')
  then show ?case using store_ok_get_rate [of st today f t d] by simp
next
  case (convert st today a f t d res st')
  then show ?case using store_ok_convert [of st today a f t d] by simp
qed

text \<open>C8. The lookup refines its reference: after any history of registrations, lookups and
  conversions, whatever the memo holds, the answer for two well-formed codes is the latest rate
  not after the date, else the earliest one, else the rounded product of the two legs through
  USD; the memo, the exact-date table and the bisected index never change it.\<close>

theorem get_rate_refines_reference:
  assumes "rates_reachable fo st"
    and "normalize_currency_code from_c ''from_currency'' = Inr f"
    and "normalize_currency_code to_c ''to_currency'' = Inr t"
  shows "fst (get_rate_scaled today st from_c to_c d) = resolve_rate st f t (date_or_today d today)"
  using get_rate_resolved [OF rates_reachable_ok [OF assms(1)] assms(2,3)] by (simp add: resolves_def)

lemma rounded_div:
  fixes p :: int
  shows "2 * \<bar>(p + RATE_SCALE div 2) div RATE_SCALE * RATE_SCALE - p\<bar> \<le> RATE_SCALE"
  by (simp add: RATE_SCALE_def)

text \<open>C18. A conversion is exact up to half a unit of the target's last digit: it keeps the amount
  when the currencies agree, and otherwise multiplies by the reference rate, which is positive,
  and rounds to the nearest unit. It never turns an amount negative.\<close>

theorem convert_rounds_to_nearest:
  assumes "rates_reachable fo st" "fst (convert today st amount from_c to_c d) = Inr v"
  shows "0 \<le> v \<and> (\<exists>f t. normalize_currency_code from_c ''from_currency'' = Inr f \<and>
    normalize_currency_code to_c ''to_currency'' = Inr t \<and>
    (if f = t then v = amount
     else \<exists>r > 0. resolve_rate st f t (date_or_today d today) = Inr r \<and>
       2 * \<bar>v * RATE_SCALE - amount * r\<bar> \<le> RATE_SCALE))"
proof -
  obtain f t where n: "normalize_currency_code from_c ''from_currency'' = Inr f"
    "normalize_currency_code to_c ''to_currency'' = Inr t" and pos: "0 \<le> amount"
    using assms(2) by (auto simp: convert_def split: if_splits sum.splits)
  show ?thesis
  proof (cases "f = t")
    case True
    with n pos assms(2) show ?thesis by (simp add: convert_def)
  next
    case False
    then obtain r st' where r: "get_rate_scaled today st f t d = (Inr r, st')" "0 < r"
      "v = (amount * r + RATE_SCALE div 2) div RATE_SCALE"
      using n pos assms(2) by (auto simp: convert_def split: sum.splits prod.splits if_splits)
    have "resolve_rate st f t (date_or_today d today) = Inr r"
      using get_rate_resolved [OF rates_reachable_ok [OF assms(1)], where from_c = f and f = f and to_c = t and t = t and d = d and today = today]
        normalize_idem [OF n(1)] normalize_idem [OF n(2)] r(1) by (simp add: resolves_def)
    moreover have "0 \<le> amount * r" using pos r(2) by simp
    then have "0 \<le> v" by (simp add: r(3) RATE_SCALE_def pos_imp_zdiv_nonneg_iff)
    ultimately show ?thesis
      using False n r(2) rounded_div [of "amount * r"] by (auto simp: r(3))
  qed
qed

text \<open>Registering a rate above two million loses its inverse: \<open>set_rate\<close> succeeds, but the stored
  inverse rounds to zero, and the reverse lookup on that day raises the invalid-rate error.\<close>

theorem huge_rate_has_no_inverse:
  assumes "b \<noteq> q"
    and "normalize_currency_code b ''base_currency'' = Inr b"
    and "normalize_currency_code q ''quote_currency'' = Inr q"
    and "\<not> fo_nonpos fo rate" "2 * RATE_SCALE * RATE_SCALE < fo_scale fo rate"
    and "py_strip source \<noteq> []" "length date = 10"
  shows "fst (set_rate fo today st b q rate (Some date) source) = Inr () \<and>
    fst (get_rate_scaled today (snd (set_rate fo today st b q rate (Some date) source)) q b (Some date)) =
      Inl (StoredRateInvalid q b)"
proof -
  have inv0: "inverse_rate (fo_scale fo rate) = 0" and pos: "0 < fo_scale fo rate"
    using assms(5) by (simp_all add: inverse_rate_def RATE_SCALE_def div_pos_pos_trivial)
  have d: "date_or_today (Some date) today = date" using assms(7) by (auto simp: date_or_today_def)
  let ?out = "set_rate fo today st b q rate (Some date) source"
  have "fst ?out = Inr ()" and "rs_rates (snd ?out) (q, b, date) = Some 0" and "rs_cache (snd ?out) = Map.empty"
    using assms pos d by (simp_all add: set_rate_def Let_def inv0 index_rate_def)
  moreover have "normalize_currency_code q ''from_currency'' = Inr q"
    "normalize_currency_code b ''to_currency'' = Inr b"
    using assms(2,3) normalize_field by blast+
  ultimately show ?thesis
    using assms(1) d by (subst get_rate_scaled.simps) (simp add: Let_def)
qed

section \<open>A concrete store\<close>

definition demo_fo :: "int float_ops" where
  "demo_fo = \<lparr>fo_nonpos = (\<lambda>r. r \<le> 0), fo_scale = (\<lambda>r. r)\<rparr>"

definition demo_rates :: rate_store where
  "demo_rates = snd (set_rate demo_fo ''2026-01-05''
     (snd (set_rate demo_fo ''2026-01-05'' empty_rates ''eur'' ''USD'' 1080000 (Some ''2026-01-01'') ''ECB''))
     ''USD'' '' gbp '' 750000 None ''ECB'')"

lemma demo_rates_reachable: "rates_reachable demo_fo demo_rates"
  unfolding demo_rates_def
  by (rule rates_reachable.set_rate [OF rates_reachable.set_rate [OF rates_reachable.empty]];
      rule prod.collapse [symmetric])

lemma demo_codes:
  "normalize_currency_code ''eur'' ''from_currency'' = Inr ''EUR''"
  "normalize_currency_code ''GBP'' ''to_currency'' = Inr ''GBP''"
  "normalize_currency_code ''BTC'' ''base_currency'' = Inr ''BTC''"
  "normalize_currency_code ''IDR'' ''quote_currency'' = Inr ''IDR''"
  by code_simp+

theorem get_rate_refines_reference_witness:
  "fst (get_rate_scaled ''2026-02-01'' demo_rates ''eur'' ''GBP'' None) = Inr 810000"
proof -
  have "resolve_rate demo_rates ''EUR'' ''GBP'' (date_or_today None ''2026-02-01'') = Inr 810000"
    by code_simp
  then show ?thesis
    using get_rate_refines_reference [OF demo_rates_reachable demo_codes(1,2)] by simp
qed

theorem convert_rounds_to_nearest_witness:
  "fst (convert ''2026-02-01'' demo_rates 455000 ''eur'' ''GBP'' None) = Inr 368550 \<and> (0::int) \<le> 368550"
proof -
  have v: "fst (convert ''2026-02-01'' demo_rates 455000 ''eur'' ''GBP'' None) = Inr 368550"
    by code_simp
  with convert_rounds_to_nearest [OF demo_rates_reachable v] show ?thesis by blast
qed

theorem huge_rate_has_no_inverse_witness:
  "fst (get_rate_scaled ''2026-02-01'' (snd (set_rate demo_fo ''2026-02-01'' empty_rates ''BTC'' ''IDR''
      1600000000000000 (Some ''2026-01-01'') ''ECB'')) ''IDR'' ''BTC'' (Some ''2026-01-01'')) =
    Inl (StoredRateInvalid ''IDR'' ''BTC'')"
proof -
  have "py_strip ''ECB'' \<noteq> []" by code_simp
  then show ?thesis
    using huge_rate_has_no_inverse [of "''BTC''" "''IDR''" demo_fo 1600000000000000 "''ECB''" "''2026-01-01''"]
      demo_codes(3,4)
    by (simp add: demo_fo_def RATE_SCALE_def)
qed

end
