(* ===== verification/Ranked_Fsm.thy ===== *)
theory Ranked_Fsm
  imports Prelude
begin

text \<open>
  The contract of a life cycle that only moves forward: a partial step function on states and
  events together with a rank that every step increases. The approval workflow and the wallet
  settlement interpret it.
\<close>

locale ranked_fsm =
  fixes fsm_step :: "'s \<Rightarrow> 'e \<Rightarrow> 's option"
    and rank :: "'s \<Rightarrow> nat"
    and top_rank :: nat
  assumes step_rank: "fsm_step s e = Some s' \<Longrightarrow> rank s < rank s'"
    and rank_top: "rank s \<le> top_rank"
begin

fun run_events :: "'s \<Rightarrow> 'e list \<Rightarrow> 's option" where
  "run_events s [] = Some s"
| "run_events s (e # es) = (case fsm_step s e of None \<Rightarrow> None | Some s' \<Rightarrow> run_events s' es)"

lemma run_events_snoc:
  "run_events s (es @ [e]) = (case run_events s es of None \<Rightarrow> None | Some s' \<Rightarrow> fsm_step s' e)"
  by (induction es arbitrary: s) (auto split: option.splits)

lemma run_events_rank: "run_events s es = Some s' \<Longrightarrow> rank s + length es \<le> rank s'"
proof (induction es arbitrary: s)
  case (Cons e es)
  then obtain t where t: "fsm_step s e = Some t" "run_events t es = Some s'"
    by (auto split: option.splits)
  then show ?case using Cons.IH [OF t(2)] step_rank [OF t(1)] by simp
qed simp

lemma run_events_length: "run_events s es = Some s' \<Longrightarrow> rank s + length es \<le> top_rank"
  using run_events_rank rank_top le_trans by blast

lemma no_return: "run_events s es = Some s \<Longrightarrow> es = []"
  using run_events_rank [of s es s] by simp

lemma top_rank_terminal: "rank s = top_rank \<Longrightarrow> fsm_step s e = None"
  using step_rank [of s e] rank_top by (cases "fsm_step s e") (auto simp: leD)

end

end
