(* ===== verification/Workflow_Fsm.thy ===== *)
theory Workflow_Fsm
  imports Ranked_Fsm
begin

text \<open>
  \<^verbatim>\<open>src/domain/workflow/state_machine.py\<close>: the transition table of an approval request and the
  machine that applies events to it and writes its audit trail. Each transition's uuid and clock
  reading are arguments.
\<close>

section \<open>Data\<close>

datatype approval_state = DRAFT | PENDING | APPROVED | REJECTED | DISBURSED

datatype approval_event = SUBMIT | APPROVE | REJECT | DISBURSE | CANCEL

definition transition_table :: "((approval_state \<times> approval_event) \<times> approval_state) list" where
  "transition_table =
     [((DRAFT, SUBMIT), PENDING),
      ((DRAFT, CANCEL), REJECTED),
      ((PENDING, APPROVE), APPROVED),
      ((PENDING, REJECT), REJECTED),
      ((APPROVED, DISBURSE), DISBURSED)]"

definition terminal_states :: "approval_state list" where
  "terminal_states = [REJECTED, DISBURSED]"

record transition_record =
  tr_transition_id :: string
  tr_request_id :: string
  tr_tenant_id :: string
  tr_from_state :: approval_state
  tr_event :: approval_event
  tr_to_state :: approval_state
  tr_actor_id :: string
  tr_notes :: "string option"
  tr_timestamp :: time

record approval_request =
  ar_request_id :: string
  ar_tenant_id :: string
  ar_custodian_id :: string
  ar_amount_scaled :: scaled
  ar_currency :: string
  ar_description :: string
  ar_required_approval_tier :: string
  ar_state :: approval_state
  ar_audit_trail :: "transition_record list"
  ar_created_at :: time
  ar_updated_at :: time

datatype fsm_error = InvalidStateTransition approval_state approval_event string

definition is_terminal :: "approval_request \<Rightarrow> bool" where
  "is_terminal r = (ar_state r \<in> set terminal_states)"

section \<open>The machine\<close>

definition can_transition :: "approval_request \<Rightarrow> approval_event \<Rightarrow> bool" where
  "can_transition r event = (map_of transition_table (ar_state r, event) \<noteq> None)"

definition transition ::
  "string \<Rightarrow> time \<Rightarrow> approval_event \<Rightarrow> string \<Rightarrow> string option \<Rightarrow> approval_request \<Rightarrow>
   (fsm_error + approval_state) \<times> approval_request" where
  "transition uid now event actor_id notes r =
     (case map_of transition_table (ar_state r, event) of
        None \<Rightarrow> (Inl (InvalidStateTransition (ar_state r) event (ar_request_id r)), r)
      | Some to_state \<Rightarrow>
        (let rec = \<lparr>tr_transition_id = uid, tr_request_id = ar_request_id r,
               tr_tenant_id = ar_tenant_id r, tr_from_state = ar_state r, tr_event = event,
               tr_to_state = to_state, tr_actor_id = actor_id, tr_notes = notes,
               tr_timestamp = now\<rparr>
         in (Inr to_state,
             r\<lparr>ar_audit_trail := ar_audit_trail r @ [rec], ar_state := to_state,
               ar_updated_at := now\<rparr>)))"

definition fsm_submit where "fsm_submit uid now = transition uid now SUBMIT"
definition fsm_approve where "fsm_approve uid now = transition uid now APPROVE"
definition fsm_reject where "fsm_reject uid now = transition uid now REJECT"
definition fsm_disburse where "fsm_disburse uid now = transition uid now DISBURSE"
definition fsm_cancel where "fsm_cancel uid now = transition uid now CANCEL"

lemmas fsm_event_defs = fsm_submit_def fsm_approve_def fsm_reject_def fsm_disburse_def fsm_cancel_def

definition create_machine ::
  "string \<Rightarrow> time \<Rightarrow> string \<Rightarrow> string \<Rightarrow> scaled \<Rightarrow> string \<Rightarrow> string \<Rightarrow> string option \<Rightarrow> approval_request" where
  "create_machine uid now tenant custodian amount currency description request_id =
     \<lparr>ar_request_id = (case request_id of None \<Rightarrow> uid | Some i \<Rightarrow> if i = [] then uid else i),
      ar_tenant_id = tenant, ar_custodian_id = custodian, ar_amount_scaled = amount,
      ar_currency = currency, ar_description = description, ar_required_approval_tier = [],
      ar_state = DRAFT, ar_audit_trail = [], ar_created_at = now, ar_updated_at = now\<rparr>"

definition valid_events :: "approval_request \<Rightarrow> approval_event list" where
  "valid_events r = map (\<lambda>((s, e), t). e) (filter (\<lambda>((s, e), t). s = ar_state r) transition_table)"

section \<open>The table as a ranked life cycle\<close>

definition table_step :: "approval_state \<Rightarrow> approval_event \<Rightarrow> approval_state option" where
  "table_step s e = map_of transition_table (s, e)"

fun state_rank :: "approval_state \<Rightarrow> nat" where
  "state_rank DRAFT = 0"
| "state_rank PENDING = 1"
| "state_rank APPROVED = 2"
| "state_rank REJECTED = 3"
| "state_rank DISBURSED = 3"

lemma table_step_simps [simp]:
  "table_step DRAFT e = (case e of SUBMIT \<Rightarrow> Some PENDING | CANCEL \<Rightarrow> Some REJECTED | _ \<Rightarrow> None)"
  "table_step PENDING e = (case e of APPROVE \<Rightarrow> Some APPROVED | REJECT \<Rightarrow> Some REJECTED | _ \<Rightarrow> None)"
  "table_step APPROVED e = (case e of DISBURSE \<Rightarrow> Some DISBURSED | _ \<Rightarrow> None)"
  "table_step REJECTED e = None"
  "table_step DISBURSED e = None"
  by (cases e; simp add: table_step_def transition_table_def)+

interpretation approval_cycle: ranked_fsm table_step state_rank 3
proof
  show "table_step s e = Some s' \<Longrightarrow> state_rank s < state_rank s'" for s e s'
    by (cases s; cases e) auto
  show "state_rank s \<le> 3" for s by (cases s) auto
qed

lemma transition_cases:
  obtains (refused) "table_step (ar_state r) ev = None"
      "transition uid now ev actor nts r =
        (Inl (InvalidStateTransition (ar_state r) ev (ar_request_id r)), r)"
  | (moved) s rec where "table_step (ar_state r) ev = Some s"
      "transition uid now ev actor nts r =
        (Inr s, r\<lparr>ar_audit_trail := ar_audit_trail r @ [rec], ar_state := s, ar_updated_at := now\<rparr>)"
      "tr_from_state rec = ar_state r" "tr_event rec = ev" "tr_to_state rec = s"
      "tr_actor_id rec = actor" "tr_notes rec = nts" "tr_request_id rec = ar_request_id r"
      "tr_tenant_id rec = ar_tenant_id r" "tr_timestamp rec = now"
  by (cases "table_step (ar_state r) ev") (auto simp: transition_def table_step_def Let_def)

text \<open>An event list read off a trail, and what a trail must look like.\<close>

definition trail_ok :: "approval_request \<Rightarrow> bool" where
  "trail_ok r \<longleftrightarrow>
     approval_cycle.run_events DRAFT (map tr_event (ar_audit_trail r)) = Some (ar_state r) \<and>
     (\<forall>n < length (ar_audit_trail r).
        approval_cycle.run_events DRAFT (map tr_event (take n (ar_audit_trail r))) =
          Some (tr_from_state (ar_audit_trail r ! n)) \<and>
        approval_cycle.run_events DRAFT (map tr_event (take (Suc n) (ar_audit_trail r))) =
          Some (tr_to_state (ar_audit_trail r ! n))) \<and>
     (\<forall>t \<in> set (ar_audit_trail r). tr_request_id t = ar_request_id r \<and> tr_tenant_id t = ar_tenant_id r)"

lemma trail_ok_transition:
  assumes "trail_ok r"
  shows "trail_ok (snd (transition uid now ev actor nts r))"
proof (cases rule: transition_cases [of r ev uid now actor nts])
  case refused
  with assms show ?thesis by simp
next
  case (moved s rec)
  have "approval_cycle.run_events DRAFT (map tr_event (take n (ar_audit_trail r @ [rec]))) =
      Some (tr_from_state ((ar_audit_trail r @ [rec]) ! n)) \<and>
    approval_cycle.run_events DRAFT (map tr_event (take (Suc n) (ar_audit_trail r @ [rec]))) =
      Some (tr_to_state ((ar_audit_trail r @ [rec]) ! n))"
    if "n < Suc (length (ar_audit_trail r))" for n
    using assms moved that
    by (cases "n = length (ar_audit_trail r)")
      (auto simp: trail_ok_def nth_append approval_cycle.run_events_snoc less_Suc_eq)
  with assms moved show ?thesis
    by (auto simp: trail_ok_def approval_cycle.run_events_snoc)
qed

section \<open>What the trail of a request can be\<close>

fun trail_shapes :: "approval_state \<Rightarrow> approval_event list list" where
  "trail_shapes DRAFT = [[]]"
| "trail_shapes PENDING = [[SUBMIT]]"
| "trail_shapes APPROVED = [[SUBMIT, APPROVE]]"
| "trail_shapes REJECTED = [[CANCEL], [SUBMIT, REJECT]]"
| "trail_shapes DISBURSED = [[SUBMIT, APPROVE, DISBURSE]]"

lemma run_events_shapes:
  "approval_cycle.run_events DRAFT es = Some s \<longleftrightarrow> es \<in> set (trail_shapes s)"
proof
  assume run: "approval_cycle.run_events DRAFT es = Some s"
  then have "length es \<le> 3" using approval_cycle.run_events_length [of DRAFT es s] by simp
  then obtain a b c where "es = [] \<or> es = [a] \<or> es = [a, b] \<or> es = [a, b, c]"
    by (cases es; cases "tl es"; cases "tl (tl es)") auto
  with run show "es \<in> set (trail_shapes s)"
    by (auto split: approval_event.splits option.splits)
next
  assume "es \<in> set (trail_shapes s)"
  then show "approval_cycle.run_events DRAFT es = Some s" by (cases s) auto
qed

lemma trail_ok_shapes: "trail_ok r \<Longrightarrow> map tr_event (ar_audit_trail r) \<in> set (trail_shapes (ar_state r))"
  by (simp add: trail_ok_def run_events_shapes)

record attempt =
  at_uid :: string
  at_now :: time
  at_event :: approval_event
  at_actor :: string
  at_notes :: "string option"

definition run_machine :: "attempt list \<Rightarrow> approval_request \<Rightarrow> approval_request" where
  "run_machine as r =
     foldl (\<lambda>r a. snd (transition (at_uid a) (at_now a) (at_event a) (at_actor a) (at_notes a) r)) r as"

lemma trail_ok_run: "trail_ok r \<Longrightarrow> trail_ok (run_machine as r)"
  by (induction as arbitrary: r) (auto simp: run_machine_def trail_ok_transition)

lemma trail_ok_create: "trail_ok (create_machine uid now t c a cur d i)"
  by (simp add: trail_ok_def create_machine_def)

text \<open>Whatever events are attempted on a new request, its trail is a path of the transition table; a request
  that was cancelled as a draft ends in the same state as one that was rejected.\<close>

lemma trail_is_a_path:
  "trail_ok (run_machine as (create_machine uid now t c a cur d i)) \<and>
   map tr_event (ar_audit_trail (run_machine as (create_machine uid now t c a cur d i))) \<in>
     set (trail_shapes (ar_state (run_machine as (create_machine uid now t c a cur d i))))"
  using trail_ok_run [OF trail_ok_create] trail_ok_shapes by blast

text \<open>The graph in the head of the module, which has no edge for the cancellation of a draft, and the only way
  it has from DRAFT to each state.\<close>

definition approval_graph :: "(approval_state \<times> approval_event \<times> approval_state) list" where
  "approval_graph = [(DRAFT, SUBMIT, PENDING), (PENDING, APPROVE, APPROVED), (APPROVED, DISBURSE, DISBURSED),
     (PENDING, REJECT, REJECTED)]"

fun graph_path :: "approval_state \<Rightarrow> approval_event list" where
  "graph_path DRAFT = []"
| "graph_path PENDING = [SUBMIT]"
| "graph_path APPROVED = [SUBMIT, APPROVE]"
| "graph_path REJECTED = [SUBMIT, REJECT]"
| "graph_path DISBURSED = [SUBMIT, APPROVE, DISBURSE]"

lemma table_step_graph: "ev \<noteq> CANCEL \<Longrightarrow> table_step s ev = Some s' \<longleftrightarrow> (s, ev, s') \<in> set approval_graph"
  by (cases s; cases ev) (auto simp: approval_graph_def)

lemma trail_events_run:
  "set (map tr_event (ar_audit_trail (run_machine as r))) \<subseteq> set (map tr_event (ar_audit_trail r)) \<union> at_event ` set as"
proof (induction as arbitrary: r)
  case (Cons a as)
  have "set (map tr_event (ar_audit_trail (snd (transition (at_uid a) (at_now a) (at_event a) (at_actor a) (at_notes a) r))))
      \<subseteq> insert (at_event a) (set (map tr_event (ar_audit_trail r)))"
    by (auto simp: transition_def Let_def split: option.splits)
  with Cons [of "snd (transition (at_uid a) (at_now a) (at_event a) (at_actor a) (at_notes a) r)"] show ?case
    by (auto simp: run_machine_def)
qed (simp add: run_machine_def)

lemma trail_step:
  assumes "trail_ok r" "rec \<in> set (ar_audit_trail r)"
  shows "table_step (tr_from_state rec) (tr_event rec) = Some (tr_to_state rec)"
proof -
  obtain n where n: "n < length (ar_audit_trail r)" "rec = ar_audit_trail r ! n"
    using assms(2) by (auto simp: in_set_conv_nth)
  then have "approval_cycle.run_events DRAFT (map tr_event (take n (ar_audit_trail r))) = Some (tr_from_state rec)"
    "approval_cycle.run_events DRAFT (map tr_event (take (Suc n) (ar_audit_trail r))) = Some (tr_to_state rec)"
    using assms(1) by (auto simp: trail_ok_def)
  with n show ?thesis by (simp add: take_Suc_conv_app_nth approval_cycle.run_events_snoc)
qed

text \<open>C14. Whatever events but cancellations are attempted on a new request, in any order, the request follows the
  approval graph: every record of its audit trail goes along an edge with its event, from the state the
  records before it lead to, and the current state determines the events of the whole trail, so a disbursed request was
  submitted, approved and disbursed in this order, and nothing else. Every further attempt
  goes along the edge with its event or, when there is none, is refused with the error that names state, event and request, and changes nothing.\<close>

theorem trail_is_the_history:
  assumes "CANCEL \<notin> at_event ` set as" "r = run_machine as (create_machine uid now t c a cur d i)"
  shows "trail_ok r \<and> map tr_event (ar_audit_trail r) = graph_path (ar_state r) \<and>
    (\<forall>rec \<in> set (ar_audit_trail r). (tr_from_state rec, tr_event rec, tr_to_state rec) \<in> set approval_graph) \<and>
    (ev \<noteq> CANCEL \<longrightarrow> (case transition uid' now' ev actor nts r of
       (Inr s, r') \<Rightarrow> (ar_state r, ev, s) \<in> set approval_graph \<and> ar_state r' = s
     | (Inl e, r') \<Rightarrow> (\<forall>s. (ar_state r, ev, s) \<notin> set approval_graph) \<and>
         e = InvalidStateTransition (ar_state r) ev (ar_request_id r) \<and> r' = r))"
proof -
  have ok: "trail_ok r" "map tr_event (ar_audit_trail r) \<in> set (trail_shapes (ar_state r))"
    using trail_is_a_path assms(2) by simp_all
  have no_cancel: "CANCEL \<notin> set (map tr_event (ar_audit_trail r))"
    using trail_events_run [of as "create_machine uid now t c a cur d i"] assms by (auto simp: create_machine_def)
  have "map tr_event (ar_audit_trail r) = graph_path (ar_state r)"
    using ok(2) no_cancel by (cases "ar_state r") auto
  moreover have "(tr_from_state rec, tr_event rec, tr_to_state rec) \<in> set approval_graph"
    if "rec \<in> set (ar_audit_trail r)" for rec
  proof -
    have "tr_event rec \<noteq> CANCEL" using no_cancel that by (metis image_eqI set_map)
    then show ?thesis using trail_step [OF ok(1) that] by (simp add: table_step_graph)
  qed
  moreover have "case transition uid' now' ev actor nts r of
       (Inr s, r') \<Rightarrow> (ar_state r, ev, s) \<in> set approval_graph \<and> ar_state r' = s
     | (Inl e, r') \<Rightarrow> (\<forall>s. (ar_state r, ev, s) \<notin> set approval_graph) \<and>
         e = InvalidStateTransition (ar_state r) ev (ar_request_id r) \<and> r' = r" if "ev \<noteq> CANCEL"
    using that
    by (cases rule: transition_cases [of r ev uid' now' actor nts]) (simp_all flip: table_step_graph)
  ultimately show ?thesis using ok(1) by blast
qed

theorem trail_is_the_history_witness:
  "map tr_event (ar_audit_trail (run_machine
     [\<lparr>at_uid = ''1'', at_now = 1, at_event = APPROVE, at_actor = ''a'', at_notes = None\<rparr>,
      \<lparr>at_uid = ''2'', at_now = 2, at_event = SUBMIT, at_actor = ''c'', at_notes = None\<rparr>,
      \<lparr>at_uid = ''3'', at_now = 3, at_event = REJECT, at_actor = ''a'', at_notes = None\<rparr>]
     (create_machine ''r'' 0 ''t'' ''c'' 5 ''USD'' ''x'' None))) = [SUBMIT, REJECT]"
proof -
  let ?as = "[\<lparr>at_uid = ''1'', at_now = 1, at_event = APPROVE, at_actor = ''a'', at_notes = None\<rparr>,
      \<lparr>at_uid = ''2'', at_now = 2, at_event = SUBMIT, at_actor = ''c'', at_notes = None\<rparr>,
      \<lparr>at_uid = ''3'', at_now = 3, at_event = REJECT, at_actor = ''a'', at_notes = None\<rparr>]"
  have "ar_state (run_machine ?as (create_machine ''r'' 0 ''t'' ''c'' 5 ''USD'' ''x'' None)) = REJECTED"
    by code_simp
  with trail_is_the_history [of ?as _ "''r''" 0 "''t''" "''c''" 5 "''USD''" "''x''" None, OF _ refl] show ?thesis by simp
qed

text \<open>The three ways to ask about an event agree: it is among the valid events exactly when
  \<open>can_transition\<close> says so, and exactly when applying it succeeds; a refused event raises the
  error that names state, event and request, and leaves the request untouched; a terminal request
  has no valid event.\<close>

theorem transition_agrees_with_queries:
  "(ev \<in> set (valid_events r) \<longleftrightarrow> can_transition r ev) \<and>
   (can_transition r ev \<longleftrightarrow> (\<exists>s. fst (transition uid now ev actor nts r) = Inr s \<and>
      ar_state (snd (transition uid now ev actor nts r)) = s)) \<and>
   (\<not> can_transition r ev \<longrightarrow> transition uid now ev actor nts r =
      (Inl (InvalidStateTransition (ar_state r) ev (ar_request_id r)), r)) \<and>
   (is_terminal r \<longleftrightarrow> valid_events r = [])"
proof -
  have "ev \<in> set (valid_events r) \<longleftrightarrow> can_transition r ev"
    by (cases "ar_state r"; cases ev)
      (auto simp: valid_events_def can_transition_def transition_table_def)
  moreover have "is_terminal r \<longleftrightarrow> valid_events r = []"
    by (cases "ar_state r") (auto simp: is_terminal_def terminal_states_def valid_events_def transition_table_def)
  ultimately show ?thesis
    by (auto simp: can_transition_def transition_def Let_def split: option.splits)
qed

theorem transition_agrees_with_queries_witness:
  "transition ''u'' 0 DISBURSE ''a'' None (create_machine ''r'' 0 ''t'' ''c'' 5 ''USD'' ''x'' None) =
     (Inl (InvalidStateTransition DRAFT DISBURSE ''r''), create_machine ''r'' 0 ''t'' ''c'' 5 ''USD'' ''x'' None)"
proof -
  have "\<not> can_transition (create_machine ''r'' 0 ''t'' ''c'' 5 ''USD'' ''x'' None) DISBURSE"
    "ar_state (create_machine ''r'' 0 ''t'' ''c'' 5 ''USD'' ''x'' None) = DRAFT"
    "ar_request_id (create_machine ''r'' 0 ''t'' ''c'' 5 ''USD'' ''x'' None) = ''r''"
    by code_simp+
  with transition_agrees_with_queries [of DISBURSE "create_machine ''r'' 0 ''t'' ''c'' 5 ''USD'' ''x'' None"
      "''u''" 0 "''a''" None]
  show ?thesis by simp
qed

end
