(* ===== verification/Policy.thy ===== *)
theory Policy
  imports Prelude
begin

text \<open>
  \<^verbatim>\<open>src/domain/workflow/policy_evaluator.py\<close>: threshold rules, the configured evaluator and the
  authority order of the tiers. The measured evaluation time of a result is not modelled.
\<close>

section \<open>Tiers\<close>

datatype approval_tier = AUTO_APPROVE | MANAGER | FINANCE_DIRECTOR

fun tier_value :: "approval_tier \<Rightarrow> string" where
  "tier_value AUTO_APPROVE = ''AUTO_APPROVE''"
| "tier_value MANAGER = ''MANAGER''"
| "tier_value FINANCE_DIRECTOR = ''FINANCE_DIRECTOR''"

text \<open>The table \<open>_TIER_AUTHORITY\<close> makes the tiers a linear order.\<close>

fun tier_authority :: "approval_tier \<Rightarrow> nat" where
  "tier_authority AUTO_APPROVE = 0"
| "tier_authority MANAGER = 1"
| "tier_authority FINANCE_DIRECTOR = 2"

lemma tier_authority_inject [simp]: "tier_authority a = tier_authority b \<longleftrightarrow> a = b"
  by (cases a; cases b) auto

lemma tier_value_inject [simp]: "tier_value a = tier_value b \<longleftrightarrow> a = b"
  by (cases a; cases b) auto

instantiation approval_tier :: linorder
begin

definition less_eq_approval_tier :: "approval_tier \<Rightarrow> approval_tier \<Rightarrow> bool" where
  "less_eq_approval_tier a b \<longleftrightarrow> tier_authority a \<le> tier_authority b"

definition less_approval_tier :: "approval_tier \<Rightarrow> approval_tier \<Rightarrow> bool" where
  "less_approval_tier a b \<longleftrightarrow> tier_authority a < tier_authority b"

instance
  by intro_classes (auto simp: less_eq_approval_tier_def less_approval_tier_def)

end

section \<open>Rules\<close>

definition SCALE :: int where "SCALE = 10000"
definition TIER_MANAGER_THRESHOLD_SCALED :: int where
  "TIER_MANAGER_THRESHOLD_SCALED = 50 * SCALE"
definition TIER_FINANCE_DIRECTOR_THRESHOLD_SCALED :: int where
  "TIER_FINANCE_DIRECTOR_THRESHOLD_SCALED = 500 * SCALE"

record policy_rule =
  pr_min_amount_scaled :: scaled
  pr_max_amount_scaled :: "scaled option"
  pr_required_tier :: approval_tier
  pr_rule_name :: string

datatype policy_error =
    MinNotPositive
  | MaxNotAboveMin
  | RuleNameBlank
  | NoRules
  | RuleMinNotPositive string
  | RuleRangeInvalid string
  | RulesOverlap string string
  | AmountNotPositive scaled

text \<open>\<open>PolicyRule.__post_init__\<close>.\<close>

definition mk_policy_rule ::
  "scaled \<Rightarrow> scaled option \<Rightarrow> approval_tier \<Rightarrow> string \<Rightarrow> policy_error + policy_rule" where
  "mk_policy_rule lo hi tier name =
     (if lo \<le> 0 then Inl MinNotPositive
      else if (case hi of None \<Rightarrow> False | Some h \<Rightarrow> h \<le> lo) then Inl MaxNotAboveMin
      else if py_strip name = [] then Inl RuleNameBlank
      else Inr \<lparr>pr_min_amount_scaled = lo, pr_max_amount_scaled = hi, pr_required_tier = tier,
                pr_rule_name = name\<rparr>)"

definition rule_matches :: "policy_rule \<Rightarrow> scaled \<Rightarrow> bool" where
  "rule_matches rule amount =
     (if amount < pr_min_amount_scaled rule then False
      else case pr_max_amount_scaled rule of
        None \<Rightarrow> True
      | Some h \<Rightarrow> if amount \<ge> h then False else True)"

text \<open>The name of the second rule has an en dash between its amounts, which is written as a hyphen.\<close>

definition DEFAULT_PETTYFLOW_POLICY :: "policy_rule list" where
  "DEFAULT_PETTYFLOW_POLICY =
     [\<lparr>pr_min_amount_scaled = 1, pr_max_amount_scaled = Some TIER_MANAGER_THRESHOLD_SCALED,
       pr_required_tier = AUTO_APPROVE,
       pr_rule_name = ''PETTYFLOW-POLICY-001: Auto-approve < $50.00''\<rparr>,
      \<lparr>pr_min_amount_scaled = TIER_MANAGER_THRESHOLD_SCALED,
       pr_max_amount_scaled = Some TIER_FINANCE_DIRECTOR_THRESHOLD_SCALED,
       pr_required_tier = MANAGER,
       pr_rule_name = ''PETTYFLOW-POLICY-002: Manager approval $50.00-$499.99''\<rparr>,
      \<lparr>pr_min_amount_scaled = TIER_FINANCE_DIRECTOR_THRESHOLD_SCALED, pr_max_amount_scaled = None,
       pr_required_tier = FINANCE_DIRECTOR,
       pr_rule_name = ''PETTYFLOW-POLICY-003: Finance Director approval >= $500.00''\<rparr>]"

section \<open>The evaluator\<close>

type_synonym evaluator = "policy_rule list"

text \<open>The checks of the constructor over the sorted rules, each against the rule before it.\<close>

fun check_rules :: "policy_rule option \<Rightarrow> policy_rule list \<Rightarrow> policy_error + unit" where
  "check_rules prev [] = Inr ()"
| "check_rules prev (rule # rules) =
     (if pr_min_amount_scaled rule \<le> 0 then Inl (RuleMinNotPositive (pr_rule_name rule))
      else if (case pr_max_amount_scaled rule of None \<Rightarrow> False | Some h \<Rightarrow> h \<le> pr_min_amount_scaled rule)
      then Inl (RuleRangeInvalid (pr_rule_name rule))
      else case prev of
        None \<Rightarrow> check_rules (Some rule) rules
      | Some p \<Rightarrow>
        (if (case pr_max_amount_scaled p of None \<Rightarrow> False | Some h \<Rightarrow> pr_min_amount_scaled rule < h)
         then Inl (RulesOverlap (pr_rule_name p) (pr_rule_name rule))
         else check_rules (Some rule) rules))"

definition new_evaluator :: "policy_rule list option \<Rightarrow> policy_error + evaluator" where
  "new_evaluator rules =
     (let candidates = (case rules of None \<Rightarrow> DEFAULT_PETTYFLOW_POLICY | Some rs \<Rightarrow> rs)
      in if candidates = [] then Inl NoRules
         else let sorted_rules = sort_key pr_min_amount_scaled candidates
              in bind_result (check_rules None sorted_rules) (\<lambda>_. Inr sorted_rules))"

record policy_result =
  pe_request_id :: string
  pe_amount_scaled :: scaled
  pe_required_tier :: approval_tier
  pe_matching_rule :: string
  pe_auto_approved :: bool
  pe_is_fallback :: bool

definition FALLBACK_RULE_NAME :: string where
  "FALLBACK_RULE_NAME = ''PETTYFLOW-POLICY-FALLBACK: Finance Director (no rule matched)''"

definition evaluate :: "evaluator \<Rightarrow> string \<Rightarrow> scaled \<Rightarrow> policy_error + policy_result" where
  "evaluate ev request_id amount =
     (if amount \<le> 0 then Inl (AmountNotPositive amount)
      else let (rule, fallback) =
             (case find (\<lambda>r. rule_matches r amount) ev of
                Some r \<Rightarrow> (r, False)
              | None \<Rightarrow> (\<lparr>pr_min_amount_scaled = amount, pr_max_amount_scaled = None,
                   pr_required_tier = FINANCE_DIRECTOR, pr_rule_name = FALLBACK_RULE_NAME\<rparr>, True))
           in Inr \<lparr>pe_request_id = request_id, pe_amount_scaled = amount,
                   pe_required_tier = pr_required_tier rule, pe_matching_rule = pr_rule_name rule,
                   pe_auto_approved = (pr_required_tier rule = AUTO_APPROVE),
                   pe_is_fallback = fallback\<rparr>)"

definition is_actor_authorized :: "approval_tier \<Rightarrow> approval_tier \<Rightarrow> bool" where
  "is_actor_authorized actor_tier required_tier =
     (tier_authority actor_tier \<ge> tier_authority required_tier)"

definition evaluate_and_auto_approve ::
  "evaluator \<Rightarrow> string \<Rightarrow> scaled \<Rightarrow> policy_error + policy_result \<times> bool" where
  "evaluate_and_auto_approve ev request_id amount =
     bind_result (evaluate ev request_id amount) (\<lambda>r. Inr (r, pe_auto_approved r))"

section \<open>What an accepted configuration guarantees\<close>

lemma is_actor_authorized_order: "is_actor_authorized a r \<longleftrightarrow> r \<le> a"
  by (simp add: is_actor_authorized_def less_eq_approval_tier_def)

lemma check_rules_bounds:
  assumes "check_rules prev rules = Inr ()" "sorted (map pr_min_amount_scaled rules)"
    and "\<forall>r \<in> set (butlast rules). pr_max_amount_scaled r \<noteq> None"
    and "i < j" "j < length rules"
  shows "the (pr_max_amount_scaled (rules ! i)) \<le> pr_min_amount_scaled (rules ! j)"
  using assms
proof (induction rules arbitrary: prev i j)
  case (Cons rule rules)
  from Cons.prems(4,5) obtain j' where j: "j = Suc j'" "j' < length rules" by (cases j) auto
  then have ne: "rules \<noteq> []" by auto
  have rest: "check_rules (Some rule) rules = Inr ()"
    using Cons.prems(1) by (auto split: if_splits option.splits)
  show ?case
  proof (cases i)
    case 0
    obtain h where h: "pr_max_amount_scaled rule = Some h" using Cons.prems(3) ne by auto
    obtain r rs where rs: "rules = r # rs" using ne by (cases rules) auto
    have "h \<le> pr_min_amount_scaled r"
      using rest h rs by (auto split: if_splits)
    also have "\<dots> \<le> pr_min_amount_scaled (rules ! j')"
      using Cons.prems(2) j rs by (cases j') auto
    finally show ?thesis using 0 j h by simp
  next
    case (Suc i')
    then show ?thesis
      using Cons.IH [OF rest, of i' j'] Cons.prems j ne by simp
  qed
qed simp

lemma check_rules_range:
  "check_rules prev rules = Inr () \<Longrightarrow> r \<in> set rules \<Longrightarrow> 0 < pr_min_amount_scaled r"
  by (induction rules arbitrary: prev) (auto split: if_splits option.splits)

lemma new_evaluator_Some:
  assumes "new_evaluator (Some rs) = Inr ev"
  shows "ev = sort_key pr_min_amount_scaled rs" "check_rules None ev = Inr ()"
    "sorted (map pr_min_amount_scaled ev)"
proof -
  have ev: "ev = sort_key pr_min_amount_scaled rs \<and> check_rules None ev = Inr ()"
    using assms by (auto simp: new_evaluator_def Let_def bind_result_Inr_iff split: if_splits)
  from ev show "ev = sort_key pr_min_amount_scaled rs" "check_rules None ev = Inr ()" by blast+
  from ev show "sorted (map pr_min_amount_scaled ev)" by simp
qed

lemma matching_rule_unique:
  assumes "check_rules None ev = Inr ()" "sorted (map pr_min_amount_scaled ev)"
    and "\<forall>r \<in> set (butlast ev). pr_max_amount_scaled r \<noteq> None"
    and "i < length ev" "j < length ev" "rule_matches (ev ! i) amount" "rule_matches (ev ! j) amount"
  shows "i = j"
proof -
  have "\<not> rule_matches (ev ! y) amount" if "x < y" "y < length ev" "rule_matches (ev ! x) amount" for x y
  proof -
    have "x < length (butlast ev)" using that(1,2) by simp
    then have "ev ! x \<in> set (butlast ev)" by (metis nth_butlast nth_mem)
    then obtain h where h: "pr_max_amount_scaled (ev ! x) = Some h" using assms(3) by blast
    have "the (pr_max_amount_scaled (ev ! x)) \<le> pr_min_amount_scaled (ev ! y)"
      using assms(1-3) that(1,2) by (rule check_rules_bounds)
    with h that(3) show ?thesis by (auto simp: rule_matches_def split: if_splits)
  qed
  with assms(4-7) show ?thesis by (metis linorder_neqE_nat)
qed

text \<open>C19. A configuration the evaluator accepts is unambiguous when only its last rule is unbounded: at
  most one rule matches an amount, so the outcome of the scan does not depend on the order of the
  rules, and the evaluation reports the tier and the name of that rule.\<close>

theorem accepted_policy_unambiguous:
  assumes "new_evaluator (Some rs) = Inr ev"
    and "\<forall>r \<in> set (butlast ev). pr_max_amount_scaled r \<noteq> None"
    and "rule \<in> set rs" "rule_matches rule amount"
  shows "evaluate ev rid amount = Inr \<lparr>pe_request_id = rid, pe_amount_scaled = amount,
      pe_required_tier = pr_required_tier rule, pe_matching_rule = pr_rule_name rule,
      pe_auto_approved = (pr_required_tier rule = AUTO_APPROVE), pe_is_fallback = False\<rparr> \<and>
    (\<forall>r \<in> set rs. rule_matches r amount \<longrightarrow> r = rule)"
proof -
  note ev = new_evaluator_Some [OF assms(1)]
  have set: "set ev = set rs" by (simp add: ev(1))
  have uniq: "r = rule" if "r \<in> set ev" "rule_matches r amount" for r
    using matching_rule_unique [OF ev(2,3) assms(2)] that assms(3,4) set
    by (metis in_set_conv_nth)
  have "0 < pr_min_amount_scaled rule" using check_rules_range [OF ev(2)] assms(3) set by blast
  then have "0 < amount" using assms(4) by (auto simp: rule_matches_def split: if_splits)
  moreover have "find (\<lambda>r. rule_matches r amount) ev = Some rule"
    using uniq assms(3,4) set by (metis find_None_iff find_Some_iff nth_mem option.exhaust)
  ultimately show ?thesis using uniq set by (simp add: evaluate_def)
qed

text \<open>The overlap check does not look past an unbounded rule: a policy whose first rule is unbounded
  is accepted whatever rule follows it, although both then match every amount from the second
  rule's minimum on, and the evaluation always takes the first rule's tier.\<close>

theorem unbounded_rule_shadows:
  assumes "0 < lo1" "lo1 \<le> lo2" "case hi2 of None \<Rightarrow> True | Some h \<Rightarrow> lo2 < h" "lo1 \<le> amount"
    and "a = \<lparr>pr_min_amount_scaled = lo1, pr_max_amount_scaled = None, pr_required_tier = t1, pr_rule_name = n1\<rparr>"
    and "b = \<lparr>pr_min_amount_scaled = lo2, pr_max_amount_scaled = hi2, pr_required_tier = t2, pr_rule_name = n2\<rparr>"
  shows "new_evaluator (Some [a, b]) = Inr [a, b] \<and>
    bind_result (evaluate [a, b] rid amount) (\<lambda>r. Inr (pe_required_tier r)) = Inr t1"
  using assms by (auto simp: new_evaluator_def evaluate_def rule_matches_def split: option.splits)

definition default_tier :: "scaled \<Rightarrow> approval_tier" where
  "default_tier amount =
     (if amount < 50 * 10000 then AUTO_APPROVE else if amount < 500 * 10000 then MANAGER
      else FINANCE_DIRECTOR)"

lemma default_evaluate:
  assumes "0 < amount"
  shows "\<exists>r. evaluate DEFAULT_PETTYFLOW_POLICY rid amount = Inr r \<and>
    pe_required_tier r = default_tier amount \<and> \<not> pe_is_fallback r"
  using assms
  by (auto simp: evaluate_def DEFAULT_PETTYFLOW_POLICY_def rule_matches_def default_tier_def
      TIER_MANAGER_THRESHOLD_SCALED_def TIER_FINANCE_DIRECTOR_THRESHOLD_SCALED_def SCALE_def)

text \<open>The default policy covers every positive amount without its fallback, requires the tier of the
  published table (auto-approval below 50 dollars, a manager below 500, the finance director from
  there on), and never requires less authority for more money.\<close>

theorem default_policy_tiers:
  assumes "0 < amount" "amount \<le> amount'"
  shows "new_evaluator None = Inr DEFAULT_PETTYFLOW_POLICY \<and>
    (\<exists>r r'. evaluate DEFAULT_PETTYFLOW_POLICY rid amount = Inr r \<and>
       evaluate DEFAULT_PETTYFLOW_POLICY rid' amount' = Inr r' \<and>
       \<not> pe_is_fallback r \<and> \<not> pe_is_fallback r' \<and>
       pe_required_tier r = default_tier amount \<and> pe_required_tier r \<le> pe_required_tier r')"
proof -
  have "new_evaluator None = Inr DEFAULT_PETTYFLOW_POLICY"
    by (simp add: new_evaluator_def DEFAULT_PETTYFLOW_POLICY_def TIER_MANAGER_THRESHOLD_SCALED_def
        TIER_FINANCE_DIRECTOR_THRESHOLD_SCALED_def SCALE_def Let_def)
  moreover have "default_tier amount \<le> default_tier amount'"
    using assms(2) by (auto simp: default_tier_def less_eq_approval_tier_def)
  ultimately show ?thesis
    using assms default_evaluate [of amount rid] default_evaluate [of amount' rid'] by fastforce
qed

section \<open>Concrete policies\<close>

definition demo_policy :: "policy_rule list" where
  "demo_policy =
     [\<lparr>pr_min_amount_scaled = 100, pr_max_amount_scaled = None, pr_required_tier = MANAGER, pr_rule_name = ''high''\<rparr>,
      \<lparr>pr_min_amount_scaled = 1, pr_max_amount_scaled = Some 100, pr_required_tier = AUTO_APPROVE, pr_rule_name = ''low''\<rparr>]"

theorem accepted_policy_unambiguous_witness:
  "evaluate (rev demo_policy) ''r'' 7 = Inr \<lparr>pe_request_id = ''r'', pe_amount_scaled = 7,
     pe_required_tier = AUTO_APPROVE, pe_matching_rule = ''low'', pe_auto_approved = True,
     pe_is_fallback = False\<rparr>"
proof -
  have "new_evaluator (Some demo_policy) = Inr (rev demo_policy)"
    by (simp add: new_evaluator_def demo_policy_def)
  from accepted_policy_unambiguous [OF this, of "demo_policy ! 1" 7 "''r''"]
  show ?thesis by (simp add: demo_policy_def rule_matches_def)
qed

theorem unbounded_rule_shadows_witness:
  "\<exists>a b. new_evaluator (Some [a, b]) = Inr [a, b] \<and> pr_required_tier b = FINANCE_DIRECTOR \<and>
     bind_result (evaluate [a, b] ''r'' 900) (\<lambda>r. Inr (pe_required_tier r)) = Inr AUTO_APPROVE"
proof -
  let ?a = "\<lparr>pr_min_amount_scaled = 1, pr_max_amount_scaled = None, pr_required_tier = AUTO_APPROVE,
    pr_rule_name = ''any''\<rparr>"
  let ?b = "\<lparr>pr_min_amount_scaled = 500, pr_max_amount_scaled = None, pr_required_tier = FINANCE_DIRECTOR,
    pr_rule_name = ''large''\<rparr>"
  from unbounded_rule_shadows [of 1 500 None 900 ?a AUTO_APPROVE "''any''" ?b FINANCE_DIRECTOR "''large''" "''r''"]
  show ?thesis by fastforce
qed

theorem default_policy_tiers_witness:
  "\<exists>r. evaluate DEFAULT_PETTYFLOW_POLICY ''r'' 450000 = Inr r \<and> pe_required_tier r = AUTO_APPROVE"
  using default_policy_tiers [of 450000 450000 "''r''" "''r''"] by (auto simp: default_tier_def)

end
