(* ===== verification/Workflow_Service.thy ===== *)
theory Workflow_Service
  imports Workflow_Fsm Policy Json
begin

text \<open>
  \<^verbatim>\<open>src/domain/workflow/service.py\<close>: the tenant-scoped store of approval requests. The dictionary
  of requests is an association list in insertion order; the calls a broadcast makes to the
  subscribed listeners, which cannot change the store, are recorded in \<open>ws_delivered\<close>. Uuids and
  clock readings are arguments; the formatted dollar texts of the summary are not modelled.
\<close>

section \<open>State\<close>

type_synonym fields = "(string \<times> json) list"

record workflow_event =
  we_event_type :: string
  we_tenant_id :: string
  we_request_id :: string
  we_state :: approval_state
  we_tier :: string
  we_amount_scaled :: scaled
  we_actor_id :: string
  we_notes :: "string option"
  we_payload :: fields

record workflow_service =
  ws_policy :: evaluator
  ws_requests :: "((string \<times> string) \<times> approval_request) list"
  ws_metadata :: "string \<times> string \<rightharpoonup> fields"
  ws_subscribers :: "nat list"
  ws_delivered :: "(nat \<times> workflow_event) list"

datatype service_error =
    BlankTenant
  | BlankCustodian
  | AmountNotStrictlyPositive
  | CurrencyNotThreeLetters
  | BlankDescription
  | BlankActor
  | AuditReasoningMissing
  | RequestNotFound string string
  | PolicyRefused policy_error
  | TransitionRefused fsm_error
  | InsufficientApproverAuthority string string string

definition new_service :: "evaluator \<Rightarrow> workflow_service" where
  "new_service policy = \<lparr>ws_policy = policy, ws_requests = [], ws_metadata = Map.empty,
     ws_subscribers = [], ws_delivered = []\<rparr>"

section \<open>Subscribers\<close>

definition subscribe :: "nat \<Rightarrow> workflow_service \<Rightarrow> workflow_service" where
  "subscribe cb svc =
     (if cb \<in> set (ws_subscribers svc) then svc
      else svc\<lparr>ws_subscribers := ws_subscribers svc @ [cb]\<rparr>)"

definition unsubscribe :: "nat \<Rightarrow> workflow_service \<Rightarrow> workflow_service" where
  "unsubscribe cb svc =
     (if cb \<in> set (ws_subscribers svc) then svc\<lparr>ws_subscribers := remove1 cb (ws_subscribers svc)\<rparr>
      else svc)"

definition broadcast :: "workflow_event \<Rightarrow> workflow_service \<Rightarrow> workflow_service" where
  "broadcast ev svc =
     svc\<lparr>ws_delivered := ws_delivered svc @ map (\<lambda>cb. (cb, ev)) (ws_subscribers svc)\<rparr>"

section \<open>Commands\<close>

definition submit_request ::
  "string \<Rightarrow> string \<Rightarrow> string \<Rightarrow> time \<Rightarrow> workflow_service \<Rightarrow> string \<Rightarrow> string \<Rightarrow> scaled \<Rightarrow> string \<Rightarrow> string \<Rightarrow>
   fields option \<Rightarrow> bool \<Rightarrow> string option \<Rightarrow>
   (service_error + approval_request \<times> policy_result) \<times> workflow_service" where
  "submit_request request_id uid1 uid2 now svc tenant_id custodian_id amount currency description
     receipt auto_if_eligible initial_notes =
     (if py_strip tenant_id = [] then (Inl BlankTenant, svc)
      else if py_strip custodian_id = [] then (Inl BlankCustodian, svc)
      else if amount \<le> 0 then (Inl AmountNotStrictlyPositive, svc)
      else if length (py_strip currency) \<noteq> 3 then (Inl CurrencyNotThreeLetters, svc)
      else if py_strip description = [] then (Inl BlankDescription, svc)
      else
        let clean_currency = py_upper (py_strip currency);
            clean_tenant = py_strip tenant_id;
            clean_custodian = py_strip custodian_id;
            clean_description = py_strip description
        in case evaluate (ws_policy svc) request_id amount of
             Inl e \<Rightarrow> (Inl (PolicyRefused e), svc)
           | Inr res \<Rightarrow>
             (let draft = \<lparr>ar_request_id = request_id, ar_tenant_id = clean_tenant,
                    ar_custodian_id = clean_custodian, ar_amount_scaled = amount,
                    ar_currency = clean_currency, ar_description = clean_description,
                    ar_required_approval_tier = tier_value (pe_required_tier res),
                    ar_state = DRAFT, ar_audit_trail = [], ar_created_at = now, ar_updated_at = now\<rparr>;
                  submit_notes = text_or initial_notes
                    (''Submitted by custodian. Required tier: '' @ tier_value (pe_required_tier res))
              in case fsm_submit uid1 now clean_custodian (Some submit_notes) draft of
                   (Inl e, _) \<Rightarrow> (Inl (TransitionRefused e), svc)
                 | (Inr _, submitted) \<Rightarrow>
                   (let is_auto = (pe_auto_approved res \<and> auto_if_eligible)
                    in case (if is_auto
                         then fsm_approve uid2 now ''SYSTEM_AUTO_APPROVER''
                           (Some (''Auto-approved by policy rule: '' @ pe_matching_rule res)) submitted
                         else (Inr PENDING, submitted)) of
                      (Inl e, _) \<Rightarrow> (Inl (TransitionRefused e), svc)
                    | (Inr _, request) \<Rightarrow>
                      (let key = (clean_tenant, request_id);
                           stored = svc\<lparr>ws_requests := AList.update key request (ws_requests svc),
                             ws_metadata := (case receipt of
                                None \<Rightarrow> ws_metadata svc
                              | Some md \<Rightarrow> if md = [] then ws_metadata svc
                                         else (ws_metadata svc)(key \<mapsto> md))\<rparr>;
                           ev = \<lparr>we_event_type = (if is_auto then ''REQUEST_AUTO_APPROVED'' else ''REQUEST_SUBMITTED''),
                                we_tenant_id = clean_tenant, we_request_id = request_id,
                                we_state = ar_state request,
                                we_tier = ar_required_approval_tier request,
                                we_amount_scaled = amount,
                                we_actor_id = (if is_auto then ''SYSTEM_AUTO_APPROVER'' else clean_custodian),
                                we_notes = Some submit_notes,
                                we_payload = [(''currency'', JStr clean_currency),
                                  (''description'', JStr clean_description),
                                  (''auto_approved'', JBool is_auto),
                                  (''policy_rule'', JStr (pe_matching_rule res)),
                                  (''receipt'', JDict (case receipt of None \<Rightarrow> [] | Some md \<Rightarrow> md))]\<rparr>
                       in (Inr (request, res), broadcast ev stored)))))"

text \<open>\<open>_verify_role_authority\<close>: levels of tiers and of role names, with their defaults.\<close>

definition tier_hierarchy :: "(string \<times> nat) list" where
  "tier_hierarchy = [(''AUTO_APPROVE'', 0), (''MANAGER'', 1), (''FINANCE_DIRECTOR'', 2)]"

definition role_tier_map :: "(string \<times> nat) list" where
  "role_tier_map =
     [(''AUTO'', 0), (''MANAGER'', 1), (''LINE_MANAGER'', 1), (''FINANCE_MANAGER'', 1),
      (''FINANCE_DIRECTOR'', 2), (''CFO'', 2), (''DIRECTOR'', 2), (''ADMIN'', 2)]"

definition get_or :: "('k \<times> nat) list \<Rightarrow> 'k \<Rightarrow> nat \<Rightarrow> nat" where
  "get_or d k v = (case map_of d k of None \<Rightarrow> v | Some n \<Rightarrow> n)"

definition verify_role_authority :: "string \<Rightarrow> string \<Rightarrow> string \<Rightarrow> service_error + unit" where
  "verify_role_authority required_tier actor_role actor_id =
     (let role = py_upper (py_strip actor_role);
          required_level = get_or tier_hierarchy required_tier 1;
          actor_level = get_or role_tier_map role 0
      in if actor_level < required_level
         then Inl (InsufficientApproverAuthority actor_id actor_role required_tier) else Inr ())"

text \<open>What the three deciding commands share once their arguments are clean: find the request,
  check the role when the command does, apply the event, store, broadcast.\<close>

definition apply_decision ::
  "string \<Rightarrow> time \<Rightarrow> workflow_service \<Rightarrow> string \<Rightarrow> string \<Rightarrow> string \<Rightarrow> string \<Rightarrow> approval_event \<Rightarrow>
   (approval_request \<Rightarrow> service_error + unit) \<Rightarrow> string \<Rightarrow> fields \<Rightarrow>
   (service_error + approval_request) \<times> workflow_service" where
  "apply_decision uid now svc tenant request_id actor nts event check event_type payload =
     (let key = (tenant, request_id)
      in case map_of (ws_requests svc) key of
           None \<Rightarrow> (Inl (RequestNotFound request_id tenant), svc)
         | Some request \<Rightarrow>
           (case check request of
              Inl e \<Rightarrow> (Inl e, svc)
            | Inr _ \<Rightarrow>
              (case transition uid now event actor (Some nts) request of
                 (Inl e, _) \<Rightarrow> (Inl (TransitionRefused e), svc)
               | (Inr _, moved) \<Rightarrow>
                 (let request' = moved\<lparr>ar_updated_at := now\<rparr>;
                      ev = \<lparr>we_event_type = event_type, we_tenant_id = tenant,
                           we_request_id = request_id, we_state = ar_state request',
                           we_tier = ar_required_approval_tier request',
                           we_amount_scaled = ar_amount_scaled request', we_actor_id = actor,
                           we_notes = Some nts, we_payload = payload\<rparr>
                  in (Inr request',
                      broadcast ev (svc\<lparr>ws_requests := AList.update key request' (ws_requests svc)\<rparr>))))))"

definition approve_request ::
  "string \<Rightarrow> time \<Rightarrow> workflow_service \<Rightarrow> string \<Rightarrow> string \<Rightarrow> string \<Rightarrow> string \<Rightarrow> string option \<Rightarrow>
   (service_error + approval_request) \<times> workflow_service" where
  "approve_request uid now svc tenant_id request_id actor_id nts actor_role =
     (let clean_actor = py_strip actor_id; clean_notes = py_strip nts
      in if clean_actor = [] then (Inl BlankActor, svc)
         else if clean_notes = [] then (Inl AuditReasoningMissing, svc)
         else apply_decision uid now svc (py_strip tenant_id) (py_strip request_id) clean_actor
           clean_notes APPROVE
           (\<lambda>request. case actor_role of None \<Rightarrow> Inr ()
              | Some role \<Rightarrow> if role = [] then Inr ()
                  else verify_role_authority (ar_required_approval_tier request) role clean_actor)
           ''REQUEST_APPROVED'' [(''actor_role'', JStr (text_or actor_role []))])"

definition reject_request ::
  "string \<Rightarrow> time \<Rightarrow> workflow_service \<Rightarrow> string \<Rightarrow> string \<Rightarrow> string \<Rightarrow> string \<Rightarrow> string option \<Rightarrow>
   (service_error + approval_request) \<times> workflow_service" where
  "reject_request uid now svc tenant_id request_id actor_id nts actor_role =
     (let clean_actor = py_strip actor_id; clean_notes = py_strip nts
      in if clean_actor = [] then (Inl BlankActor, svc)
         else if clean_notes = [] then (Inl AuditReasoningMissing, svc)
         else apply_decision uid now svc (py_strip tenant_id) (py_strip request_id) clean_actor
           clean_notes REJECT (\<lambda>_. Inr ()) ''REQUEST_REJECTED''
           [(''actor_role'', JStr (text_or actor_role []))])"

definition disburse_request ::
  "string \<Rightarrow> time \<Rightarrow> workflow_service \<Rightarrow> string \<Rightarrow> string \<Rightarrow> string \<Rightarrow> string option \<Rightarrow>
   (service_error + approval_request) \<times> workflow_service" where
  "disburse_request uid now svc tenant_id request_id actor_id nts =
     (let clean_actor = py_strip actor_id;
          clean_notes = py_strip (text_or nts ''Funds disbursed by finance custodian'')
      in if clean_actor = [] then (Inl BlankActor, svc)
         else apply_decision uid now svc (py_strip tenant_id) (py_strip request_id) clean_actor
           clean_notes DISBURSE (\<lambda>_. Inr ()) ''REQUEST_DISBURSED'' [])"

section \<open>Queries\<close>

definition request_metadata :: "workflow_service \<Rightarrow> string \<times> string \<Rightarrow> fields" where
  "request_metadata svc key = (case ws_metadata svc key of None \<Rightarrow> [] | Some md \<Rightarrow> md)"

definition get_request ::
  "workflow_service \<Rightarrow> string \<Rightarrow> string \<Rightarrow> service_error + approval_request \<times> fields" where
  "get_request svc tenant_id request_id =
     (let key = (py_strip tenant_id, py_strip request_id)
      in case map_of (ws_requests svc) key of
           None \<Rightarrow> Inl (RequestNotFound (py_strip request_id) (py_strip tenant_id))
         | Some r \<Rightarrow> Inr (r, request_metadata svc key))"

definition list_matches ::
  "string \<Rightarrow> approval_state option \<Rightarrow> approval_tier option \<Rightarrow> string option \<Rightarrow>
   (string \<times> string) \<times> approval_request \<Rightarrow> bool" where
  "list_matches tenant state tier custodian e =
     (fst (fst e) = tenant \<and>
      (case state of None \<Rightarrow> True | Some s \<Rightarrow> ar_state (snd e) = s) \<and>
      (case tier of None \<Rightarrow> True | Some t \<Rightarrow> ar_required_approval_tier (snd e) = tier_value t) \<and>
      (case custodian of None \<Rightarrow> True | Some c \<Rightarrow> ar_custodian_id (snd e) = c))"

text \<open>The stable sort with \<open>reverse=True\<close> keeps the order of equal keys.\<close>

definition list_requests ::
  "workflow_service \<Rightarrow> string \<Rightarrow> approval_state option \<Rightarrow> approval_tier option \<Rightarrow> string option \<Rightarrow>
   int \<Rightarrow> int \<Rightarrow> (approval_request \<times> fields) list" where
  "list_requests svc tenant_id state tier custodian limit offset =
     (let matched = map (\<lambda>e. (snd e, request_metadata svc (fst e)))
            (filter (list_matches (py_strip tenant_id) state tier custodian) (ws_requests svc))
      in py_slice (sort_key (\<lambda>item. - ar_created_at (fst item)) matched) offset (offset + limit))"

record summary_stats =
  ss_total :: nat
  ss_pending :: nat
  ss_approved :: nat
  ss_rejected :: nat
  ss_disbursed :: nat
  ss_tier_1_auto :: nat
  ss_tier_2_manager :: nat
  ss_tier_3_cfo :: nat
  ss_total_pending_scaled :: scaled
  ss_total_approved_scaled :: scaled

definition summary_step :: "approval_request \<Rightarrow> summary_stats \<Rightarrow> summary_stats" where
  "summary_step r s0 =
     (let s1 = s0\<lparr>ss_total := ss_total s0 + 1\<rparr>;
          s2 = (case ar_state r of
             PENDING \<Rightarrow>
               (let p = s1\<lparr>ss_pending := ss_pending s1 + 1,
                      ss_total_pending_scaled := ss_total_pending_scaled s1 + ar_amount_scaled r\<rparr>
                in if ar_required_approval_tier r = tier_value MANAGER
                   then p\<lparr>ss_tier_2_manager := ss_tier_2_manager p + 1\<rparr>
                   else if ar_required_approval_tier r = tier_value FINANCE_DIRECTOR
                   then p\<lparr>ss_tier_3_cfo := ss_tier_3_cfo p + 1\<rparr> else p)
           | APPROVED \<Rightarrow> s1\<lparr>ss_approved := ss_approved s1 + 1,
               ss_total_approved_scaled := ss_total_approved_scaled s1 + ar_amount_scaled r\<rparr>
           | REJECTED \<Rightarrow> s1\<lparr>ss_rejected := ss_rejected s1 + 1\<rparr>
           | DISBURSED \<Rightarrow> s1\<lparr>ss_disbursed := ss_disbursed s1 + 1\<rparr>
           | DRAFT \<Rightarrow> s1)
      in if ar_required_approval_tier r = tier_value AUTO_APPROVE
         then s2\<lparr>ss_tier_1_auto := ss_tier_1_auto s2 + 1\<rparr> else s2)"

definition zero_summary :: summary_stats where
  "zero_summary = \<lparr>ss_total = 0, ss_pending = 0, ss_approved = 0, ss_rejected = 0, ss_disbursed = 0,
     ss_tier_1_auto = 0, ss_tier_2_manager = 0, ss_tier_3_cfo = 0, ss_total_pending_scaled = 0,
     ss_total_approved_scaled = 0\<rparr>"

definition get_summary_stats :: "workflow_service \<Rightarrow> string \<Rightarrow> summary_stats" where
  "get_summary_stats svc tenant_id =
     fold (\<lambda>e s. if fst (fst e) \<noteq> py_strip tenant_id then s else summary_step (snd e) s)
       (ws_requests svc) zero_summary"

section \<open>Invariant of the store\<close>

definition reasoned :: "transition_record \<Rightarrow> bool" where
  "reasoned t \<longleftrightarrow> tr_event t \<in> {APPROVE, REJECT} \<longrightarrow>
     py_strip (tr_actor_id t) \<noteq> [] \<and> (\<exists>n. tr_notes t = Some n \<and> py_strip n \<noteq> [])"

definition request_ok :: "string \<times> string \<Rightarrow> approval_request \<Rightarrow> bool" where
  "request_ok key r \<longleftrightarrow>
     (ar_tenant_id r, ar_request_id r) = key \<and> trail_ok r \<and> ar_state r \<noteq> DRAFT \<and>
     0 < ar_amount_scaled r \<and> (\<forall>t \<in> set (ar_audit_trail r). reasoned t)"

definition service_ok :: "workflow_service \<Rightarrow> bool" where
  "service_ok svc \<longleftrightarrow>
     distinct (map fst (ws_requests svc)) \<and> (\<forall>(k, r) \<in> set (ws_requests svc). request_ok k r)"

lemma broadcast_simps [simp]:
  "ws_requests (broadcast ev svc) = ws_requests svc" "ws_metadata (broadcast ev svc) = ws_metadata svc"
  "ws_policy (broadcast ev svc) = ws_policy svc"
  by (simp_all add: broadcast_def)

lemma set_update_subset: "set (AList.update k v d) \<subseteq> insert (k, v) (set d)"
  by (induction d) auto

lemma service_ok_update:
  assumes "service_ok svc" "request_ok k r" "ws_requests svc' = AList.update k r (ws_requests svc)"
  shows "service_ok svc'"
  unfolding service_ok_def assms(3)
proof
  show "distinct (map fst (AList.update k r (ws_requests svc)))"
    using assms(1) by (simp add: service_ok_def distinct_update)
  have "set (AList.update k r (ws_requests svc)) \<subseteq> insert (k, r) (set (ws_requests svc))"
    by (rule set_update_subset)
  with assms(1,2) show "\<forall>(k, r) \<in> set (AList.update k r (ws_requests svc)). request_ok k r"
    by (auto simp: service_ok_def)
qed

lemma apply_decision_cases:
  obtains (failed) e where
    "apply_decision uid now svc t i actor nts ev check ety pl = (Inl e, svc)"
  | (accepted) r s rec r' where "map_of (ws_requests svc) (t, i) = Some r" "check r = Inr ()"
      "table_step (ar_state r) ev = Some s"
      "r' = r\<lparr>ar_audit_trail := ar_audit_trail r @ [rec], ar_state := s, ar_updated_at := now\<rparr>"
      "tr_event rec = ev" "tr_actor_id rec = actor" "tr_notes rec = Some nts"
      "r' = snd (transition uid now ev actor (Some nts) r)"
      "fst (apply_decision uid now svc t i actor nts ev check ety pl) = Inr r'"
      "ws_requests (snd (apply_decision uid now svc t i actor nts ev check ety pl)) =
        AList.update (t, i) r' (ws_requests svc)"
      "ws_metadata (snd (apply_decision uid now svc t i actor nts ev check ety pl)) = ws_metadata svc"
proof (cases "map_of (ws_requests svc) (t, i)")
  case None
  then show thesis by (intro failed) (simp add: apply_decision_def)
next
  case r: (Some r)
  show thesis
  proof (cases "check r")
    case (Inl e)
    with r show thesis by (intro failed) (simp add: apply_decision_def)
  next
    case (Inr u)
    show thesis
    proof (cases rule: transition_cases [of r ev uid now actor "Some nts"])
      case refused
      with r Inr show thesis by (intro failed) (simp add: apply_decision_def)
    next
      case (moved s rec)
      show thesis
        by (rule accepted [of r s "r\<lparr>ar_audit_trail := ar_audit_trail r @ [rec], ar_state := s, ar_updated_at := now\<rparr>" rec])
          (use r Inr moved in \<open>simp_all add: apply_decision_def Let_def\<close>)
    qed
  qed
qed

lemma service_ok_decision:
  assumes ok: "service_ok svc" and ev: "ev \<noteq> CANCEL"
    and reason: "ev \<in> {APPROVE, REJECT} \<longrightarrow> py_strip actor \<noteq> [] \<and> py_strip nts \<noteq> []"
  shows "service_ok (snd (apply_decision uid now svc t i actor nts ev check ety pl))"
proof (cases rule: apply_decision_cases [of uid now svc t i actor nts ev check ety pl])
  case failed
  with ok show ?thesis by simp
next
  case (accepted r s rec r')
  have r: "request_ok (t, i) r"
    using ok accepted(1) map_of_SomeD [OF accepted(1)] by (auto simp: service_ok_def)
  have "trail_ok r'" using r accepted(8) trail_ok_transition by (simp add: request_ok_def)
  moreover have "s \<noteq> DRAFT" using accepted(3) by (cases "ar_state r"; cases ev) auto
  ultimately have "request_ok (t, i) r'"
    using r reason accepted(4-7) by (auto simp: request_ok_def reasoned_def)
  with ok show ?thesis using accepted(10) by (rule service_ok_update)
qed

lemma strip_idem_ne: "py_strip s \<noteq> [] \<Longrightarrow> py_strip (py_strip s) \<noteq> []"
  by simp

lemma service_ok_approve: "service_ok svc \<Longrightarrow> service_ok (snd (approve_request uid now svc t i a n role))"
  by (simp add: approve_request_def Let_def service_ok_decision)

lemma service_ok_reject: "service_ok svc \<Longrightarrow> service_ok (snd (reject_request uid now svc t i a n role))"
  by (simp add: reject_request_def Let_def service_ok_decision)

lemma service_ok_disburse: "service_ok svc \<Longrightarrow> service_ok (snd (disburse_request uid now svc t i a n))"
  by (simp add: disburse_request_def Let_def service_ok_decision)

lemma strip_auto_note [simp]: "py_strip (CHR ''A'' # s) \<noteq> []" "py_strip (CHR ''S'' # s) \<noteq> []"
proof -
  have "\<not> is_space (CHR ''A'')" "\<not> is_space (CHR ''S'')" by code_simp+
  then show "py_strip (CHR ''A'' # s) \<noteq> []" "py_strip (CHR ''S'' # s) \<noteq> []"
    unfolding py_strip_blank_iff by auto
qed

lemma submit_request_cases:
  obtains (failed) e where
    "submit_request rid u1 u2 now svc t c a cur d rcpt auto nts = (Inl e, svc)"
  | (accepted) res draft r1 r where "evaluate (ws_policy svc) rid a = Inr res" "0 < a"
      "py_strip t \<noteq> []" "ar_state draft = DRAFT" "ar_audit_trail draft = []"
      "ar_tenant_id draft = py_strip t" "ar_request_id draft = rid" "ar_amount_scaled draft = a"
      "ar_required_approval_tier draft = tier_value (pe_required_tier res)"
      "r1 = snd (transition u1 now SUBMIT (py_strip c) (Some (text_or nts
         (''Submitted by custodian. Required tier: '' @ tier_value (pe_required_tier res)))) draft)"
      "r = (if pe_auto_approved res \<and> auto
         then snd (transition u2 now APPROVE ''SYSTEM_AUTO_APPROVER''
           (Some (''Auto-approved by policy rule: '' @ pe_matching_rule res)) r1) else r1)"
      "fst (submit_request rid u1 u2 now svc t c a cur d rcpt auto nts) = Inr (r, res)"
      "ws_requests (snd (submit_request rid u1 u2 now svc t c a cur d rcpt auto nts)) =
        AList.update (py_strip t, rid) r (ws_requests svc)"
      "\<forall>k. fst k \<noteq> py_strip t \<longrightarrow>
        ws_metadata (snd (submit_request rid u1 u2 now svc t c a cur d rcpt auto nts)) k = ws_metadata svc k"
      "ar_currency draft = py_upper (py_strip cur)" "length (py_strip cur) = 3"
proof -
  let ?out = "submit_request rid u1 u2 now svc t c a cur d rcpt auto nts"
  show thesis
  proof (cases "py_strip t = [] \<or> py_strip c = [] \<or> a \<le> 0 \<or> length (py_strip cur) \<noteq> 3 \<or> py_strip d = [] \<or>
      (\<exists>e. evaluate (ws_policy svc) rid a = Inl e)")
    case True
    then have "\<exists>e. ?out = (Inl e, svc)" by (auto simp: submit_request_def Let_def)
    then show thesis using failed by blast
  next
    case False
    then obtain res where res: "evaluate (ws_policy svc) rid a = Inr res"
      by (cases "evaluate (ws_policy svc) rid a") auto
    define draft where "draft = \<lparr>ar_request_id = rid, ar_tenant_id = py_strip t,
      ar_custodian_id = py_strip c, ar_amount_scaled = a, ar_currency = py_upper (py_strip cur),
      ar_description = py_strip d, ar_required_approval_tier = tier_value (pe_required_tier res),
      ar_state = DRAFT, ar_audit_trail = [], ar_created_at = now, ar_updated_at = now\<rparr>"
    have step: "table_step DRAFT SUBMIT = Some PENDING" "table_step PENDING APPROVE = Some APPROVED" by simp_all
    show thesis
      by (rule accepted [of res draft, OF res _ _ _ _ _ _ _ _ refl refl])
        (use False res step in \<open>simp_all add: submit_request_def draft_def Let_def fsm_submit_def fsm_approve_def
          transition_def table_step_def split: option.splits\<close>)
  qed
qed

lemma service_ok_submit:
  assumes ok: "service_ok svc"
  shows "service_ok (snd (submit_request rid u1 u2 now svc t c a cur d rcpt auto nts))"
proof (cases rule: submit_request_cases [of rid u1 u2 now svc t c a cur d rcpt auto nts])
  case failed
  with ok show ?thesis by simp
next
  case (accepted res draft r1 r)
  have draft: "trail_ok draft" using accepted(4,5) by (simp add: trail_ok_def)
  have r1: "trail_ok r1" using draft accepted(10) trail_ok_transition by simp
  have step: "map_of transition_table (DRAFT, SUBMIT) = Some PENDING"
    "map_of transition_table (PENDING, APPROVE) = Some APPROVED" by (simp_all add: transition_table_def)
  have "trail_ok r" using r1 accepted(11) trail_ok_transition by simp
  moreover have "(ar_tenant_id r, ar_request_id r) = (py_strip t, rid) \<and> ar_state r \<noteq> DRAFT \<and>
      0 < ar_amount_scaled r \<and> (\<forall>rec \<in> set (ar_audit_trail r). reasoned rec)"
    unfolding accepted(11) accepted(10)
    using accepted(2,4-8) step by (auto simp: reasoned_def transition_def Let_def)
  ultimately have "request_ok (py_strip t, rid) r" by (simp add: request_ok_def)
  with ok show ?thesis using accepted(13) by (rule service_ok_update)
qed

section \<open>Commands and histories\<close>

datatype command =
    Submit string string string time string string scaled string string "fields option" bool "string option"
  | Approve string time string string string string "string option"
  | Reject string time string string string string "string option"
  | Disburse string time string string string "string option"
  | Subscribe nat
  | Unsubscribe nat

fun exec :: "command \<Rightarrow> workflow_service \<Rightarrow> workflow_service" where
  "exec (Submit rid u1 u2 now t c a cur d rcpt auto nts) svc =
     snd (submit_request rid u1 u2 now svc t c a cur d rcpt auto nts)"
| "exec (Approve uid now t i a n role) svc = snd (approve_request uid now svc t i a n role)"
| "exec (Reject uid now t i a n role) svc = snd (reject_request uid now svc t i a n role)"
| "exec (Disburse uid now t i a n) svc = snd (disburse_request uid now svc t i a n)"
| "exec (Subscribe cb) svc = subscribe cb svc"
| "exec (Unsubscribe cb) svc = unsubscribe cb svc"

fun command_tenant :: "command \<Rightarrow> string option" where
  "command_tenant (Submit rid u1 u2 now t c a cur d rcpt auto nts) = Some (py_strip t)"
| "command_tenant (Approve uid now t i a n role) = Some (py_strip t)"
| "command_tenant (Reject uid now t i a n role) = Some (py_strip t)"
| "command_tenant (Disburse uid now t i a n) = Some (py_strip t)"
| "command_tenant _ = None"

definition exec_all :: "evaluator \<Rightarrow> command list \<Rightarrow> workflow_service" where
  "exec_all policy cs = fold exec cs (new_service policy)"

lemma service_ok_exec: "service_ok svc \<Longrightarrow> service_ok (exec c svc)"
  by (cases c) (simp_all add: service_ok_submit service_ok_approve service_ok_reject service_ok_disburse
      subscribe_def unsubscribe_def, simp_all add: service_ok_def)

lemma service_ok_exec_all: "service_ok (exec_all policy cs)"
proof -
  have "service_ok svc \<Longrightarrow> service_ok (fold exec cs svc)" for svc
    by (induction cs arbitrary: svc) (simp_all add: service_ok_exec)
  moreover have "service_ok (new_service policy)" by (simp add: new_service_def service_ok_def)
  ultimately show ?thesis by (simp add: exec_all_def)
qed

text \<open>C4. Whatever commands a service has executed, every stored request belongs to the tenant and id
  it is filed under, is past DRAFT, has a positive amount and an audit trail that is its exact
  history; money was disbursed only after an approval, and every approval and rejection in the
  trail names an actor and carries a reason that is not blank.\<close>

theorem stored_requests_well_governed:
  assumes "((t, i), r) \<in> set (ws_requests (exec_all policy cs))"
  shows "ar_tenant_id r = t \<and> ar_request_id r = i \<and> ar_state r \<noteq> DRAFT \<and> 0 < ar_amount_scaled r \<and>
    map tr_event (ar_audit_trail r) \<in> set (trail_shapes (ar_state r)) \<and>
    (ar_state r = DISBURSED \<longrightarrow> map tr_event (ar_audit_trail r) = [SUBMIT, APPROVE, DISBURSE]) \<and>
    (\<forall>rec \<in> set (ar_audit_trail r). tr_event rec \<in> {APPROVE, REJECT} \<longrightarrow>
       py_strip (tr_actor_id rec) \<noteq> [] \<and> (\<exists>n. tr_notes rec = Some n \<and> py_strip n \<noteq> []))"
proof -
  have "request_ok (t, i) r"
    using service_ok_exec_all [of policy cs] assms by (auto simp: service_ok_def)
  then have ok: "ar_tenant_id r = t" "ar_request_id r = i" "trail_ok r" "ar_state r \<noteq> DRAFT"
    "0 < ar_amount_scaled r" "\<forall>rec \<in> set (ar_audit_trail r). reasoned rec"
    by (simp_all add: request_ok_def)
  moreover have "map tr_event (ar_audit_trail r) \<in> set (trail_shapes (ar_state r))"
    using ok(3) by (rule trail_ok_shapes)
  ultimately show ?thesis unfolding reasoned_def by auto
qed

section \<open>Tenant isolation\<close>

lemma filter_update_other:
  "\<not> P (k, v) \<Longrightarrow> (\<And>w. \<not> P (k, w)) \<Longrightarrow> filter P (AList.update k v d) = filter P d"
  by (induction d) auto

text \<open>Two stores hold the same about a tenant.\<close>

definition same_for :: "string \<Rightarrow> workflow_service \<Rightarrow> workflow_service \<Rightarrow> bool" where
  "same_for t svc svc' \<longleftrightarrow>
     filter (\<lambda>e. fst (fst e) = t) (ws_requests svc') = filter (\<lambda>e. fst (fst e) = t) (ws_requests svc) \<and>
     (\<forall>k. fst k = t \<longrightarrow> ws_metadata svc' k = ws_metadata svc k)"

lemma same_for_refl [simp]: "same_for t svc svc"
  by (simp add: same_for_def)

lemma same_for_decision:
  "t \<noteq> t' \<Longrightarrow> same_for t' svc (snd (apply_decision uid now svc t i actor nts ev check ety pl))"
  by (cases rule: apply_decision_cases [of uid now svc t i actor nts ev check ety pl])
    (auto simp: same_for_def filter_update_other)

lemma same_for_submit:
  "py_strip t \<noteq> t' \<Longrightarrow> same_for t' svc (snd (submit_request rid u1 u2 now svc t c a cur d rcpt auto nts))"
  by (cases rule: submit_request_cases [of rid u1 u2 now svc t c a cur d rcpt auto nts])
    (auto simp: same_for_def filter_update_other)

lemma same_for_exec: "command_tenant c \<noteq> Some t' \<Longrightarrow> same_for t' svc (exec c svc)"
  by (cases c) (simp_all add: same_for_submit same_for_decision approve_request_def
      reject_request_def disburse_request_def Let_def subscribe_def unsubscribe_def,
      simp_all add: same_for_def)

lemma same_for_metadata: "same_for t svc svc' \<Longrightarrow> fst k = t \<Longrightarrow> request_metadata svc' k = request_metadata svc k"
  unfolding same_for_def request_metadata_def by (cases k) simp

lemma map_of_filter_key: "map_of (filter (\<lambda>e. fst (fst e) = t) d) (t, i) = map_of d (t, i)"
  by (induction d) auto

lemma same_for_get:
  assumes "same_for (py_strip t) svc svc'"
  shows "get_request svc' t i = get_request svc t i"
proof -
  have "map_of (ws_requests svc') (py_strip t, k) = map_of (ws_requests svc) (py_strip t, k)" for k
    using assms map_of_filter_key [of "py_strip t" _ k] by (metis same_for_def)
  moreover have "request_metadata svc' (py_strip t, k) = request_metadata svc (py_strip t, k)" for k
    using assms by (intro same_for_metadata) simp_all
  ultimately show ?thesis by (simp add: get_request_def Let_def split: option.split)
qed

lemma list_matches_filter:
  "filter (list_matches t st tier cu) xs =
   filter (list_matches t st tier cu) (filter (\<lambda>e. fst (fst e) = t) xs)"
  by (induction xs) (auto simp: list_matches_def)

lemma same_for_list:
  assumes "same_for (py_strip t) svc svc'"
  shows "list_requests svc' t st tier cu lim off = list_requests svc t st tier cu lim off"
proof -
  have "map (\<lambda>e. (snd e, request_metadata svc' (fst e)))
        (filter (list_matches (py_strip t) st tier cu) (ws_requests svc')) =
      map (\<lambda>e. (snd e, request_metadata svc (fst e)))
        (filter (list_matches (py_strip t) st tier cu) (ws_requests svc))"
  proof (rule map_cong)
    show "filter (list_matches (py_strip t) st tier cu) (ws_requests svc') =
        filter (list_matches (py_strip t) st tier cu) (ws_requests svc)"
      using assms list_matches_filter by (metis same_for_def)
  next
    fix e
    assume "e \<in> set (filter (list_matches (py_strip t) st tier cu) (ws_requests svc))"
    then have "fst (fst e) = py_strip t" by (simp add: list_matches_def)
    with assms show "(snd e, request_metadata svc' (fst e)) = (snd e, request_metadata svc (fst e))"
      by (simp add: same_for_metadata)
  qed
  then show ?thesis by (simp add: list_requests_def)
qed

lemma fold_skip_filter:
  "fold (\<lambda>e s. if \<not> P e then s else f e s) xs s = fold f (filter P xs) s"
  by (induction xs arbitrary: s) auto

lemma summary_filter:
  "get_summary_stats svc t =
   fold (\<lambda>e. summary_step (snd e)) (filter (\<lambda>e. fst (fst e) = py_strip t) (ws_requests svc)) zero_summary"
  unfolding get_summary_stats_def by (rule fold_skip_filter)

lemma summary_step_fields [simp]:
  "ss_total (summary_step r s) = ss_total s + 1"
  "ss_pending (summary_step r s) = ss_pending s + (if ar_state r = PENDING then 1 else 0)"
  "ss_approved (summary_step r s) = ss_approved s + (if ar_state r = APPROVED then 1 else 0)"
  "ss_rejected (summary_step r s) = ss_rejected s + (if ar_state r = REJECTED then 1 else 0)"
  "ss_disbursed (summary_step r s) = ss_disbursed s + (if ar_state r = DISBURSED then 1 else 0)"
  "ss_total_pending_scaled (summary_step r s) =
     ss_total_pending_scaled s + (if ar_state r = PENDING then ar_amount_scaled r else 0)"
  by (cases "ar_state r"; simp add: summary_step_def Let_def)+

lemma fold_summary:
  "ss_total (fold summary_step rs s) = ss_total s + length rs"
  "ss_pending (fold summary_step rs s) = ss_pending s + length (filter (\<lambda>r. ar_state r = PENDING) rs)"
  "ss_approved (fold summary_step rs s) = ss_approved s + length (filter (\<lambda>r. ar_state r = APPROVED) rs)"
  "ss_rejected (fold summary_step rs s) = ss_rejected s + length (filter (\<lambda>r. ar_state r = REJECTED) rs)"
  "ss_disbursed (fold summary_step rs s) = ss_disbursed s + length (filter (\<lambda>r. ar_state r = DISBURSED) rs)"
  "ss_total_pending_scaled (fold summary_step rs s) = ss_total_pending_scaled s +
     sum_list (map ar_amount_scaled (filter (\<lambda>r. ar_state r = PENDING) rs))"
  by (induction rs arbitrary: s) simp_all

lemma states_partition:
  "\<forall>r \<in> set rs. ar_state r \<noteq> DRAFT \<Longrightarrow>
   length (filter (\<lambda>r. ar_state r = PENDING) rs) + length (filter (\<lambda>r. ar_state r = APPROVED) rs) +
   length (filter (\<lambda>r. ar_state r = REJECTED) rs) + length (filter (\<lambda>r. ar_state r = DISBURSED) rs) = length rs"
proof (induction rs)
  case (Cons r rs)
  then show ?case by (cases "ar_state r") simp_all
qed simp

text \<open>C20. Tenants are isolated: a command for one tenant changes nothing that the three queries answer
  to another one: neither a single request and its receipt, nor any filtered page of the list, nor
  the summary.\<close>

theorem tenants_isolated:
  assumes "command_tenant c \<noteq> Some (py_strip t)"
  shows "get_request (exec c svc) t i = get_request svc t i \<and>
    list_requests (exec c svc) t st tier cu lim off = list_requests svc t st tier cu lim off \<and>
    get_summary_stats (exec c svc) t = get_summary_stats svc t"
proof -
  have same: "same_for (py_strip t) svc (exec c svc)" using assms by (rule same_for_exec)
  then have "get_summary_stats (exec c svc) t = get_summary_stats svc t"
    by (simp add: summary_filter same_for_def)
  with same_for_get [OF same] same_for_list [OF same] show ?thesis by blast
qed

text \<open>The summary of a tenant is what counting its requests gives: one counter per state, which
  together make the total, and the amounts that are pending and approved.\<close>

theorem summary_counts_requests:
  defines "own \<equiv> \<lambda>policy cs t. map snd (filter (\<lambda>e. fst (fst e) = py_strip t) (ws_requests (exec_all policy cs)))"
  shows "ss_total (get_summary_stats (exec_all policy cs) t) = length (own policy cs t) \<and>
    ss_pending (get_summary_stats (exec_all policy cs) t) =
      length (filter (\<lambda>r. ar_state r = PENDING) (own policy cs t)) \<and>
    ss_pending (get_summary_stats (exec_all policy cs) t) + ss_approved (get_summary_stats (exec_all policy cs) t) +
      ss_rejected (get_summary_stats (exec_all policy cs) t) + ss_disbursed (get_summary_stats (exec_all policy cs) t) =
      ss_total (get_summary_stats (exec_all policy cs) t) \<and>
    ss_total_pending_scaled (get_summary_stats (exec_all policy cs) t) =
      sum_list (map ar_amount_scaled (filter (\<lambda>r. ar_state r = PENDING) (own policy cs t)))"
proof -
  have "get_summary_stats (exec_all policy cs) t = fold summary_step (own policy cs t) zero_summary"
    by (simp add: summary_filter own_def fold_map comp_def)
  moreover have "\<forall>r \<in> set (own policy cs t). ar_state r \<noteq> DRAFT"
    using service_ok_exec_all [of policy cs] by (auto simp: own_def service_ok_def request_ok_def)
  ultimately show ?thesis
    using states_partition [of "own policy cs t"] by (simp add: fold_summary zero_summary_def)
qed

text \<open>The authority check guards an approval only when the caller names a role: for a pending
  request, an actor and a reason that are not blank, an approval under a non-empty role succeeds
  exactly when the role's level reaches the level of the required tier, while without a role it
  succeeds for every tier.\<close>

theorem authority_checked_only_with_role:
  assumes "map_of (ws_requests svc) (py_strip t, py_strip i) = Some r" "ar_state r = PENDING"
    and "py_strip a \<noteq> []" "py_strip n \<noteq> []"
  shows "((\<exists>r'. fst (approve_request uid now svc t i a n (Some role)) = Inr r') \<longleftrightarrow>
      role = [] \<or> get_or tier_hierarchy (ar_required_approval_tier r) 1 \<le>
        get_or role_tier_map (py_upper (py_strip role)) 0) \<and>
    (\<exists>r'. fst (approve_request uid now svc t i a n None) = Inr r' \<and> ar_state r' = APPROVED)"
proof -
  have step: "map_of transition_table (PENDING, APPROVE) = Some APPROVED"
    by (simp add: transition_table_def)
  show ?thesis
    using assms step
    by (auto simp: approve_request_def apply_decision_def verify_role_authority_def transition_def Let_def
        split: if_splits)
qed

section \<open>A concrete service\<close>

definition demo_commands :: "command list" where
  "demo_commands =
     [Submit ''r1'' ''u1'' ''u2'' 10 ''acme'' ''bob'' 9000000 ''usd'' ''laptop'' None True None,
      Submit ''r2'' ''u3'' ''u4'' 20 ''acme'' ''bob'' 70 ''usd'' ''pens'' None True None,
      Submit ''r3'' ''u5'' ''u6'' 30 ''beta'' ''eve'' 70 ''usd'' ''pens'' None True None]"

lemma demo_requests:
  "map_of (ws_requests (exec_all DEFAULT_PETTYFLOW_POLICY demo_commands)) (''acme'', ''r1'') \<noteq> None"
  "map_option ar_state (map_of (ws_requests (exec_all DEFAULT_PETTYFLOW_POLICY demo_commands)) (''acme'', ''r1'')) = Some PENDING"
  "map_option ar_required_approval_tier (map_of (ws_requests (exec_all DEFAULT_PETTYFLOW_POLICY demo_commands)) (''acme'', ''r1'')) =
     Some ''FINANCE_DIRECTOR''"
  "map_option ar_state (map_of (ws_requests (exec_all DEFAULT_PETTYFLOW_POLICY demo_commands)) (''acme'', ''r2'')) = Some APPROVED"
  by code_simp+

theorem stored_requests_well_governed_witness:
  "\<exists>r. ((''acme'', ''r2''), r) \<in> set (ws_requests (exec_all DEFAULT_PETTYFLOW_POLICY demo_commands)) \<and>
     map tr_event (ar_audit_trail r) = [SUBMIT, APPROVE]"
proof -
  obtain r where r: "map_of (ws_requests (exec_all DEFAULT_PETTYFLOW_POLICY demo_commands)) (''acme'', ''r2'') = Some r"
    "ar_state r = APPROVED"
    using demo_requests(4) by auto
  from map_of_SomeD [OF r(1)] have m: "((''acme'', ''r2''), r) \<in>
      set (ws_requests (exec_all DEFAULT_PETTYFLOW_POLICY demo_commands))" .
  with stored_requests_well_governed [OF m] r(2) show ?thesis by auto
qed

theorem tenants_isolated_witness:
  "get_summary_stats (exec (Approve ''u'' 40 ''acme'' ''r1'' ''al'' ''ok'' None)
      (exec_all DEFAULT_PETTYFLOW_POLICY demo_commands)) ''beta'' =
   get_summary_stats (exec_all DEFAULT_PETTYFLOW_POLICY demo_commands) ''beta''"
proof -
  have "command_tenant (Approve ''u'' 40 ''acme'' ''r1'' ''al'' ''ok'' None) \<noteq> Some (py_strip ''beta'')"
    by code_simp
  from tenants_isolated [OF this] show ?thesis by blast
qed

theorem authority_checked_only_with_role_witness:
  "(\<exists>r'. fst (approve_request ''u'' 40 (exec_all DEFAULT_PETTYFLOW_POLICY demo_commands) ''acme'' ''r1'' ''al'' ''ok'' None) = Inr r') \<and>
   \<not> (\<exists>r'. fst (approve_request ''u'' 40 (exec_all DEFAULT_PETTYFLOW_POLICY demo_commands) ''acme'' ''r1'' ''al'' ''ok''
       (Some ''manager'')) = Inr r')"
proof -
  have strips: "py_strip ''acme'' = ''acme''" "py_strip ''r1'' = ''r1''" "py_strip ''al'' \<noteq> []" "py_strip ''ok'' \<noteq> []"
    by code_simp+
  obtain r where r: "map_of (ws_requests (exec_all DEFAULT_PETTYFLOW_POLICY demo_commands)) (''acme'', ''r1'') = Some r"
    "ar_state r = PENDING" "ar_required_approval_tier r = ''FINANCE_DIRECTOR''"
    using demo_requests(1-3) by auto
  have "\<not> get_or tier_hierarchy ''FINANCE_DIRECTOR'' 1 \<le> get_or role_tier_map (py_upper (py_strip ''manager'')) 0"
    by code_simp
  with authority_checked_only_with_role [of "exec_all DEFAULT_PETTYFLOW_POLICY demo_commands" "''acme''" "''r1''" r
      "''al''" "''ok''" "''u''" 40 "''manager''"] r strips
  show ?thesis by auto
qed

end
