(* ===== verification/Once_Per_Key.thy ===== *)
theory Once_Per_Key
  imports Prelude
begin

text \<open>
  The contract of an issuing operation that is idempotent in its key: a key that was served
  before gets the stored result and changes nothing, a new key gets a new result that is stored
  under it. The card issuer and the mobile-money adapter interpret it; what a retry gets, and
  that distinct keys do not interfere, is proved here once.
\<close>

locale once_per_key =
  fixes issue :: "'req \<Rightarrow> 'env \<Rightarrow> 's \<Rightarrow> 'res \<times> 's"
    and served :: "'s \<Rightarrow> 'key \<rightharpoonup> 'res"
    and key_of :: "'req \<Rightarrow> 'key"
  assumes issue_hit: "served s (key_of r) = Some x \<Longrightarrow> issue r e s = (x, s)"
    and issue_miss: "served s (key_of r) = None \<Longrightarrow>
      served (snd (issue r e s)) = (served s)(key_of r \<mapsto> fst (issue r e s))"
begin

lemma issue_served: "served (snd (issue r e s)) (key_of r) = Some (fst (issue r e s))"
  by (cases "served s (key_of r)") (auto simp: issue_miss issue_hit)

lemma issue_keeps: "served s k = Some x \<Longrightarrow> served (snd (issue r e s)) k = Some x"
  by (cases "served s (key_of r)") (auto simp: issue_miss issue_hit)

lemma issue_other: "k \<noteq> key_of r \<Longrightarrow> served (snd (issue r e s)) k = served s k"
  by (cases "served s (key_of r)") (auto simp: issue_miss issue_hit)

fun issue_all :: "('req \<times> 'env) list \<Rightarrow> 's \<Rightarrow> 's" where
  "issue_all [] s = s"
| "issue_all ((r, e) # rs) s = issue_all rs (snd (issue r e s))"

lemma issue_all_keeps: "served s k = Some x \<Longrightarrow> served (issue_all rs s) k = Some x"
  by (induction rs s rule: issue_all.induct) (auto simp: issue_keeps)

text \<open>A retry, however much later, gets the first result and issues nothing.\<close>

lemma retry:
  assumes "key_of r' = key_of r"
  shows "issue r' e' (issue_all rs (snd (issue r e s))) =
    (fst (issue r e s), issue_all rs (snd (issue r e s)))"
  using issue_all_keeps [OF issue_served] assms by (intro issue_hit) metis

lemma issue_all_dom: "dom (served (issue_all rs s)) = dom (served s) \<union> key_of ` fst ` set rs"
proof (induction rs s rule: issue_all.induct)
  case (2 r e rs s)
  have "dom (served (snd (issue r e s))) = insert (key_of r) (dom (served s))"
    by (cases "served s (key_of r)") (auto simp: issue_miss issue_hit)
  with 2 show ?case by simp
qed simp

end

end
