(* ===== verification/Card_Issuer.thy ===== *)
theory Card_Issuer
  imports Once_Per_Key Json
begin

text \<open>
  \<^verbatim>\<open>src/infrastructure/adapters/card_issuer.py\<close>: virtual cards of the issuer's mock backend. The
  SHA-256 and MD5 hex digests are the parameters \<open>sha\<close> and \<open>md5\<close>; the uuid's hex text, the time
  stamp and the expiry month are an argument record. The formatted dollar limit of \<open>to_dict\<close> is the
  parameter \<open>money\<close>.
\<close>

section \<open>Data\<close>

datatype card_status = CardActive | CardInactive | CardCancelled | CardExpired

fun card_status_value :: "card_status \<Rightarrow> string" where
  "card_status_value CardActive = ''active''"
| "card_status_value CardInactive = ''inactive''"
| "card_status_value CardCancelled = ''cancelled''"
| "card_status_value CardExpired = ''expired''"

definition card_status_of :: "string \<Rightarrow> card_status option" where
  "card_status_of v =
     find (\<lambda>s. card_status_value s = v) [CardActive, CardInactive, CardCancelled, CardExpired]"

datatype card_backend = Stripe | Marqeta | MockIssuer

fun card_backend_value :: "card_backend \<Rightarrow> string" where
  "card_backend_value Stripe = ''stripe''"
| "card_backend_value Marqeta = ''marqeta''"
| "card_backend_value MockIssuer = ''mock''"

definition card_backend_of :: "string \<Rightarrow> card_backend option" where
  "card_backend_of v = find (\<lambda>b. card_backend_value b = v) [Stripe, Marqeta, MockIssuer]"

lemma card_values_inverse [simp]:
  "card_status_of (card_status_value s) = Some s" "card_backend_of (card_backend_value b) = Some b"
  by (cases s; simp add: card_status_of_def) (cases b; simp add: card_backend_of_def)

record card_request =
  cr_tenant_id :: string
  cr_custodian_id :: string
  cr_fund_id :: string
  cr_spending_limit_scaled :: scaled
  cr_currency :: string
  cr_cardholder_name :: string
  cr_idempotency_key :: string
  cr_metadata :: tags

record virtual_card =
  vc_card_id :: string
  vc_tenant_id :: string
  vc_custodian_id :: string
  vc_fund_id :: string
  vc_last_four :: string
  vc_card_status :: card_status
  vc_spending_limit_scaled :: scaled
  vc_currency :: string
  vc_idempotency_key :: string
  vc_backend :: card_backend
  vc_created_at :: string
  vc_expires_at :: string
  vc_metadata :: tags

text \<open>The keys of the issued-cards dictionary: the pairs \<open>create_virtual_card\<close> uses, and the bare
  texts \<open>cancel_card\<close> writes.\<close>

datatype card_key = TenantKey string string | BareKey string

record card_issuer =
  ci_backend :: card_backend
  ci_issued_cards :: "card_key \<rightharpoonup> virtual_card"
  ci_cards_by_id :: "string \<rightharpoonup> virtual_card"

datatype card_error = LimitNotPositive int | CardCurrencyLength string

record card_env =
  ce_uuid_hex :: string
  ce_now :: string
  ce_expiry :: string

definition new_card_issuer :: "card_backend \<Rightarrow> card_issuer" where
  "new_card_issuer b = \<lparr>ci_backend = b, ci_issued_cards = Map.empty, ci_cards_by_id = Map.empty\<rparr>"

text \<open>\<open>VirtualCardRequest.__post_init__\<close>.\<close>

definition mk_card_request ::
  "(string \<Rightarrow> string) \<Rightarrow> string \<Rightarrow> string \<Rightarrow> string \<Rightarrow> scaled \<Rightarrow> string \<Rightarrow> string \<Rightarrow> string option \<Rightarrow> tags \<Rightarrow>
   card_error + card_request" where
  "mk_card_request sha tenant custodian fid limit currency holder key meta =
     (if limit \<le> 0 then Inl (LimitNotPositive limit)
      else if length currency \<noteq> 3 then Inl (CardCurrencyLength currency)
      else Inr \<lparr>cr_tenant_id = tenant, cr_custodian_id = custodian, cr_fund_id = fid,
             cr_spending_limit_scaled = limit, cr_currency = currency, cr_cardholder_name = holder,
             cr_idempotency_key =
               text_or key (take 32 (sha (utf8
                 (tenant @ '':'' @ custodian @ '':'' @ fid @ '':'' @ show_int limit)))),
             cr_metadata = meta\<rparr>)"

section \<open>Operations\<close>

fun hex_number :: "nat \<Rightarrow> string \<Rightarrow> nat" where
  "hex_number acc [] = acc"
| "hex_number acc (c # s) = hex_number (16 * acc + (case hex_value c of None \<Rightarrow> 0 | Some n \<Rightarrow> n)) s"

definition last_four_of :: "(string \<Rightarrow> string) \<Rightarrow> string \<Rightarrow> string" where
  "last_four_of md5 card_id = zfill 4 (show_nat (hex_number 0 (take 4 (md5 (utf8 card_id))) mod 10000))"

definition create_virtual_card ::
  "(string \<Rightarrow> string) \<Rightarrow> card_request \<Rightarrow> card_env \<Rightarrow> card_issuer \<Rightarrow> virtual_card \<times> card_issuer" where
  "create_virtual_card md5 r env ci =
     (case ci_issued_cards ci (TenantKey (cr_tenant_id r) (cr_idempotency_key r)) of
        Some existing \<Rightarrow> (existing, ci)
      | None \<Rightarrow>
        (let card_id = ''card_'' @ take 16 (ce_uuid_hex env);
             result = \<lparr>vc_card_id = card_id, vc_tenant_id = cr_tenant_id r,
               vc_custodian_id = cr_custodian_id r, vc_fund_id = cr_fund_id r,
               vc_last_four = last_four_of md5 card_id, vc_card_status = CardActive,
               vc_spending_limit_scaled = cr_spending_limit_scaled r, vc_currency = cr_currency r,
               vc_idempotency_key = cr_idempotency_key r, vc_backend = ci_backend ci,
               vc_created_at = ce_now env, vc_expires_at = ce_expiry env,
               vc_metadata = AList.update ''fund_id'' (cr_fund_id r)
                 (AList.update ''tenant_id'' (cr_tenant_id r) (cr_metadata r))\<rparr>
         in (result, ci\<lparr>ci_issued_cards := (ci_issued_cards ci)
               (TenantKey (cr_tenant_id r) (cr_idempotency_key r) \<mapsto> result),
               ci_cards_by_id := (ci_cards_by_id ci)(card_id \<mapsto> result)\<rparr>)))"

definition get_card :: "card_issuer \<Rightarrow> string \<Rightarrow> string option \<Rightarrow> virtual_card option" where
  "get_card ci card_id tenant =
     (case ci_cards_by_id ci card_id of
        None \<Rightarrow> None
      | Some cd \<Rightarrow>
        (case tenant of
           None \<Rightarrow> Some cd
         | Some t \<Rightarrow> if vc_tenant_id cd \<noteq> t then None else Some cd))"

definition cancel_card :: "card_issuer \<Rightarrow> string \<Rightarrow> string option \<Rightarrow> bool \<times> card_issuer" where
  "cancel_card ci card_id tenant =
     (case ci_cards_by_id ci card_id of
        None \<Rightarrow> (False, ci)
      | Some cd \<Rightarrow>
        if (case tenant of None \<Rightarrow> False | Some t \<Rightarrow> vc_tenant_id cd \<noteq> t) then (False, ci)
        else let cancelled = cd\<lparr>vc_card_status := CardCancelled\<rparr>
             in (True, ci\<lparr>ci_cards_by_id := (ci_cards_by_id ci)(card_id \<mapsto> cancelled),
                   ci_issued_cards := (ci_issued_cards ci)(BareKey (vc_idempotency_key cd) \<mapsto> cancelled)\<rparr>))"

definition card_to_dict :: "(scaled \<Rightarrow> string) \<Rightarrow> virtual_card \<Rightarrow> json" where
  "card_to_dict money c = JDict
     [(''card_id'', JStr (vc_card_id c)), (''tenant_id'', JStr (vc_tenant_id c)),
      (''custodian_id'', JStr (vc_custodian_id c)), (''fund_id'', JStr (vc_fund_id c)),
      (''last_four'', JStr (vc_last_four c)),
      (''card_status'', JStr (card_status_value (vc_card_status c))),
      (''spending_limit_scaled'', JInt (vc_spending_limit_scaled c)),
      (''spending_limit_formatted'', JStr (money (vc_spending_limit_scaled c))),
      (''currency'', JStr (vc_currency c)), (''idempotency_key'', JStr (vc_idempotency_key c)),
      (''backend'', JStr (card_backend_value (vc_backend c))),
      (''created_at'', JStr (vc_created_at c)), (''expires_at'', JStr (vc_expires_at c)),
      (''metadata'', json_tags (vc_metadata c))]"

section \<open>One card per tenant and key\<close>

definition card_key_of :: "card_request \<Rightarrow> card_key" where
  "card_key_of r = TenantKey (cr_tenant_id r) (cr_idempotency_key r)"

interpretation card_once: once_per_key "create_virtual_card md5" ci_issued_cards card_key_of for md5
  by unfold_locales (auto simp: create_virtual_card_def card_key_of_def Let_def)

lemma create_new_card:
  assumes "ci_issued_cards ci (card_key_of r) = None"
  shows "vc_card_status (fst (create_virtual_card md5 r env ci)) = CardActive"
    "vc_card_id (fst (create_virtual_card md5 r env ci)) = ''card_'' @ take 16 (ce_uuid_hex env)"
    "ci_cards_by_id (snd (create_virtual_card md5 r env ci)) =
      (ci_cards_by_id ci)(''card_'' @ take 16 (ce_uuid_hex env) \<mapsto> fst (create_virtual_card md5 r env ci))"
    "vc_tenant_id (fst (create_virtual_card md5 r env ci)) = cr_tenant_id r"
    "vc_idempotency_key (fst (create_virtual_card md5 r env ci)) = cr_idempotency_key r"
  using assms by (simp_all add: create_virtual_card_def card_key_of_def Let_def)

text \<open>A cancelled card is handed out again as active: after creating a card under a new key and
  cancelling it, a retry of the request returns the first, active card, while the lookup by id
  reports it cancelled. The cancellation is stored under a key no request reads.\<close>

theorem cancelled_card_reissued_active:
  assumes "ci_issued_cards ci (card_key_of r) = None"
    and "create_virtual_card md5 r env ci = (cd, ci1)"
    and "cancel_card ci1 (vc_card_id cd) (Some (cr_tenant_id r)) = (ok, ci2)"
  shows "ok \<and> map_option vc_card_status (get_card ci2 (vc_card_id cd) None) = Some CardCancelled \<and>
    create_virtual_card md5 r env' ci2 = (cd, ci2) \<and> vc_card_status cd = CardActive"
proof -
  have c: "fst (create_virtual_card md5 r env ci) = cd" "snd (create_virtual_card md5 r env ci) = ci1"
    using assms(2) by simp_all
  note new = create_new_card [OF assms(1), of md5 env, unfolded c]
  have issued: "ci_issued_cards ci1 (card_key_of r) = Some cd"
    using card_once.issue_served [of md5 r env ci] by (simp add: c)
  have byid: "ci_cards_by_id ci1 (vc_card_id cd) = Some cd"
    unfolding new(3) new(2) by simp
  have ci2: "ok" "ci2 = ci1\<lparr>ci_cards_by_id := (ci_cards_by_id ci1)(vc_card_id cd \<mapsto> cd\<lparr>vc_card_status := CardCancelled\<rparr>),
      ci_issued_cards := (ci_issued_cards ci1)(BareKey (vc_idempotency_key cd) \<mapsto> cd\<lparr>vc_card_status := CardCancelled\<rparr>)\<rparr>"
    using assms(3) by (simp_all add: cancel_card_def Let_def byid new(4))
  then have "ci_issued_cards ci2 (card_key_of r) = Some cd"
    using issued by (simp add: card_key_of_def)
  then have "create_virtual_card md5 r env' ci2 = (cd, ci2)" by (rule card_once.issue_hit)
  with ci2 new(1) show ?thesis by (simp add: get_card_def)
qed

definition demo_card_request :: card_request where
  "demo_card_request = \<lparr>cr_tenant_id = ''acme'', cr_custodian_id = ''c1'', cr_fund_id = ''f1'',
     cr_spending_limit_scaled = 500, cr_currency = ''USD'', cr_cardholder_name = ''Bo'',
     cr_idempotency_key = ''k1'', cr_metadata = []\<rparr>"

definition demo_card_env :: card_env where
  "demo_card_env = \<lparr>ce_uuid_hex = ''0123456789abcdef'', ce_now = ''2026-01-01'', ce_expiry = ''2027-01''\<rparr>"

theorem cancelled_card_reissued_active_witness:
  "let (cd, ci1) = create_virtual_card (\<lambda>m. ''00ff'') demo_card_request demo_card_env (new_card_issuer MockIssuer);
       (ok, ci2) = cancel_card ci1 (vc_card_id cd) (Some ''acme'')
   in vc_card_status (fst (create_virtual_card (\<lambda>m. ''00ff'') demo_card_request demo_card_env ci2)) = CardActive"
proof -
  have new: "ci_issued_cards (new_card_issuer MockIssuer) (card_key_of demo_card_request) = None"
    and tenant: "cr_tenant_id demo_card_request = ''acme''"
    by (simp_all add: new_card_issuer_def demo_card_request_def)
  obtain cd ci1 where c: "create_virtual_card (\<lambda>m. ''00ff'') demo_card_request demo_card_env
      (new_card_issuer MockIssuer) = (cd, ci1)" by (metis surj_pair)
  obtain ok ci2 where d: "cancel_card ci1 (vc_card_id cd) (Some (cr_tenant_id demo_card_request)) = (ok, ci2)"
    by (metis surj_pair)
  from cancelled_card_reissued_active [OF new c d] c d tenant show ?thesis by simp
qed

end
