(* ===== verification/Mobile_Money.thy ===== *)
theory Mobile_Money
  imports Once_Per_Key Json
begin

text \<open>
  \<^verbatim>\<open>src/infrastructure/adapters/mobile_money.py\<close>: the mock adapter for mobile money and ACH. The
  SHA-256 and MD5 hex digests are the parameters \<open>sha\<close> and \<open>md5\<close>; the uuid's hex text and the
  time stamp are arguments. The formatted dollar amount of \<open>to_dict\<close> is the parameter \<open>money\<close>.
\<close>

section \<open>Data\<close>

datatype mobile_backend = MPesa | Ach | Venmo | MockMobile

fun mobile_backend_value :: "mobile_backend \<Rightarrow> string" where
  "mobile_backend_value MPesa = ''mpesa''"
| "mobile_backend_value Ach = ''ach''"
| "mobile_backend_value Venmo = ''venmo''"
| "mobile_backend_value MockMobile = ''mock''"

definition mobile_backend_of :: "string \<Rightarrow> mobile_backend option" where
  "mobile_backend_of v = find (\<lambda>b. mobile_backend_value b = v) [MPesa, Ach, Venmo, MockMobile]"

datatype mobile_status = MPending | MProcessing | MCompleted | MFailed | MReversed

fun mobile_status_value :: "mobile_status \<Rightarrow> string" where
  "mobile_status_value MPending = ''pending''"
| "mobile_status_value MProcessing = ''processing''"
| "mobile_status_value MCompleted = ''completed''"
| "mobile_status_value MFailed = ''failed''"
| "mobile_status_value MReversed = ''reversed''"

definition mobile_status_of :: "string \<Rightarrow> mobile_status option" where
  "mobile_status_of v =
     find (\<lambda>s. mobile_status_value s = v) [MPending, MProcessing, MCompleted, MFailed, MReversed]"

lemma mobile_values_inverse [simp]:
  "mobile_status_of (mobile_status_value s) = Some s"
  "mobile_backend_of (mobile_backend_value b) = Some b"
  by (cases s; simp add: mobile_status_of_def) (cases b; simp add: mobile_backend_of_def)

record mobile_request =
  mr_tenant_id :: string
  mr_custodian_id :: string
  mr_fund_id :: string
  mr_recipient :: string
  mr_amount_scaled :: scaled
  mr_currency :: string
  mr_description :: string
  mr_idempotency_key :: string
  mr_metadata :: tags

record mobile_result =
  mx_disbursement_id :: string
  mx_tenant_id :: string
  mx_custodian_id :: string
  mx_fund_id :: string
  mx_recipient :: string
  mx_amount_scaled :: scaled
  mx_currency :: string
  mx_status :: mobile_status
  mx_backend :: mobile_backend
  mx_idempotency_key :: string
  mx_reference_number :: string
  mx_initiated_at :: string
  mx_completed_at :: "string option"
  mx_failure_reason :: "string option"
  mx_metadata :: tags

datatype mobile_error = AmountNotPositive int | MobileCurrencyLength string | RecipientEmpty

record mobile_adapter =
  ma_backend :: mobile_backend
  ma_simulate_failure :: bool
  ma_disbursements :: "string \<times> string \<rightharpoonup> mobile_result"
  ma_by_id :: "(string \<times> mobile_result) list"

record mobile_env =
  me_uuid_hex :: string
  me_now :: string

definition new_mobile_adapter :: "mobile_backend \<Rightarrow> bool \<Rightarrow> mobile_adapter" where
  "new_mobile_adapter b failing =
     \<lparr>ma_backend = b, ma_simulate_failure = failing, ma_disbursements = Map.empty, ma_by_id = []\<rparr>"

text \<open>\<open>DisbursementRequest.__post_init__\<close>.\<close>

definition mk_mobile_request ::
  "(string \<Rightarrow> string) \<Rightarrow> string \<Rightarrow> string \<Rightarrow> string \<Rightarrow> string \<Rightarrow> scaled \<Rightarrow> string \<Rightarrow> string \<Rightarrow>
   string option \<Rightarrow> tags \<Rightarrow> mobile_error + mobile_request" where
  "mk_mobile_request sha tenant custodian fid recipient amount currency description key meta =
     (if amount \<le> 0 then Inl (AmountNotPositive amount)
      else if length currency \<noteq> 3 then Inl (MobileCurrencyLength currency)
      else if recipient = [] then Inl RecipientEmpty
      else Inr \<lparr>mr_tenant_id = tenant, mr_custodian_id = custodian, mr_fund_id = fid,
             mr_recipient = recipient, mr_amount_scaled = amount, mr_currency = currency,
             mr_description = description,
             mr_idempotency_key =
               text_or key (take 32 (sha (utf8 (tenant @ '':'' @ custodian @ '':'' @ fid @ '':'' @
                 recipient @ '':'' @ show_int amount)))),
             mr_metadata = meta\<rparr>)"

section \<open>Operations\<close>

definition disburse ::
  "(string \<Rightarrow> string) \<Rightarrow> mobile_request \<Rightarrow> mobile_env \<Rightarrow> mobile_adapter \<Rightarrow> mobile_result \<times> mobile_adapter" where
  "disburse md5 r env ma =
     (case ma_disbursements ma (mr_tenant_id r, mr_idempotency_key r) of
        Some existing \<Rightarrow> (existing, ma)
      | None \<Rightarrow>
        (let disbursement_id = ''disb_'' @ take 16 (me_uuid_hex env);
             now = me_now env;
             ref_num = ''REF-'' @ py_upper (take 8 (md5 (utf8 disbursement_id)));
             result =
               \<lparr>mx_disbursement_id = disbursement_id, mx_tenant_id = mr_tenant_id r,
                mx_custodian_id = mr_custodian_id r, mx_fund_id = mr_fund_id r,
                mx_recipient = mr_recipient r, mx_amount_scaled = mr_amount_scaled r,
                mx_currency = mr_currency r,
                mx_status = (if ma_simulate_failure ma then MFailed else MCompleted),
                mx_backend = ma_backend ma, mx_idempotency_key = mr_idempotency_key r,
                mx_reference_number = ref_num, mx_initiated_at = now,
                mx_completed_at = (if ma_simulate_failure ma then None else Some now),
                mx_failure_reason =
                  (if ma_simulate_failure ma then Some ''Simulated provider failure'' else None),
                mx_metadata =
                  (if ma_simulate_failure ma then mr_metadata r
                   else AList.update ''fund_id'' (mr_fund_id r)
                     (AList.update ''tenant_id'' (mr_tenant_id r) (mr_metadata r)))\<rparr>
         in (result, ma\<lparr>ma_disbursements := (ma_disbursements ma)
               ((mr_tenant_id r, mr_idempotency_key r) \<mapsto> result),
               ma_by_id := AList.update disbursement_id result (ma_by_id ma)\<rparr>)))"

definition get_disbursement_status :: "mobile_adapter \<Rightarrow> string \<Rightarrow> string option \<Rightarrow> mobile_result option" where
  "get_disbursement_status ma did tenant =
     (case map_of (ma_by_id ma) did of
        None \<Rightarrow> None
      | Some result \<Rightarrow>
        (case tenant of
           None \<Rightarrow> Some result
         | Some t \<Rightarrow> if mx_tenant_id result \<noteq> t then None else Some result))"

definition count_mobile :: "mobile_adapter \<Rightarrow> nat" where
  "count_mobile ma = length (ma_by_id ma)"

definition mobile_to_dict :: "(scaled \<Rightarrow> string) \<Rightarrow> mobile_result \<Rightarrow> json" where
  "mobile_to_dict money m = JDict
     [(''disbursement_id'', JStr (mx_disbursement_id m)), (''tenant_id'', JStr (mx_tenant_id m)),
      (''custodian_id'', JStr (mx_custodian_id m)), (''fund_id'', JStr (mx_fund_id m)),
      (''recipient'', JStr (mx_recipient m)), (''amount_scaled'', JInt (mx_amount_scaled m)),
      (''amount_formatted'', JStr (money (mx_amount_scaled m))), (''currency'', JStr (mx_currency m)),
      (''status'', JStr (mobile_status_value (mx_status m))),
      (''backend'', JStr (mobile_backend_value (mx_backend m))),
      (''idempotency_key'', JStr (mx_idempotency_key m)),
      (''reference_number'', JStr (mx_reference_number m)),
      (''initiated_at'', JStr (mx_initiated_at m)), (''completed_at'', json_opt (mx_completed_at m)),
      (''failure_reason'', json_opt (mx_failure_reason m)), (''metadata'', json_tags (mx_metadata m))]"

section \<open>One disbursement per tenant and key\<close>

definition mobile_key_of :: "mobile_request \<Rightarrow> string \<times> string" where
  "mobile_key_of r = (mr_tenant_id r, mr_idempotency_key r)"

interpretation mobile_once: once_per_key "disburse md5" ma_disbursements mobile_key_of for md5
  by unfold_locales (auto simp: disburse_def mobile_key_of_def Let_def)

lemma disburse_failing_again:
  "ma_disbursements ma (mobile_key_of r) = None \<Longrightarrow>
     mx_status (fst (disburse md5 r env ma)) = (if ma_simulate_failure ma then MFailed else MCompleted)"
  by (simp add: disburse_def mobile_key_of_def Let_def)

end
