(* ===== verification/Settlement.thy ===== *)
theory Settlement
  imports Prelude
begin

text \<open>
  \<^verbatim>\<open>src/domain/wallet/settlement.py\<close>: the settlement states and the transitions a provider may
  report.
\<close>

datatype settlement_state =
    SPending | SProcessing | SCompleted | SFailed | SReversed | SManualReview

fun settlement_value :: "settlement_state \<Rightarrow> string" where
  "settlement_value SPending = ''pending''"
| "settlement_value SProcessing = ''processing''"
| "settlement_value SCompleted = ''completed''"
| "settlement_value SFailed = ''failed''"
| "settlement_value SReversed = ''reversed''"
| "settlement_value SManualReview = ''manual_review''"

definition settlement_states :: "settlement_state list" where
  "settlement_states = [SPending, SProcessing, SCompleted, SFailed, SReversed, SManualReview]"

text \<open>\<open>SettlementState(value)\<close>: the member with that value, or an error.\<close>

definition settlement_of_value :: "string \<Rightarrow> settlement_state option" where
  "settlement_of_value v = find (\<lambda>s. settlement_value s = v) settlement_states"

fun settlement_transitions :: "settlement_state \<Rightarrow> settlement_state list" where
  "settlement_transitions SPending = [SProcessing, SFailed, SManualReview]"
| "settlement_transitions SProcessing = [SCompleted, SFailed, SManualReview]"
| "settlement_transitions SCompleted = [SReversed]"
| "settlement_transitions SFailed = [SPending, SManualReview]"
| "settlement_transitions SReversed = []"
| "settlement_transitions SManualReview = [SPending, SCompleted, SFailed, SReversed]"

datatype settlement_error = IllegalSettlement settlement_state settlement_state

definition validate_settlement_transition ::
  "settlement_state \<Rightarrow> settlement_state \<Rightarrow> settlement_error + settlement_state" where
  "validate_settlement_transition current requested =
     (if requested \<notin> set (settlement_transitions current)
      then Inl (IllegalSettlement current requested) else Inr requested)"

lemma settlement_of_value_value [simp]: "settlement_of_value (settlement_value s) = Some s"
  by (cases s) (simp_all add: settlement_of_value_def settlement_states_def)

text \<open>The accepted reports, in sequence.\<close>

inductive settles :: "settlement_state \<Rightarrow> settlement_state \<Rightarrow> bool" where
  stay: "settles s s"
| step: "settles s t \<Longrightarrow> validate_settlement_transition t u = Inr u \<Longrightarrow> settles s u"

lemma settles_completed: "settles SCompleted t \<Longrightarrow> t = SCompleted \<or> t = SReversed"
proof (induction SCompleted t rule: settles.induct)
  case stay
  then show ?case by simp
next
  case (step t u)
  then show ?case
    by (cases u) (auto simp: validate_settlement_transition_def split: if_splits)
qed

lemma settles_reversed: "settles SReversed t \<Longrightarrow> t = SReversed"
proof (induction SReversed t rule: settles.induct)
  case stay
  then show ?case by simp
next
  case (step t u)
  then show ?case by (auto simp: validate_settlement_transition_def split: if_splits)
qed

lemma settles_step:
  "b \<in> set (settlement_transitions a) \<Longrightarrow> settles s a \<Longrightarrow> settles s b"
  by (rule settles.step) (simp_all add: validate_settlement_transition_def)

lemma settles_completes: "s \<noteq> SReversed \<Longrightarrow> settles s SCompleted"
proof (cases s)
  case SPending
  then show ?thesis
    by (simp, intro settles_step [of SCompleted SProcessing] settles_step [of SProcessing SPending]
        settles.stay) simp_all
next
  case SProcessing
  then show ?thesis by (simp, intro settles_step [of SCompleted SProcessing] settles.stay) simp
next
  case SFailed
  then show ?thesis
    by (simp, intro settles_step [of SCompleted SManualReview] settles_step [of SManualReview SFailed]
        settles.stay) simp_all
next
  case SManualReview
  then show ?thesis by (simp, intro settles_step [of SCompleted SManualReview] settles.stay) simp
qed (auto intro: settles.stay)

text \<open>Settled money stays settled: from COMPLETED the only accepted report is a reversal, REVERSED
  accepts none, and from every other state completion can still be reached.\<close>

theorem settlement_finality:
  "(settles SCompleted t \<longleftrightarrow> t = SCompleted \<or> t = SReversed) \<and>
   (settles SReversed t \<longleftrightarrow> t = SReversed) \<and> (s = SReversed \<or> settles s SCompleted)"
  using settles_completed settles_reversed settles_completes
    settles_step [of SReversed SCompleted SCompleted]
  by (auto intro: settles.stay)

end
