(* ===== verification/Idempotency.thy ===== *)
theory Idempotency
  imports Json
begin

text \<open>
  \<^verbatim>\<open>src/infrastructure/idempotency/store.py\<close>: the SQLite store of idempotency records and claimed
  provider events. A table is a map from its primary key to the row; a statement runs under the
  lock, and a rolled-back transaction restores the tables it started from. \<open>CURRENT_TIMESTAMP\<close>
  and \<open>datetime('now', ...)\<close> are the clock argument in seconds, which the text format orders the
  same way. SHA-256 in hex is the parameter \<open>sha\<close>. The optional column of an old database file
  and the file handling are not modelled.
\<close>

section \<open>Tables\<close>

datatype record_status = InProgress | Completed | Failed

record idem_row =
  ir_fingerprint :: string
  ir_result_json :: string
  ir_status :: record_status
  ir_created_at :: time

record event_row =
  er_fingerprint :: string
  er_created_at :: time

record idem_store =
  st_retention_seconds :: int
  st_records :: "string \<times> string \<rightharpoonup> idem_row"
  st_events :: "string \<times> string \<times> string \<rightharpoonup> event_row"

record stored_result =
  sr_tenant_id :: string
  sr_key :: string
  sr_request_fingerprint :: string
  sr_result_json :: string
  sr_status :: record_status

datatype idem_error =
    BadRetention
  | KeyReused
  | CannotComplete
  | CannotFail
  | EventReused
  | ResultNotAccepted

definition new_store :: "int \<Rightarrow> idem_error + idem_store" where
  "new_store retention =
     (if retention \<le> 0 then Inl BadRetention
      else Inr \<lparr>st_retention_seconds = retention, st_records = Map.empty, st_events = Map.empty\<rparr>)"

definition request_fingerprint :: "(string \<Rightarrow> string) \<Rightarrow> json \<Rightarrow> string" where
  "request_fingerprint sha payload = sha (utf8 (dumps Compact True payload))"

section \<open>Statements\<close>

text \<open>The two \<open>DELETE ... WHERE created_at < datetime('now', '-n seconds')\<close>.\<close>

definition prune :: "time \<Rightarrow> idem_store \<Rightarrow> idem_store" where
  "prune now st =
     (let cutoff = now - st_retention_seconds st
      in st\<lparr>st_records := (\<lambda>k. case st_records st k of None \<Rightarrow> None
              | Some r \<Rightarrow> if ir_created_at r < cutoff then None else Some r),
            st_events := (\<lambda>k. case st_events st k of None \<Rightarrow> None
              | Some r \<Rightarrow> if er_created_at r < cutoff then None else Some r)\<rparr>)"

definition reserve ::
  "time \<Rightarrow> idem_store \<Rightarrow> string \<Rightarrow> string \<Rightarrow> string \<Rightarrow> (idem_error + stored_result option) \<times> idem_store" where
  "reserve now st tenant key fp =
     (let pruned = prune now st
      in case st_records pruned (tenant, key) of
           Some row \<Rightarrow>
             if ir_fingerprint row \<noteq> fp then (Inl KeyReused, st)
             else (Inr (Some \<lparr>sr_tenant_id = tenant, sr_key = key,
                     sr_request_fingerprint = ir_fingerprint row,
                     sr_result_json = ir_result_json row, sr_status = ir_status row\<rparr>), pruned)
         | None \<Rightarrow>
             (Inr None, pruned\<lparr>st_records := (st_records pruned)((tenant, key) \<mapsto>
                \<lparr>ir_fingerprint = fp, ir_result_json = [], ir_status = InProgress,
                 ir_created_at = now\<rparr>)\<rparr>))"

definition owns :: "idem_store \<Rightarrow> string \<Rightarrow> string \<Rightarrow> string \<Rightarrow> bool" where
  "owns st tenant key fp =
     (case st_records st (tenant, key) of None \<Rightarrow> False
      | Some row \<Rightarrow> ir_fingerprint row = fp \<and> ir_status row = InProgress)"

text \<open>The guarded \<open>UPDATE\<close> that \<open>complete\<close> and \<open>fail\<close> share, up to the status they set.\<close>

definition finish ::
  "record_status \<Rightarrow> idem_error \<Rightarrow> idem_store \<Rightarrow> string \<Rightarrow> string \<Rightarrow> string \<Rightarrow> string \<Rightarrow>
   (idem_error + stored_result) \<times> idem_store" where
  "finish status err st tenant key fp result =
     (if owns st tenant key fp then
        (Inr \<lparr>sr_tenant_id = tenant, sr_key = key, sr_request_fingerprint = fp,
              sr_result_json = result, sr_status = status\<rparr>,
         st\<lparr>st_records := (st_records st)((tenant, key) \<mapsto>
           (the (st_records st (tenant, key)))\<lparr>ir_result_json := result, ir_status := status\<rparr>)\<rparr>)
      else (Inl err, st))"

definition complete where "complete = finish Completed CannotComplete"
definition fail_record where "fail_record = finish Failed CannotFail"

definition abandon :: "idem_store \<Rightarrow> string \<Rightarrow> string \<Rightarrow> string \<Rightarrow> idem_store" where
  "abandon st tenant key fp =
     (if owns st tenant key fp then st\<lparr>st_records := (st_records st)((tenant, key) := None)\<rparr> else st)"

definition claim_provider_event ::
  "time \<Rightarrow> idem_store \<Rightarrow> string \<Rightarrow> string \<Rightarrow> string \<Rightarrow> string \<Rightarrow> (idem_error + bool) \<times> idem_store" where
  "claim_provider_event now st tenant provider event fp =
     (case st_events st (tenant, provider, event) of
        Some row \<Rightarrow> if er_fingerprint row \<noteq> fp then (Inl EventReused, st) else (Inr False, st)
      | None \<Rightarrow>
          (Inr True, st\<lparr>st_events := (st_events st)((tenant, provider, event) \<mapsto>
             \<lparr>er_fingerprint = fp, er_created_at = now\<rparr>)\<rparr>))"

definition abandon_provider_event :: "idem_store \<Rightarrow> string \<Rightarrow> string \<Rightarrow> string \<Rightarrow> idem_store" where
  "abandon_provider_event st tenant provider event =
     st\<lparr>st_events := (st_events st)((tenant, provider, event) := None)\<rparr>"

definition get_or_reserve ::
  "time \<Rightarrow> idem_store \<Rightarrow> string \<Rightarrow> string \<Rightarrow> string \<Rightarrow> string option \<Rightarrow>
   (idem_error + stored_result option) \<times> idem_store" where
  "get_or_reserve now st tenant key fp result =
     (if result \<noteq> None then (Inl ResultNotAccepted, st) else reserve now st tenant key fp)"

section \<open>What the store promises\<close>

lemma st_retention_prune [simp]: "st_retention_seconds (prune now st) = st_retention_seconds st"
  by (simp add: prune_def Let_def)

lemma prune_record:
  "st_records (prune now st) k = Some r \<longleftrightarrow>
     st_records st k = Some r \<and> now - st_retention_seconds st \<le> ir_created_at r"
  by (auto simp: prune_def Let_def split: option.splits)

lemma prune_record_None:
  "st_records (prune now st) k = None \<longleftrightarrow>
     (\<forall>r. st_records st k = Some r \<longrightarrow> ir_created_at r < now - st_retention_seconds st)"
  by (auto simp: prune_def Let_def split: option.splits)

lemma reserve_fresh:
  assumes "reserve now st t k fp = (Inr None, st')"
  shows "owns st' t k fp" "st_retention_seconds st' = st_retention_seconds st"
    "\<exists>row. st_records st' (t, k) = Some row \<and> ir_created_at row = now"
    "k' \<noteq> (t, k) \<Longrightarrow> st_records st' k' = st_records (prune now st) k'"
  using assms by (auto simp: reserve_def owns_def Let_def split: option.splits if_splits)

lemma reserve_existing:
  assumes "st_records st (t, k) = Some row" "now - st_retention_seconds st \<le> ir_created_at row"
  shows "reserve now st t k fp =
    (if ir_fingerprint row \<noteq> fp then (Inl KeyReused, st)
     else (Inr (Some \<lparr>sr_tenant_id = t, sr_key = k, sr_request_fingerprint = fp,
             sr_result_json = ir_result_json row, sr_status = ir_status row\<rparr>), prune now st))"
  using assms prune_record [of now st "(t, k)" row] by (auto simp: reserve_def Let_def)

lemma complete_row:
  assumes "owns st t k fp"
  obtains row where "st_records st (t, k) = Some row" "ir_fingerprint row = fp"
    "complete st t k fp res = (Inr \<lparr>sr_tenant_id = t, sr_key = k, sr_request_fingerprint = fp,
       sr_result_json = res, sr_status = Completed\<rparr>,
     st\<lparr>st_records := (st_records st)((t, k) \<mapsto> row\<lparr>ir_result_json := res, ir_status := Completed\<rparr>)\<rparr>)"
  using assms by (auto simp: owns_def complete_def finish_def split: option.splits)

text \<open>The life of a key: after it was reserved, a second worker finds it in progress; once it is
  completed, every later reservation of the same request inside the retention window returns the
  completed result, a different request under the key is refused without a trace, and the key can
  be neither completed again nor failed nor released.\<close>

theorem completed_key_is_final:
  assumes "reserve now st t k fp = (Inr None, st1)" "complete st1 t k fp res = (Inr sr, st2)"
    and "now' - st_retention_seconds st \<le> now"
  shows "fst (reserve now' st1 t k fp) = Inr (Some (sr\<lparr>sr_result_json := [], sr_status := InProgress\<rparr>)) \<and>
    fst (reserve now' st2 t k fp) = Inr (Some sr) \<and> sr_result_json sr = res \<and> sr_status sr = Completed \<and>
    (fp' \<noteq> fp \<longrightarrow> reserve now' st2 t k fp' = (Inl KeyReused, st2)) \<and>
    complete st2 t k fp res' = (Inl CannotComplete, st2) \<and>
    fail_record st2 t k fp res' = (Inl CannotFail, st2) \<and> abandon st2 t k fp = st2"
proof -
  have row: "st_records st1 (t, k) = Some \<lparr>ir_fingerprint = fp, ir_result_json = [],
      ir_status = InProgress, ir_created_at = now\<rparr>"
    and ret: "st_retention_seconds st1 = st_retention_seconds st"
    using assms(1) by (auto simp: reserve_def Let_def split: option.splits if_splits)
  then have two: "sr = \<lparr>sr_tenant_id = t, sr_key = k, sr_request_fingerprint = fp, sr_result_json = res,
      sr_status = Completed\<rparr>"
    "st2 = st1\<lparr>st_records := (st_records st1)((t, k) \<mapsto> \<lparr>ir_fingerprint = fp, ir_result_json = res,
      ir_status = Completed, ir_created_at = now\<rparr>)\<rparr>"
    using assms(2) by (auto simp: complete_def finish_def owns_def)
  have row2: "st_records st2 (t, k) = Some \<lparr>ir_fingerprint = fp, ir_result_json = res,
      ir_status = Completed, ir_created_at = now\<rparr>"
    and ret2: "st_retention_seconds st2 = st_retention_seconds st"
    using ret by (simp_all add: two)
  have "\<not> owns st2 t k fp" using row2 by (simp add: owns_def)
  moreover have "fst (reserve now' st1 t k fp) = Inr (Some (sr\<lparr>sr_result_json := [], sr_status := InProgress\<rparr>))"
    using reserve_existing [OF row, of now' fp] assms(3) ret by (simp add: two(1))
  moreover have "fst (reserve now' st2 t k fp) = Inr (Some sr)"
    using reserve_existing [OF row2, of now' fp] assms(3) ret2 by (simp add: two(1))
  moreover have "fp' \<noteq> fp \<longrightarrow> reserve now' st2 t k fp' = (Inl KeyReused, st2)"
    using reserve_existing [OF row2, of now' fp'] assms(3) ret2 by auto
  ultimately show ?thesis
    by (simp add: complete_def fail_record_def finish_def abandon_def two(1))
qed

text \<open>A fingerprint stands for the request: equal fingerprints mean equal payloads up to the order of
  keys, when the digest does not collide on the two texts.\<close>

lemma fingerprint_identifies:
  assumes "wf_json p" "wf_json q" "inj_on sha {utf8 (dumps Compact True p), utf8 (dumps Compact True q)}"
  shows "request_fingerprint sha p = request_fingerprint sha q \<longleftrightarrow> sort_json p = sort_json q"
proof -
  have "request_fingerprint sha p = request_fingerprint sha q \<longleftrightarrow>
      utf8 (dumps Compact True p) = utf8 (dumps Compact True q)"
    by (simp add: request_fingerprint_def inj_on_eq_iff [OF assms(3)])
  then show ?thesis using dumps_sorted_inject [OF assms(1,2)] by simp
qed

definition demo_store :: idem_store where
  "demo_store = \<lparr>st_retention_seconds = 604800, st_records = Map.empty, st_events = Map.empty\<rparr>"

theorem completed_key_is_final_witness:
  "fst (reserve 500 (snd (complete (snd (reserve 100 demo_store ''acme'' ''k1'' ''f'')) ''acme'' ''k1'' ''f'' ''{}''))
      ''acme'' ''k1'' ''f'') =
    Inr (Some \<lparr>sr_tenant_id = ''acme'', sr_key = ''k1'', sr_request_fingerprint = ''f'',
      sr_result_json = ''{}'', sr_status = Completed\<rparr>)"
proof -
  let ?st1 = "snd (reserve 100 demo_store ''acme'' ''k1'' ''f'')"
  let ?st2 = "snd (complete ?st1 ''acme'' ''k1'' ''f'' ''{}'')"
  have "reserve 100 demo_store ''acme'' ''k1'' ''f'' = (Inr None, ?st1)"
    by (simp add: reserve_def prune_def demo_store_def)
  moreover have "complete ?st1 ''acme'' ''k1'' ''f'' ''{}'' = (Inr \<lparr>sr_tenant_id = ''acme'', sr_key = ''k1'',
      sr_request_fingerprint = ''f'', sr_result_json = ''{}'', sr_status = Completed\<rparr>, ?st2)"
    by (simp add: reserve_def prune_def demo_store_def complete_def finish_def owns_def)
  moreover have "500 - st_retention_seconds demo_store \<le> 100" by (simp add: demo_store_def)
  ultimately show ?thesis using completed_key_is_final by blast
qed

end
