(* ===== verification/Disbursement.thy ===== *)
theory Disbursement
  imports Card_Issuer Mobile_Money Settlement Idempotency Audit_Log "HOL-Library.Monad_Syntax"
begin

text \<open>
  \<^verbatim>\<open>src/domain/wallet/disbursement_manager.py\<close>, first part: requests and results of a float
  disbursement, and the JSON text a result is stored as. The digests, the HMAC and the formatting
  of a dollar amount (\<open>f"${x / 10_000.0:.2f}"\<close>) are the parameters of a \<open>platform\<close>.
\<close>

section \<open>Data\<close>

datatype channel = VirtualCard | MobileMoney | AchTransfer

fun channel_value :: "channel \<Rightarrow> string" where
  "channel_value VirtualCard = ''virtual_card''"
| "channel_value MobileMoney = ''mobile_money''"
| "channel_value AchTransfer = ''ach''"

definition channel_of :: "string \<Rightarrow> channel option" where
  "channel_of v = find (\<lambda>c. channel_value c = v) [VirtualCard, MobileMoney, AchTransfer]"

lemma channel_of_value [simp]: "channel_of (channel_value c) = Some c"
  by (cases c) (simp_all add: channel_of_def)

record float_request =
  fq_tenant_id :: string
  fq_custodian_id :: string
  fq_fund_id :: string
  fq_amount_scaled :: scaled
  fq_channel :: channel
  fq_currency :: string
  fq_recipient_address :: string
  fq_cardholder_name :: string
  fq_description :: string
  fq_idempotency_key :: string
  fq_metadata :: tags

record float_result =
  fr_disbursement_id :: string
  fr_tenant_id :: string
  fr_custodian_id :: string
  fr_fund_id :: string
  fr_channel :: channel
  fr_amount_scaled :: scaled
  fr_currency :: string
  fr_status :: string
  fr_idempotency_key :: string
  fr_virtual_card :: "virtual_card option"
  fr_mobile :: "mobile_result option"
  fr_initiated_at :: string
  fr_completed_at :: "string option"
  fr_failure_reason :: "string option"

datatype disburse_error =
    TenantBlank | CustodianBlank | FundBlank | FloatNotPositive int
  | TtlNotPositive
  | StoreRefused idem_error
  | KeyInProgress
  | BadStoredResult
  | CardRefused card_error
  | MobileRefused mobile_error
  | StatusMissing
  | StatusUnknown
  | TransitionIllegal settlement_error

record platform =
  pf_sha256 :: "string \<Rightarrow> string"
  pf_md5 :: "string \<Rightarrow> string"
  pf_hmac :: hexmac
  pf_money :: "scaled \<Rightarrow> string"

definition is_successful :: "float_result \<Rightarrow> bool" where
  "is_successful r = (fr_status r = ''completed'')"

text \<open>\<open>FloatDisbursementRequest.__post_init__\<close>.\<close>

definition mk_float_request ::
  "string \<Rightarrow> string \<Rightarrow> string \<Rightarrow> string \<Rightarrow> scaled \<Rightarrow> channel \<Rightarrow> string \<Rightarrow> string \<Rightarrow> string \<Rightarrow> string \<Rightarrow>
   string option \<Rightarrow> tags \<Rightarrow> disburse_error + float_request" where
  "mk_float_request uuid_hex tenant custodian fid amount chan currency recipient holder description key meta =
     (if py_strip tenant = [] then Inl TenantBlank
      else if py_strip custodian = [] then Inl CustodianBlank
      else if py_strip fid = [] then Inl FundBlank
      else if amount \<le> 0 then Inl (FloatNotPositive amount)
      else Inr \<lparr>fq_tenant_id = tenant, fq_custodian_id = custodian, fq_fund_id = fid,
             fq_amount_scaled = amount, fq_channel = chan, fq_currency = currency,
             fq_recipient_address = recipient, fq_cardholder_name = holder,
             fq_description = description, fq_idempotency_key = text_or key (''auto-'' @ uuid_hex),
             fq_metadata = meta\<rparr>)"

section \<open>Results as JSON\<close>

definition result_to_dict :: "(scaled \<Rightarrow> string) \<Rightarrow> float_result \<Rightarrow> json" where
  "result_to_dict money r = JDict
     [(''disbursement_id'', JStr (fr_disbursement_id r)), (''tenant_id'', JStr (fr_tenant_id r)),
      (''custodian_id'', JStr (fr_custodian_id r)), (''fund_id'', JStr (fr_fund_id r)),
      (''channel'', JStr (channel_value (fr_channel r))),
      (''amount_scaled'', JInt (fr_amount_scaled r)),
      (''amount_formatted'', JStr (money (fr_amount_scaled r))),
      (''currency'', JStr (fr_currency r)), (''status'', JStr (fr_status r)),
      (''idempotency_key'', JStr (fr_idempotency_key r)),
      (''virtual_card'', case fr_virtual_card r of None \<Rightarrow> JNull | Some c \<Rightarrow> card_to_dict money c),
      (''mobile_disbursement'', case fr_mobile r of None \<Rightarrow> JNull | Some m \<Rightarrow> mobile_to_dict money m),
      (''initiated_at'', JStr (fr_initiated_at r)), (''completed_at'', json_opt (fr_completed_at r)),
      (''failure_reason'', json_opt (fr_failure_reason r))]"

text \<open>Reading a field back: a missing key raises, \<open>get\<close> gives \<open>None\<close>. A value of another type than
  the field's is refused here, where the code would store it in the record as it is.\<close>

fun field_of :: "json \<Rightarrow> string \<Rightarrow> json option" where
  "field_of (JDict kvs) k = map_of kvs k"
| "field_of _ k = None"

definition str_field :: "json \<Rightarrow> string \<Rightarrow> string option" where
  "str_field j k = (case field_of j k of Some (JStr s) \<Rightarrow> Some s | _ \<Rightarrow> None)"

definition int_field :: "json \<Rightarrow> string \<Rightarrow> int option" where
  "int_field j k = (case field_of j k of Some (JInt i) \<Rightarrow> Some i | _ \<Rightarrow> None)"

definition opt_field :: "json \<Rightarrow> string \<Rightarrow> string option option" where
  "opt_field j k =
     (case field_of j k of None \<Rightarrow> Some None | Some JNull \<Rightarrow> Some None
      | Some (JStr s) \<Rightarrow> Some (Some s) | _ \<Rightarrow> None)"

definition tags_field :: "json \<Rightarrow> string \<Rightarrow> tags option" where
  "tags_field j k = (case field_of j k of None \<Rightarrow> Some [] | Some m \<Rightarrow> tags_of_json m)"

definition card_from_dict :: "json \<Rightarrow> virtual_card option" where
  "card_from_dict j = do {
     card_id \<leftarrow> str_field j ''card_id''; tenant \<leftarrow> str_field j ''tenant_id'';
     custodian \<leftarrow> str_field j ''custodian_id''; fid \<leftarrow> str_field j ''fund_id'';
     last_four \<leftarrow> str_field j ''last_four'';
     card_status \<leftarrow> Option.bind (str_field j ''card_status'') card_status_of;
     limit \<leftarrow> int_field j ''spending_limit_scaled''; currency \<leftarrow> str_field j ''currency'';
     key \<leftarrow> str_field j ''idempotency_key'';
     backend \<leftarrow> Option.bind (str_field j ''backend'') card_backend_of;
     created \<leftarrow> str_field j ''created_at''; expires \<leftarrow> str_field j ''expires_at'';
     meta \<leftarrow> tags_field j ''metadata'';
     Some \<lparr>vc_card_id = card_id, vc_tenant_id = tenant, vc_custodian_id = custodian,
       vc_fund_id = fid, vc_last_four = last_four, vc_card_status = card_status,
       vc_spending_limit_scaled = limit, vc_currency = currency, vc_idempotency_key = key,
       vc_backend = backend, vc_created_at = created, vc_expires_at = expires, vc_metadata = meta\<rparr> }"

definition mobile_from_dict :: "json \<Rightarrow> mobile_result option" where
  "mobile_from_dict j = do {
     did \<leftarrow> str_field j ''disbursement_id''; tenant \<leftarrow> str_field j ''tenant_id'';
     custodian \<leftarrow> str_field j ''custodian_id''; fid \<leftarrow> str_field j ''fund_id'';
     recipient \<leftarrow> str_field j ''recipient''; amount \<leftarrow> int_field j ''amount_scaled'';
     currency \<leftarrow> str_field j ''currency'';
     status \<leftarrow> Option.bind (str_field j ''status'') mobile_status_of;
     backend \<leftarrow> Option.bind (str_field j ''backend'') mobile_backend_of;
     key \<leftarrow> str_field j ''idempotency_key''; ref_num \<leftarrow> str_field j ''reference_number'';
     initiated \<leftarrow> str_field j ''initiated_at''; completed \<leftarrow> opt_field j ''completed_at'';
     failure \<leftarrow> opt_field j ''failure_reason''; meta \<leftarrow> tags_field j ''metadata'';
     Some \<lparr>mx_disbursement_id = did, mx_tenant_id = tenant, mx_custodian_id = custodian,
       mx_fund_id = fid, mx_recipient = recipient, mx_amount_scaled = amount,
       mx_currency = currency, mx_status = status, mx_backend = backend,
       mx_idempotency_key = key, mx_reference_number = ref_num, mx_initiated_at = initiated,
       mx_completed_at = completed, mx_failure_reason = failure, mx_metadata = meta\<rparr> }"

text \<open>The nested result: absent and null alike give no result.\<close>

definition nested_field :: "(json \<Rightarrow> 'a option) \<Rightarrow> json \<Rightarrow> string \<Rightarrow> 'a option option" where
  "nested_field f j k =
     (case field_of j k of None \<Rightarrow> Some None | Some JNull \<Rightarrow> Some None
      | Some v \<Rightarrow> map_option Some (f v))"

definition result_from_dict :: "json \<Rightarrow> float_result option" where
  "result_from_dict j = do {
     virtual \<leftarrow> nested_field card_from_dict j ''virtual_card'';
     mobile \<leftarrow> nested_field mobile_from_dict j ''mobile_disbursement'';
     did \<leftarrow> str_field j ''disbursement_id''; tenant \<leftarrow> str_field j ''tenant_id'';
     custodian \<leftarrow> str_field j ''custodian_id''; fid \<leftarrow> str_field j ''fund_id'';
     chan \<leftarrow> Option.bind (str_field j ''channel'') channel_of;
     amount \<leftarrow> int_field j ''amount_scaled''; currency \<leftarrow> str_field j ''currency'';
     status \<leftarrow> str_field j ''status''; key \<leftarrow> str_field j ''idempotency_key'';
     initiated \<leftarrow> str_field j ''initiated_at''; completed \<leftarrow> opt_field j ''completed_at'';
     failure \<leftarrow> opt_field j ''failure_reason'';
     Some \<lparr>fr_disbursement_id = did, fr_tenant_id = tenant, fr_custodian_id = custodian,
       fr_fund_id = fid, fr_channel = chan, fr_amount_scaled = amount, fr_currency = currency,
       fr_status = status, fr_idempotency_key = key, fr_virtual_card = virtual,
       fr_mobile = mobile, fr_initiated_at = initiated, fr_completed_at = completed,
       fr_failure_reason = failure\<rparr> }"

section \<open>Round trip\<close>

text \<open>What a result is after a trip through the store: the same up to the order of metadata keys.\<close>

definition sort_card :: "virtual_card \<Rightarrow> virtual_card" where
  "sort_card c = c\<lparr>vc_metadata := sort_key fst (vc_metadata c)\<rparr>"

definition sort_mobile :: "mobile_result \<Rightarrow> mobile_result" where
  "sort_mobile m = m\<lparr>mx_metadata := sort_key fst (mx_metadata m)\<rparr>"

definition canonical_result :: "float_result \<Rightarrow> float_result" where
  "canonical_result r = r\<lparr>fr_virtual_card := map_option sort_card (fr_virtual_card r),
     fr_mobile := map_option sort_mobile (fr_mobile r)\<rparr>"

definition wf_result :: "float_result \<Rightarrow> bool" where
  "wf_result r \<longleftrightarrow> (\<forall>c. fr_virtual_card r = Some c \<longrightarrow> distinct (map fst (vc_metadata c))) \<and>
     (\<forall>m. fr_mobile r = Some m \<longrightarrow> distinct (map fst (mx_metadata m)))"

lemma field_of_sorted:
  "distinct (map fst kvs) \<Longrightarrow> field_of (sort_json (JDict kvs)) k = map_option sort_json (map_of kvs k)"
proof -
  assume d: "distinct (map fst kvs)"
  have "map fst (map (\<lambda>(k, v). (k, sort_json v)) kvs) = map fst kvs" by (induction kvs) auto
  then have "field_of (sort_json (JDict kvs)) k = map_of (map (\<lambda>(k, v). (k, sort_json v)) kvs) k"
    using d by (simp only: sort_json.simps field_of.simps map_of_sort_key)
  then show ?thesis by (simp only: map_of_map comp_apply)
qed

lemma sort_json_opt [simp]: "sort_json (json_opt s) = json_opt s"
  by (simp add: json_opt_def split: option.split)

lemma card_roundtrip: "card_from_dict (sort_json (card_to_dict money c)) = Some (sort_card c)"
  by (simp add: card_from_dict_def card_to_dict_def str_field_def int_field_def tags_field_def
      field_of_sorted sort_json_tags sort_card_def del: sort_json.simps(2))

lemma mobile_roundtrip: "mobile_from_dict (sort_json (mobile_to_dict money m)) = Some (sort_mobile m)"
  by (simp add: mobile_from_dict_def mobile_to_dict_def str_field_def int_field_def tags_field_def
      opt_field_def json_opt_def field_of_sorted sort_json_tags sort_mobile_def del: sort_json.simps(2)
      split: option.split)

lemma nested_field_dict:
  "field_of j k = Some (sort_json (JDict kvs)) \<Longrightarrow> f (sort_json (JDict kvs)) = Some x \<Longrightarrow>
     nested_field f j k = Some (Some x)"
  by (simp add: nested_field_def)

lemma nested_field_null: "field_of j k = Some JNull \<Longrightarrow> nested_field f j k = Some None"
  by (simp add: nested_field_def)

lemma nested_card:
  "field_of j k = Some (sort_json (case c of None \<Rightarrow> JNull | Some c \<Rightarrow> card_to_dict money c)) \<Longrightarrow>
     nested_field card_from_dict j k = Some (map_option sort_card c)"
  using card_roundtrip [of money] unfolding card_to_dict_def
  by (cases c) (auto intro: nested_field_dict nested_field_null simp del: sort_json.simps(2))

lemma nested_mobile:
  "field_of j k = Some (sort_json (case m of None \<Rightarrow> JNull | Some m \<Rightarrow> mobile_to_dict money m)) \<Longrightarrow>
     nested_field mobile_from_dict j k = Some (map_option sort_mobile m)"
  using mobile_roundtrip [of money] unfolding mobile_to_dict_def
  by (cases m) (auto intro: nested_field_dict nested_field_null simp del: sort_json.simps(2))

lemma result_from_sorted_dict:
  "result_from_dict (sort_json (result_to_dict money r)) = Some (canonical_result r)"
proof -
  let ?j = "sort_json (result_to_dict money r)"
  have "nested_field card_from_dict ?j ''virtual_card'' = Some (map_option sort_card (fr_virtual_card r))"
    by (rule nested_card) (simp add: result_to_dict_def field_of_sorted del: sort_json.simps(2))
  moreover have "nested_field mobile_from_dict ?j ''mobile_disbursement'' =
      Some (map_option sort_mobile (fr_mobile r))"
    by (rule nested_mobile) (simp add: result_to_dict_def field_of_sorted del: sort_json.simps(2))
  moreover have
    "str_field ?j ''disbursement_id'' = Some (fr_disbursement_id r)"
    "str_field ?j ''tenant_id'' = Some (fr_tenant_id r)"
    "str_field ?j ''custodian_id'' = Some (fr_custodian_id r)"
    "str_field ?j ''fund_id'' = Some (fr_fund_id r)"
    "str_field ?j ''channel'' = Some (channel_value (fr_channel r))"
    "int_field ?j ''amount_scaled'' = Some (fr_amount_scaled r)"
    "str_field ?j ''currency'' = Some (fr_currency r)"
    "str_field ?j ''status'' = Some (fr_status r)"
    "str_field ?j ''idempotency_key'' = Some (fr_idempotency_key r)"
    "str_field ?j ''initiated_at'' = Some (fr_initiated_at r)"
    "opt_field ?j ''completed_at'' = Some (fr_completed_at r)"
    "opt_field ?j ''failure_reason'' = Some (fr_failure_reason r)"
    by (simp_all add: result_to_dict_def str_field_def int_field_def opt_field_def json_opt_def
        field_of_sorted del: sort_json.simps(2) split: option.split)
  ultimately show ?thesis by (simp add: result_from_dict_def canonical_result_def)
qed

lemma wf_card_dict: "distinct (map fst (vc_metadata c)) \<Longrightarrow> wf_json (card_to_dict money c)"
  by (simp add: card_to_dict_def)

lemma wf_mobile_dict: "distinct (map fst (mx_metadata m)) \<Longrightarrow> wf_json (mobile_to_dict money m)"
  by (simp add: mobile_to_dict_def json_opt_def split: option.split)

lemma wf_result_dict: "wf_result r \<Longrightarrow> wf_json (result_to_dict money r)"
  by (auto simp: result_to_dict_def wf_result_def json_opt_def wf_card_dict wf_mobile_dict
      split: option.split)

definition stored_text :: "(scaled \<Rightarrow> string) \<Rightarrow> float_result \<Rightarrow> string" where
  "stored_text money r = dumps Spaced True (result_to_dict money r)"

definition stored_value :: "string \<Rightarrow> float_result option" where
  "stored_value s = Option.bind (loads s) result_from_dict"

lemma stored_value_text: "wf_result r \<Longrightarrow> stored_value (stored_text money r) = Some (canonical_result r)"
  by (simp add: stored_value_def stored_text_def loads_dumps wf_result_dict result_from_sorted_dict)

end
