(* ===== verification/Disbursement_Manager.thy ===== *)
theory Disbursement_Manager
  imports Disbursement Settlement Idempotency
begin

text \<open>
  \<^verbatim>\<open>src/domain/wallet/disbursement_manager.py\<close>, second part: the manager that pays a float out over
  a virtual card or mobile money once per tenant and idempotency key, through the idempotency
  store, the two adapters and the audit log, and its intake of provider callbacks. Clock readings
  and uuids of one call are its environment. The enumeration of channels makes the branch for an
  unknown channel unreachable.
\<close>

section \<open>State\<close>

record disburse_env =
  dv_store_now :: time
  dv_uuid_hex :: string
  dv_now_text :: string
  dv_now :: time
  dv_card :: card_env
  dv_mobile :: mobile_env
  dv_audit_uuid :: string
  dv_audit_now :: string

record manager =
  dm_card_issuer :: card_issuer
  dm_mobile_adapter :: mobile_adapter
  dm_ttl_seconds :: int
  dm_store :: idem_store
  dm_audit_logger :: audit_logger
  dm_results :: "((string \<times> string) \<times> (float_result \<times> time)) list"
  dm_audit_trail :: "float_result list"

definition new_manager ::
  "card_issuer \<Rightarrow> mobile_adapter \<Rightarrow> int \<Rightarrow> idem_store \<Rightarrow> audit_logger \<Rightarrow> disburse_error + manager" where
  "new_manager ci ma ttl st lg =
     (if ttl \<le> 0 then Inl TtlNotPositive
      else Inr \<lparr>dm_card_issuer = ci, dm_mobile_adapter = ma, dm_ttl_seconds = ttl, dm_store = st,
             dm_audit_logger = lg, dm_results = [], dm_audit_trail = []\<rparr>)"

section \<open>Messages of the errors\<close>

text \<open>\<open>str(error)\<close> of the errors that end in an audit record.\<close>

fun idem_error_text :: "idem_error \<Rightarrow> string" where
  "idem_error_text BadRetention = ''retention_seconds must be positive''"
| "idem_error_text KeyReused = ''idempotency key was already used for a different request''"
| "idem_error_text CannotComplete = ''idempotency record cannot be completed''"
| "idem_error_text CannotFail = ''idempotency record cannot be failed''"
| "idem_error_text EventReused = ''provider event ID was already used for a different payload''"
| "idem_error_text ResultNotAccepted = ''result_json is no longer accepted when reserving a key''"

fun card_error_text :: "card_error \<Rightarrow> string" where
  "card_error_text (LimitNotPositive n) = ''spending_limit_scaled must be positive, got '' @ show_int n"
| "card_error_text (CardCurrencyLength s) =
     ''currency must be ISO-4217 3-char code, got '' @ [CHR 0x27] @ s @ [CHR 0x27]"

fun mobile_error_text :: "mobile_error \<Rightarrow> string" where
  "mobile_error_text (AmountNotPositive n) = ''amount_scaled must be positive, got '' @ show_int n"
| "mobile_error_text (MobileCurrencyLength s) =
     ''currency must be ISO-4217 3-char code, got '' @ [CHR 0x27] @ s @ [CHR 0x27]"
| "mobile_error_text RecipientEmpty = ''recipient_phone_or_account cannot be empty''"

fun downstream_error_text :: "disburse_error \<Rightarrow> string" where
  "downstream_error_text (CardRefused e) = card_error_text e"
| "downstream_error_text (MobileRefused e) = mobile_error_text e"
| "downstream_error_text _ = []"

section \<open>Paying out\<close>

definition audit :: "platform \<Rightarrow> disburse_env \<Rightarrow> string \<Rightarrow> string \<Rightarrow> (string \<times> json) list \<Rightarrow> manager \<Rightarrow> manager" where
  "audit pf env tenant event details m =
     m\<lparr>dm_audit_logger := snd (append_event (pf_hmac pf) (dv_audit_uuid env) (dv_audit_now env)
         (dm_audit_logger m) tenant event ''system'' (JDict details))\<rparr>"

definition request_payload :: "float_request \<Rightarrow> json" where
  "request_payload r = JDict
     [(''tenant_id'', JStr (fq_tenant_id r)), (''custodian_id'', JStr (fq_custodian_id r)),
      (''fund_id'', JStr (fq_fund_id r)), (''amount_scaled'', JInt (fq_amount_scaled r)),
      (''channel'', JStr (channel_value (fq_channel r))), (''currency'', JStr (fq_currency r)),
      (''recipient_address'', JStr (fq_recipient_address r)),
      (''cardholder_name'', JStr (fq_cardholder_name r)), (''description'', JStr (fq_description r)),
      (''metadata'', json_tags (fq_metadata r))]"

definition prune_expired_idempotency_keys :: "time \<Rightarrow> manager \<Rightarrow> manager" where
  "prune_expired_idempotency_keys now m =
     m\<lparr>dm_results := filter (\<lambda>(k, r, expiry). \<not> expiry \<le> now) (dm_results m)\<rparr>"

definition record_idempotent_result :: "time \<Rightarrow> float_request \<Rightarrow> float_result \<Rightarrow> manager \<Rightarrow> manager" where
  "record_idempotent_result now r res m =
     m\<lparr>dm_results := AList.update (fq_tenant_id r, fq_idempotency_key r)
         (res, now + dm_ttl_seconds m * 1000000) (dm_results m),
       dm_audit_trail := dm_audit_trail m @ [res]\<rparr>"

definition disburse_via_card ::
  "platform \<Rightarrow> disburse_env \<Rightarrow> float_request \<Rightarrow> string \<Rightarrow> manager \<Rightarrow>
   (disburse_error + float_result) \<times> manager" where
  "disburse_via_card pf env r did m =
     (case mk_card_request (pf_sha256 pf) (fq_tenant_id r) (fq_custodian_id r) (fq_fund_id r)
             (fq_amount_scaled r) (fq_currency r) (fq_cardholder_name r)
             (Some (fq_idempotency_key r)) (fq_metadata r) of
        Inl e \<Rightarrow> (Inl (CardRefused e), m)
      | Inr card_request \<Rightarrow>
        (case create_virtual_card (pf_md5 pf) card_request (dv_card env) (dm_card_issuer m) of
           (card_result, ci) \<Rightarrow>
             (Inr \<lparr>fr_disbursement_id = did, fr_tenant_id = fq_tenant_id r,
                fr_custodian_id = fq_custodian_id r, fr_fund_id = fq_fund_id r,
                fr_channel = VirtualCard, fr_amount_scaled = fq_amount_scaled r,
                fr_currency = fq_currency r, fr_status = ''completed'',
                fr_idempotency_key = fq_idempotency_key r, fr_virtual_card = Some card_result,
                fr_mobile = None, fr_initiated_at = dv_now_text env,
                fr_completed_at = Some (dv_now_text env), fr_failure_reason = None\<rparr>,
              m\<lparr>dm_card_issuer := ci\<rparr>)))"

definition disburse_via_mobile ::
  "platform \<Rightarrow> disburse_env \<Rightarrow> float_request \<Rightarrow> string \<Rightarrow> manager \<Rightarrow>
   (disburse_error + float_result) \<times> manager" where
  "disburse_via_mobile pf env r did m =
     (case mk_mobile_request (pf_sha256 pf) (fq_tenant_id r) (fq_custodian_id r) (fq_fund_id r)
             (fq_recipient_address r) (fq_amount_scaled r) (fq_currency r) (fq_description r)
             (Some (fq_idempotency_key r)) (fq_metadata r) of
        Inl e \<Rightarrow> (Inl (MobileRefused e), m)
      | Inr mobile_request \<Rightarrow>
        (case disburse (pf_md5 pf) mobile_request (dv_mobile env) (dm_mobile_adapter m) of
           (mobile_result, ma) \<Rightarrow>
             (Inr \<lparr>fr_disbursement_id = did, fr_tenant_id = fq_tenant_id r,
                fr_custodian_id = fq_custodian_id r, fr_fund_id = fq_fund_id r,
                fr_channel = fq_channel r, fr_amount_scaled = fq_amount_scaled r,
                fr_currency = fq_currency r, fr_status = mobile_status_value (mx_status mobile_result),
                fr_idempotency_key = fq_idempotency_key r, fr_virtual_card = None,
                fr_mobile = Some mobile_result, fr_initiated_at = dv_now_text env,
                fr_completed_at = mx_completed_at mobile_result,
                fr_failure_reason = mx_failure_reason mobile_result\<rparr>,
              m\<lparr>dm_mobile_adapter := ma\<rparr>)))"

definition route :: "platform \<Rightarrow> disburse_env \<Rightarrow> float_request \<Rightarrow> manager \<Rightarrow>
   (disburse_error + float_result) \<times> manager" where
  "route pf env r m =
     (let did = ''fdisb_'' @ take 16 (dv_uuid_hex env)
      in case fq_channel r of
           VirtualCard \<Rightarrow> disburse_via_card pf env r did m
         | MobileMoney \<Rightarrow> disburse_via_mobile pf env r did m
         | AchTransfer \<Rightarrow> disburse_via_mobile pf env r did m)"

text \<open>The three ends of \<open>disburse_float\<close>: a stored result, a downstream failure, a new result.\<close>

definition reuse_result ::
  "platform \<Rightarrow> disburse_env \<Rightarrow> float_request \<Rightarrow> stored_result \<Rightarrow> manager \<Rightarrow>
   (disburse_error + float_result) \<times> manager" where
  "reuse_result pf env r stored m =
     (if sr_status stored = InProgress then (Inl KeyInProgress, m)
      else ((case Option.bind (loads (sr_result_json stored)) result_from_dict of
               None \<Rightarrow> Inl BadStoredResult | Some res \<Rightarrow> Inr res),
            audit pf env (fq_tenant_id r) ''DISBURSEMENT_RESULT_REUSED''
              [(''idempotency_key'', JStr (fq_idempotency_key r))] m))"

definition downstream_failure ::
  "platform \<Rightarrow> disburse_env \<Rightarrow> float_request \<Rightarrow> string \<Rightarrow> disburse_error \<Rightarrow> manager \<Rightarrow> manager" where
  "downstream_failure pf env r fp e m =
     audit pf env (fq_tenant_id r) ''DISBURSEMENT_DOWNSTREAM_FAILURE''
       [(''idempotency_key'', JStr (fq_idempotency_key r)), (''error'', JStr (downstream_error_text e))]
       (m\<lparr>dm_store := abandon (dm_store m) (fq_tenant_id r) (fq_idempotency_key r) fp\<rparr>)"

definition store_result ::
  "platform \<Rightarrow> disburse_env \<Rightarrow> float_request \<Rightarrow> string \<Rightarrow> float_result \<Rightarrow> manager \<Rightarrow>
   (disburse_error + float_result) \<times> manager" where
  "store_result pf env r fp res m =
     (case complete (dm_store m) (fq_tenant_id r) (fq_idempotency_key r) fp
             (dumps Spaced True (result_to_dict (pf_money pf) res)) of
        (Inl e, st) \<Rightarrow> (Inl (StoreRefused e), m\<lparr>dm_store := st\<rparr>)
      | (Inr _, st) \<Rightarrow>
          (Inr res, audit pf env (fq_tenant_id r) ''DISBURSEMENT_CANONICAL_RESULT''
             [(''idempotency_key'', JStr (fq_idempotency_key r)),
              (''disbursement_id'', JStr (fr_disbursement_id res)), (''status'', JStr (fr_status res))]
             (record_idempotent_result (dv_now env) r res (m\<lparr>dm_store := st\<rparr>))))"

definition disburse_float ::
  "platform \<Rightarrow> disburse_env \<Rightarrow> float_request \<Rightarrow> manager \<Rightarrow> (disburse_error + float_result) \<times> manager" where
  "disburse_float pf env r m =
     (let fp = request_fingerprint (pf_sha256 pf) (request_payload r)
      in case get_or_reserve (dv_store_now env) (dm_store m) (fq_tenant_id r) (fq_idempotency_key r) fp None of
           (Inl e, st) \<Rightarrow>
             (Inl (StoreRefused e),
              audit pf env (fq_tenant_id r) ''DISBURSEMENT_IDEMPOTENCY_CONFLICT''
                [(''idempotency_key'', JStr (fq_idempotency_key r)), (''error'', JStr (idem_error_text e))]
                (m\<lparr>dm_store := st\<rparr>))
         | (Inr (Some stored), st) \<Rightarrow> reuse_result pf env r stored (m\<lparr>dm_store := st\<rparr>)
         | (Inr None, st) \<Rightarrow>
             (case route pf env r (m\<lparr>dm_store := st\<rparr>) of
                (Inl e, m') \<Rightarrow> (Inl e, downstream_failure pf env r fp e m')
              | (Inr res, m') \<Rightarrow> store_result pf env r fp res m'))"

section \<open>Provider callbacks and queries\<close>

definition ingest_provider_event ::
  "platform \<Rightarrow> disburse_env \<Rightarrow> string \<Rightarrow> string \<Rightarrow> string \<Rightarrow> (string \<times> json) list \<Rightarrow> settlement_state \<Rightarrow>
   manager \<Rightarrow> (disburse_error + bool) \<times> manager" where
  "ingest_provider_event pf env tenant provider event payload current m =
     (case claim_provider_event (dv_store_now env) (dm_store m) tenant provider event
             (request_fingerprint (pf_sha256 pf) (JDict payload)) of
        (Inl e, st) \<Rightarrow> (Inl (StoreRefused e), m\<lparr>dm_store := st\<rparr>)
      | (Inr claimed, st) \<Rightarrow>
        (let m' = m\<lparr>dm_store := st\<rparr>
         in if \<not> claimed then
              (Inr False, audit pf env tenant ''PROVIDER_EVENT_REPLAYED''
                 [(''provider'', JStr provider), (''event_id'', JStr event)] m')
            else case map_of payload ''status'' of
              None \<Rightarrow> (Inl StatusMissing, m')
            | Some v \<Rightarrow>
              (case (case v of JStr s \<Rightarrow> settlement_of_value s | _ \<Rightarrow> None) of
                 None \<Rightarrow> (Inl StatusUnknown, m')
               | Some requested \<Rightarrow>
                 (case validate_settlement_transition current requested of
                    Inl e \<Rightarrow> (Inl (TransitionIllegal e),
                      m'\<lparr>dm_store := abandon_provider_event st tenant provider event\<rparr>)
                  | Inr _ \<Rightarrow> (Inr True, audit pf env tenant ''PROVIDER_EVENT_ACCEPTED''
                      [(''provider'', JStr provider), (''event_id'', JStr event),
                       (''status'', JStr (settlement_value requested))] m')))))"

definition get_audit_trail :: "manager \<Rightarrow> string \<Rightarrow> float_result list" where
  "get_audit_trail m tenant = filter (\<lambda>r. fr_tenant_id r = tenant) (dm_audit_trail m)"

definition count_disbursements :: "manager \<Rightarrow> string option \<Rightarrow> nat" where
  "count_disbursements m tenant =
     (case tenant of None \<Rightarrow> length (dm_results m)
      | Some t \<Rightarrow> length (filter (\<lambda>((t', k), _). t' = t) (dm_results m)))"

section \<open>Frames\<close>

lemma audit_frame [simp]:
  "dm_card_issuer (audit pf env t ev d m) = dm_card_issuer m"
  "dm_mobile_adapter (audit pf env t ev d m) = dm_mobile_adapter m"
  "dm_ttl_seconds (audit pf env t ev d m) = dm_ttl_seconds m"
  "dm_store (audit pf env t ev d m) = dm_store m"
  "dm_results (audit pf env t ev d m) = dm_results m"
  "dm_audit_trail (audit pf env t ev d m) = dm_audit_trail m"
  by (simp_all add: audit_def)

text \<open>What stays of the manager while a payment is routed.\<close>

definition same_books :: "manager \<Rightarrow> manager \<Rightarrow> bool" where
  "same_books m m' \<longleftrightarrow> dm_store m' = dm_store m \<and> dm_results m' = dm_results m \<and>
     dm_audit_trail m' = dm_audit_trail m \<and> dm_audit_logger m' = dm_audit_logger m \<and>
     dm_ttl_seconds m' = dm_ttl_seconds m"

lemma route_books: "same_books m (snd (route pf env r m))"
  by (auto simp: route_def disburse_via_card_def disburse_via_mobile_def same_books_def Let_def
      split: channel.split sum.split prod.split)

definition deliverable :: "float_request \<Rightarrow> bool" where
  "deliverable r \<longleftrightarrow> 0 < fq_amount_scaled r \<and> length (fq_currency r) = 3 \<and>
     (fq_channel r \<noteq> VirtualCard \<longrightarrow> fq_recipient_address r \<noteq> [])"

lemma route_error_iff: "(\<exists>e. fst (route pf env r m) = Inl e) \<longleftrightarrow> \<not> deliverable r"
  by (auto simp: route_def disburse_via_card_def disburse_via_mobile_def mk_card_request_def
      mk_mobile_request_def deliverable_def Let_def split: channel.split sum.split prod.split)

lemma route_refused: "\<not> deliverable r \<Longrightarrow> \<exists>e. route pf env r m = (Inl e, m)"
  by (auto simp: route_def disburse_via_card_def disburse_via_mobile_def mk_card_request_def
      mk_mobile_request_def deliverable_def Let_def split: channel.split sum.split prod.split)

definition echoes :: "float_request \<Rightarrow> float_result \<Rightarrow> bool" where
  "echoes r res \<longleftrightarrow> fr_tenant_id res = fq_tenant_id r \<and> fr_custodian_id res = fq_custodian_id r \<and>
     fr_fund_id res = fq_fund_id r \<and> fr_channel res = fq_channel r \<and>
     fr_amount_scaled res = fq_amount_scaled r \<and> fr_currency res = fq_currency r \<and>
     fr_idempotency_key res = fq_idempotency_key r"

lemma route_echoes: "route pf env r m = (Inr res, m') \<Longrightarrow> echoes r res"
  by (auto simp: route_def disburse_via_card_def disburse_via_mobile_def echoes_def Let_def
      split: channel.splits sum.splits prod.splits)

lemma route_paid:
  assumes "deliverable r"
  obtains res m' where "route pf env r m = (Inr res, m')" "echoes r res" "same_books m m'"
proof (cases "route pf env r m")
  case (Pair x m')
  with assms route_error_iff [of pf env r m] obtain res where "x = Inr res" by (cases x) auto
  with Pair route_echoes route_books [of m pf env r] show thesis by (intro that) auto
qed

text \<open>Metadata dictionaries have distinct keys, in requests and in what the adapters keep.\<close>

definition dicts :: "manager \<Rightarrow> bool" where
  "dicts m \<longleftrightarrow>
     (\<forall>k c. ci_issued_cards (dm_card_issuer m) k = Some c \<longrightarrow> distinct (map fst (vc_metadata c))) \<and>
     (\<forall>k x. ma_disbursements (dm_mobile_adapter m) k = Some x \<longrightarrow> distinct (map fst (mx_metadata x)))"

lemma dicts_books [simp]: "dicts (audit pf env t ev d m) = dicts m"
  "dicts (m\<lparr>dm_store := st\<rparr>) = dicts m" "dicts (record_idempotent_result now r res m) = dicts m"
  by (simp_all add: dicts_def record_idempotent_result_def)

lemma create_virtual_card_dict:
  assumes "\<forall>k c. ci_issued_cards ci k = Some c \<longrightarrow> distinct (map fst (vc_metadata c))"
    and "distinct (map fst (cr_metadata cr))"
  shows "distinct (map fst (vc_metadata (fst (create_virtual_card md5 cr ce ci))))"
  using assms by (auto simp: create_virtual_card_def Let_def distinct_update split: option.split)

lemma disburse_dict:
  assumes "\<forall>k x. ma_disbursements ma k = Some x \<longrightarrow> distinct (map fst (mx_metadata x))"
    and "distinct (map fst (mr_metadata mr))"
  shows "distinct (map fst (mx_metadata (fst (disburse md5 mr me ma))))"
  using assms by (auto simp: disburse_def Let_def distinct_update split: option.split)

lemma disburse_via_card_dicts:
  assumes "dicts m" "distinct (map fst (fq_metadata r))" "disburse_via_card pf env r did m = (Inr res, m')"
  shows "wf_result res \<and> dicts m'"
proof -
  obtain cr where cr: "mk_card_request (pf_sha256 pf) (fq_tenant_id r) (fq_custodian_id r) (fq_fund_id r)
      (fq_amount_scaled r) (fq_currency r) (fq_cardholder_name r) (Some (fq_idempotency_key r))
      (fq_metadata r) = Inr cr" "cr_metadata cr = fq_metadata r"
    using assms(3) by (auto simp: disburse_via_card_def mk_card_request_def split: if_splits)
  have "distinct (map fst (vc_metadata (fst (create_virtual_card (pf_md5 pf) cr (dv_card env) (dm_card_issuer m)))))"
    using assms(1,2) cr(2) by (intro create_virtual_card_dict) (auto simp: dicts_def)
  moreover have "ci_issued_cards (snd (create_virtual_card (pf_md5 pf) cr (dv_card env) (dm_card_issuer m))) k = Some c \<Longrightarrow>
      ci_issued_cards (dm_card_issuer m) k = Some c \<or>
      c = fst (create_virtual_card (pf_md5 pf) cr (dv_card env) (dm_card_issuer m))" for k c
    by (auto simp: create_virtual_card_def Let_def split: option.splits if_splits)
  ultimately show ?thesis
    using assms(1,3) cr(1)
    by (fastforce simp: disburse_via_card_def dicts_def wf_result_def split: prod.splits)
qed

lemma disburse_via_mobile_dicts:
  assumes "dicts m" "distinct (map fst (fq_metadata r))" "disburse_via_mobile pf env r did m = (Inr res, m')"
  shows "wf_result res \<and> dicts m'"
proof -
  obtain mr where mr: "mk_mobile_request (pf_sha256 pf) (fq_tenant_id r) (fq_custodian_id r) (fq_fund_id r)
      (fq_recipient_address r) (fq_amount_scaled r) (fq_currency r) (fq_description r)
      (Some (fq_idempotency_key r)) (fq_metadata r) = Inr mr" "mr_metadata mr = fq_metadata r"
    using assms(3) by (auto simp: disburse_via_mobile_def mk_mobile_request_def split: if_splits)
  have "distinct (map fst (mx_metadata (fst (disburse (pf_md5 pf) mr (dv_mobile env) (dm_mobile_adapter m)))))"
    using assms(1,2) mr(2) by (intro disburse_dict) (auto simp: dicts_def)
  moreover have "ma_disbursements (snd (disburse (pf_md5 pf) mr (dv_mobile env) (dm_mobile_adapter m))) k = Some x \<Longrightarrow>
      ma_disbursements (dm_mobile_adapter m) k = Some x \<or>
      x = fst (disburse (pf_md5 pf) mr (dv_mobile env) (dm_mobile_adapter m))" for k x
    by (auto simp: disburse_def Let_def split: option.splits if_splits)
  ultimately show ?thesis
    using assms(1,3) mr(1)
    by (fastforce simp: disburse_via_mobile_def dicts_def wf_result_def split: prod.splits)
qed

lemma route_dicts:
  assumes "dicts m" "distinct (map fst (fq_metadata r))" "route pf env r m = (Inr res, m')"
  shows "wf_result res \<and> dicts m'"
proof (cases "fq_channel r = VirtualCard")
  case True
  then have "disburse_via_card pf env r (''fdisb_'' @ take 16 (dv_uuid_hex env)) m = (Inr res, m')"
    using assms(3) by (simp add: route_def Let_def)
  then show ?thesis by (rule disburse_via_card_dicts [OF assms(1,2)])
next
  case False
  then have "disburse_via_mobile pf env r (''fdisb_'' @ take 16 (dv_uuid_hex env)) m = (Inr res, m')"
    using assms(3) by (cases "fq_channel r") (simp_all add: route_def Let_def)
  then show ?thesis by (rule disburse_via_mobile_dicts [OF assms(1,2)])
qed

section \<open>The row of a key\<close>

definition key_of_request :: "float_request \<Rightarrow> string \<times> string" where
  "key_of_request r = (fq_tenant_id r, fq_idempotency_key r)"

definition print_of :: "platform \<Rightarrow> float_request \<Rightarrow> string" where
  "print_of pf r = request_fingerprint (pf_sha256 pf) (request_payload r)"

text \<open>A request under a key the store does not hold any more, or never did.\<close>

definition fresh_key :: "time \<Rightarrow> manager \<Rightarrow> float_request \<Rightarrow> bool" where
  "fresh_key now m r \<longleftrightarrow> st_records (prune now (dm_store m)) (key_of_request r) = None"

definition reserved :: "platform \<Rightarrow> disburse_env \<Rightarrow> float_request \<Rightarrow> manager \<Rightarrow> idem_store" where
  "reserved pf env r m = snd (reserve (dv_store_now env) (dm_store m) (fq_tenant_id r)
     (fq_idempotency_key r) (print_of pf r))"

lemma reserve_fresh_key:
  assumes "fresh_key (dv_store_now env) m r"
  shows "reserve (dv_store_now env) (dm_store m) (fq_tenant_id r) (fq_idempotency_key r) (print_of pf r) =
      (Inr None, reserved pf env r m)"
  using assms by (simp add: reserved_def reserve_def fresh_key_def key_of_request_def Let_def)

lemma reserved_owns:
  assumes "fresh_key (dv_store_now env) m r"
  shows "owns (reserved pf env r m) (fq_tenant_id r) (fq_idempotency_key r) (print_of pf r)"
  using reserve_fresh(1) [OF reserve_fresh_key [OF assms]] .

definition completed_row :: "platform \<Rightarrow> float_request \<Rightarrow> float_result \<Rightarrow> time \<Rightarrow> idem_row" where
  "completed_row pf r res now = \<lparr>ir_fingerprint = print_of pf r,
     ir_result_json = stored_text (pf_money pf) res, ir_status = Completed, ir_created_at = now\<rparr>"

lemma complete_reserved:
  assumes "fresh_key (dv_store_now env) m r"
  shows "complete (reserved pf env r m) (fq_tenant_id r) (fq_idempotency_key r) (print_of pf r)
      (stored_text (pf_money pf) res) =
    (Inr \<lparr>sr_tenant_id = fq_tenant_id r, sr_key = fq_idempotency_key r,
       sr_request_fingerprint = print_of pf r, sr_result_json = stored_text (pf_money pf) res,
       sr_status = Completed\<rparr>,
     (reserved pf env r m)\<lparr>st_records := (st_records (reserved pf env r m))
       (key_of_request r \<mapsto> completed_row pf r res (dv_store_now env))\<rparr>)"
  using assms by (auto simp: reserved_def reserve_def fresh_key_def key_of_request_def complete_def
      finish_def owns_def completed_row_def Let_def)

lemma abandon_reserved:
  assumes "fresh_key (dv_store_now env) m r"
  shows "abandon (reserved pf env r m) (fq_tenant_id r) (fq_idempotency_key r) (print_of pf r) =
    prune (dv_store_now env) (dm_store m)"
  using assms
  by (auto simp: reserved_def reserve_def fresh_key_def key_of_request_def abandon_def owns_def Let_def
      fun_upd_idem)

lemma disburse_float_fresh:
  assumes "fresh_key (dv_store_now env) m r"
  shows "disburse_float pf env r m =
    (case route pf env r (m\<lparr>dm_store := reserved pf env r m\<rparr>) of
       (Inl e, m') \<Rightarrow> (Inl e, downstream_failure pf env r (print_of pf r) e m')
     | (Inr res, m') \<Rightarrow> store_result pf env r (print_of pf r) res m')"
  using reserve_fresh_key [OF assms, of pf]
  by (simp add: disburse_float_def get_or_reserve_def Let_def flip: print_of_def)

lemma st_records_reserved:
  "fresh_key (dv_store_now env) m r \<Longrightarrow> (st_records (reserved pf env r m))(key_of_request r \<mapsto> x) =
     (st_records (prune (dv_store_now env) (dm_store m)))(key_of_request r \<mapsto> x)"
  by (simp add: reserved_def reserve_def fresh_key_def key_of_request_def Let_def)

lemma disburse_float_paid:
  assumes "fresh_key (dv_store_now env) m r"
    and "route pf env r (m\<lparr>dm_store := reserved pf env r m\<rparr>) = (Inr res, m'')"
  shows "fst (disburse_float pf env r m) = Inr res"
    "st_records (dm_store (snd (disburse_float pf env r m))) =
      (st_records (prune (dv_store_now env) (dm_store m)))
        (key_of_request r \<mapsto> completed_row pf r res (dv_store_now env))"
    "dm_audit_trail (snd (disburse_float pf env r m)) = dm_audit_trail m @ [res]"
    "dm_results (snd (disburse_float pf env r m)) =
      AList.update (key_of_request r) (res, dv_now env + dm_ttl_seconds m * 1000000) (dm_results m)"
    "dm_card_issuer (snd (disburse_float pf env r m)) = dm_card_issuer m''"
    "dm_mobile_adapter (snd (disburse_float pf env r m)) = dm_mobile_adapter m''"
    "st_retention_seconds (dm_store (snd (disburse_float pf env r m))) = st_retention_seconds (dm_store m)"
proof -
  have b: "dm_store m'' = reserved pf env r m" "dm_results m'' = dm_results m"
    "dm_audit_trail m'' = dm_audit_trail m" "dm_ttl_seconds m'' = dm_ttl_seconds m"
    using route_books [of "m\<lparr>dm_store := reserved pf env r m\<rparr>" pf env r] assms(2)
    by (simp_all add: same_books_def)
  have d: "disburse_float pf env r m = store_result pf env r (print_of pf r) res m''"
    using assms by (simp add: disburse_float_fresh)
  have ret: "st_retention_seconds (reserved pf env r m) = st_retention_seconds (dm_store m)"
    by (simp add: reserved_def reserve_def Let_def split: option.split)
  note c = complete_reserved [OF assms(1), of pf res, unfolded stored_text_def]
  show "fst (disburse_float pf env r m) = Inr res"
    "st_records (dm_store (snd (disburse_float pf env r m))) =
      (st_records (prune (dv_store_now env) (dm_store m)))
        (key_of_request r \<mapsto> completed_row pf r res (dv_store_now env))"
    "dm_audit_trail (snd (disburse_float pf env r m)) = dm_audit_trail m @ [res]"
    "dm_results (snd (disburse_float pf env r m)) =
      AList.update (key_of_request r) (res, dv_now env + dm_ttl_seconds m * 1000000) (dm_results m)"
    "dm_card_issuer (snd (disburse_float pf env r m)) = dm_card_issuer m''"
    "dm_mobile_adapter (snd (disburse_float pf env r m)) = dm_mobile_adapter m''"
    "st_retention_seconds (dm_store (snd (disburse_float pf env r m))) = st_retention_seconds (dm_store m)"
    unfolding d
    by (simp_all add: store_result_def b c ret record_idempotent_result_def st_records_reserved [OF assms(1)]
        flip: key_of_request_def)
qed

lemma disburse_float_refused:
  assumes "fresh_key (dv_store_now env) m r" "\<not> deliverable r"
  shows "\<exists>e. disburse_float pf env r m = (Inl e, audit pf env (fq_tenant_id r) ''DISBURSEMENT_DOWNSTREAM_FAILURE''
       [(''idempotency_key'', JStr (fq_idempotency_key r)), (''error'', JStr (downstream_error_text e))]
       (m\<lparr>dm_store := prune (dv_store_now env) (dm_store m)\<rparr>))"
proof -
  obtain e where "route pf env r (m\<lparr>dm_store := reserved pf env r m\<rparr>) =
      (Inl e, m\<lparr>dm_store := reserved pf env r m\<rparr>)"
    using route_refused [OF assms(2)] by blast
  then show ?thesis
    using assms(1) by (auto simp: disburse_float_fresh downstream_failure_def abandon_reserved)
qed

section \<open>Histories\<close>

datatype manager_op =
    PayFloat disburse_env float_request
  | TakeEvent disburse_env string string string "(string \<times> json) list" settlement_state

fun op_now :: "manager_op \<Rightarrow> time" where
  "op_now (PayFloat env r) = dv_store_now env"
| "op_now (TakeEvent env t p ev payload current) = dv_store_now env"

fun run_op :: "platform \<Rightarrow> manager \<Rightarrow> manager_op \<Rightarrow> manager" where
  "run_op pf m (PayFloat env r) = snd (disburse_float pf env r m)"
| "run_op pf m (TakeEvent env t p ev payload current) =
     snd (ingest_provider_event pf env t p ev payload current m)"

lemma reserve_keeps:
  assumes "st_records st K = Some row" "now - st_retention_seconds st \<le> ir_created_at row"
  shows "st_records (snd (reserve now st t k fp)) K = Some row \<and>
    st_retention_seconds (snd (reserve now st t k fp)) = st_retention_seconds st"
proof -
  have "st_records (prune now st) K = Some row" using assms by (simp add: prune_record)
  then show ?thesis using assms by (auto simp: reserve_def Let_def split: option.split)
qed

lemma finish_keeps:
  "st_records st K = Some row \<Longrightarrow> ir_status row \<noteq> InProgress \<Longrightarrow>
     st_records (snd (finish s e st t k fp x)) K = Some row"
  by (auto simp: finish_def owns_def split: option.splits)

lemma abandon_keeps:
  "st_records st K = Some row \<Longrightarrow> ir_status row \<noteq> InProgress \<Longrightarrow>
     st_records (abandon st t k fp) K = Some row"
  by (auto simp: abandon_def owns_def split: option.splits)

lemma retention_kept [simp]:
  "st_retention_seconds (snd (finish s e st t k fp x)) = st_retention_seconds st"
  "st_retention_seconds (abandon st t k fp) = st_retention_seconds st"
  by (simp_all add: finish_def abandon_def)

lemma claim_records [simp]:
  "st_records (snd (claim_provider_event now st t p ev fp)) = st_records st"
  "st_retention_seconds (snd (claim_provider_event now st t p ev fp)) = st_retention_seconds st"
  by (simp_all add: claim_provider_event_def split: option.split)

lemma abandon_event_records [simp]:
  "st_records (abandon_provider_event st t p ev) = st_records st"
  "st_retention_seconds (abandon_provider_event st t p ev) = st_retention_seconds st"
  by (simp_all add: abandon_provider_event_def)

definition holds_row :: "string \<times> string \<Rightarrow> idem_row \<Rightarrow> int \<Rightarrow> manager \<Rightarrow> bool" where
  "holds_row K row ret m \<longleftrightarrow>
     st_records (dm_store m) K = Some row \<and> st_retention_seconds (dm_store m) = ret"

lemma store_result_keeps:
  assumes "holds_row K row ret m" "ir_status row \<noteq> InProgress"
  shows "holds_row K row ret (snd (store_result pf env r fp res m))"
proof -
  let ?c = "complete (dm_store m) (fq_tenant_id r) (fq_idempotency_key r) fp
      (dumps Spaced True (result_to_dict (pf_money pf) res))"
  have "st_records (snd ?c) K = Some row \<and> st_retention_seconds (snd ?c) = ret"
    using assms finish_keeps [of "dm_store m"] by (simp add: holds_row_def complete_def)
  then show ?thesis
    by (cases ?c) (simp add: store_result_def holds_row_def record_idempotent_result_def split: sum.split)
qed

lemma downstream_failure_keeps:
  "holds_row K row ret m \<Longrightarrow> ir_status row \<noteq> InProgress \<Longrightarrow>
     holds_row K row ret (downstream_failure pf env r fp e m)"
  using abandon_keeps [of "dm_store m"] by (simp add: downstream_failure_def holds_row_def)

lemma route_keeps: "holds_row K row ret m \<Longrightarrow> holds_row K row ret (snd (route pf env r m))"
  using route_books [of m pf env r] by (simp add: holds_row_def same_books_def)

lemma reuse_keeps [simp]:
  "dm_store (snd (reuse_result pf env r stored m)) = dm_store m"
  "dm_card_issuer (snd (reuse_result pf env r stored m)) = dm_card_issuer m"
  "dm_mobile_adapter (snd (reuse_result pf env r stored m)) = dm_mobile_adapter m"
  "dm_results (snd (reuse_result pf env r stored m)) = dm_results m"
  "dm_audit_trail (snd (reuse_result pf env r stored m)) = dm_audit_trail m"
  by (simp_all add: reuse_result_def)

lemma disburse_float_keeps:
  assumes "holds_row K row ret m" "ir_status row \<noteq> InProgress" "dv_store_now env - ret \<le> ir_created_at row"
  shows "holds_row K row ret (snd (disburse_float pf env r m))"
proof -
  let ?g = "get_or_reserve (dv_store_now env) (dm_store m) (fq_tenant_id r) (fq_idempotency_key r)
      (request_fingerprint (pf_sha256 pf) (request_payload r)) None"
  have g: "holds_row K row ret (m\<lparr>dm_store := snd ?g\<rparr>)"
    using assms(1,3) reserve_keeps [of "dm_store m" K row "dv_store_now env"]
    by (simp add: holds_row_def get_or_reserve_def)
  note step = route_keeps [OF g, of pf env r]
  show ?thesis
    using g step store_result_keeps [OF step assms(2)] downstream_failure_keeps [OF step assms(2)]
    by (cases ?g; cases "fst ?g"; cases "route pf env r (m\<lparr>dm_store := snd ?g\<rparr>)")
      (auto simp: disburse_float_def Let_def holds_row_def split: option.split sum.split)
qed

lemma ingest_keeps:
  "holds_row K row ret m \<Longrightarrow> holds_row K row ret (snd (ingest_provider_event pf env t p ev payload s m))"
proof -
  assume h: "holds_row K row ret m"
  let ?c = "claim_provider_event (dv_store_now env) (dm_store m) t p ev
      (request_fingerprint (pf_sha256 pf) (JDict payload))"
  have "holds_row K row ret (m\<lparr>dm_store := snd ?c\<rparr>)" using h by (simp add: holds_row_def)
  then show ?thesis
    by (cases ?c)
      (auto simp: ingest_provider_event_def holds_row_def Let_def split: sum.splits option.splits json.splits)
qed

lemma run_keeps:
  assumes "holds_row K row ret m" "ir_status row \<noteq> InProgress"
    and "\<forall>x \<in> set ops. op_now x - ret \<le> ir_created_at row"
  shows "holds_row K row ret (foldl (run_op pf) m ops)"
  using assms
proof (induction ops arbitrary: m)
  case (Cons x ops)
  then have "holds_row K row ret (run_op pf m x)"
    by (cases x) (simp_all add: disburse_float_keeps ingest_keeps)
  with Cons show ?case by simp
qed simp

section \<open>What the manager guarantees\<close>

text \<open>A key that neither the store nor the adapters know. The store forgets a key after its retention, the
  adapters never do.\<close>

definition new_key :: "time \<Rightarrow> manager \<Rightarrow> float_request \<Rightarrow> bool" where
  "new_key now m r \<longleftrightarrow> fq_idempotency_key r \<noteq> [] \<and> fresh_key now m r \<and>
     ci_issued_cards (dm_card_issuer m) (TenantKey (fq_tenant_id r) (fq_idempotency_key r)) = None \<and>
     ma_disbursements (dm_mobile_adapter m) (key_of_request r) = None"

text \<open>A new card over the amount of the request is issued and nothing else, and the result shows it.\<close>

definition card_issued :: "disburse_env \<Rightarrow> float_request \<Rightarrow> float_result \<Rightarrow> manager \<Rightarrow> manager \<Rightarrow> bool" where
  "card_issued env r res m m' \<longleftrightarrow> (\<exists>cd. fr_virtual_card res = Some cd \<and> fr_mobile res = None \<and>
     fr_status res = ''completed'' \<and> vc_card_status cd = CardActive \<and>
     vc_card_id cd = ''card_'' @ take 16 (ce_uuid_hex (dv_card env)) \<and>
     vc_spending_limit_scaled cd = fq_amount_scaled r \<and> vc_currency cd = fq_currency r \<and>
     vc_tenant_id cd = fq_tenant_id r \<and> vc_custodian_id cd = fq_custodian_id r \<and> vc_fund_id cd = fq_fund_id r \<and>
     dm_card_issuer m' = (dm_card_issuer m)
       \<lparr>ci_issued_cards := (ci_issued_cards (dm_card_issuer m))
          (TenantKey (fq_tenant_id r) (fq_idempotency_key r) \<mapsto> cd),
        ci_cards_by_id := (ci_cards_by_id (dm_card_issuer m))(vc_card_id cd \<mapsto> cd)\<rparr> \<and>
     dm_mobile_adapter m' = dm_mobile_adapter m)"

text \<open>A new transfer of the amount to the recipient is made and nothing else, and the result shows it; it is
  completed unless the adapter simulates a failure of its provider.\<close>

definition transfer_made :: "disburse_env \<Rightarrow> float_request \<Rightarrow> float_result \<Rightarrow> manager \<Rightarrow> manager \<Rightarrow> bool" where
  "transfer_made env r res m m' \<longleftrightarrow> (\<exists>x. fr_mobile res = Some x \<and> fr_virtual_card res = None \<and>
     fr_status res = (if ma_simulate_failure (dm_mobile_adapter m) then ''failed'' else ''completed'') \<and>
     fr_status res = mobile_status_value (mx_status x) \<and>
     mx_disbursement_id x = ''disb_'' @ take 16 (me_uuid_hex (dv_mobile env)) \<and>
     mx_amount_scaled x = fq_amount_scaled r \<and> mx_currency x = fq_currency r \<and>
     mx_recipient x = fq_recipient_address r \<and>
     mx_tenant_id x = fq_tenant_id r \<and> mx_custodian_id x = fq_custodian_id r \<and> mx_fund_id x = fq_fund_id r \<and>
     dm_mobile_adapter m' = (dm_mobile_adapter m)
       \<lparr>ma_disbursements := (ma_disbursements (dm_mobile_adapter m))(key_of_request r \<mapsto> x),
        ma_by_id := AList.update (mx_disbursement_id x) x (ma_by_id (dm_mobile_adapter m))\<rparr> \<and>
     dm_card_issuer m' = dm_card_issuer m)"

lemma route_pays:
  assumes "deliverable r" "new_key now m r" "dm_card_issuer m0 = dm_card_issuer m" "dm_mobile_adapter m0 = dm_mobile_adapter m"
    and "route pf env r m0 = (Inr res, m')"
  shows "if fq_channel r = VirtualCard then card_issued env r res m m' else transfer_made env r res m m'"
proof (cases "fq_channel r")
  case VirtualCard
  then show ?thesis
    using assms by (auto simp: route_def disburse_via_card_def mk_card_request_def deliverable_def new_key_def text_or_def
        create_virtual_card_def card_issued_def Let_def)
next
  case MobileMoney
  then show ?thesis
    using assms by (auto simp: route_def disburse_via_mobile_def mk_mobile_request_def deliverable_def new_key_def text_or_def
        disburse_def transfer_made_def key_of_request_def Let_def)
next
  case AchTransfer
  then show ?thesis
    using assms by (auto simp: route_def disburse_via_mobile_def mk_mobile_request_def deliverable_def new_key_def text_or_def
        disburse_def transfer_made_def key_of_request_def Let_def)
qed

text \<open>C13. A request under a key that neither the store nor an adapter knows is paid exactly when its amount is
  positive, its currency has three characters and, off the card channel, it names a recipient. Then exactly
  one payment is made, over the channel and with the amount, currency, tenant, custodian, fund and
  recipient of the request: a new active card, or a new transfer, which is completed unless its provider
  fails, and the other adapter is not touched. The result repeats the request, shows the payment and is
  the one entry added to the audit trail. Otherwise the error leaves both adapters, the results and the
  trail as they were and the key new.\<close>

theorem fresh_disbursement:
  assumes "new_key (dv_store_now env) m r" "disburse_float pf env r m = (out, m')"
  shows "if deliverable r
    then \<exists>res. out = Inr res \<and> echoes r res \<and>
      (if fq_channel r = VirtualCard then card_issued env r res m m' else transfer_made env r res m m') \<and>
      dm_audit_trail m' = dm_audit_trail m @ [res] \<and>
      map_of (dm_results m') (key_of_request r) = Some (res, dv_now env + dm_ttl_seconds m * 1000000)
    else (\<exists>e. out = Inl e) \<and> new_key (dv_store_now env) m' r \<and>
      dm_card_issuer m' = dm_card_issuer m \<and> dm_mobile_adapter m' = dm_mobile_adapter m \<and>
      dm_results m' = dm_results m \<and> dm_audit_trail m' = dm_audit_trail m"
proof (cases "deliverable r")
  case True
  have fresh: "fresh_key (dv_store_now env) m r" using assms(1) by (simp add: new_key_def)
  obtain res m'' where p: "route pf env r (m\<lparr>dm_store := reserved pf env r m\<rparr>) = (Inr res, m'')" "echoes r res"
    using True by (rule route_paid)
  have "if fq_channel r = VirtualCard then card_issued env r res m m'' else transfer_made env r res m m''"
    by (rule route_pays [OF True assms(1) _ _ p(1)]) simp_all
  moreover have "dm_card_issuer m' = dm_card_issuer m''" "dm_mobile_adapter m' = dm_mobile_adapter m''"
    using disburse_float_paid(5,6) [OF fresh p(1)] assms(2) by simp_all
  ultimately show ?thesis
    using True p(2) disburse_float_paid(1,3,4) [OF fresh p(1)] assms(2)
    by (auto simp: update_conv card_issued_def transfer_made_def)
next
  case False
  have fresh: "fresh_key (dv_store_now env) m r" using assms(1) by (simp add: new_key_def)
  have "fresh_key (dv_store_now env) (audit pf env t e d (m\<lparr>dm_store := prune (dv_store_now env) (dm_store m)\<rparr>)) r"
    for t e d
    using fresh unfolding fresh_key_def by (subst prune_record_None) simp
  with False disburse_float_refused [OF fresh False, of pf] assms show ?thesis
    by (auto simp: new_key_def)
qed

text \<open>C2. A float is paid once: after a request was paid under a new key, whatever disbursements and
  callbacks follow inside the retention window, using the key again touches neither adapter, the
  results nor the trail. The same request gets the first result back, with its metadata keys
  sorted by the trip through the store, and a request of another fingerprint is refused.\<close>

theorem replay_pays_once:
  assumes "fresh_key (dv_store_now env) m r" "dicts m" "distinct (map fst (fq_metadata r))"
    and "disburse_float pf env r m = (Inr res, m1)" "m2 = foldl (run_op pf) m1 ops"
    and "\<forall>x \<in> set ops. op_now x \<le> dv_store_now env + st_retention_seconds (dm_store m)"
    and "dv_store_now env' \<le> dv_store_now env + st_retention_seconds (dm_store m)"
    and "key_of_request r' = key_of_request r" "disburse_float pf env' r' m2 = (x, m3)"
  shows "x = (if print_of pf r' = print_of pf r then Inr (canonical_result res)
      else Inl (StoreRefused KeyReused)) \<and>
    dm_card_issuer m3 = dm_card_issuer m2 \<and> dm_mobile_adapter m3 = dm_mobile_adapter m2 \<and>
    dm_results m3 = dm_results m2 \<and> dm_audit_trail m3 = dm_audit_trail m2"
proof -
  let ?row = "completed_row pf r res (dv_store_now env)" and ?ret = "st_retention_seconds (dm_store m)"
  have "deliverable r"
    using disburse_float_refused [OF assms(1), of pf] assms(4) by (cases "deliverable r") auto
  then obtain res0 m'' where p: "route pf env r (m\<lparr>dm_store := reserved pf env r m\<rparr>) = (Inr res0, m'')"
    using route_paid by blast
  then have res0: "res0 = res" using disburse_float_paid(1) [OF assms(1) p] assms(4) by simp
  have wf: "wf_result res"
    using route_dicts [OF _ assms(3) p] assms(2) res0 by simp
  have "holds_row (key_of_request r) ?row ?ret m1"
    using disburse_float_paid(2,7) [OF assms(1) p] assms(4) res0 by (simp add: holds_row_def)
  then have "holds_row (key_of_request r) ?row ?ret m2"
    unfolding assms(5) by (rule run_keeps) (use assms(6) in \<open>auto simp: completed_row_def algebra_simps\<close>)
  then have h: "st_records (dm_store m2) (fq_tenant_id r', fq_idempotency_key r') = Some ?row"
    "dv_store_now env' - st_retention_seconds (dm_store m2) \<le> ir_created_at ?row"
    using assms(7,8) by (auto simp: holds_row_def key_of_request_def completed_row_def)
  have parsed: "Option.bind (loads (ir_result_json ?row)) result_from_dict = Some (canonical_result res)"
    using stored_value_text [OF wf, of "pf_money pf"] by (simp add: completed_row_def stored_value_def)
  note ex = reserve_existing [OF h, of "print_of pf r'"]
  show ?thesis
    using assms(9) ex parsed
    by (auto simp: disburse_float_def get_or_reserve_def reuse_result_def completed_row_def Let_def
        split: if_splits simp flip: print_of_def)
qed

text \<open>When the store has pruned a key that the card issuer still knows, paying another request
  under it succeeds with the new amount in the result but the old card inside: nothing is issued,
  whatever the limit of that card is.\<close>

theorem expired_key_returns_old_card:
  assumes "fresh_key (dv_store_now env) m r" "deliverable r" "fq_channel r = VirtualCard"
    and "fq_idempotency_key r \<noteq> []"
    and "ci_issued_cards (dm_card_issuer m) (TenantKey (fq_tenant_id r) (fq_idempotency_key r)) = Some old"
  shows "\<exists>res. fst (disburse_float pf env r m) = Inr res \<and> fr_status res = ''completed'' \<and>
    fr_amount_scaled res = fq_amount_scaled r \<and> fr_virtual_card res = Some old \<and>
    dm_card_issuer (snd (disburse_float pf env r m)) = dm_card_issuer m"
proof -
  let ?m = "m\<lparr>dm_store := reserved pf env r m\<rparr>"
  have "\<exists>res. route pf env r ?m = (Inr res, ?m) \<and> fr_status res = ''completed'' \<and>
      fr_amount_scaled res = fq_amount_scaled r \<and> fr_virtual_card res = Some old"
    using assms(2-5)
    by (simp add: route_def disburse_via_card_def mk_card_request_def deliverable_def text_or_def
        create_virtual_card_def Let_def)
  then show ?thesis using disburse_float_paid(1,5) [OF assms(1)] by fastforce
qed

text \<open>A callback with a status that is no settlement state raises after its event id was claimed:
  sent again it is answered as a replay, so it is neither applied nor reported a second time.\<close>

theorem unknown_status_stays_claimed:
  assumes "st_events (dm_store m) (t, p, ev) = None"
    and "map_of payload ''status'' = Some (JStr s)" "settlement_of_value s = None"
  shows "fst (ingest_provider_event pf env t p ev payload current m) = Inl StatusUnknown \<and>
    fst (ingest_provider_event pf env' t p ev payload current'
      (snd (ingest_provider_event pf env t p ev payload current m))) = Inr False"
  using assms by (simp add: ingest_provider_event_def claim_provider_event_def Let_def)

section \<open>A concrete manager\<close>

definition demo_platform :: platform where
  "demo_platform = \<lparr>pf_sha256 = (\<lambda>m. m), pf_md5 = (\<lambda>m. ''00ff''), pf_hmac = (\<lambda>k m. ''h''),
     pf_money = (\<lambda>n. ''$'' @ show_int n)\<rparr>"

definition demo_manager :: manager where
  "demo_manager = \<lparr>dm_card_issuer = new_card_issuer MockIssuer,
     dm_mobile_adapter = new_mobile_adapter MockMobile False, dm_ttl_seconds = 60,
     dm_store = demo_store, dm_audit_logger = new_audit_logger ''k'', dm_results = [], dm_audit_trail = []\<rparr>"

definition demo_env :: "time \<Rightarrow> disburse_env" where
  "demo_env now = \<lparr>dv_store_now = now, dv_uuid_hex = ''0a'', dv_now_text = ''t0'', dv_now = 1000000 * now,
     dv_card = demo_card_env, dv_mobile = \<lparr>me_uuid_hex = ''0b'', me_now = ''t0''\<rparr>,
     dv_audit_uuid = ''0c'', dv_audit_now = ''t0''\<rparr>"

definition demo_float :: "channel \<Rightarrow> scaled \<Rightarrow> float_request" where
  "demo_float c amount = \<lparr>fq_tenant_id = ''acme'', fq_custodian_id = ''c1'', fq_fund_id = ''f1'',
     fq_amount_scaled = amount, fq_channel = c, fq_currency = ''USD'',
     fq_recipient_address = ''+254'', fq_cardholder_name = ''Bo'', fq_description = ''float'',
     fq_idempotency_key = ''k1'', fq_metadata = [(''b'', ''2''), (''a'', ''1'')]\<rparr>"

lemma demo_fresh: "fresh_key now demo_manager r"
  by (simp add: fresh_key_def demo_manager_def demo_store_def prune_def)

lemma demo_deliverable: "0 < n \<Longrightarrow> deliverable (demo_float c n)"
  by (simp add: deliverable_def demo_float_def)

lemma demo_dicts: "dicts demo_manager"
  by (simp add: dicts_def demo_manager_def new_card_issuer_def new_mobile_adapter_def)

lemma demo_routed:
  assumes "0 < n"
  obtains res m'' where "route pf env (demo_float c n) m = (Inr res, m'')"
  by (rule route_paid [OF demo_deliverable [OF assms], of pf env c m]) (rule that)

theorem fresh_disbursement_witness:
  "\<exists>res. fst (disburse_float demo_platform (demo_env 100) (demo_float MobileMoney 7) demo_manager) = Inr res \<and>
    map_option mx_amount_scaled (fr_mobile res) = Some 7 \<and>
    ma_disbursements (dm_mobile_adapter (snd (disburse_float demo_platform (demo_env 100) (demo_float MobileMoney 7) demo_manager)))
      (''acme'', ''k1'') = fr_mobile res"
proof -
  have "new_key (dv_store_now (demo_env 100)) demo_manager (demo_float MobileMoney 7)"
    unfolding new_key_def by (intro conjI demo_fresh) (simp_all add: demo_manager_def demo_float_def new_card_issuer_def new_mobile_adapter_def)
  from fresh_disbursement [OF this surjective_pairing, of demo_platform] demo_deliverable [of 7 MobileMoney] show ?thesis
    by (auto simp: transfer_made_def key_of_request_def demo_float_def)
qed

theorem replay_pays_once_witness:
  "\<exists>res m1. disburse_float demo_platform (demo_env 100) (demo_float MobileMoney 7) demo_manager = (Inr res, m1) \<and>
    (let m2 = run_op demo_platform m1 (PayFloat (demo_env 150) (demo_float VirtualCard 8))
     in fst (disburse_float demo_platform (demo_env 200) (demo_float MobileMoney 7) m2) =
        Inr (canonical_result res))"
proof -
  let ?r = "demo_float MobileMoney 7" and ?op = "PayFloat (demo_env 150) (demo_float VirtualCard 8)"
  obtain res m'' where "route demo_platform (demo_env 100) ?r (demo_manager\<lparr>dm_store :=
      reserved demo_platform (demo_env 100) ?r demo_manager\<rparr>) = (Inr res, m'')"
    by (rule demo_routed [OF zero_less_numeral])
  then have "fst (disburse_float demo_platform (demo_env 100) ?r demo_manager) = Inr res"
    by (rule disburse_float_paid(1) [OF demo_fresh])
  then obtain m1 where m1: "disburse_float demo_platform (demo_env 100) ?r demo_manager = (Inr res, m1)"
    by (metis prod.collapse)
  let ?m2 = "foldl (run_op demo_platform) m1 [?op]"
  obtain x m3 where m3: "disburse_float demo_platform (demo_env 200) ?r ?m2 = (x, m3)" by (metis surj_pair)
  have "x = Inr (canonical_result res)"
    using replay_pays_once [OF demo_fresh demo_dicts _ m1 refl _ _ refl m3]
    by (simp add: demo_float_def demo_env_def demo_manager_def demo_store_def)
  with m1 m3 show ?thesis by (auto simp: Let_def)
qed

theorem expired_key_returns_old_card_witness:
  "let paid = snd (disburse_float demo_platform (demo_env 100) (demo_float VirtualCard 7) demo_manager);
       res = fst (disburse_float demo_platform (demo_env 604901) (demo_float VirtualCard 9) paid)
   in \<exists>x old. res = Inr x \<and> fr_amount_scaled x = 9 \<and> fr_virtual_card x = Some old \<and>
        vc_spending_limit_scaled old = 7"
proof -
  let ?r = "demo_float VirtualCard 7" and ?m = demo_manager and ?e = "demo_env 100"
  let ?paid = "snd (disburse_float demo_platform ?e ?r ?m)"
  obtain res m'' where rt: "route demo_platform ?e ?r (?m\<lparr>dm_store := reserved demo_platform ?e ?r ?m\<rparr>) = (Inr res, m'')"
    by (rule demo_routed [OF zero_less_numeral])
  note paid = disburse_float_paid [OF demo_fresh rt]
  have "\<exists>old. ci_issued_cards (dm_card_issuer m'') (TenantKey ''acme'' ''k1'') = Some old \<and>
      vc_spending_limit_scaled old = 7"
    using rt by (auto simp: route_def disburse_via_card_def mk_card_request_def demo_float_def text_or_def
        create_virtual_card_def demo_manager_def new_card_issuer_def Let_def)
  then obtain old where old: "ci_issued_cards (dm_card_issuer ?paid) (TenantKey ''acme'' ''k1'') = Some old"
    "vc_spending_limit_scaled old = 7"
    unfolding paid(5) by blast
  have "fresh_key (dv_store_now (demo_env 604901)) ?paid (demo_float VirtualCard 9)"
    using paid(2,7) unfolding fresh_key_def prune_record_None
    by (simp add: key_of_request_def demo_float_def demo_env_def completed_row_def demo_manager_def demo_store_def)
  moreover have "deliverable (demo_float VirtualCard 9)" by (rule demo_deliverable) simp
  ultimately show ?thesis
    using expired_key_returns_old_card [of "demo_env 604901" ?paid "demo_float VirtualCard 9" old demo_platform] old
    by (auto simp: demo_float_def Let_def)
qed

theorem unknown_status_stays_claimed_witness:
  "let pay = [(''status'', JStr ''settled'')];
       (first, m) = ingest_provider_event demo_platform (demo_env 100) ''acme'' ''mpesa'' ''e1'' pay SPending demo_manager
   in first = Inl StatusUnknown \<and>
      fst (ingest_provider_event demo_platform (demo_env 101) ''acme'' ''mpesa'' ''e1'' pay SPending m) = Inr False"
proof -
  have "settlement_of_value ''settled'' = None"
    by (simp add: settlement_of_value_def settlement_states_def)
  then show ?thesis
    using unknown_status_stays_claimed [of demo_manager "''acme''" "''mpesa''" "''e1''"
        "[(''status'', JStr ''settled'')]" "''settled''" demo_platform "demo_env 100" SPending "demo_env 101" SPending]
    by (simp add: demo_manager_def demo_store_def Let_def case_prod_unfold)
qed

end
