(* ===== verification/Reconciliation.thy ===== *)
theory Reconciliation
  imports Ledger Json
begin

text \<open>
  \<^verbatim>\<open>src/domain/reconciliation/matcher.py\<close> and \<^verbatim>\<open>variance_analyzer.py\<close>: the three-way match of a cash
  count, the system float and the bank feed, and the disposition of its variance with the
  adjusting ledger batch. The formatted amount \<open>f"${x / 10_000:.2f}"\<close> is the parameter \<open>money\<close>;
  the uuids' hex texts and the time stamps are arguments.
\<close>

section \<open>Records to match\<close>

record denominations =
  dn_hundreds :: int
  dn_fifties :: int
  dn_twenties :: int
  dn_tens :: int
  dn_fives :: int
  dn_ones :: int
  dn_quarters :: int
  dn_dimes :: int
  dn_nickels :: int
  dn_pennies :: int
  dn_custom_coins_scaled :: int

definition denominations_total :: "denominations \<Rightarrow> scaled" where
  "denominations_total d =
     dn_hundreds d * 100 * 10000 + dn_fifties d * 50 * 10000 + dn_twenties d * 20 * 10000 +
     dn_tens d * 10 * 10000 + dn_fives d * 5 * 10000 + dn_ones d * 1 * 10000 +
     dn_quarters d * 2500 + dn_dimes d * 1000 + dn_nickels d * 500 + dn_pennies d * 100 +
     dn_custom_coins_scaled d"

record cash_count =
  cc_count_id :: string
  cc_tenant_id :: string
  cc_fund_id :: string
  cc_custodian_id :: string
  cc_denominations :: denominations
  cc_counted_at :: string
  cc_verified_by :: "string option"
  cc_notes :: "string option"

record system_float =
  sf_fund_id :: string
  sf_tenant_id :: string
  sf_opening_float_scaled :: scaled
  sf_total_disbursed_scaled :: scaled
  sf_total_replenished_scaled :: scaled
  sf_pending_disbursements_scaled :: scaled

definition expected_balance :: "system_float \<Rightarrow> scaled" where
  "expected_balance s =
     sf_opening_float_scaled s + sf_total_replenished_scaled s - sf_total_disbursed_scaled s"

definition effective_balance :: "system_float \<Rightarrow> scaled" where
  "effective_balance s = expected_balance s - sf_pending_disbursements_scaled s"

record bank_feed =
  bf_feed_id :: string
  bf_tenant_id :: string
  bf_bank_account_id :: string
  bf_cleared_replenishments_scaled :: scaled
  bf_pending_transfers_scaled :: scaled
  bf_statement_date :: string

datatype reconciliation_status = BALANCED | VARIANCE_OVER | VARIANCE_SHORT | DISCREPANCY_PENDING_AUDIT

fun reconciliation_status_value :: "reconciliation_status \<Rightarrow> string" where
  "reconciliation_status_value BALANCED = ''BALANCED''"
| "reconciliation_status_value VARIANCE_OVER = ''VARIANCE_OVER''"
| "reconciliation_status_value VARIANCE_SHORT = ''VARIANCE_SHORT''"
| "reconciliation_status_value DISCREPANCY_PENDING_AUDIT = ''DISCREPANCY_PENDING_AUDIT''"

record reconciliation_result =
  rr_reconciliation_id :: string
  rr_tenant_id :: string
  rr_fund_id :: string
  rr_status :: reconciliation_status
  rr_physical_cash_scaled :: scaled
  rr_system_expected_scaled :: scaled
  rr_bank_cleared_scaled :: scaled
  rr_cash_variance_scaled :: scaled
  rr_bank_variance_scaled :: scaled
  rr_is_balanced :: bool
  rr_reconciled_at :: string
  rr_details :: tags

datatype reconcile_error = FloatTenantMismatch | FeedTenantMismatch | ZeroVariance | BadLeg ledger_error

definition is_exact_match :: "reconciliation_result \<Rightarrow> bool" where
  "is_exact_match r \<longleftrightarrow> rr_cash_variance_scaled r = 0 \<and> rr_bank_variance_scaled r = 0"

definition reconciliation_to_dict :: "(scaled \<Rightarrow> string) \<Rightarrow> reconciliation_result \<Rightarrow> json" where
  "reconciliation_to_dict money r = JDict
     [(''reconciliation_id'', JStr (rr_reconciliation_id r)), (''tenant_id'', JStr (rr_tenant_id r)),
      (''fund_id'', JStr (rr_fund_id r)),
      (''status'', JStr (reconciliation_status_value (rr_status r))),
      (''is_balanced'', JBool (rr_is_balanced r)), (''is_exact_match'', JBool (is_exact_match r)),
      (''physical_cash_formatted'', JStr (money (rr_physical_cash_scaled r))),
      (''system_expected_formatted'', JStr (money (rr_system_expected_scaled r))),
      (''bank_cleared_formatted'', JStr (money (rr_bank_cleared_scaled r))),
      (''cash_variance_scaled'', JInt (rr_cash_variance_scaled r)),
      (''cash_variance_formatted'', JStr (money (rr_cash_variance_scaled r))),
      (''bank_variance_scaled'', JInt (rr_bank_variance_scaled r)),
      (''bank_variance_formatted'', JStr (money (rr_bank_variance_scaled r))),
      (''reconciled_at'', JStr (rr_reconciled_at r)), (''details'', json_tags (rr_details r))]"

section \<open>Matching\<close>

definition over_text :: "(scaled \<Rightarrow> string) \<Rightarrow> scaled \<Rightarrow> string" where
  "over_text money v = ''Physical cash exceeds system float by '' @ money v @ '' (Cash Over).''"

definition short_text :: "(scaled \<Rightarrow> string) \<Rightarrow> scaled \<Rightarrow> string" where
  "short_text money v = ''Physical cash is short of system float by '' @ money \<bar>v\<bar> @ '' (Cash Short).''"

definition classify ::
  "(scaled \<Rightarrow> string) \<Rightarrow> scaled \<Rightarrow> scaled \<Rightarrow> scaled \<Rightarrow> reconciliation_status \<times> bool \<times> string" where
  "classify money tolerance cash_variance bank_variance =
     (let has_cash = \<bar>cash_variance\<bar> > tolerance; has_bank = \<bar>bank_variance\<bar> > tolerance
      in if \<not> has_cash \<and> \<not> has_bank then
           (BALANCED, True, ''Physical cash and bank feeds match system float perfectly.'')
         else if has_bank then
           (DISCREPANCY_PENDING_AUDIT, False, join '' | ''
             ((''Bank statement replenishment variance detected: '' @ money bank_variance) #
              (if has_cash then
                 [if cash_variance > 0 then over_text money cash_variance else short_text money cash_variance]
               else [])))
         else if cash_variance > 0 then (VARIANCE_OVER, False, over_text money cash_variance)
         else (VARIANCE_SHORT, False, short_text money cash_variance))"

definition reconcile ::
  "(scaled \<Rightarrow> string) \<Rightarrow> scaled \<Rightarrow> string \<Rightarrow> string \<Rightarrow> cash_count \<Rightarrow> system_float \<Rightarrow> bank_feed option \<Rightarrow>
   reconcile_error + reconciliation_result" where
  "reconcile money tolerance uuid_hex now cc sf feed =
     (if cc_tenant_id cc \<noteq> sf_tenant_id sf then Inl FloatTenantMismatch
      else if (case feed of None \<Rightarrow> False | Some f \<Rightarrow> bf_tenant_id f \<noteq> cc_tenant_id cc)
      then Inl FeedTenantMismatch
      else
        (let physical = denominations_total (cc_denominations cc);
             expected = expected_balance sf;
             cash_variance = physical - expected;
             bank_cleared = (case feed of None \<Rightarrow> sf_total_replenished_scaled sf
                             | Some f \<Rightarrow> bf_cleared_replenishments_scaled f);
             bank_variance = bank_cleared - sf_total_replenished_scaled sf;
             (status, balanced, message) = classify money tolerance cash_variance bank_variance
         in Inr \<lparr>rr_reconciliation_id = ''REC-'' @ py_upper (take 12 uuid_hex),
              rr_tenant_id = cc_tenant_id cc, rr_fund_id = cc_fund_id cc, rr_status = status,
              rr_physical_cash_scaled = physical, rr_system_expected_scaled = expected,
              rr_bank_cleared_scaled = bank_cleared, rr_cash_variance_scaled = cash_variance,
              rr_bank_variance_scaled = bank_variance, rr_is_balanced = balanced,
              rr_reconciled_at = now, rr_details = [(''message'', message)]\<rparr>))"

section \<open>Disposition of a variance\<close>

datatype disposition = AUTO_ADJUSTED | PENDING_APPROVAL | ESCALATED_AUDIT | REJECTED_VARIANCE

fun disposition_value :: "disposition \<Rightarrow> string" where
  "disposition_value AUTO_ADJUSTED = ''AUTO_ADJUSTED''"
| "disposition_value PENDING_APPROVAL = ''PENDING_APPROVAL''"
| "disposition_value ESCALATED_AUDIT = ''ESCALATED_AUDIT''"
| "disposition_value REJECTED_VARIANCE = ''REJECTED''"

record variance_analyzer =
  vz_auto_adjust_threshold_scaled :: scaled
  vz_manager_threshold_scaled :: scaled
  vz_cash_over_short_account_id :: string

definition default_analyzer :: variance_analyzer where
  "default_analyzer = \<lparr>vz_auto_adjust_threshold_scaled = 50000, vz_manager_threshold_scaled = 500000,
     vz_cash_over_short_account_id = ''ACC_CASH_OVER_SHORT''\<rparr>"

record variance_analysis =
  va_analysis_id :: string
  va_reconciliation_id :: string
  va_tenant_id :: string
  va_fund_id :: string
  va_variance_scaled :: scaled
  va_variance_formatted :: string
  va_disposition :: disposition
  va_is_auto_adjusted :: bool
  va_requires_escalation :: bool
  va_required_role :: "string option"
  va_adjustment_batch :: "transaction_batch option"
  va_policy_summary :: string
  va_analyzed_at :: string

definition analysis_to_dict :: "variance_analysis \<Rightarrow> json" where
  "analysis_to_dict a = JDict
     [(''analysis_id'', JStr (va_analysis_id a)), (''reconciliation_id'', JStr (va_reconciliation_id a)),
      (''tenant_id'', JStr (va_tenant_id a)), (''fund_id'', JStr (va_fund_id a)),
      (''variance_scaled'', JInt (va_variance_scaled a)),
      (''variance_formatted'', JStr (va_variance_formatted a)),
      (''disposition'', JStr (disposition_value (va_disposition a))),
      (''is_auto_adjusted'', JBool (va_is_auto_adjusted a)),
      (''requires_escalation'', JBool (va_requires_escalation a)),
      (''required_role'', json_opt (va_required_role a)),
      (''adjustment_batch_id'', json_opt (map_option tb_transaction_id (va_adjustment_batch a))),
      (''policy_summary'', JStr (va_policy_summary a)), (''analyzed_at'', JStr (va_analyzed_at a))]"

record adjust_env =
  ad_analysis_uuid :: string
  ad_batch_uuid :: string
  ad_now :: string

text \<open>Two legs, one debit and one credit: a leg that cannot be made raises.\<close>

definition two_legs :: "string \<Rightarrow> string \<Rightarrow> scaled \<Rightarrow> reconcile_error + posting_leg list" where
  "two_legs debit_account credit_account amount =
     (case mk_posting_leg debit_account DEBIT amount of Inl e \<Rightarrow> Inl (BadLeg e)
      | Inr d \<Rightarrow> (case mk_posting_leg credit_account CREDIT amount of Inl e \<Rightarrow> Inl (BadLeg e)
                 | Inr c \<Rightarrow> Inr [d, c]))"

definition generate_adjustment_batch ::
  "(scaled \<Rightarrow> string) \<Rightarrow> adjust_env \<Rightarrow> variance_analyzer \<Rightarrow> string \<Rightarrow> string \<Rightarrow> scaled \<Rightarrow> string \<Rightarrow>
   reconcile_error + transaction_batch" where
  "generate_adjustment_batch money env vz tenant fund_account variance reason =
     (if variance = 0 then Inl ZeroVariance
      else
        (let amount = \<bar>variance\<bar>;
             legs = (if variance < 0
               then two_legs (vz_cash_over_short_account_id vz) fund_account amount
               else two_legs fund_account (vz_cash_over_short_account_id vz) amount);
             desc = (if variance < 0 then reason @ '': Cash Shortage of '' @ money amount
                     else reason @ '': Cash Overage of '' @ money amount)
         in bind_result legs (\<lambda>ls. Inr \<lparr>tb_transaction_id = ''ADJ-'' @ py_upper (take 12 (ad_batch_uuid env)),
              tb_tenant_id = tenant, tb_description = desc, tb_legs = ls, tb_timestamp = ad_now env\<rparr>)))"

definition analyze ::
  "(scaled \<Rightarrow> string) \<Rightarrow> adjust_env \<Rightarrow> variance_analyzer \<Rightarrow> reconciliation_result \<Rightarrow> string \<Rightarrow>
   reconcile_error + variance_analysis" where
  "analyze money env vz rr fund_account =
     (let variance = rr_cash_variance_scaled rr;
          base = \<lparr>va_analysis_id = ''VANAL-'' @ py_upper (take 12 (ad_analysis_uuid env)),
            va_reconciliation_id = rr_reconciliation_id rr, va_tenant_id = rr_tenant_id rr,
            va_fund_id = rr_fund_id rr, va_variance_scaled = variance,
            va_variance_formatted = money variance, va_disposition = AUTO_ADJUSTED,
            va_is_auto_adjusted = True, va_requires_escalation = False, va_required_role = None,
            va_adjustment_batch = None, va_policy_summary = [], va_analyzed_at = ad_now env\<rparr>
      in if variance = 0 then
           Inr (base\<lparr>va_variance_formatted := ''$0.00'',
             va_policy_summary := ''No variance detected. Fund is perfectly balanced.''\<rparr>)
         else if \<bar>variance\<bar> \<le> vz_auto_adjust_threshold_scaled vz then
           bind_result (generate_adjustment_batch money env vz (rr_tenant_id rr) fund_account variance
               ''Auto-Adjustment (Under Minor Variance Threshold)'')
             (\<lambda>batch. Inr (base\<lparr>va_adjustment_batch := Some batch,
                va_policy_summary := ''Variance '' @ money variance @
                  '' is within auto-adjustment limit ('' @ money (vz_auto_adjust_threshold_scaled vz) @
                  ''). Balanced journal generated.''\<rparr>))
         else if \<bar>variance\<bar> \<le> vz_manager_threshold_scaled vz then
           bind_result (generate_adjustment_batch money env vz (rr_tenant_id rr) fund_account variance
               ''Reconciliation Adjustment (Pending Manager Sign-Off)'')
             (\<lambda>batch. Inr (base\<lparr>va_disposition := PENDING_APPROVAL, va_is_auto_adjusted := False,
                va_required_role := Some ''FINANCE_MANAGER'', va_adjustment_batch := Some batch,
                va_policy_summary := ''Variance '' @ money variance @
                  '' exceeds auto-adjustment limit but is within manager threshold ('' @
                  money (vz_manager_threshold_scaled vz) @ ''). Requires Manager sign-off.''\<rparr>))
         else
           Inr (base\<lparr>va_disposition := ESCALATED_AUDIT, va_is_auto_adjusted := False,
             va_requires_escalation := True, va_required_role := Some ''FINANCE_DIRECTOR'',
             va_policy_summary := ''CRITICAL: Variance '' @ money variance @
               '' exceeds manager threshold ('' @ money (vz_manager_threshold_scaled vz) @
               ''). Escalated to Finance Director & Audit.''\<rparr>))"

section \<open>The adjusting batch\<close>

lemma two_legs_positive:
  "0 < a \<Longrightarrow> two_legs d c a =
     Inr [\<lparr>pl_account_id = d, pl_entry_type = DEBIT, pl_amount_scaled = a\<rparr>,
          \<lparr>pl_account_id = c, pl_entry_type = CREDIT, pl_amount_scaled = a\<rparr>]"
  by (simp add: two_legs_def mk_posting_leg_def)

lemma adjustment_batch:
  assumes "v \<noteq> 0"
  obtains b where "generate_adjustment_batch money env vz t acct v reason = Inr b"
    "validate_balance b = Inr True"
    "acct \<noteq> vz_cash_over_short_account_id vz \<Longrightarrow> account_effect acct (tb_legs b) = v"
    "acct \<noteq> vz_cash_over_short_account_id vz \<Longrightarrow>
       account_effect (vz_cash_over_short_account_id vz) (tb_legs b) = - v"
proof -
  from assms obtain b where b: "generate_adjustment_batch money env vz t acct v reason = Inr b"
    by (cases "v < 0") (auto simp: generate_adjustment_batch_def two_legs_positive Let_def)
  then have legs: "Inr (tb_legs b) = (if v < 0 then two_legs (vz_cash_over_short_account_id vz) acct \<bar>v\<bar>
      else two_legs acct (vz_cash_over_short_account_id vz) \<bar>v\<bar>)"
    by (auto simp: generate_adjustment_batch_def bind_result_Inr_iff Let_def split: if_splits)
  have "0 < \<bar>v\<bar>" using assms by simp
  then have two: "tb_legs b = (if v < 0
      then [\<lparr>pl_account_id = vz_cash_over_short_account_id vz, pl_entry_type = DEBIT, pl_amount_scaled = \<bar>v\<bar>\<rparr>,
            \<lparr>pl_account_id = acct, pl_entry_type = CREDIT, pl_amount_scaled = \<bar>v\<bar>\<rparr>]
      else [\<lparr>pl_account_id = acct, pl_entry_type = DEBIT, pl_amount_scaled = \<bar>v\<bar>\<rparr>,
            \<lparr>pl_account_id = vz_cash_over_short_account_id vz, pl_entry_type = CREDIT, pl_amount_scaled = \<bar>v\<bar>\<rparr>])"
    using legs by (simp add: two_legs_positive split: if_splits)
  show thesis
  proof (rule that [OF b])
    show "validate_balance b = Inr True"
      using two batch_journal.accepts_pair [of b "hd (tb_legs b)" "hd (tl (tb_legs b))"]
      by (simp split: if_splits)
  qed (use two assms in \<open>auto simp: account_effect_Cons account_effect_def\<close>)
qed

text \<open>What a match computes from the three records.\<close>

lemma reconcile_variances:
  assumes "reconcile money tol u now cc sf feed = Inr rr"
  shows "rr_physical_cash_scaled rr = denominations_total (cc_denominations cc)"
    "rr_system_expected_scaled rr = expected_balance sf"
    "rr_cash_variance_scaled rr = denominations_total (cc_denominations cc) - expected_balance sf"
    "rr_tenant_id rr = sf_tenant_id sf"
    "rr_is_balanced rr \<longleftrightarrow> \<bar>rr_cash_variance_scaled rr\<bar> \<le> tol \<and> \<bar>rr_bank_variance_scaled rr\<bar> \<le> tol"
  using assms by (auto simp: reconcile_def classify_def Let_def split: if_splits prod.splits)

text \<open>The adjusting journal repairs the books: after a match, a variance the policy lets through
  comes with a ledger batch that passes the zero-sum check and moves the fund account by exactly
  the variance, from the expected to the counted amount; no batch comes only with a zero variance
  or one above the manager limit, which is escalated. Nothing raises.\<close>

theorem adjustment_settles_variance:
  assumes "reconcile money tol u now cc sf feed = Inr rr"
    and "vz_auto_adjust_threshold_scaled vz \<le> vz_manager_threshold_scaled vz"
    and "acct \<noteq> vz_cash_over_short_account_id vz"
  shows "\<exists>va. analyze money' env vz rr acct = Inr va \<and>
    (case va_adjustment_batch va of
       None \<Rightarrow> rr_cash_variance_scaled rr = 0 \<or>
         vz_manager_threshold_scaled vz < \<bar>rr_cash_variance_scaled rr\<bar> \<and> va_requires_escalation va
     | Some b \<Rightarrow> validate_balance b = Inr True \<and> \<not> va_requires_escalation va \<and>
         expected_balance sf + account_effect acct (tb_legs b) = denominations_total (cc_denominations cc) \<and>
         (va_is_auto_adjusted va \<longleftrightarrow> \<bar>rr_cash_variance_scaled rr\<bar> \<le> vz_auto_adjust_threshold_scaled vz))"
proof (cases "rr_cash_variance_scaled rr = 0")
  case True
  then show ?thesis by (simp add: analyze_def)
next
  case False
  note rv = reconcile_variances [OF assms(1)]
  have gen: "\<exists>b. generate_adjustment_batch money' env vz (rr_tenant_id rr) acct
      (rr_cash_variance_scaled rr) reason = Inr b \<and> validate_balance b = Inr True \<and>
      expected_balance sf + account_effect acct (tb_legs b) = denominations_total (cc_denominations cc)" for reason
    by (rule adjustment_batch [OF False, of money' env vz "rr_tenant_id rr" acct reason])
      (use assms(3) rv(3) in auto)
  show ?thesis
    using False assms(2) gen [of "''Auto-Adjustment (Under Minor Variance Threshold)''"]
      gen [of "''Reconciliation Adjustment (Pending Manager Sign-Off)''"]
    by (auto simp: analyze_def Let_def)
qed

text \<open>A bank discrepancy is lost on the way to the analyzer: when the cash agrees but the bank does
  not, the match is a discrepancy pending audit, and the analysis of it is an automatic
  adjustment without escalation whose summary calls the fund perfectly balanced.\<close>

theorem bank_discrepancy_not_escalated:
  assumes "cc_tenant_id cc = sf_tenant_id sf" "bf_tenant_id bf = cc_tenant_id cc" "0 \<le> tol"
    and "denominations_total (cc_denominations cc) = expected_balance sf"
    and "tol < \<bar>bf_cleared_replenishments_scaled bf - sf_total_replenished_scaled sf\<bar>"
  shows "\<exists>rr va. reconcile money tol u now cc sf (Some bf) = Inr rr \<and>
    rr_status rr = DISCREPANCY_PENDING_AUDIT \<and> \<not> rr_is_balanced rr \<and>
    analyze money' env vz rr acct = Inr va \<and> va_disposition va = AUTO_ADJUSTED \<and>
    \<not> va_requires_escalation va \<and> va_adjustment_batch va = None \<and>
    va_policy_summary va = ''No variance detected. Fund is perfectly balanced.''"
  using assms by (simp add: reconcile_def classify_def analyze_def Let_def)

definition demo_count :: "int \<Rightarrow> cash_count" where
  "demo_count pennies = \<lparr>cc_count_id = ''c1'', cc_tenant_id = ''acme'', cc_fund_id = ''f1'',
     cc_custodian_id = ''u1'', cc_denominations = \<lparr>dn_hundreds = 1, dn_fifties = 0, dn_twenties = 0,
       dn_tens = 0, dn_fives = 0, dn_ones = 0, dn_quarters = 0, dn_dimes = 0, dn_nickels = 0,
       dn_pennies = pennies, dn_custom_coins_scaled = 0\<rparr>,
     cc_counted_at = ''t0'', cc_verified_by = None, cc_notes = None\<rparr>"

definition demo_sf :: system_float where
  "demo_sf = \<lparr>sf_fund_id = ''f1'', sf_tenant_id = ''acme'', sf_opening_float_scaled = 1500000,
     sf_total_disbursed_scaled = 500000, sf_total_replenished_scaled = 0,
     sf_pending_disbursements_scaled = 0\<rparr>"

definition demo_feed :: bank_feed where
  "demo_feed = \<lparr>bf_feed_id = ''b1'', bf_tenant_id = ''acme'', bf_bank_account_id = ''a1'',
     bf_cleared_replenishments_scaled = 900, bf_pending_transfers_scaled = 0, bf_statement_date = ''d''\<rparr>"

definition demo_adjust_env :: adjust_env where
  "demo_adjust_env = \<lparr>ad_analysis_uuid = ''0a'', ad_batch_uuid = ''0b'', ad_now = ''t1''\<rparr>"

theorem adjustment_settles_variance_witness:
  "\<exists>rr va b. reconcile (\<lambda>n. ''$'') 0 ''00'' ''t0'' (demo_count 3) demo_sf None = Inr rr \<and>
    analyze (\<lambda>n. ''$'') demo_adjust_env default_analyzer rr ''cash'' = Inr va \<and>
    va_adjustment_batch va = Some b \<and> expected_balance demo_sf + account_effect ''cash'' (tb_legs b) = 1000300"
proof -
  obtain rr where rr: "reconcile (\<lambda>n. ''$'') 0 ''00'' ''t0'' (demo_count 3) demo_sf None = Inr rr"
    by (simp add: reconcile_def demo_count_def demo_sf_def case_prod_unfold Let_def)
  have v: "rr_cash_variance_scaled rr = 300"
    using reconcile_variances(3) [OF rr]
    by (simp add: demo_count_def demo_sf_def denominations_total_def expected_balance_def)
  have "vz_auto_adjust_threshold_scaled default_analyzer \<le> vz_manager_threshold_scaled default_analyzer"
    "''cash'' \<noteq> vz_cash_over_short_account_id default_analyzer"
    by (simp_all add: default_analyzer_def)
  from adjustment_settles_variance [OF rr this, of "\<lambda>n. ''$''" demo_adjust_env] rr v show ?thesis
    by (auto simp: default_analyzer_def demo_count_def denominations_total_def split: option.splits)
qed

theorem bank_discrepancy_not_escalated_witness:
  "\<exists>rr. reconcile (\<lambda>n. ''$'') 0 ''00'' ''t0'' (demo_count 0) demo_sf (Some demo_feed) = Inr rr \<and>
    rr_status rr = DISCREPANCY_PENDING_AUDIT"
proof -
  have "cc_tenant_id (demo_count 0) = sf_tenant_id demo_sf" "bf_tenant_id demo_feed = cc_tenant_id (demo_count 0)"
    "denominations_total (cc_denominations (demo_count 0)) = expected_balance demo_sf"
    "(0::int) < \<bar>bf_cleared_replenishments_scaled demo_feed - sf_total_replenished_scaled demo_sf\<bar>"
    by (simp_all add: demo_count_def demo_sf_def demo_feed_def denominations_total_def expected_balance_def)
  from bank_discrepancy_not_escalated [OF this(1,2) order_refl this(3,4)] show ?thesis by blast
qed

end
