(* ===== verification/Risk_Scorer.thy ===== *)
theory Risk_Scorer
  imports Json
begin

text \<open>
  \<^verbatim>\<open>src/services/fraud/risk_scorer.py\<close>: the composite risk score of a transaction. The z-score of an
  amount against past amounts is float arithmetic: the parameter \<open>zscore_ops\<close> gives the value
  \<open>_compute_zscore\<close> returns, its comparison with the threshold and its texts. The dollar text is
  the parameter \<open>money\<close>.
\<close>

datatype risk_level = LOW | MEDIUM | HIGH | CRITICAL

fun risk_level_value :: "risk_level \<Rightarrow> string" where
  "risk_level_value LOW = ''LOW''"
| "risk_level_value MEDIUM = ''MEDIUM''"
| "risk_level_value HIGH = ''HIGH''"
| "risk_level_value CRITICAL = ''CRITICAL''"

definition score_to_level :: "int \<Rightarrow> risk_level" where
  "score_to_level score =
     (if score \<le> 20 then LOW else if score \<le> 49 then MEDIUM else if score \<le> 79 then HIGH else CRITICAL)"

definition WEIGHT_DUPLICATE :: int where "WEIGHT_DUPLICATE = 50"
definition WEIGHT_SPLIT :: int where "WEIGHT_SPLIT = 30"
definition WEIGHT_SMURFING :: int where "WEIGHT_SMURFING = 30"
definition WEIGHT_CATEGORY_ANOMALY :: int where "WEIGHT_CATEGORY_ANOMALY = 15"
definition WEIGHT_AMOUNT_ANOMALY :: int where "WEIGHT_AMOUNT_ANOMALY = 10"
definition WEIGHT_VELOCITY :: int where "WEIGHT_VELOCITY = 10"

record 'f risk_result =
  rk_transaction_id :: string
  rk_tenant_id :: string
  rk_custodian_id :: string
  rk_composite_score :: int
  rk_risk_level :: risk_level
  rk_duplicate_receipt_flag :: bool
  rk_duplicate_hamming_distance :: "int option"
  rk_split_transaction_flag :: bool
  rk_split_window_total_scaled :: "scaled option"
  rk_amount_anomaly_flag :: bool
  rk_amount_zscore :: "'f option"
  rk_velocity_flag :: bool
  rk_hourly_tx_count :: int
  rk_category_anomaly_flag :: bool
  rk_smurfing_flag :: bool
  rk_triggered_signals :: "string list"
  rk_evaluated_at :: string

definition is_blocked :: "('f, 'z) risk_result_scheme \<Rightarrow> bool" where
  "is_blocked r = (rk_risk_level r \<in> {HIGH, CRITICAL})"

record 'f zscore_ops =
  zo_compute :: "int \<Rightarrow> int list \<Rightarrow> 'f option"
  zo_anomalous :: "'f \<Rightarrow> bool"
  zo_text :: "'f \<Rightarrow> string"
  zo_json :: "'f \<Rightarrow> json"

definition json_int_opt :: "int option \<Rightarrow> json" where
  "json_int_opt n = (case n of None \<Rightarrow> JNull | Some i \<Rightarrow> JInt i)"

definition risk_to_dict :: "(scaled \<Rightarrow> string) \<Rightarrow> 'f zscore_ops \<Rightarrow> 'f risk_result \<Rightarrow> json" where
  "risk_to_dict money zo r = JDict
     [(''transaction_id'', JStr (rk_transaction_id r)), (''tenant_id'', JStr (rk_tenant_id r)),
      (''custodian_id'', JStr (rk_custodian_id r)), (''composite_score'', JInt (rk_composite_score r)),
      (''risk_level'', JStr (risk_level_value (rk_risk_level r))), (''is_blocked'', JBool (is_blocked r)),
      (''duplicate_receipt_flag'', JBool (rk_duplicate_receipt_flag r)),
      (''duplicate_hamming_distance'', json_int_opt (rk_duplicate_hamming_distance r)),
      (''split_transaction_flag'', JBool (rk_split_transaction_flag r)),
      (''split_window_total_formatted'', json_opt (map_option money (rk_split_window_total_scaled r))),
      (''amount_anomaly_flag'', JBool (rk_amount_anomaly_flag r)),
      (''amount_zscore'', case rk_amount_zscore r of None \<Rightarrow> JNull | Some z \<Rightarrow> zo_json zo z),
      (''velocity_flag'', JBool (rk_velocity_flag r)), (''hourly_tx_count'', JInt (rk_hourly_tx_count r)),
      (''category_anomaly_flag'', JBool (rk_category_anomaly_flag r)),
      (''smurfing_flag'', JBool (rk_smurfing_flag r)),
      (''triggered_signals'', JList (map JStr (rk_triggered_signals r))),
      (''evaluated_at'', JStr (rk_evaluated_at r))]"

record risk_scorer =
  rs_velocity_threshold :: int
  rs_duplicate_bit_threshold :: int

definition default_risk_scorer :: risk_scorer where
  "default_risk_scorer = \<lparr>rs_velocity_threshold = 3, rs_duplicate_bit_threshold = 5\<rparr>"

record risk_inputs =
  ri_transaction_id :: string
  ri_tenant_id :: string
  ri_custodian_id :: string
  ri_amount_scaled :: scaled
  ri_duplicate_hamming_distance :: "int option"
  ri_split_window_total_scaled :: "scaled option"
  ri_split_threshold_scaled :: "scaled option"
  ri_historical_amounts_scaled :: "int list"
  ri_hourly_tx_count :: int
  ri_category_anomaly :: bool
  ri_is_smurfing :: bool

text \<open>The conditions of the signals.\<close>

definition duplicate_signal :: "risk_scorer \<Rightarrow> risk_inputs \<Rightarrow> bool" where
  "duplicate_signal rs x = (case ri_duplicate_hamming_distance x of None \<Rightarrow> False
     | Some d \<Rightarrow> d \<le> rs_duplicate_bit_threshold rs)"

definition split_signal :: "risk_inputs \<Rightarrow> bool" where
  "split_signal x =
     (case (ri_split_window_total_scaled x, ri_split_threshold_scaled x) of
        (Some wtotal, Some threshold) \<Rightarrow> wtotal > threshold | _ \<Rightarrow> False)"

definition amount_zscore :: "'f zscore_ops \<Rightarrow> risk_inputs \<Rightarrow> 'f option" where
  "amount_zscore zo x =
     (if length (ri_historical_amounts_scaled x) \<ge> 2
      then zo_compute zo (ri_amount_scaled x) (ri_historical_amounts_scaled x) else None)"

definition amount_signal :: "'f zscore_ops \<Rightarrow> risk_inputs \<Rightarrow> bool" where
  "amount_signal zo x = (case amount_zscore zo x of None \<Rightarrow> False | Some z \<Rightarrow> zo_anomalous zo z)"

definition velocity_signal :: "risk_scorer \<Rightarrow> risk_inputs \<Rightarrow> bool" where
  "velocity_signal rs x = (ri_hourly_tx_count x > rs_velocity_threshold rs)"

text \<open>\<open>score\<close>: the raw score and the signal texts, in the order of the code.\<close>

definition score ::
  "(scaled \<Rightarrow> string) \<Rightarrow> 'f zscore_ops \<Rightarrow> string \<Rightarrow> risk_scorer \<Rightarrow> risk_inputs \<Rightarrow> 'f risk_result" where
  "score money zo now rs x =
     (let wtotal = (case ri_split_window_total_scaled x of None \<Rightarrow> 0 | Some t \<Rightarrow> t);
          duplicate = (if duplicate_signal rs x
            then (WEIGHT_DUPLICATE, [''DUPLICATE_RECEIPT(hamming='' @
              show_int (the (ri_duplicate_hamming_distance x)) @ '')'']) else (0, []));
          split = (if split_signal x
            then if ri_is_smurfing x
              then (WEIGHT_SMURFING, [''SMURFING_COLLUSION(window_total='' @ money wtotal @ '')''])
              else (WEIGHT_SPLIT, [''SPLIT_TRANSACTION(window_total='' @ money wtotal @ '')''])
            else (0, []));
          category = (if ri_category_anomaly x
            then (WEIGHT_CATEGORY_ANOMALY, [''MERCHANT_CATEGORY_ANOMALY'']) else (0, []));
          amount = (if amount_signal zo x
            then (WEIGHT_AMOUNT_ANOMALY, [''AMOUNT_ANOMALY(z='' @ zo_text zo (the (amount_zscore zo x)) @ '')''])
            else (0, []));
          velocity = (if velocity_signal rs x
            then (WEIGHT_VELOCITY, [''HIGH_VELOCITY(count='' @ show_int (ri_hourly_tx_count x) @ ''/hr)''])
            else (0, []));
          raw = fst duplicate + fst split + fst category + fst amount + fst velocity;
          composite = min raw 100
      in \<lparr>rk_transaction_id = ri_transaction_id x, rk_tenant_id = ri_tenant_id x,
          rk_custodian_id = ri_custodian_id x, rk_composite_score = composite,
          rk_risk_level = score_to_level composite,
          rk_duplicate_receipt_flag = duplicate_signal rs x,
          rk_duplicate_hamming_distance = ri_duplicate_hamming_distance x,
          rk_split_transaction_flag = split_signal x,
          rk_split_window_total_scaled = ri_split_window_total_scaled x,
          rk_amount_anomaly_flag = amount_signal zo x, rk_amount_zscore = amount_zscore zo x,
          rk_velocity_flag = velocity_signal rs x, rk_hourly_tx_count = ri_hourly_tx_count x,
          rk_category_anomaly_flag = ri_category_anomaly x, rk_smurfing_flag = ri_is_smurfing x,
          rk_triggered_signals = snd duplicate @ snd split @ snd category @ snd amount @ snd velocity,
          rk_evaluated_at = now\<rparr>)"

lemma fst_if: "fst (if b then p else q) = (if b then fst p else fst q)"
  by simp

lemma composite_score:
  "rk_composite_score (score money zo now rs x) =
     min ((if duplicate_signal rs x then 50 else 0) + (if split_signal x then 30 else 0) +
          (if ri_category_anomaly x then 15 else 0) + (if amount_signal zo x then 10 else 0) +
          (if velocity_signal rs x then 10 else 0)) 100"
  by (simp only: score_def Let_def risk_result.select_convs fst_if fst_conv WEIGHT_DUPLICATE_def WEIGHT_SPLIT_def
      WEIGHT_SMURFING_def WEIGHT_CATEGORY_ANOMALY_def WEIGHT_AMOUNT_ANOMALY_def WEIGHT_VELOCITY_def if_cancel)

lemma risk_level_score:
  "rk_risk_level (score money zo now rs x) = score_to_level (rk_composite_score (score money zo now rs x))"
  by (simp only: score_def Let_def risk_result.select_convs)

text \<open>C25. What the weights and bands amount to: a score lies between 0 and 100; a transaction is blocked
  exactly when its receipt is a duplicate, or it is part of a split and shows at least two of the
  category, amount and velocity signals; it is critical exactly when its receipt is a duplicate
  and it is part of a split or shows all three.\<close>

theorem risk_decision_table:
  "let r = score money zo now rs x; minor = length (filter id
     [ri_category_anomaly x, amount_signal zo x, velocity_signal rs x])
   in 0 \<le> rk_composite_score r \<and> rk_composite_score r \<le> 100 \<and>
      (is_blocked r \<longleftrightarrow> duplicate_signal rs x \<or> split_signal x \<and> 2 \<le> minor) \<and>
      (rk_risk_level r = CRITICAL \<longleftrightarrow> duplicate_signal rs x \<and> (split_signal x \<or> minor = 3))"
  unfolding Let_def is_blocked_def risk_level_score composite_score
  by (cases "duplicate_signal rs x"; cases "split_signal x"; cases "ri_category_anomaly x";
      cases "amount_signal zo x"; cases "velocity_signal rs x") (simp_all add: score_to_level_def)

end
