(* ===== verification/Perceptual_Hash.thy ===== *)
theory Perceptual_Hash
  imports Prelude "HOL-Library.Word"
begin

unbundle bit_operations_syntax

text \<open>
  \<^verbatim>\<open>src/services/fraud/perceptual_hash.py\<close>: the difference hash of a receipt image, the Hamming
  distance of two hashes and the detector of near-duplicate receipts. Decoding, greyscaling and
  resizing an image is Pillow's: the parameter \<open>decode\<close> gives the 9 times 8 grey values, or
  nothing for bytes that are no image. Hashes are Python integers; the counting loop is a partial
  function, since it would not end on a negative number.
\<close>

section \<open>The difference hash\<close>

definition DHASH_WIDTH :: nat where "DHASH_WIDTH = 9"
definition DHASH_HEIGHT :: nat where "DHASH_HEIGHT = 8"
definition DUPLICATE_BIT_THRESHOLD :: nat where "DUPLICATE_BIT_THRESHOLD = 5"

datatype hash_error = CannotDecode

text \<open>The body of the two loops, with the running bit index.\<close>

definition dhash_step :: "int list \<Rightarrow> nat \<times> nat \<Rightarrow> nat \<times> int \<Rightarrow> nat \<times> int" where
  "dhash_step pixels p state =
     (case p of (row, col) \<Rightarrow> case state of (bit_index, fingerprint) \<Rightarrow>
        (bit_index + 1,
         if pixels ! (row * DHASH_WIDTH + col) > pixels ! (row * DHASH_WIDTH + col + 1)
         then fingerprint OR push_bit bit_index 1 else fingerprint))"

definition dhash_cells :: "(nat \<times> nat) list" where
  "dhash_cells = concat (map (\<lambda>row. map (Pair row) [0..<DHASH_WIDTH - 1]) [0..<DHASH_HEIGHT])"

definition dhash_of_pixels :: "int list \<Rightarrow> int" where
  "dhash_of_pixels pixels = snd (fold (dhash_step pixels) dhash_cells (0, 0))"

definition compute_dhash :: "('b \<Rightarrow> int list option) \<Rightarrow> 'b \<Rightarrow> hash_error + int" where
  "compute_dhash decode content =
     (case decode content of None \<Rightarrow> Inl CannotDecode | Some pixels \<Rightarrow> Inr (dhash_of_pixels pixels))"

section \<open>The Hamming distance\<close>

text \<open>The loop that clears the lowest set bit until none is left.\<close>

partial_function (option) kernighan :: "int \<Rightarrow> nat \<Rightarrow> nat option" where
  "kernighan x count = (if x = 0 then Some count else kernighan (x AND (x - 1)) (count + 1))"

definition hamming_distance :: "int \<Rightarrow> int \<Rightarrow> nat option" where
  "hamming_distance a b = kernighan (a XOR b) 0"

definition is_duplicate :: "int \<Rightarrow> int \<Rightarrow> nat \<Rightarrow> bool option" where
  "is_duplicate a b threshold = map_option (\<lambda>d. d \<le> threshold) (hamming_distance a b)"

definition set_bits_of :: "int \<Rightarrow> nat set" where
  "set_bits_of x = {k. bit x k}"

lemma set_bits_double: "set_bits_of (2 * y) = Suc ` set_bits_of y"
  by (auto simp: set_bits_of_def bit_double_iff image_iff gr0_conv_Suc)

lemma bit_double_plus: "bit (2 * y + 1) k \<longleftrightarrow> k = 0 \<or> bit (y :: int) (k - 1)"
  using even_bit_succ_iff [of "2 * y" k] by (auto simp: add.commute bit_double_iff)

lemma set_bits_double_plus: "set_bits_of (2 * y + 1) = insert 0 (Suc ` set_bits_of y)"
  by (auto simp: set_bits_of_def bit_double_plus image_iff) (metis Suc_pred bot_nat_0.not_eq_extremum One_nat_def)

lemma half_cases:
  fixes x :: int
  assumes "0 < x"
  obtains (even) y where "x = 2 * y" "0 < y" "y < x" | (odd) y where "x = 2 * y + 1" "0 \<le> y" "y < x"
proof (cases "even x")
  case True
  then obtain y where "x = 2 * y" by blast
  with assms even [of y] show thesis by simp
next
  case False
  then obtain y where "x = 2 * y + 1" by (rule oddE)
  with assms odd [of y] show thesis by simp
qed

lemma finite_set_bits: "0 \<le> x \<Longrightarrow> finite (set_bits_of x)"
proof (induction "nat x" arbitrary: x rule: less_induct)
  case less
  show ?case
  proof (cases "x = 0")
    case True
    then show ?thesis by (simp add: set_bits_of_def)
  next
    case False
    with less.prems have "0 < x" by simp
    then show ?thesis
    proof (cases rule: half_cases)
      case (even y)
      with less.hyps [of y] show ?thesis by (simp add: set_bits_double)
    next
      case (odd y)
      with less.hyps [of y] show ?thesis by (simp add: set_bits_double_plus)
    qed
  qed
qed

text \<open>Clearing the lowest set bit takes one element off the set of bits.\<close>

lemma clear_lowest:
  assumes "0 < x"
  shows "0 \<le> x AND (x - 1) \<and> x AND (x - 1) < x \<and>
    Suc (card (set_bits_of (x AND (x - 1)))) = card (set_bits_of x)"
  using assms
proof (induction "nat x" arbitrary: x rule: less_induct)
  case less
  from less.prems show ?case
  proof (cases rule: half_cases)
    case (even y)
    have "x - 1 = 2 * (y - 1) + 1" using even by simp
    then have "bit (x - 1) k \<longleftrightarrow> k = 0 \<or> bit (y - 1) (k - 1)" for k by (simp only: bit_double_plus)
    then have a: "x AND (x - 1) = 2 * (y AND (y - 1))"
      using even by (intro bit_eqI) (auto simp: bit_and_iff bit_double_iff)
    have "0 \<le> y AND (y - 1) \<and> y AND (y - 1) < y \<and>
        Suc (card (set_bits_of (y AND (y - 1)))) = card (set_bits_of y)"
      using even by (intro less.hyps) auto
    then show ?thesis using even unfolding a by (simp add: set_bits_double card_image)
  next
    case (odd y)
    then have a: "x AND (x - 1) = 2 * y"
      by (intro bit_eqI) (auto simp: bit_and_iff bit_double_iff even_bit_succ_iff add.commute [of _ 1])
    have "finite (set_bits_of y)" using odd by (intro finite_set_bits) simp
    then show ?thesis using odd unfolding a by (simp add: set_bits_double set_bits_double_plus card_image)
  qed
qed

lemma kernighan_counts: "0 \<le> x \<Longrightarrow> kernighan x n = Some (n + card (set_bits_of x))"
proof (induction "nat x" arbitrary: x n rule: less_induct)
  case less
  show ?case
  proof (cases "x = 0")
    case True
    then show ?thesis by (simp add: kernighan.simps set_bits_of_def)
  next
    case False
    with less.prems have "0 < x" by simp
    note c = clear_lowest [OF this]
    then have "kernighan (x AND (x - 1)) (n + 1) = Some (n + 1 + card (set_bits_of (x AND (x - 1))))"
      using less.prems False by (intro less.hyps) auto
    moreover have "Suc (card (set_bits_of (x AND (x - 1)))) = card (set_bits_of x)" using c by blast
    ultimately show ?thesis using False by (subst kernighan.simps) simp
  qed
qed

lemma hamming_differing:
  "0 \<le> a \<Longrightarrow> 0 \<le> b \<Longrightarrow> hamming_distance a b = Some (card {k. bit a k \<noteq> bit b k})"
  using kernighan_counts [of "a XOR b" 0]
  by (simp add: hamming_distance_def set_bits_of_def bit_xor_iff)

section \<open>Duplicate receipts\<close>

record fingerprint_entry =
  fe_receipt_id :: string
  fe_tenant_id :: string
  fe_custodian_id :: string
  fe_fingerprint :: int
  fe_transaction_date :: string

record duplicate_flag =
  df_new_receipt_id :: string
  df_existing_receipt_id :: string
  df_hamming_distance :: nat
  df_is_duplicate :: bool

record duplicate_detector =
  dd_duplicate_threshold :: nat
  dd_store :: "string \<rightharpoonup> fingerprint_entry list"

definition new_duplicate_detector :: "nat \<Rightarrow> duplicate_detector" where
  "new_duplicate_detector threshold = \<lparr>dd_duplicate_threshold = threshold, dd_store = Map.empty\<rparr>"

definition receipts_of :: "duplicate_detector \<Rightarrow> string \<Rightarrow> fingerprint_entry list" where
  "receipts_of dd tenant = (case dd_store dd tenant of None \<Rightarrow> [] | Some es \<Rightarrow> es)"

text \<open>The loop over the receipts on file: the first one near enough, when every distance returns.\<close>

fun first_near :: "int \<Rightarrow> nat \<Rightarrow> fingerprint_entry list \<Rightarrow> (fingerprint_entry \<times> nat) option option" where
  "first_near fp threshold [] = Some None"
| "first_near fp threshold (e # es) =
     (case hamming_distance fp (fe_fingerprint e) of
        None \<Rightarrow> None
      | Some d \<Rightarrow> if d \<le> threshold then Some (Some (e, d)) else first_near fp threshold es)"

record 'b receipt =
  rc_tenant_id :: string
  rc_receipt_id :: string
  rc_custodian_id :: string
  rc_image_bytes :: 'b
  rc_transaction_date :: string

text \<open>\<open>register\<close>: the outcome is \<open>None\<close> when a distance does not return.\<close>

definition register ::
  "('b \<Rightarrow> int list option) \<Rightarrow> 'b receipt \<Rightarrow> duplicate_detector \<Rightarrow>
   (hash_error + duplicate_flag option) option \<times> duplicate_detector" where
  "register decode rc dd =
     (case compute_dhash decode (rc_image_bytes rc) of
        Inl e \<Rightarrow> (Some (Inl e), dd)
      | Inr fp \<Rightarrow>
        (let entries = receipts_of dd (rc_tenant_id rc);
             dd' = dd\<lparr>dd_store := (dd_store dd)(rc_tenant_id rc \<mapsto> entries @
               [\<lparr>fe_receipt_id = rc_receipt_id rc, fe_tenant_id = rc_tenant_id rc,
                 fe_custodian_id = rc_custodian_id rc, fe_fingerprint = fp,
                 fe_transaction_date = rc_transaction_date rc\<rparr>])\<rparr>
         in case first_near fp (dd_duplicate_threshold dd) entries of
              None \<Rightarrow> (None, dd)
            | Some None \<Rightarrow> (Some (Inr None), dd')
            | Some (Some (existing, d)) \<Rightarrow>
                (Some (Inr (Some \<lparr>df_new_receipt_id = rc_receipt_id rc,
                   df_existing_receipt_id = fe_receipt_id existing, df_hamming_distance = d,
                   df_is_duplicate = True\<rparr>)), dd')))"

definition receipt_count :: "duplicate_detector \<Rightarrow> string \<Rightarrow> nat" where
  "receipt_count dd tenant = length (receipts_of dd tenant)"

definition clear_receipts :: "string \<Rightarrow> duplicate_detector \<Rightarrow> duplicate_detector" where
  "clear_receipts tenant dd = dd\<lparr>dd_store := (dd_store dd)(tenant := None)\<rparr>"

section \<open>The bits of a hash\<close>

text \<open>Cell \<open>k\<close> of the 8 by 8 grid compares a pixel with its right neighbour.\<close>

definition brighter_left :: "int list \<Rightarrow> nat \<Rightarrow> bool" where
  "brighter_left pixels k \<longleftrightarrow> pixels ! (k div 8 * 9 + k mod 8) > pixels ! (k div 8 * 9 + k mod 8 + 1)"

definition cell_bit :: "int list \<Rightarrow> nat \<times> nat \<Rightarrow> bool" where
  "cell_bit pixels p = (case p of (row, col) \<Rightarrow>
     pixels ! (row * DHASH_WIDTH + col) > pixels ! (row * DHASH_WIDTH + col + 1))"

lemma dhash_step_cell:
  "dhash_step pixels p (n, fp) = (n + 1, if cell_bit pixels p then fp OR push_bit n 1 else fp)"
  by (simp add: dhash_step_def cell_bit_def split: prod.split)

lemma bit_set_one: "bit (fp OR push_bit n 1) k \<longleftrightarrow> bit (fp :: int) k \<or> k = n"
  by (auto simp: bit_or_iff bit_exp_iff)

lemma fold_dhash_step:
  "bit (snd (fold (dhash_step pixels) cells (n, fp))) k \<longleftrightarrow>
     bit fp k \<or> n \<le> k \<and> k < n + length cells \<and> cell_bit pixels (cells ! (k - n))"
proof (induction cells arbitrary: n fp)
  case (Cons c cells)
  have "n \<le> k \<and> k < n + length (c # cells) \<and> cell_bit pixels ((c # cells) ! (k - n)) \<longleftrightarrow>
      k = n \<and> cell_bit pixels c \<or>
      n + 1 \<le> k \<and> k < n + 1 + length cells \<and> cell_bit pixels (cells ! (k - (n + 1)))"
  proof (cases "k \<le> n")
    case False
    then obtain j where "k = n + 1 + j" using nat_le_iff_add [of "n + 1" k] by auto
    then show ?thesis by simp
  qed (auto simp: nth_Cons')
  then show ?case using Cons [of "n + 1"] by (auto simp: dhash_step_cell bit_set_one simp del: push_bit_of_1)
qed auto

lemma dhash_cells_eq: "dhash_cells = map (\<lambda>k. (k div 8, k mod 8)) [0..<64]"
  by code_simp

lemma bit_dhash: "bit (dhash_of_pixels pixels) k \<longleftrightarrow> k < 64 \<and> brighter_left pixels k"
  by (auto simp: dhash_of_pixels_def fold_dhash_step dhash_cells_eq brighter_left_def cell_bit_def DHASH_WIDTH_def)

lemma fold_dhash_nonneg: "0 \<le> fp \<Longrightarrow> 0 \<le> snd (fold (dhash_step pixels) cells (n, fp))"
  by (induction cells arbitrary: n fp) (auto simp: dhash_step_cell)

lemma dhash_nonneg: "0 \<le> dhash_of_pixels pixels"
  by (simp add: dhash_of_pixels_def fold_dhash_nonneg)

text \<open>The number of cells at which two images differ.\<close>

definition differing_cells :: "int list \<Rightarrow> int list \<Rightarrow> nat" where
  "differing_cells p q = card {k. k < 64 \<and> brighter_left p k \<noteq> brighter_left q k}"

lemma hamming_images:
  "hamming_distance (dhash_of_pixels p) (dhash_of_pixels q) = Some (differing_cells p q)"
proof -
  have "{k. bit (dhash_of_pixels p) k \<noteq> bit (dhash_of_pixels q) k} =
      {k. k < 64 \<and> brighter_left p k \<noteq> brighter_left q k}"
    by (auto simp: bit_dhash)
  then show ?thesis by (simp add: hamming_differing dhash_nonneg differing_cells_def)
qed

text \<open>C23. The bit-counting loop returns on every pair of image hashes, and its result is the number of
  positions where the hashes differ, at most 64: the number of grid cells at which the two images
  differ in which of two neighbouring pixels is brighter. It is a metric on the hashes.\<close>

theorem hamming_counts_differing_cells:
  "hamming_distance (dhash_of_pixels p) (dhash_of_pixels q) = Some (differing_cells p q) \<and>
   differing_cells p q \<le> 64 \<and> differing_cells p q = differing_cells q p \<and>
   (differing_cells p q = 0 \<longleftrightarrow> dhash_of_pixels p = dhash_of_pixels q) \<and>
   differing_cells p r \<le> differing_cells p q + differing_cells q r"
proof -
  let ?D = "\<lambda>p q. {k. k < 64 \<and> brighter_left p k \<noteq> brighter_left q k}"
  have fin: "finite (?D p q)" for p q by simp
  have "card (?D p q) \<le> card {..<64::nat}" by (rule card_mono) auto
  moreover have "?D q p = {} \<longleftrightarrow> dhash_of_pixels p = dhash_of_pixels q"
    by (auto simp: bit_eq_iff bit_dhash)
  moreover have "card (?D p r) \<le> card (?D p q \<union> ?D q r)" by (rule card_mono) auto
  moreover have "card (?D p q \<union> ?D q r) \<le> card (?D p q) + card (?D q r)" by (rule card_Un_le)
  moreover have "?D p q = ?D q p" by auto
  ultimately show ?thesis
    using fin [of p q] by (simp add: hamming_images differing_cells_def)
qed

section \<open>Registrations\<close>

definition registered ::
  "('b \<Rightarrow> int list option) \<Rightarrow> duplicate_detector \<Rightarrow> 'b receipt list \<Rightarrow> duplicate_detector" where
  "registered decode = foldl (\<lambda>dd rc. snd (register decode rc dd))"

text \<open>The images on file for a tenant: its registered receipts that decode.\<close>

definition images_of ::
  "('b \<Rightarrow> int list option) \<Rightarrow> 'b receipt list \<Rightarrow> string \<Rightarrow> (string \<times> int list) list" where
  "images_of decode rcs t = map (\<lambda>rc. (rc_receipt_id rc, the (decode (rc_image_bytes rc))))
     (filter (\<lambda>rc. rc_tenant_id rc = t \<and> decode (rc_image_bytes rc) \<noteq> None) rcs)"

lemma first_near_images:
  assumes "map (\<lambda>e. (fe_receipt_id e, fe_fingerprint e)) es = map (\<lambda>(i, p). (i, dhash_of_pixels p)) ps"
  shows "map_option (map_option (\<lambda>(e, d). (fe_receipt_id e, d))) (first_near (dhash_of_pixels q) th es) =
    Some (map_option (\<lambda>(i, p). (i, differing_cells q p)) (find (\<lambda>(i, p). differing_cells q p \<le> th) ps))"
  using assms
proof (induction es arbitrary: ps)
  case (Cons e es)
  then obtain i p ps' where ps: "ps = (i, p) # ps'" "fe_receipt_id e = i" "fe_fingerprint e = dhash_of_pixels p"
    "map (\<lambda>e. (fe_receipt_id e, fe_fingerprint e)) es = map (\<lambda>(i, p). (i, dhash_of_pixels p)) ps'"
    by (cases ps) auto
  with Cons.IH show ?case by (simp add: hamming_images)
qed simp

definition on_file :: "duplicate_detector \<Rightarrow> string \<Rightarrow> (string \<times> int) list" where
  "on_file dd t = map (\<lambda>e. (fe_receipt_id e, fe_fingerprint e)) (receipts_of dd t)"

lemma register_on_file:
  assumes "on_file dd (rc_tenant_id rc) = map (\<lambda>(i, p). (i, dhash_of_pixels p)) ps"
  shows "on_file (snd (register decode rc dd)) t = on_file dd t @
      (if t = rc_tenant_id rc then
         case decode (rc_image_bytes rc) of None \<Rightarrow> [] | Some p \<Rightarrow> [(rc_receipt_id rc, dhash_of_pixels p)]
       else [])"
    "dd_duplicate_threshold (snd (register decode rc dd)) = dd_duplicate_threshold dd"
proof -
  obtain y where "first_near (dhash_of_pixels (the (decode (rc_image_bytes rc))))
      (dd_duplicate_threshold dd) (receipts_of dd (rc_tenant_id rc)) = Some y"
    using first_near_images [OF assms [unfolded on_file_def], of "the (decode (rc_image_bytes rc))"
      "dd_duplicate_threshold dd"] by force
  then show "on_file (snd (register decode rc dd)) t = on_file dd t @
      (if t = rc_tenant_id rc then
         case decode (rc_image_bytes rc) of None \<Rightarrow> [] | Some p \<Rightarrow> [(rc_receipt_id rc, dhash_of_pixels p)]
       else [])"
    "dd_duplicate_threshold (snd (register decode rc dd)) = dd_duplicate_threshold dd"
    by (auto simp: register_def compute_dhash_def on_file_def receipts_of_def Let_def
        split: option.splits)
qed

lemma registered_on_file:
  "on_file (registered decode (new_duplicate_detector th) rcs) t =
     map (\<lambda>(i, p). (i, dhash_of_pixels p)) (images_of decode rcs t) \<and>
   dd_duplicate_threshold (registered decode (new_duplicate_detector th) rcs) = th"
proof (induction rcs arbitrary: t rule: rev_induct)
  case Nil
  then show ?case
    by (simp add: registered_def new_duplicate_detector_def on_file_def receipts_of_def images_of_def)
next
  case (snoc rc rcs)
  let ?dd = "registered decode (new_duplicate_detector th) rcs"
  from snoc have ih: "on_file ?dd t' =
      map (\<lambda>(i, p). (i, dhash_of_pixels p)) (images_of decode rcs t')" for t' by blast
  show ?case
    using register_on_file(1) [of ?dd rc "images_of decode rcs (rc_tenant_id rc)" decode t, OF ih]
      register_on_file(2) [of ?dd rc "images_of decode rcs (rc_tenant_id rc)" decode, OF ih] snoc ih [of t]
    by (auto simp: registered_def images_of_def split: option.splits)
qed

text \<open>C24. Registration always returns, and flags exactly the near duplicates of its own tenant: after any
  registrations, an image that decodes is reported with the first receipt of the tenant that
  differs from it in at most the threshold number of grid cells, and with that number, or not
  at all when there is none; an image that does not decode raises and is not filed.\<close>

theorem duplicates_flagged_exactly:
  "fst (register decode rc (registered decode (new_duplicate_detector th) rcs)) =
     Some (case decode (rc_image_bytes rc) of
       None \<Rightarrow> Inl CannotDecode
     | Some q \<Rightarrow> Inr (map_option (\<lambda>(i, p).
         \<lparr>df_new_receipt_id = rc_receipt_id rc, df_existing_receipt_id = i,
          df_hamming_distance = differing_cells q p, df_is_duplicate = True\<rparr>)
         (find (\<lambda>(i, p). differing_cells q p \<le> th) (images_of decode rcs (rc_tenant_id rc)))))"
proof (cases "decode (rc_image_bytes rc)")
  case None
  then show ?thesis by (simp add: register_def compute_dhash_def)
next
  case (Some q)
  let ?dd = "registered decode (new_duplicate_detector th) rcs"
  have "map (\<lambda>e. (fe_receipt_id e, fe_fingerprint e)) (receipts_of ?dd (rc_tenant_id rc)) =
      map (\<lambda>(i, p). (i, dhash_of_pixels p)) (images_of decode rcs (rc_tenant_id rc))"
    using registered_on_file [of decode th rcs "rc_tenant_id rc"] by (simp add: on_file_def)
  from first_near_images [OF this, of q th] Some show ?thesis
    using registered_on_file [of decode th rcs]
    by (auto simp: register_def compute_dhash_def Let_def map_option_case split: option.splits)
qed

end
