(* ===== verification/Sliding_Window.thy ===== *)
theory Sliding_Window
  imports Prelude
begin

text \<open>
  The contract of a rolling time window: eviction drops leading events older than the window
  before the reference time. The velocity and the split-transaction detectors interpret it with
  their eviction loops; that a window fed in chronological order holds exactly the recent events
  is proved here once.
\<close>

locale sliding_window =
  fixes evict :: "int \<Rightarrow> time \<Rightarrow> 'e list \<Rightarrow> 'e list"
    and stamp :: "'e \<Rightarrow> time"
  assumes evict_eq: "evict width now w = dropWhile (\<lambda>e. stamp e < now - width) w"
begin

definition push :: "int \<Rightarrow> 'e list \<Rightarrow> 'e \<Rightarrow> 'e list" where
  "push width w e = evict width (stamp e) w @ [e]"

definition recent :: "int \<Rightarrow> time \<Rightarrow> 'e list \<Rightarrow> 'e list" where
  "recent width now es = filter (\<lambda>e. now - width \<le> stamp e) es"

lemma evict_sorted: "sorted (map stamp w) \<Longrightarrow> evict width now w = recent width now w"
  by (simp add: evict_eq recent_def dropWhile_sorted_filter)

lemma recent_recent: "now \<le> now' \<Longrightarrow> recent width now' (recent width now es) = recent width now' es"
  by (auto simp: recent_def intro!: filter_cong)

lemma sorted_recent: "sorted (map stamp es) \<Longrightarrow> sorted (map stamp (recent width now es))"
  unfolding recent_def by (rule sorted_filter)

lemma push_recent:
  assumes "sorted (map stamp (es @ [e]))" "now \<le> stamp e" "0 \<le> width"
  shows "push width (recent width now es) e = recent width (stamp e) (es @ [e])"
proof -
  have "sorted (map stamp es)" using assms(1) by (simp add: sorted_append)
  then have "evict width (stamp e) (recent width now es) = recent width (stamp e) es"
    by (simp add: evict_sorted sorted_recent recent_recent assms(2))
  with assms(3) show ?thesis by (simp add: push_def recent_def)
qed

text \<open>The state of a window as a chronological stream leaves it.\<close>

lemma foldl_push:
  assumes "sorted (map stamp es)" "0 \<le> width" "es \<noteq> []"
  shows "foldl (push width) [] es = recent width (stamp (last es)) es"
  using assms(1,3)
proof (induction es rule: rev_induct)
  case (snoc e es)
  show ?case
  proof (cases "es = []")
    case True
    with assms(2) show ?thesis by (simp add: push_def recent_def) (simp add: evict_eq)
  next
    case False
    moreover have "sorted (map stamp es)" using snoc.prems(1) by (simp add: sorted_append)
    moreover have "stamp (last es) \<le> stamp e"
      using snoc.prems(1) False by (simp add: sorted_append)
    ultimately show ?thesis using snoc push_recent assms(2) by simp
  qed
qed simp

end

end
