(* ===== verification/Velocity.thy ===== *)
theory Velocity
  imports Sliding_Window Json
begin

text \<open>
  \<^verbatim>\<open>src/services/fraud/velocity_detector.py\<close>: the number of disbursements of one custodian within a
  rolling window. A time stamp is a number of microseconds; the dollar text and the ISO text of
  \<open>to_dict\<close> are the parameters \<open>money\<close> and \<open>iso_text\<close>.
\<close>

section \<open>Data\<close>

definition DEFAULT_MAX_HOURLY_DISBURSEMENTS :: int where
  "DEFAULT_MAX_HOURLY_DISBURSEMENTS = 3"

definition DEFAULT_VELOCITY_WINDOW_SECONDS :: int where
  "DEFAULT_VELOCITY_WINDOW_SECONDS = 3600"

record disbursement =
  di_transaction_id :: string
  di_tenant_id :: string
  di_custodian_id :: string
  di_amount_scaled :: scaled
  di_timestamp :: time

record velocity_alert =
  vl_tenant_id :: string
  vl_custodian_id :: string
  vl_transaction_id :: string
  vl_hourly_count :: int
  vl_max_allowed :: int
  vl_window_seconds :: int
  vl_window_total_scaled :: scaled
  vl_transaction_ids :: "string list"
  vl_timestamp :: time
  vl_alert_code :: string
  vl_reason :: string

record velocity_detector =
  vd_max_per_hour :: int
  vd_window_seconds :: int
  vd_windows :: "string \<times> string \<rightharpoonup> disbursement list"

datatype velocity_error = MaxNotPositive

definition new_velocity_detector :: "int \<Rightarrow> int \<Rightarrow> velocity_error + velocity_detector" where
  "new_velocity_detector m w =
     (if m \<le> 0 then Inl MaxNotPositive
      else Inr \<lparr>vd_max_per_hour = m, vd_window_seconds = w, vd_windows = Map.empty\<rparr>)"

definition velocity_reason :: "string \<Rightarrow> int \<Rightarrow> int \<Rightarrow> string" where
  "velocity_reason custodian n m = ''Custodian '' @ custodian @ '' exceeded disbursement velocity threshold: '' @
     show_int n @ '' transactions in 1 hour (limit: '' @ show_int m @ '')''"

definition velocity_to_dict :: "(scaled \<Rightarrow> string) \<Rightarrow> (time \<Rightarrow> string) \<Rightarrow> velocity_alert \<Rightarrow> json" where
  "velocity_to_dict money iso_text a = JDict
     [(''alert_code'', JStr (vl_alert_code a)), (''tenant_id'', JStr (vl_tenant_id a)),
      (''custodian_id'', JStr (vl_custodian_id a)), (''transaction_id'', JStr (vl_transaction_id a)),
      (''hourly_count'', JInt (vl_hourly_count a)), (''max_allowed'', JInt (vl_max_allowed a)),
      (''window_seconds'', JInt (vl_window_seconds a)),
      (''window_total_scaled'', JInt (vl_window_total_scaled a)),
      (''window_total_formatted'', JStr (money (vl_window_total_scaled a))),
      (''transaction_ids'', JList (map JStr (vl_transaction_ids a))),
      (''timestamp'', JStr (iso_text (vl_timestamp a))), (''reason'', JStr (vl_reason a))]"

section \<open>Operations\<close>

text \<open>The loop of \<open>_evict_expired\<close>, for a window width in microseconds.\<close>

fun velocity_evict :: "int \<Rightarrow> time \<Rightarrow> disbursement list \<Rightarrow> disbursement list" where
  "velocity_evict width now [] = []"
| "velocity_evict width now (r # w) =
     (if di_timestamp r < now - width then velocity_evict width now w else r # w)"

definition width_of :: "velocity_detector \<Rightarrow> int" where
  "width_of vd = vd_window_seconds vd * 1000000"

definition window_of :: "velocity_detector \<Rightarrow> string \<times> string \<Rightarrow> disbursement list" where
  "window_of vd key = (case vd_windows vd key of None \<Rightarrow> [] | Some w \<Rightarrow> w)"

definition velocity_check ::
  "string \<Rightarrow> string \<Rightarrow> string \<Rightarrow> scaled \<Rightarrow> time \<Rightarrow> velocity_detector \<Rightarrow>
   velocity_alert option \<times> velocity_detector" where
  "velocity_check tenant custodian tx amount ts vd =
     (let window = velocity_evict (width_of vd) ts (window_of vd (tenant, custodian)) @
            [\<lparr>di_transaction_id = tx, di_tenant_id = tenant, di_custodian_id = custodian,
              di_amount_scaled = amount, di_timestamp = ts\<rparr>];
          vd' = vd\<lparr>vd_windows := (vd_windows vd)((tenant, custodian) \<mapsto> window)\<rparr>;
          n = int (length window)
      in if n > vd_max_per_hour vd then
           (Some \<lparr>vl_tenant_id = tenant, vl_custodian_id = custodian, vl_transaction_id = tx,
              vl_hourly_count = n, vl_max_allowed = vd_max_per_hour vd,
              vl_window_seconds = vd_window_seconds vd,
              vl_window_total_scaled = sum_list (map di_amount_scaled window),
              vl_transaction_ids = map di_transaction_id window, vl_timestamp = ts,
              vl_alert_code = ''VELOCITY_ANOMALY_DETECTED'',
              vl_reason = velocity_reason custodian n (vd_max_per_hour vd)\<rparr>, vd')
         else (None, vd'))"

text \<open>The two readings evict when a reference time is given, and return 0 for an unknown key.\<close>

definition velocity_read ::
  "(disbursement list \<Rightarrow> int) \<Rightarrow> string \<Rightarrow> string \<Rightarrow> time option \<Rightarrow> velocity_detector \<Rightarrow> int \<times> velocity_detector" where
  "velocity_read f tenant custodian reference vd =
     (if window_of vd (tenant, custodian) = [] then (0, vd)
      else case reference of
        None \<Rightarrow> (f (window_of vd (tenant, custodian)), vd)
      | Some now \<Rightarrow>
          (let w = velocity_evict (width_of vd) now (window_of vd (tenant, custodian))
           in (f w, vd\<lparr>vd_windows := (vd_windows vd)((tenant, custodian) \<mapsto> w)\<rparr>)))"

definition get_hourly_count ::
  "string \<Rightarrow> string \<Rightarrow> time option \<Rightarrow> velocity_detector \<Rightarrow> int \<times> velocity_detector" where
  "get_hourly_count = velocity_read (\<lambda>w. int (length w))"

definition get_hourly_total_scaled ::
  "string \<Rightarrow> string \<Rightarrow> time option \<Rightarrow> velocity_detector \<Rightarrow> int \<times> velocity_detector" where
  "get_hourly_total_scaled = velocity_read (\<lambda>w. sum_list (map di_amount_scaled w))"

definition velocity_clear :: "string \<Rightarrow> string \<Rightarrow> velocity_detector \<Rightarrow> velocity_detector" where
  "velocity_clear tenant custodian vd =
     vd\<lparr>vd_windows := (vd_windows vd)((tenant, custodian) := None)\<rparr>"

section \<open>The window holds the recent disbursements\<close>

interpretation velocity_window: sliding_window velocity_evict di_timestamp
proof unfold_locales
  show "velocity_evict width now w = dropWhile (\<lambda>e. di_timestamp e < now - width) w" for width now w
    by (induction w) auto
qed

definition record_disbursement :: "velocity_detector \<Rightarrow> disbursement \<Rightarrow> velocity_detector" where
  "record_disbursement vd d = snd (velocity_check (di_tenant_id d) (di_custodian_id d)
     (di_transaction_id d) (di_amount_scaled d) (di_timestamp d) vd)"

definition owner :: "disbursement \<Rightarrow> string \<times> string" where
  "owner d = (di_tenant_id d, di_custodian_id d)"

lemma record_disbursement_window:
  "window_of (record_disbursement vd d) k =
     (if k = owner d then velocity_window.push (width_of vd) (window_of vd k) d else window_of vd k)"
  "width_of (record_disbursement vd d) = width_of vd"
  "vd_max_per_hour (record_disbursement vd d) = vd_max_per_hour vd"
  by (auto simp: record_disbursement_def velocity_check_def window_of_def width_of_def owner_def
      velocity_window.push_def Let_def)

lemma record_all_window:
  "window_of (foldl record_disbursement vd ds) k =
     foldl (velocity_window.push (width_of vd)) (window_of vd k) (filter (\<lambda>d. owner d = k) ds) \<and>
   width_of (foldl record_disbursement vd ds) = width_of vd \<and>
   vd_max_per_hour (foldl record_disbursement vd ds) = vd_max_per_hour vd"
  by (induction ds rule: rev_induct) (auto simp: record_disbursement_window)

text \<open>The disbursements of one custodian that count at the time of the last of them.\<close>

definition counted :: "velocity_detector \<Rightarrow> disbursement list \<Rightarrow> disbursement \<Rightarrow> disbursement list" where
  "counted vd ds d = filter (\<lambda>x. owner x = owner d \<and> di_timestamp d - width_of vd \<le> di_timestamp x) (ds @ [d])"

text \<open>C21. On a chronological stream of any tenants and custodians, a disbursement raises the alert
  exactly when its custodian has made more than the allowed number within the window that ends
  with it, and the alert carries their number, ids and sum.\<close>

theorem velocity_alert_exact:
  assumes "new_velocity_detector m w = Inr vd" "0 \<le> w" "sorted (map di_timestamp (ds @ [d]))"
  shows "map_option (\<lambda>a. (vl_hourly_count a, vl_transaction_ids a, vl_window_total_scaled a))
      (fst (velocity_check (di_tenant_id d) (di_custodian_id d) (di_transaction_id d)
        (di_amount_scaled d) (di_timestamp d) (foldl record_disbursement vd ds))) =
    (let c = counted vd ds d
     in if m < int (length c) then Some (int (length c), map di_transaction_id c, sum_list (map di_amount_scaled c))
        else None)"
proof -
  let ?vd = "foldl record_disbursement vd ds" and ?own = "filter (\<lambda>x. owner x = owner d) (ds @ [d])"
  have vd: "vd_max_per_hour vd = m" "window_of vd k = []" "0 \<le> width_of vd" for k
    using assms(1,2) by (auto simp: new_velocity_detector_def window_of_def width_of_def split: if_splits)
  have "sorted (map di_timestamp ?own)" using assms(3) by (rule sorted_filter)
  then have "foldl (velocity_window.push (width_of vd)) [] ?own =
      velocity_window.recent (width_of vd) (di_timestamp (last ?own)) ?own"
    by (rule velocity_window.foldl_push) (simp_all add: vd)
  then have "velocity_window.push (width_of vd) (window_of ?vd (owner d)) d = counted vd ds d"
    by (simp add: record_all_window vd velocity_window.recent_def counted_def conj_commute flip: filter_filter)
  then have "counted vd ds d = velocity_evict (width_of ?vd) (di_timestamp d) (window_of ?vd (owner d)) @ [d]"
    by (simp add: record_all_window velocity_window.push_def)
  moreover have "\<lparr>di_transaction_id = di_transaction_id d, di_tenant_id = di_tenant_id d,
      di_custodian_id = di_custodian_id d, di_amount_scaled = di_amount_scaled d, di_timestamp = di_timestamp d\<rparr> = d"
    by simp
  moreover have "vd_max_per_hour ?vd = m" by (simp add: record_all_window vd)
  ultimately show ?thesis by (simp add: velocity_check_def owner_def Let_def)
qed

definition demo_disbursement :: "string \<Rightarrow> time \<Rightarrow> disbursement" where
  "demo_disbursement tx ts = \<lparr>di_transaction_id = tx, di_tenant_id = ''acme'', di_custodian_id = ''c1'',
     di_amount_scaled = 10, di_timestamp = ts\<rparr>"

theorem velocity_alert_exact_witness:
  "\<exists>vd. new_velocity_detector 1 2 = Inr vd \<and>
     map_option vl_hourly_count (fst (velocity_check ''acme'' ''c1'' ''t2'' 10 2000000
       (foldl record_disbursement vd [demo_disbursement ''t1'' 0]))) = Some 2"
proof -
  obtain vd where vd: "new_velocity_detector 1 2 = Inr vd" "width_of vd = 2000000"
    by (simp add: new_velocity_detector_def width_of_def)
  have "sorted (map di_timestamp ([demo_disbursement ''t1'' 0] @ [demo_disbursement ''t2'' 2000000]))"
    by (simp add: demo_disbursement_def)
  from velocity_alert_exact [OF vd(1) _ this] vd show ?thesis
    by (auto simp: demo_disbursement_def counted_def owner_def Let_def map_option_case split: option.splits)
qed

end
