(* ===== verification/Component_Search.thy ===== *)
theory Component_Search
  imports Prelude
begin

text \<open>
  Breadth first search over adjacency lists with labelled edges, as the graph clustering of the
  split-transaction detector runs it: the queue it appends to is the component, and the labels it
  passes are collected. The search ends because every appended node is a new one among the finitely
  many neighbours; the components it finds are the connected components of a symmetric graph.
\<close>

section \<open>The search\<close>

type_synonym 'r adjacency = "(nat \<times> 'r) list list"

definition neighbours :: "'r adjacency \<Rightarrow> nat \<Rightarrow> (nat \<times> 'r) list" where
  "neighbours adj c = (if c < length adj then adj ! c else [])"

text \<open>One pass over the neighbours of a node: the newly queued ones, the visited set, the labels.\<close>

fun visit :: "(nat \<times> 'r) list \<Rightarrow> nat set \<Rightarrow> 'r list \<Rightarrow> nat list \<times> nat set \<times> 'r list" where
  "visit [] seen labels = ([], seen, labels)"
| "visit ((j, r) # ns) seen labels =
     (if j \<in> seen then visit ns seen (labels @ [r])
      else case visit ns (insert j seen) (labels @ [r]) of (new, seen', labels') \<Rightarrow> (j # new, seen', labels'))"

lemma visit_spec:
  "visit ns seen labels = (new, seen', labels') \<Longrightarrow>
     distinct new \<and> set new = {j. \<exists>r. (j, r) \<in> set ns} - seen \<and> seen' = seen \<union> set new"
proof (induction ns seen labels arbitrary: new seen' labels' rule: visit.induct)
  case (2 j r ns seen labels)
  show ?case
  proof (cases "j \<in> seen")
    case True
    with 2 show ?thesis by auto
  next
    case False
    obtain n s l where v: "visit ns (insert j seen) (labels @ [r]) = (n, s, l)" by (metis prod_cases3)
    with "2.IH"(2) [OF False v] "2.prems" False show ?thesis by auto
  qed
qed simp

definition reachable_nodes :: "'r adjacency \<Rightarrow> nat set" where
  "reachable_nodes adj = (\<Union>ns \<in> set adj. fst ` set ns)"

lemma finite_reachable_nodes [simp]: "finite (reachable_nodes adj)"
  by (simp add: reachable_nodes_def)

lemma neighbours_reachable: "(j, r) \<in> set (neighbours adj c) \<Longrightarrow> j \<in> reachable_nodes adj"
  unfolding reachable_nodes_def neighbours_def
  by (rule UN_I [of "adj ! c"]) (auto split: if_splits intro: rev_image_eqI)

function bfs :: "'r adjacency \<Rightarrow> nat list \<Rightarrow> nat list \<Rightarrow> nat set \<Rightarrow> 'r list \<Rightarrow> nat list \<times> nat set \<times> 'r list" where
  "bfs adj [] component seen labels = (component, seen, labels)"
| "bfs adj (c # queue) component seen labels =
     (case visit (neighbours adj c) seen labels of
        (new, seen', labels') \<Rightarrow> bfs adj (queue @ new) (component @ [c]) seen' labels')"
  by pat_completeness auto
termination
proof (relation "inv_image (less_than <*lex*> less_than)
    (\<lambda>(adj, queue, component, seen, labels). (card (reachable_nodes adj - seen), length queue))")
  fix adj :: "'r adjacency" and c queue component seen labels y new seen' labels'
  assume "(new, y) = visit (neighbours adj c) seen labels" "(seen', labels') = y"
  then have v: "set new = {j. \<exists>r. (j, r) \<in> set (neighbours adj c)} - seen" "seen' = seen \<union> set new"
    using visit_spec [of "neighbours adj c" seen labels new seen' labels'] by auto
  show "((adj, queue @ new, component @ [c], seen', labels'), adj, c # queue, component, seen, labels)
      \<in> inv_image (less_than <*lex*> less_than)
          (\<lambda>(adj, queue, component, seen, labels). (card (reachable_nodes adj - seen), length queue))"
  proof (cases "new = []")
    case True
    with v show ?thesis by simp
  next
    case False
    then obtain x where "x \<in> set new" by (cases new) auto
    moreover have "set new \<subseteq> reachable_nodes adj - seen" using neighbours_reachable v(1) by fast
    ultimately have "reachable_nodes adj - seen' \<subset> reachable_nodes adj - seen"
      unfolding v(2) by blast
    then have "card (reachable_nodes adj - seen') < card (reachable_nodes adj - seen)"
      by (intro psubset_card_mono) auto
    then show ?thesis by simp
  qed
qed (intro wf_inv_image wf_lex_prod wf_less_than)

text \<open>The outer loop: a search from every node not visited yet.\<close>

fun components_from :: "'r adjacency \<Rightarrow> nat list \<Rightarrow> nat set \<Rightarrow> (nat list \<times> 'r list) list" where
  "components_from adj [] seen = []"
| "components_from adj (i # is) seen =
     (if i \<in> seen then components_from adj is seen
      else case bfs adj [i] [] (insert i seen) [] of
             (component, seen', labels) \<Rightarrow> (component, labels) # components_from adj is seen')"

section \<open>What it finds\<close>

definition edges :: "'r adjacency \<Rightarrow> (nat \<times> nat) set" where
  "edges adj = {(i, j). \<exists>r. (j, r) \<in> set (neighbours adj i)}"

lemma bfs_spec:
  assumes "bfs adj queue component seen labels = (found, seen', labels')"
    and "distinct (component @ queue)" "set (component @ queue) \<inter> V = {}"
    and "seen = V \<union> set (component @ queue)" "edges adj `` set component \<subseteq> seen"
  shows "distinct found \<and> set found \<inter> V = {} \<and> seen' = V \<union> set found \<and>
    set (component @ queue) \<subseteq> set found \<and> edges adj `` set found \<subseteq> seen' \<and>
    set found \<subseteq> (edges adj)\<^sup>* `` set (component @ queue)"
  using assms
proof (induction adj queue component seen labels rule: bfs.induct)
  case (2 adj c queue component seen labels)
  obtain new s l where v: "visit (neighbours adj c) seen labels = (new, s, l)" by (metis prod_cases3)
  note sp = visit_spec [OF v]
  have new: "set new = edges adj `` {c} - seen" using sp by (auto simp: edges_def)
  have run: "bfs adj (queue @ new) (component @ [c]) s l = (found, seen', labels')"
    using 2(2) v by simp
  have "distinct found \<and> set found \<inter> V = {} \<and> seen' = V \<union> set found \<and>
      set ((component @ [c]) @ queue @ new) \<subseteq> set found \<and> edges adj `` set found \<subseteq> seen' \<and>
      set found \<subseteq> (edges adj)\<^sup>* `` set ((component @ [c]) @ queue @ new)"
  proof (rule "2.IH" [OF v [symmetric] refl run])
    have seen: "seen = V \<union> set component \<union> {c} \<union> set queue" using "2.prems"(4) by auto
    show "distinct ((component @ [c]) @ queue @ new)" using "2.prems"(2) sp new seen by auto
    show "set ((component @ [c]) @ queue @ new) \<inter> V = {}" using "2.prems"(3) new seen by auto
    show "s = V \<union> set ((component @ [c]) @ queue @ new)" using sp seen by auto
    show "edges adj `` set (component @ [c]) \<subseteq> s" using "2.prems"(5) sp new by auto
  qed
  moreover have "(edges adj)\<^sup>* `` set ((component @ [c]) @ queue @ new) \<subseteq>
      (edges adj)\<^sup>* `` set (component @ c # queue)"
    using new by (auto intro: converse_rtrancl_into_rtrancl)
  ultimately show ?case by auto
qed auto

lemma closed_rtrancl: "R `` A \<subseteq> A \<Longrightarrow> R\<^sup>* `` A \<subseteq> A"
proof
  fix y
  assume "R `` A \<subseteq> A" "y \<in> R\<^sup>* `` A"
  then obtain x where "x \<in> A" "(x, y) \<in> R\<^sup>*" by blast
  from this(2,1) \<open>R `` A \<subseteq> A\<close> show "y \<in> A" by (induction rule: rtrancl_induct) auto
qed

lemma bfs_class:
  assumes "sym (edges adj)" "edges adj `` V \<subseteq> V" "i \<notin> V"
    and "bfs adj [i] [] (insert i V) [] = (found, seen', labels')"
  shows "distinct found" "set found = (edges adj)\<^sup>* `` {i}" "seen' = V \<union> set found"
    "set found \<inter> V = {}" "edges adj `` seen' \<subseteq> seen'"
proof -
  have sp: "distinct found \<and> set found \<inter> V = {} \<and> seen' = V \<union> set found \<and>
      set ([] @ [i]) \<subseteq> set found \<and> edges adj `` set found \<subseteq> seen' \<and>
      set found \<subseteq> (edges adj)\<^sup>* `` set ([] @ [i])"
    using assms(3) by (intro bfs_spec [OF assms(4)]) auto
  have "edges adj `` set found \<subseteq> set found"
  proof
    fix y
    assume "y \<in> edges adj `` set found"
    then obtain x where x: "x \<in> set found" "(x, y) \<in> edges adj" by blast
    then have "(y, x) \<in> edges adj" using assms(1) by (auto dest: symD)
    with x sp assms(2) show "y \<in> set found" by blast
  qed
  from closed_rtrancl [OF this] sp have "(edges adj)\<^sup>* `` {i} \<subseteq> set found" by auto
  with sp assms(2) show "distinct found" "set found = (edges adj)\<^sup>* `` {i}" "seen' = V \<union> set found"
    "set found \<inter> V = {}" "edges adj `` seen' \<subseteq> seen'" by auto
qed

lemma components_from_spec:
  assumes "sym (edges adj)" "edges adj `` V \<subseteq> V"
  shows "(\<forall>(c, l) \<in> set (components_from adj is V). distinct c \<and> set c \<inter> V = {} \<and>
      (\<exists>i \<in> set is. set c = (edges adj)\<^sup>* `` {i})) \<and>
    set is \<subseteq> V \<union> \<Union> (set ` fst ` set (components_from adj is V)) \<and>
    distinct (concat (map fst (components_from adj is V)))"
  using assms
proof (induction "is" arbitrary: V)
  case (Cons i ns)
  show ?case
  proof (cases "i \<in> V")
    case True
    with Cons.IH [OF Cons.prems] show ?thesis by (simp add: case_prod_unfold)
  next
    case False
    obtain found seen' labels' where b: "bfs adj [i] [] (insert i V) [] = (found, seen', labels')"
      by (metis prod_cases3)
    note c = bfs_class [OF Cons.prems False b]
    note ih = Cons.IH [OF Cons.prems(1) c(5)]
    have "i \<in> set found" by (simp add: c(2))
    moreover have "distinct (concat (map fst (components_from adj ns seen')))" using ih by blast
    moreover have "set found \<inter> \<Union> (set ` fst ` set (components_from adj ns seen')) = {}"
      using ih c(3) by fastforce
    moreover have "\<forall>(d, l) \<in> set (components_from adj ns seen'). distinct d \<and> set d \<inter> V = {} \<and>
        (\<exists>i \<in> set ns. set d = (edges adj)\<^sup>* `` {i})"
      using ih c(3) by fastforce
    moreover have "set ns \<subseteq> seen' \<union> \<Union> (set ` fst ` set (components_from adj ns seen'))" using ih by blast
    ultimately show ?thesis using False b c(1,2,3,4) by auto
  qed
qed simp

text \<open>From no visited node: every start node is in a component, and the component of a node is its
  connected component.\<close>

lemma components_from_all:
  assumes "sym (edges adj)" "i \<in> set is"
  obtains c l where "(c, l) \<in> set (components_from adj is {})" "distinct c"
    "set c = (edges adj)\<^sup>* `` {i}"
proof -
  note sp = components_from_spec [of adj "{}" "is", OF assms(1)]
  from sp assms(2) obtain c l where cl: "(c, l) \<in> set (components_from adj is {})" "i \<in> set c" by force
  then obtain k where k: "distinct c" "set c = (edges adj)\<^sup>* `` {k}" using sp by fastforce
  have s: "sym ((edges adj)\<^sup>*)" using assms(1) by (rule sym_rtrancl)
  have "(edges adj)\<^sup>* `` {k} = (edges adj)\<^sup>* `` {i}"
    using cl(2) k(2) s by (auto dest: symD intro: rtrancl_trans)
  with cl k that show thesis by auto
qed

section \<open>Building the adjacency lists\<close>

text \<open>The two nested loops over the pairs \<open>i < j\<close>: a labelled pair is entered on both sides.\<close>

definition index_pairs :: "nat \<Rightarrow> (nat \<times> nat) list" where
  "index_pairs n = concat (map (\<lambda>i. map (Pair i) [i + 1..<n]) [0..<n])"

definition add_link :: "(nat \<Rightarrow> nat \<Rightarrow> 'r option) \<Rightarrow> 'r adjacency \<Rightarrow> nat \<times> nat \<Rightarrow> 'r adjacency" where
  "add_link link adj p =
     (case p of (i, j) \<Rightarrow>
        (case link i j of
           None \<Rightarrow> adj
         | Some r \<Rightarrow> (let adj' = adj[i := adj ! i @ [(j, r)]] in adj'[j := adj' ! j @ [(i, r)]])))"

definition build_adjacency :: "(nat \<Rightarrow> nat \<Rightarrow> 'r option) \<Rightarrow> nat \<Rightarrow> 'r adjacency" where
  "build_adjacency link n = foldl (add_link link) (replicate n []) (index_pairs n)"

lemma set_index_pairs: "(i, j) \<in> set (index_pairs n) \<longleftrightarrow> i < j \<and> j < n"
  by (force simp: index_pairs_def)

lemma add_link_pair:
  "add_link link adj (i, j) =
     (case link i j of None \<Rightarrow> adj
      | Some r \<Rightarrow> adj[i := adj ! i @ [(j, r)], j := adj[i := adj ! i @ [(j, r)]] ! j @ [(i, r)]])"
  by (simp add: add_link_def Let_def split: option.split)

lemma foldl_add_link:
  assumes "\<forall>(i, j) \<in> set ps. i < j \<and> j < n"
  shows "length (foldl (add_link link) (replicate n []) ps) = n \<and>
    (\<forall>a b r. (b, r) \<in> set (neighbours (foldl (add_link link) (replicate n []) ps) a) \<longleftrightarrow>
       (a, b) \<in> set ps \<and> link a b = Some r \<or> (b, a) \<in> set ps \<and> link b a = Some r)"
  using assms
proof (induction ps rule: rev_induct)
  case Nil
  then show ?case by (simp add: neighbours_def)
next
  case (snoc p ps)
  obtain i j where p: "p = (i, j)" "i < j" "j < n" using snoc.prems by (cases p) auto
  let ?A = "foldl (add_link link) (replicate n []) ps"
  have len: "length ?A = n" using snoc by auto
  have old: "(b, r) \<in> set (neighbours ?A a) \<longleftrightarrow>
      (a, b) \<in> set ps \<and> link a b = Some r \<or> (b, a) \<in> set ps \<and> link b a = Some r" for a b r
    using snoc by auto
  show ?case
  proof (cases "link i j")
    case None
    then show ?thesis using len old p(1) by (auto simp: add_link_pair)
  next
    case (Some l)
    have "(b, r) \<in> set (neighbours (add_link link ?A p) a) \<longleftrightarrow>
        (b, r) \<in> set (neighbours ?A a) \<or> a = i \<and> b = j \<and> r = l \<or> a = j \<and> b = i \<and> r = l" for a b r
      using p len Some by (auto simp: add_link_pair neighbours_def nth_list_update)
    then show ?thesis using len old p Some by (auto simp: add_link_pair)
  qed
qed

lemma edges_build_adjacency:
  "edges (build_adjacency link n) =
     {(a, b). a < b \<and> b < n \<and> link a b \<noteq> None \<or> b < a \<and> a < n \<and> link b a \<noteq> None}"
proof -
  have "\<forall>(i, j) \<in> set (index_pairs n). i < j \<and> j < n" by (auto simp: set_index_pairs)
  from foldl_add_link [OF this, of link] show ?thesis
    by (auto simp: edges_def build_adjacency_def set_index_pairs)
qed

lemma sym_build_adjacency: "sym (edges (build_adjacency link n))"
  by (auto simp: edges_build_adjacency intro!: symI)

end
