(* ===== verification/Split_Tx.thy ===== *)
theory Split_Tx
  imports Sliding_Window Component_Search Json
begin

text \<open>
  \<^verbatim>\<open>src/services/fraud/split_tx_detector.py\<close>: split transactions and smurfing, by a rolling window per
  custodian and by clustering the linked events of a tenant. A time stamp is a number of
  microseconds; its texts (\<open>isoformat\<close>, \<open>strftime\<close>) and the dollar text are parameters.
\<close>

section \<open>Data\<close>

definition WINDOW_SECONDS :: int where "WINDOW_SECONDS = 48 * 3600"
definition DEFAULT_THRESHOLD_SCALED :: scaled where "DEFAULT_THRESHOLD_SCALED = 5000000"
definition POLICY_EVASION_THRESHOLD_SCALED :: scaled where "POLICY_EVASION_THRESHOLD_SCALED = 500000"
definition MIN_TX_COUNT :: int where "MIN_TX_COUNT = 2"

record tx_event =
  te_transaction_id :: string
  te_tenant_id :: string
  te_custodian_id :: string
  te_amount_scaled :: scaled
  te_timestamp :: time
  te_merchant_id :: "string option"
  te_merchant_name :: "string option"
  te_merchant_category :: "string option"
  te_receipt_hash :: "string option"

datatype split_error = EventAmountNotPositive int | ThresholdNotPositive

definition mk_tx_event :: "tx_event \<Rightarrow> split_error + tx_event" where
  "mk_tx_event e =
     (if te_amount_scaled e \<le> 0 then Inl (EventAmountNotPositive (te_amount_scaled e)) else Inr e)"

record tx_cluster =
  tc_cluster_id :: string
  tc_tenant_id :: string
  tc_transactions :: "tx_event list"
  tc_total_amount_scaled :: scaled
  tc_custodians_involved :: "string list"
  tc_merchants_involved :: "string list"
  tc_window_start :: time
  tc_window_end :: time
  tc_is_smurfing :: bool
  tc_link_reasons :: "string list"

definition cluster_transaction_ids :: "tx_cluster \<Rightarrow> string list" where
  "cluster_transaction_ids c = map te_transaction_id (tc_transactions c)"

definition cluster_to_dict :: "(scaled \<Rightarrow> string) \<Rightarrow> (time \<Rightarrow> string) \<Rightarrow> tx_cluster \<Rightarrow> json" where
  "cluster_to_dict money isoformat c = JDict
     [(''cluster_id'', JStr (tc_cluster_id c)), (''tenant_id'', JStr (tc_tenant_id c)),
      (''transaction_ids'', JList (map JStr (cluster_transaction_ids c))),
      (''total_amount_scaled'', JInt (tc_total_amount_scaled c)),
      (''total_amount_formatted'', JStr (money (tc_total_amount_scaled c))),
      (''custodians_involved'', JList (map JStr (tc_custodians_involved c))),
      (''merchants_involved'', JList (map JStr (tc_merchants_involved c))),
      (''window_start'', JStr (isoformat (tc_window_start c))),
      (''window_end'', JStr (isoformat (tc_window_end c))),
      (''is_smurfing'', JBool (tc_is_smurfing c)),
      (''link_reasons'', JList (map JStr (tc_link_reasons c)))]"

record split_alert =
  sa_tenant_id :: string
  sa_custodian_id :: string
  sa_window_transaction_ids :: "string list"
  sa_window_total_scaled :: scaled
  sa_threshold_scaled :: scaled
  sa_window_start :: time
  sa_window_end :: time
  sa_alert_code :: string
  sa_alert_type :: string
  sa_cluster_id :: "string option"
  sa_is_smurfing :: bool
  sa_custodians_involved :: "string list"
  sa_merchants_involved :: "string list"

definition split_alert_to_dict :: "(scaled \<Rightarrow> string) \<Rightarrow> (time \<Rightarrow> string) \<Rightarrow> split_alert \<Rightarrow> json" where
  "split_alert_to_dict money isoformat a = JDict
     [(''alert_type'', JStr (sa_alert_type a)), (''alert_code'', JStr (sa_alert_code a)),
      (''tenant_id'', JStr (sa_tenant_id a)), (''custodian_id'', JStr (sa_custodian_id a)),
      (''window_transaction_ids'', JList (map JStr (sa_window_transaction_ids a))),
      (''window_total_scaled'', JInt (sa_window_total_scaled a)),
      (''window_total_formatted'', JStr (money (sa_window_total_scaled a))),
      (''threshold_scaled'', JInt (sa_threshold_scaled a)),
      (''threshold_formatted'', JStr (money (sa_threshold_scaled a))),
      (''window_start'', JStr (isoformat (sa_window_start a))),
      (''window_end'', JStr (isoformat (sa_window_end a))),
      (''cluster_id'', json_opt (sa_cluster_id a)), (''is_smurfing'', JBool (sa_is_smurfing a)),
      (''custodians_involved'', JList (map JStr (sa_custodians_involved a))),
      (''merchants_involved'', JList (map JStr (sa_merchants_involved a)))]"

record split_detector =
  sd_threshold_scaled :: scaled
  sd_window_seconds :: int
  sd_min_tx_count :: int
  sd_enable_graph_clustering :: bool
  sd_windows :: "string \<times> string \<rightharpoonup> tx_event list"
  sd_tenant_windows :: "string \<rightharpoonup> tx_event list"

definition new_split_detector :: "scaled \<Rightarrow> int \<Rightarrow> int \<Rightarrow> bool \<Rightarrow> split_error + split_detector" where
  "new_split_detector threshold window min_count graph =
     (if threshold \<le> 0 then Inl ThresholdNotPositive
      else Inr \<lparr>sd_threshold_scaled = threshold, sd_window_seconds = window, sd_min_tx_count = min_count,
             sd_enable_graph_clustering = graph, sd_windows = Map.empty, sd_tenant_windows = Map.empty\<rparr>)"

definition split_width :: "split_detector \<Rightarrow> int" where
  "split_width sd = sd_window_seconds sd * 1000000"

fun split_evict :: "int \<Rightarrow> time \<Rightarrow> tx_event list \<Rightarrow> tx_event list" where
  "split_evict width now [] = []"
| "split_evict width now (e # w) =
     (if te_timestamp e < now - width then split_evict width now w else e # w)"

interpretation split_window: sliding_window split_evict te_timestamp
proof unfold_locales
  show "split_evict width now w = dropWhile (\<lambda>e. te_timestamp e < now - width) w" for width now w
    by (induction w) auto
qed

section \<open>Links and clusters\<close>

text \<open>\<open>a and b and a == b\<close> on two optional texts.\<close>

definition same_text :: "string option \<Rightarrow> string option \<Rightarrow> bool" where
  "same_text a b = (text_or a [] \<noteq> [] \<and> text_or b [] \<noteq> [] \<and> a = b)"

definition are_events_linked :: "int \<Rightarrow> tx_event \<Rightarrow> tx_event \<Rightarrow> string option" where
  "are_events_linked width e1 e2 =
     (if \<bar>te_timestamp e1 - te_timestamp e2\<bar> > width then None
      else if te_custodian_id e1 = te_custodian_id e2
        then Some (''SAME_CUSTODIAN('' @ te_custodian_id e1 @ '')'')
      else if same_text (te_merchant_id e1) (te_merchant_id e2)
        then Some (''SAME_MERCHANT_ID('' @ text_or (te_merchant_id e1) [] @ '')'')
      else if text_or (te_merchant_name e1) [] \<noteq> [] \<and> text_or (te_merchant_name e2) [] \<noteq> [] \<and>
          py_lower (py_strip (text_or (te_merchant_name e1) [])) =
            py_lower (py_strip (text_or (te_merchant_name e2) [])) \<and>
          py_lower (py_strip (text_or (te_merchant_name e1) [])) \<noteq> []
        then Some (''SAME_MERCHANT_NAME('' @ text_or (te_merchant_name e1) [] @ '')'')
      else if same_text (te_receipt_hash e1) (te_receipt_hash e2)
        then Some (''IDENTICAL_RECEIPT_HASH('' @ text_or (te_receipt_hash e1) [] @ '')'')
      else None)"

definition link_of :: "int \<Rightarrow> tx_event list \<Rightarrow> nat \<Rightarrow> nat \<Rightarrow> string option" where
  "link_of width es i j = are_events_linked width (es ! i) (es ! j)"

definition some_texts :: "string option list \<Rightarrow> string list" where
  "some_texts xs = filter (\<lambda>s. s \<noteq> []) (map (\<lambda>x. text_or x []) xs)"

definition mk_cluster ::
  "(time \<Rightarrow> string) \<Rightarrow> string \<Rightarrow> tx_event list \<Rightarrow> string list \<Rightarrow> nat \<Rightarrow> tx_cluster" where
  "mk_cluster minute_text tenant evs labels k =
     (let stamps = map te_timestamp evs;
          first = fold min stamps (hd stamps);
          custodians = sort (remdups (map te_custodian_id evs))
      in \<lparr>tc_cluster_id = ''CLUST-'' @ tenant @ ''-'' @ minute_text first @ ''-'' @ show_nat (k + 1),
          tc_tenant_id = tenant, tc_transactions = evs,
          tc_total_amount_scaled = sum_list (map te_amount_scaled evs),
          tc_custodians_involved = custodians,
          tc_merchants_involved = sort (remdups (some_texts (map te_merchant_id evs))),
          tc_window_start = first, tc_window_end = fold max stamps (hd stamps),
          tc_is_smurfing = 1 < length custodians, tc_link_reasons = sort (remdups labels)\<rparr>)"

text \<open>The clusters of the components that are large enough, numbered from \<open>k\<close>.\<close>

fun clusters_of ::
  "(time \<Rightarrow> string) \<Rightarrow> int \<Rightarrow> string \<Rightarrow> tx_event list \<Rightarrow> (nat list \<times> string list) list \<Rightarrow> nat \<Rightarrow> tx_cluster list" where
  "clusters_of minute_text min_count tenant es [] k = []"
| "clusters_of minute_text min_count tenant es ((component, labels) # cs) k =
     (if int (length component) \<ge> min_count
      then mk_cluster minute_text tenant (map ((!) es) component) labels k #
        clusters_of minute_text min_count tenant es cs (k + 1)
      else clusters_of minute_text min_count tenant es cs k)"

definition window_clusters ::
  "(time \<Rightarrow> string) \<Rightarrow> split_detector \<Rightarrow> string \<Rightarrow> tx_event list \<Rightarrow> tx_cluster list" where
  "window_clusters minute_text sd tenant es =
     (if length es < 2 then []
      else clusters_of minute_text (sd_min_tx_count sd) tenant es
        (components_from (build_adjacency (link_of (split_width sd) es) (length es)) [0..<length es] {}) 0)"

definition tenant_window :: "split_detector \<Rightarrow> string \<Rightarrow> tx_event list" where
  "tenant_window sd tenant = (case sd_tenant_windows sd tenant of None \<Rightarrow> [] | Some w \<Rightarrow> w)"

definition custodian_window :: "split_detector \<Rightarrow> string \<times> string \<Rightarrow> tx_event list" where
  "custodian_window sd key = (case sd_windows sd key of None \<Rightarrow> [] | Some w \<Rightarrow> w)"

definition get_clusters ::
  "(time \<Rightarrow> string) \<Rightarrow> string \<Rightarrow> time option \<Rightarrow> split_detector \<Rightarrow> tx_cluster list \<times> split_detector" where
  "get_clusters minute_text tenant reference sd =
     (if tenant_window sd tenant = [] then ([], sd)
      else
        (let sd' = (case reference of None \<Rightarrow> sd
                    | Some now \<Rightarrow> sd\<lparr>sd_tenant_windows := (sd_tenant_windows sd)
                        (tenant \<mapsto> split_evict (split_width sd) now (tenant_window sd tenant))\<rparr>)
         in (window_clusters minute_text sd' tenant (tenant_window sd' tenant), sd')))"

section \<open>Recording an event\<close>

definition record_event :: "tx_event \<Rightarrow> split_detector \<Rightarrow> split_detector" where
  "record_event e sd =
     (let key = (te_tenant_id e, te_custodian_id e)
      in sd\<lparr>sd_windows := (sd_windows sd)
              (key \<mapsto> split_evict (split_width sd) (te_timestamp e) (custodian_window sd key) @ [e]),
            sd_tenant_windows := (sd_tenant_windows sd)(te_tenant_id e \<mapsto>
              split_evict (split_width sd) (te_timestamp e) (tenant_window sd (te_tenant_id e)) @ [e])\<rparr>)"

definition cluster_exceeds :: "split_detector \<Rightarrow> tx_event \<Rightarrow> tx_cluster \<Rightarrow> bool" where
  "cluster_exceeds sd e c \<longleftrightarrow> te_transaction_id e \<in> set (cluster_transaction_ids c) \<and>
     int (length (tc_transactions c)) \<ge> sd_min_tx_count sd \<and>
     tc_total_amount_scaled c > sd_threshold_scaled sd"

definition cluster_alert :: "split_detector \<Rightarrow> tx_event \<Rightarrow> tx_cluster \<Rightarrow> split_alert" where
  "cluster_alert sd e c =
     \<lparr>sa_tenant_id = te_tenant_id e, sa_custodian_id = te_custodian_id e,
      sa_window_transaction_ids = cluster_transaction_ids c,
      sa_window_total_scaled = tc_total_amount_scaled c, sa_threshold_scaled = sd_threshold_scaled sd,
      sa_window_start = tc_window_start c, sa_window_end = tc_window_end c,
      sa_alert_code = ''SPLIT_TRANSACTION_DETECTED'', sa_alert_type = ''SPLIT_TRANSACTION'',
      sa_cluster_id = Some (tc_cluster_id c), sa_is_smurfing = tc_is_smurfing c,
      sa_custodians_involved = (if tc_custodians_involved c = [] then [te_custodian_id e]
                                else tc_custodians_involved c),
      sa_merchants_involved = tc_merchants_involved c\<rparr>"

definition window_alert :: "split_detector \<Rightarrow> tx_event \<Rightarrow> tx_event list \<Rightarrow> split_alert option" where
  "window_alert sd e w =
     (let total = sum_list (map te_amount_scaled w)
      in if int (length w) \<ge> sd_min_tx_count sd \<and> total > sd_threshold_scaled sd
         then Some \<lparr>sa_tenant_id = te_tenant_id e, sa_custodian_id = te_custodian_id e,
           sa_window_transaction_ids = map te_transaction_id w, sa_window_total_scaled = total,
           sa_threshold_scaled = sd_threshold_scaled sd, sa_window_start = te_timestamp (hd w),
           sa_window_end = te_timestamp (last w), sa_alert_code = ''SPLIT_TRANSACTION_DETECTED'',
           sa_alert_type = ''SPLIT_TRANSACTION'', sa_cluster_id = None, sa_is_smurfing = False,
           sa_custodians_involved = [te_custodian_id e], sa_merchants_involved = []\<rparr>
         else None)"

definition split_check ::
  "(time \<Rightarrow> string) \<Rightarrow> tx_event \<Rightarrow> split_detector \<Rightarrow> split_alert option \<times> split_detector" where
  "split_check minute_text e sd =
     (let sd1 = record_event e sd;
          (clusters, sd2) = (if sd_enable_graph_clustering sd1
            then get_clusters minute_text (te_tenant_id e) (Some (te_timestamp e)) sd1 else ([], sd1))
      in (case find (cluster_exceeds sd2 e) clusters of
            Some c \<Rightarrow> Some (cluster_alert sd2 e c)
          | None \<Rightarrow> window_alert sd2 e (custodian_window sd2 (te_tenant_id e, te_custodian_id e)), sd2))"

definition split_clear_custodian :: "string \<Rightarrow> string \<Rightarrow> split_detector \<Rightarrow> split_detector" where
  "split_clear_custodian tenant custodian sd =
     sd\<lparr>sd_windows := (sd_windows sd)((tenant, custodian) := None),
       sd_tenant_windows := (if tenant_window sd tenant = [] then sd_tenant_windows sd
         else (sd_tenant_windows sd)(tenant \<mapsto>
           filter (\<lambda>e. te_custodian_id e \<noteq> custodian) (tenant_window sd tenant)))\<rparr>"

definition split_clear_tenant :: "string \<Rightarrow> split_detector \<Rightarrow> split_detector" where
  "split_clear_tenant tenant sd =
     sd\<lparr>sd_tenant_windows := (sd_tenant_windows sd)(tenant := None),
       sd_windows := (\<lambda>k. if fst k = tenant then None else sd_windows sd k)\<rparr>"

definition split_window_sum ::
  "string \<Rightarrow> string \<Rightarrow> time option \<Rightarrow> split_detector \<Rightarrow> int \<times> split_detector" where
  "split_window_sum tenant custodian reference sd =
     (let w = custodian_window sd (tenant, custodian)
      in if w = [] then (0, sd)
         else case reference of
           None \<Rightarrow> (sum_list (map te_amount_scaled w), sd)
         | Some now \<Rightarrow>
             (let w' = split_evict (split_width sd) now w
              in (sum_list (map te_amount_scaled w'),
                  sd\<lparr>sd_windows := (sd_windows sd)((tenant, custodian) \<mapsto> w')\<rparr>)))"

section \<open>Clusters are the linked groups\<close>

definition linked :: "int \<Rightarrow> tx_event list \<Rightarrow> (nat \<times> nat) set" where
  "linked width es = {(i, j). i \<noteq> j \<and> i < length es \<and> j < length es \<and>
     link_of width es (min i j) (max i j) \<noteq> None}"

definition linked_group :: "int \<Rightarrow> tx_event list \<Rightarrow> nat \<Rightarrow> nat set" where
  "linked_group width es i = (linked width es)\<^sup>* `` {i}"

lemma edges_linked: "edges (build_adjacency (link_of width es) (length es)) = linked width es"
  by (auto simp: edges_build_adjacency linked_def min_def max_def split: if_splits)

lemma clusters_of_member:
  "(component, labels) \<in> set cs \<Longrightarrow> min_count \<le> int (length component) \<Longrightarrow>
     \<exists>k. mk_cluster mt tenant (map ((!) es) component) labels k \<in> set (clusters_of mt min_count tenant es cs k0)"
  by (induction mt min_count tenant es cs k0 rule: clusters_of.induct) auto

lemma mk_cluster_simps [simp]:
  "tc_transactions (mk_cluster mt tenant evs labels k) = evs"
  "tc_total_amount_scaled (mk_cluster mt tenant evs labels k) = sum_list (map te_amount_scaled evs)"
  by (simp_all add: mk_cluster_def Let_def)

lemma group_cluster:
  assumes "2 \<le> length es" "i < length es" "G = linked_group (split_width sd) es i"
    and "sd_min_tx_count sd \<le> int (card G)"
  obtains c where "c \<in> set (window_clusters mt sd tenant es)"
    "te_transaction_id (es ! i) \<in> set (cluster_transaction_ids c)"
    "int (length (tc_transactions c)) = int (card G)"
    "tc_total_amount_scaled c = (\<Sum>j \<in> G. te_amount_scaled (es ! j))"
proof -
  let ?adj = "build_adjacency (link_of (split_width sd) es) (length es)"
  have "i \<in> set [0..<length es]" using assms(2) by simp
  then obtain comp l where c: "(comp, l) \<in> set (components_from ?adj [0..<length es] {})" "distinct comp"
    "set comp = (edges ?adj)\<^sup>* `` {i}"
    by (rule components_from_all [OF sym_build_adjacency])
  note c = c(1,2) c(3) [unfolded edges_linked, folded linked_group_def assms(3)]
  have len: "card G = length comp"
    using distinct_card [OF c(2)] c(3) by simp
  obtain k where k: "mk_cluster mt tenant (map ((!) es) comp) l k \<in> set (window_clusters mt sd tenant es)"
    using clusters_of_member [OF c(1)] assms(1,4) len by (fastforce simp: window_clusters_def)
  have "i \<in> set comp" by (simp add: c(3) assms(3) linked_group_def)
  moreover have "sum_list (map (te_amount_scaled \<circ> (!) es) comp) =
      (\<Sum>j \<in> G. te_amount_scaled (es ! j))"
    using c(2) by (simp add: sum_list_distinct_conv_sum_set c(3) comp_def)
  ultimately show thesis
    using k len by (intro that [OF k]) (auto simp: cluster_transaction_ids_def comp_def)
qed

section \<open>Histories\<close>

definition split_run :: "(time \<Rightarrow> string) \<Rightarrow> split_detector \<Rightarrow> tx_event list \<Rightarrow> split_detector" where
  "split_run mt = foldl (\<lambda>sd e. snd (split_check mt e sd))"

lemma tenant_window_record:
  "tenant_window (record_event e sd) t =
     (if t = te_tenant_id e then split_window.push (split_width sd) (tenant_window sd t) e
      else tenant_window sd t)"
  by (simp add: record_event_def tenant_window_def split_window.push_def Let_def)

lemma record_event_fields [simp]:
  "split_width (record_event e sd) = split_width sd"
  "sd_threshold_scaled (record_event e sd) = sd_threshold_scaled sd"
  "sd_min_tx_count (record_event e sd) = sd_min_tx_count sd"
  "sd_enable_graph_clustering (record_event e sd) = sd_enable_graph_clustering sd"
  by (simp_all add: record_event_def split_width_def Let_def)

lemma evict_pushed:
  assumes "0 \<le> width"
  shows "split_evict width (te_timestamp e) (split_window.push width w e) = split_window.push width w e"
proof -
  define v where "v = dropWhile (\<lambda>x. te_timestamp x < te_timestamp e - width) w"
  have "\<not> te_timestamp (hd (v @ [e])) < te_timestamp e - width"
    using hd_dropWhile_neg [of "\<lambda>x. te_timestamp x < te_timestamp e - width" w, folded v_def] assms
    by (cases "v = []") auto
  then show ?thesis
    unfolding split_window.push_def split_window.evict_eq v_def [symmetric]
    by (intro dropWhile_idle) simp
qed

lemma clusters_after_record:
  assumes "0 \<le> split_width sd"
  shows "get_clusters mt (te_tenant_id e) (Some (te_timestamp e)) (record_event e sd) =
    (window_clusters mt (record_event e sd) (te_tenant_id e) (tenant_window (record_event e sd) (te_tenant_id e)),
     record_event e sd)"
proof -
  let ?sd = "record_event e sd"
  have w: "split_evict (split_width ?sd) (te_timestamp e) (tenant_window ?sd (te_tenant_id e)) =
      tenant_window ?sd (te_tenant_id e)" "tenant_window ?sd (te_tenant_id e) \<noteq> []"
    using evict_pushed [OF assms] by (simp_all add: tenant_window_record) (simp add: split_window.push_def)
  have "?sd\<lparr>sd_tenant_windows := (sd_tenant_windows ?sd)(te_tenant_id e \<mapsto> tenant_window ?sd (te_tenant_id e))\<rparr> = ?sd"
    by (simp add: record_event_def tenant_window_def Let_def)
  with w show ?thesis by (simp add: get_clusters_def Let_def)
qed

lemma split_check_record:
  assumes "0 \<le> split_width sd"
  shows "snd (split_check mt e sd) = record_event e sd"
  using clusters_after_record [OF assms, of mt e] by (simp add: split_check_def Let_def)

lemma split_run_window:
  assumes "0 \<le> split_width sd"
  shows "tenant_window (split_run mt sd ds) t =
      foldl (split_window.push (split_width sd)) (tenant_window sd t) (filter (\<lambda>d. te_tenant_id d = t) ds) \<and>
    split_width (split_run mt sd ds) = split_width sd \<and>
    sd_threshold_scaled (split_run mt sd ds) = sd_threshold_scaled sd \<and>
    sd_min_tx_count (split_run mt sd ds) = sd_min_tx_count sd \<and>
    sd_enable_graph_clustering (split_run mt sd ds) = sd_enable_graph_clustering sd"
  using assms by (induction ds rule: rev_induct)
    (auto simp: split_run_def split_check_record tenant_window_record)

text \<open>The events of the tenant of \<open>e\<close> that are in the window when \<open>e\<close> has just been recorded.\<close>

definition active_events :: "int \<Rightarrow> tx_event list \<Rightarrow> tx_event \<Rightarrow> tx_event list" where
  "active_events width ds e = filter (\<lambda>d. te_tenant_id d = te_tenant_id e \<and>
     te_timestamp e - width \<le> te_timestamp d) (ds @ [e])"

lemma active_events_window:
  assumes "0 \<le> split_width sd" "tenant_window sd (te_tenant_id e) = []" "sorted (map te_timestamp (ds @ [e]))"
  shows "tenant_window (record_event e (split_run mt sd ds)) (te_tenant_id e) =
    active_events (split_width sd) ds e"
proof -
  let ?own = "filter (\<lambda>d. te_tenant_id d = te_tenant_id e) (ds @ [e])"
  have "sorted (map te_timestamp ?own)" using assms(3) by (rule sorted_filter)
  then have "foldl (split_window.push (split_width sd)) [] ?own =
      split_window.recent (split_width sd) (te_timestamp (last ?own)) ?own"
    by (rule split_window.foldl_push) (simp_all add: assms(1))
  then show ?thesis
    using assms(1,2) by (simp add: tenant_window_record split_run_window split_window.recent_def
        active_events_def conj_commute flip: filter_filter)
qed

text \<open>What an alert reports is above the threshold.\<close>

lemma split_alert_above:
  "fst (split_check mt e sd) = Some a \<Longrightarrow> sd_threshold_scaled sd < sa_window_total_scaled a"
proof -
  assume a: "fst (split_check mt e sd) = Some a"
  define sd1 where "sd1 = record_event e sd"
  define r where "r = (if sd_enable_graph_clustering sd1
      then get_clusters mt (te_tenant_id e) (Some (te_timestamp e)) sd1 else ([], sd1))"
  have th: "sd_threshold_scaled (snd r) = sd_threshold_scaled sd"
    by (auto simp: r_def sd1_def get_clusters_def Let_def split: option.split)
  have "fst (split_check mt e sd) =
      (case find (cluster_exceeds (snd r) e) (fst r) of Some c \<Rightarrow> Some (cluster_alert (snd r) e c)
       | None \<Rightarrow> window_alert (snd r) e (custodian_window (snd r) (te_tenant_id e, te_custodian_id e)))"
    by (simp only: split_check_def Let_def r_def sd1_def case_prod_unfold fst_conv)
  with a th show ?thesis
    by (auto simp: find_Some_iff cluster_exceeds_def cluster_alert_def window_alert_def Let_def
        split: option.splits if_splits)
qed

text \<open>C22. Smurfing is always flagged: on any chronological stream of events, when the active events of the
  tenant that are linked to the new one, directly or through a chain of links, are enough in
  number and exceed the threshold in sum, recording it raises an alert, whoever the custodians
  are; and no alert is raised for a sum that does not exceed the threshold.\<close>

theorem smurfing_always_flagged:
  assumes "new_split_detector threshold w min_count True = Inr sd" "0 \<le> w"
    and "sorted (map te_timestamp (ds @ [e]))" "es = active_events (w * 1000000) ds e"
    and "G = linked_group (w * 1000000) es (length es - 1)"
    and "2 \<le> length es" "min_count \<le> int (card G)" "threshold < (\<Sum>j \<in> G. te_amount_scaled (es ! j))"
  shows "\<exists>a. fst (split_check mt e (split_run mt sd ds)) = Some a \<and> threshold < sa_window_total_scaled a"
proof -
  let ?sd = "split_run mt sd ds"
  have sd: "split_width sd = w * 1000000" "sd_threshold_scaled sd = threshold"
    "sd_min_tx_count sd = min_count" "sd_enable_graph_clustering sd" "tenant_window sd t = []" for t
    using assms(1) by (auto simp: new_split_detector_def split_width_def tenant_window_def split: if_splits)
  have w: "0 \<le> split_width sd" using sd(1) assms(2) by simp
  note run = split_run_window [OF w, of mt ds "te_tenant_id e"]
  have es: "tenant_window (record_event e ?sd) (te_tenant_id e) = es"
    using active_events_window [OF w sd(5) assms(3)] sd(1) assms(4) by simp
  have last: "es ! (length es - 1) = e"
    using assms(2) by (simp add: assms(4) active_events_def nth_append)
  have "length es - 1 < length es" "G = linked_group (split_width (record_event e ?sd)) es (length es - 1)"
    "sd_min_tx_count (record_event e ?sd) \<le> int (card G)"
    using assms(5-7) run sd(1,3) by simp_all
  then obtain c where "c \<in> set (window_clusters mt (record_event e ?sd) (te_tenant_id e) es)"
    "te_transaction_id (es ! (length es - 1)) \<in> set (cluster_transaction_ids c)"
    "int (length (tc_transactions c)) = int (card G)"
    "tc_total_amount_scaled c = (\<Sum>j \<in> G. te_amount_scaled (es ! j))"
    by (rule group_cluster [OF assms(6)])
  with last have "\<exists>c \<in> set (window_clusters mt (record_event e ?sd) (te_tenant_id e) es).
      cluster_exceeds (record_event e ?sd) e c"
    using assms(7,8) run sd by (auto simp: cluster_exceeds_def)
  then have "find (cluster_exceeds (record_event e ?sd) e)
      (window_clusters mt (record_event e ?sd) (te_tenant_id e) es) \<noteq> None"
    by (auto simp: find_None_iff)
  moreover have "0 \<le> split_width ?sd" using run w by simp
  ultimately have "fst (split_check mt e ?sd) \<noteq> None"
    using clusters_after_record [of ?sd mt e] run sd(4) es by (auto simp: split_check_def Let_def)
  then show ?thesis using split_alert_above run sd(2) by fastforce
qed

definition demo_event :: "string \<Rightarrow> string \<Rightarrow> scaled \<Rightarrow> time \<Rightarrow> tx_event" where
  "demo_event tx cust amount ts = \<lparr>te_transaction_id = tx, te_tenant_id = ''acme'', te_custodian_id = cust,
     te_amount_scaled = amount, te_timestamp = ts, te_merchant_id = Some ''m1'', te_merchant_name = None,
     te_merchant_category = None, te_receipt_hash = None\<rparr>"

theorem smurfing_always_flagged_witness:
  "\<exists>sd a. new_split_detector 50 10 2 True = Inr sd \<and>
     fst (split_check (\<lambda>t. ''t'') (demo_event ''t2'' ''bo'' 30 5)
       (split_run (\<lambda>t. ''t'') sd [demo_event ''t1'' ''al'' 30 0])) = Some a"
proof -
  let ?ds = "[demo_event ''t1'' ''al'' 30 0]" and ?e = "demo_event ''t2'' ''bo'' 30 5"
  let ?es = "active_events (10 * 1000000) ?ds ?e"
  obtain sd where sd: "new_split_detector 50 10 2 True = Inr sd" by (simp add: new_split_detector_def)
  have es: "?es = [demo_event ''t1'' ''al'' 30 0, ?e]" by (simp add: active_events_def demo_event_def)
  have linked: "linked (10 * 1000000) ?es = {(0, 1), (1, 0)}"
  proof -
    have "link_of (10 * 1000000) ?es 0 1 \<noteq> None" "length ?es = 2"
      unfolding es by (simp_all add: link_of_def are_events_linked_def demo_event_def same_text_def text_or_def)
    then show ?thesis unfolding linked_def by (auto simp: less_2_cases_iff)
  qed
  have "linked_group (10 * 1000000) ?es 1 = {0, 1}"
    unfolding linked_group_def linked
    by (auto elim: rtranclE intro: r_into_rtrancl)
  moreover have "length ?es - 1 = 1" unfolding es by simp
  ultimately have G: "linked_group (10 * 1000000) ?es (length ?es - 1) = {0, 1}" by (simp only:)
  have "sorted (map te_timestamp (?ds @ [?e]))" by (simp add: demo_event_def)
  from smurfing_always_flagged [OF sd _ this refl refl, of "\<lambda>t. ''t''"] sd show ?thesis
    unfolding G unfolding es by (auto simp: demo_event_def)
qed

end
