(* ===== verification/Category_Anomaly.thy ===== *)
theory Category_Anomaly
  imports Json
begin

text \<open>
  \<^verbatim>\<open>src/services/fraud/category_anomaly.py\<close>: the spending profile of a custodian over merchant
  categories and the alerts on deviations from it. The float comparisons and texts of the second
  condition (\<open>count / total <= 0.10\<close>, \<open>amount > spend / count * multiplier\<close>, the percentage and
  the two amounts of its message) are the parameters of \<open>spend_ops\<close>; a score is its \<open>repr\<close> text.
\<close>

section \<open>Profiles\<close>

record baseline =
  cb_total_tx_count :: int
  cb_total_spend_scaled :: scaled
  cb_category_counts :: "(string \<times> int) list"
  cb_category_spend_scaled :: "(string \<times> int) list"

definition empty_baseline :: baseline where
  "empty_baseline = \<lparr>cb_total_tx_count = 0, cb_total_spend_scaled = 0, cb_category_counts = [],
     cb_category_spend_scaled = []\<rparr>"

definition norm_category :: "string \<Rightarrow> string" where
  "norm_category c = py_upper (py_strip c)"

definition count_get :: "(string \<times> int) list \<Rightarrow> string \<Rightarrow> int" where
  "count_get m k = (case map_of m k of None \<Rightarrow> 0 | Some n \<Rightarrow> n)"

definition baseline_record :: "string \<Rightarrow> scaled \<Rightarrow> baseline \<Rightarrow> baseline" where
  "baseline_record category amount b =
     (let c = norm_category category
      in \<lparr>cb_total_tx_count = cb_total_tx_count b + 1,
          cb_total_spend_scaled = cb_total_spend_scaled b + amount,
          cb_category_counts = AList.update c (count_get (cb_category_counts b) c + 1) (cb_category_counts b),
          cb_category_spend_scaled =
            AList.update c (count_get (cb_category_spend_scaled b) c + amount) (cb_category_spend_scaled b)\<rparr>)"

text \<open>The two shares, as numerator and denominator; \<open>None\<close> stands for the 0.0 of an empty profile.\<close>

definition get_category_frequency :: "baseline \<Rightarrow> string \<Rightarrow> (int \<times> int) option" where
  "get_category_frequency b category =
     (if cb_total_tx_count b = 0 then None
      else Some (count_get (cb_category_counts b) (norm_category category), cb_total_tx_count b))"

definition get_category_spend_share :: "baseline \<Rightarrow> string \<Rightarrow> (int \<times> int) option" where
  "get_category_spend_share b category =
     (if cb_total_spend_scaled b = 0 then None
      else Some (count_get (cb_category_spend_scaled b) (norm_category category), cb_total_spend_scaled b))"

section \<open>The detector\<close>

record category_alert =
  ca_tenant_id :: string
  ca_custodian_id :: string
  ca_transaction_id :: string
  ca_category :: string
  ca_amount_scaled :: scaled
  ca_anomaly_score :: string
  ca_reason :: string
  ca_alert_code :: string
  ca_baseline_categories :: "string list"
  ca_historical_tx_count :: int

definition category_alert_to_dict :: "(scaled \<Rightarrow> string) \<Rightarrow> category_alert \<Rightarrow> json" where
  "category_alert_to_dict money a = JDict
     [(''alert_code'', JStr (ca_alert_code a)), (''tenant_id'', JStr (ca_tenant_id a)),
      (''custodian_id'', JStr (ca_custodian_id a)), (''transaction_id'', JStr (ca_transaction_id a)),
      (''category'', JStr (ca_category a)), (''amount_scaled'', JInt (ca_amount_scaled a)),
      (''amount_formatted'', JStr (money (ca_amount_scaled a))),
      (''anomaly_score'', JFloat (ca_anomaly_score a)), (''reason'', JStr (ca_reason a)),
      (''baseline_categories'', JList (map JStr (ca_baseline_categories a))),
      (''historical_tx_count'', JInt (ca_historical_tx_count a))]"

record spend_ops =
  so_rare :: "int \<times> int \<Rightarrow> bool"
  so_excessive :: "scaled \<Rightarrow> int \<Rightarrow> int \<Rightarrow> bool"
  so_percent :: "int \<times> int \<Rightarrow> string"
  so_amount :: "scaled \<Rightarrow> string"
  so_average :: "int \<Rightarrow> int \<Rightarrow> string"

record category_detector =
  cd_min_baseline_samples :: int
  cd_baselines :: "string \<times> string \<rightharpoonup> baseline"

definition new_category_detector :: "int \<Rightarrow> category_detector" where
  "new_category_detector samples = \<lparr>cd_min_baseline_samples = samples, cd_baselines = Map.empty\<rparr>"

definition baseline_or_empty :: "category_detector \<Rightarrow> string \<times> string \<Rightarrow> baseline" where
  "baseline_or_empty cd key = (case cd_baselines cd key of None \<Rightarrow> empty_baseline | Some b \<Rightarrow> b)"

definition record_baseline :: "string \<Rightarrow> string \<Rightarrow> string \<Rightarrow> scaled \<Rightarrow> category_detector \<Rightarrow> category_detector" where
  "record_baseline tenant custodian category amount cd =
     cd\<lparr>cd_baselines := (cd_baselines cd)((tenant, custodian) \<mapsto>
       baseline_record category amount (baseline_or_empty cd (tenant, custodian)))\<rparr>"

definition bulk_load_baseline ::
  "string \<Rightarrow> string \<Rightarrow> (string \<times> scaled) list \<Rightarrow> category_detector \<Rightarrow> category_detector" where
  "bulk_load_baseline tenant custodian history cd =
     cd\<lparr>cd_baselines := (cd_baselines cd)((tenant, custodian) \<mapsto>
       fold (\<lambda>(category, amount). baseline_record category amount) history
         (baseline_or_empty cd (tenant, custodian)))\<rparr>"

definition evaluate_transaction ::
  "spend_ops \<Rightarrow> string \<Rightarrow> string \<Rightarrow> string \<Rightarrow> string \<Rightarrow> scaled \<Rightarrow> bool \<Rightarrow> category_detector \<Rightarrow>
   category_alert option \<times> category_detector" where
  "evaluate_transaction so tenant custodian tx category amount auto_update cd =
     (let updated = (if auto_update then record_baseline tenant custodian category amount cd else cd)
      in case cd_baselines cd (tenant, custodian) of
           None \<Rightarrow> (None, updated)
         | Some b \<Rightarrow>
           if cb_total_tx_count b < cd_min_baseline_samples cd then (None, updated)
           else
             (let c = norm_category category;
                  alert = \<lparr>ca_tenant_id = tenant, ca_custodian_id = custodian, ca_transaction_id = tx,
                    ca_category = c, ca_amount_scaled = amount, ca_anomaly_score = ''0.9'',
                    ca_reason = ''Unseen category '' @ [CHR 0x27] @ c @ [CHR 0x27] @ '' outside established profile'',
                    ca_alert_code = ''MERCHANT_CATEGORY_ANOMALY'',
                    ca_baseline_categories = sort (map fst (cb_category_counts b)),
                    ca_historical_tx_count = cb_total_tx_count b\<rparr>
              in if map_of (cb_category_counts b) c = None then (Some alert, updated)
                 else
                   (let freq = (case get_category_frequency b c of None \<Rightarrow> (0, 1) | Some q \<Rightarrow> q);
                        spend = count_get (cb_category_spend_scaled b) c;
                        n = count_get (cb_category_counts b) c
                    in if so_rare so freq \<and> so_excessive so amount spend n
                       then (Some (alert\<lparr>ca_anomaly_score := ''0.75'',
                         ca_reason := ''Rare category '' @ [CHR 0x27] @ c @ [CHR 0x27] @ '' (frequency '' @
                           so_percent so freq @ '') with excessive spend ('' @ so_amount so amount @
                           '' vs avg '' @ so_average so spend n @ '')''\<rparr>), updated)
                       else (None, updated))))"

definition clear_profile :: "string \<Rightarrow> string \<Rightarrow> category_detector \<Rightarrow> category_detector" where
  "clear_profile tenant custodian cd = cd\<lparr>cd_baselines := (cd_baselines cd)((tenant, custodian) := None)\<rparr>"

section \<open>The profile is the history\<close>

lemma norm_category_idem [simp]: "norm_category (norm_category c) = norm_category c"
  by (simp add: norm_category_def py_strip_upper)

definition baseline_of :: "(string \<times> scaled) list \<Rightarrow> baseline" where
  "baseline_of history = fold (\<lambda>(category, amount). baseline_record category amount) history empty_baseline"

lemma count_get_update [simp]: "count_get (AList.update k v m) c = (if c = k then v else count_get m c)"
  by (simp add: count_get_def update_conv)

lemma baseline_of_history:
  "cb_total_tx_count (baseline_of h) = int (length h) \<and>
   cb_total_spend_scaled (baseline_of h) = sum_list (map snd h) \<and>
   (\<forall>c. map_of (cb_category_counts (baseline_of h)) c = None \<longleftrightarrow> c \<notin> norm_category ` fst ` set h) \<and>
   (\<forall>c. count_get (cb_category_counts (baseline_of h)) c =
      int (length (filter (\<lambda>(k, a). norm_category k = c) h))) \<and>
   (\<forall>c. count_get (cb_category_spend_scaled (baseline_of h)) c =
      sum_list (map snd (filter (\<lambda>(k, a). norm_category k = c) h)))"
proof (induction h rule: rev_induct)
  case Nil
  then show ?case by (simp add: baseline_of_def empty_baseline_def count_get_def)
next
  case (snoc x h)
  obtain k a where x: "x = (k, a)" by (cases x)
  have "baseline_of (h @ [x]) = baseline_record k a (baseline_of h)" by (simp add: baseline_of_def x)
  with snoc show ?case by (auto simp: baseline_record_def x Let_def update_conv)
qed

text \<open>A custodian with enough history is alerted on exactly the unseen and the rare-and-excessive
  categories: after a history was loaded, a transaction raises no alert below the sample minimum;
  above it, a category that no historical transaction has, up to blanks and case, scores 0.9, and a
  known one raises 0.75 exactly when its share of the history is rare and the amount is excessive
  against the spend and number of that category.\<close>

theorem category_alert_exact:
  assumes "cd_baselines cd (t, u) = None"
  shows "map_option ca_anomaly_score
      (fst (evaluate_transaction so t u tx category amount upd (bulk_load_baseline t u h cd))) =
    (let same = filter (\<lambda>(k, a). norm_category k = norm_category category) h;
         spend = sum_list (map snd same); n = int (length same)
     in if int (length h) < cd_min_baseline_samples cd then None
        else if same = [] then Some ''0.9''
        else if so_rare so (n, int (length h)) \<and> so_excessive so amount spend n then Some ''0.75''
        else None)"
proof -
  let ?b = "baseline_of h"
  note bh = baseline_of_history [of h]
  have b: "cd_baselines (bulk_load_baseline t u h cd) (t, u) = Some ?b"
    using assms by (simp add: bulk_load_baseline_def baseline_of_def baseline_or_empty_def)
  have m: "cd_min_baseline_samples (bulk_load_baseline t u h cd) = cd_min_baseline_samples cd"
    by (simp add: bulk_load_baseline_def)
  have unseen: "map_of (cb_category_counts ?b) (norm_category category) = None \<longleftrightarrow>
      filter (\<lambda>(k, a). norm_category k = norm_category category) h = []"
    unfolding bh [THEN conjunct2, THEN conjunct2, THEN conjunct1, THEN spec]
    by (auto simp: filter_empty_conv image_iff)
  have facts: "cb_total_tx_count ?b = int (length h)"
    "count_get (cb_category_counts ?b) (norm_category category) =
      int (length (filter (\<lambda>(k, a). norm_category k = norm_category category) h))"
    "count_get (cb_category_spend_scaled ?b) (norm_category category) =
      sum_list (map snd (filter (\<lambda>(k, a). norm_category k = norm_category category) h))"
    by (rule bh [THEN conjunct1] bh [THEN conjunct2, THEN conjunct2, THEN conjunct2, THEN conjunct1, THEN spec]
        bh [THEN conjunct2, THEN conjunct2, THEN conjunct2, THEN conjunct2, THEN spec])+
  show ?thesis
  proof (cases "filter (\<lambda>(k, a). norm_category k = norm_category category) h = []")
    case True
    with unseen show ?thesis by (simp add: evaluate_transaction_def b m facts Let_def)
  next
    case False
    then have "h \<noteq> []" by auto
    moreover obtain y where "map_of (cb_category_counts ?b) (norm_category category) = Some y"
      using False unseen by fastforce
    ultimately show ?thesis
      using False by (simp add: evaluate_transaction_def b m facts get_category_frequency_def Let_def)
  qed
qed

definition demo_spend_ops :: spend_ops where
  "demo_spend_ops = \<lparr>so_rare = (\<lambda>(n, m). 10 * n \<le> m), so_excessive = (\<lambda>a s n. a * n > s * 3),
     so_percent = (\<lambda>q. ''p''), so_amount = (\<lambda>a. ''a''), so_average = (\<lambda>s n. ''v'')\<rparr>"

theorem category_alert_exact_witness:
  "map_option ca_anomaly_score (fst (evaluate_transaction demo_spend_ops ''acme'' ''c1'' ''t1'' ''Jewels'' 9 False
     (bulk_load_baseline ''acme'' ''c1'' [('' office '', 5), (''OFFICE'', 7)] (new_category_detector 2)))) = Some ''0.9''"
  by (subst category_alert_exact) (simp_all add: new_category_detector_def, code_simp)

end
