(* ===== verification/Evidence_Sealer.thy ===== *)
theory Evidence_Sealer
  imports Audit_Log Velocity Split_Tx Category_Anomaly
begin

text \<open>
  \<^verbatim>\<open>src/services/fraud/evidence_sealer.py\<close>: fraud evidence packages and their sealing into the audit
  log. SHA-256 in hex is the parameter \<open>sha\<close>; uuid texts and time stamps are arguments.
\<close>

section \<open>Packages\<close>

record evidence_package =
  ep_evidence_id :: string
  ep_incident_type :: string
  ep_tenant_id :: string
  ep_custodians_involved :: "string list"
  ep_transaction_ids :: "string list"
  ep_evidence_payload :: json
  ep_created_at :: string
  ep_package_sha256 :: string

definition strings_json :: "string list \<Rightarrow> json" where
  "strings_json xs = JList (map JStr xs)"

definition package_to_dict :: "evidence_package \<Rightarrow> json" where
  "package_to_dict p = JDict
     [(''evidence_id'', JStr (ep_evidence_id p)), (''incident_type'', JStr (ep_incident_type p)),
      (''tenant_id'', JStr (ep_tenant_id p)),
      (''custodians_involved'', strings_json (ep_custodians_involved p)),
      (''transaction_ids'', strings_json (ep_transaction_ids p)),
      (''evidence_payload'', ep_evidence_payload p), (''created_at'', JStr (ep_created_at p)),
      (''package_sha256'', JStr (ep_package_sha256 p))]"

record sealed_receipt =
  sl_evidence_package :: evidence_package
  sl_audit_entry :: audit_entry

definition receipt_to_dict :: "sealed_receipt \<Rightarrow> json" where
  "receipt_to_dict r = JDict
     [(''evidence_id'', JStr (ep_evidence_id (sl_evidence_package r))),
      (''incident_type'', JStr (ep_incident_type (sl_evidence_package r))),
      (''tenant_id'', JStr (ep_tenant_id (sl_evidence_package r))),
      (''sequence_number'', JInt (ae_sequence_number (sl_audit_entry r))),
      (''current_hash'', JStr (ae_current_hash (sl_audit_entry r))),
      (''prev_hash'', JStr (ae_prev_hash (sl_audit_entry r))),
      (''package_sha256'', JStr (ep_package_sha256 (sl_evidence_package r))),
      (''audit_entry_id'', JStr (ae_entry_id (sl_audit_entry r)))]"

definition EVENT_TYPE :: string where "EVENT_TYPE = ''FRAUD_EVIDENCE_SEALED''"
definition ACTOR_ID :: string where "ACTOR_ID = ''FRAUD_DETECTION_ENGINE''"

definition compute_sha256 :: "(string \<Rightarrow> string) \<Rightarrow> json \<Rightarrow> string" where
  "compute_sha256 sha payload = sha (utf8 (dumps Compact True payload))"

record seal_env =
  se_evidence_uuid :: string
  se_now :: string
  se_audit_uuid :: string
  se_audit_now :: string

definition content_for_hash ::
  "string \<Rightarrow> string \<Rightarrow> string \<Rightarrow> string list \<Rightarrow> string list \<Rightarrow> json \<Rightarrow> string \<Rightarrow> json" where
  "content_for_hash eid incident tenant custodians txs payload ts = JDict
     [(''evidence_id'', JStr eid), (''incident_type'', JStr incident), (''tenant_id'', JStr tenant),
      (''custodians_involved'', strings_json (sort custodians)),
      (''transaction_ids'', strings_json (sort txs)), (''evidence_payload'', payload),
      (''created_at'', JStr ts)]"

definition create_package ::
  "(string \<Rightarrow> string) \<Rightarrow> seal_env \<Rightarrow> string \<Rightarrow> string \<Rightarrow> string list \<Rightarrow> string list \<Rightarrow> json \<Rightarrow> string option \<Rightarrow>
   evidence_package" where
  "create_package sha env incident tenant custodians txs payload evidence_id =
     (let eid = text_or evidence_id (''EV-'' @ py_upper (take 12 (se_evidence_uuid env)))
      in \<lparr>ep_evidence_id = eid, ep_incident_type = incident, ep_tenant_id = tenant,
          ep_custodians_involved = sort custodians, ep_transaction_ids = sort txs,
          ep_evidence_payload = payload, ep_created_at = se_now env,
          ep_package_sha256 = compute_sha256 sha
            (content_for_hash eid incident tenant custodians txs payload (se_now env))\<rparr>)"

section \<open>Sealing\<close>

definition seal_package ::
  "hexmac \<Rightarrow> seal_env \<Rightarrow> evidence_package \<Rightarrow> audit_logger \<Rightarrow> sealed_receipt \<times> audit_logger" where
  "seal_package hx env p lg =
     (case append_event hx (se_audit_uuid env) (se_audit_now env) lg (ep_tenant_id p) EVENT_TYPE ACTOR_ID
             (package_to_dict p) of
        (entry, lg') \<Rightarrow> (\<lparr>sl_evidence_package = p, sl_audit_entry = entry\<rparr>, lg'))"

definition seal_split_transaction_alert ::
  "hexmac \<Rightarrow> (string \<Rightarrow> string) \<Rightarrow> (scaled \<Rightarrow> string) \<Rightarrow> (time \<Rightarrow> string) \<Rightarrow> seal_env \<Rightarrow> split_alert \<Rightarrow>
   audit_logger \<Rightarrow> sealed_receipt \<times> audit_logger" where
  "seal_split_transaction_alert hx sha money isoformat env a lg =
     seal_package hx env (create_package sha env (sa_alert_code a) (sa_tenant_id a)
       (sa_custodians_involved a) (sa_window_transaction_ids a)
       (split_alert_to_dict money isoformat a) None) lg"

definition seal_velocity_alert ::
  "hexmac \<Rightarrow> (string \<Rightarrow> string) \<Rightarrow> (scaled \<Rightarrow> string) \<Rightarrow> (time \<Rightarrow> string) \<Rightarrow> seal_env \<Rightarrow> velocity_alert \<Rightarrow>
   audit_logger \<Rightarrow> sealed_receipt \<times> audit_logger" where
  "seal_velocity_alert hx sha money isoformat env a lg =
     seal_package hx env (create_package sha env (vl_alert_code a) (vl_tenant_id a)
       [vl_custodian_id a] (vl_transaction_ids a) (velocity_to_dict money isoformat a) None) lg"

definition seal_category_alert ::
  "hexmac \<Rightarrow> (string \<Rightarrow> string) \<Rightarrow> (scaled \<Rightarrow> string) \<Rightarrow> seal_env \<Rightarrow> category_alert \<Rightarrow>
   audit_logger \<Rightarrow> sealed_receipt \<times> audit_logger" where
  "seal_category_alert hx sha money env a lg =
     seal_package hx env (create_package sha env (ca_alert_code a) (ca_tenant_id a)
       [ca_custodian_id a] [ca_transaction_id a] (category_alert_to_dict money a) None) lg"

text \<open>The outcome of a verification: the error of a broken chain, a payload that is no JSON
  dictionary, or the answer.\<close>

datatype seal_error = ChainBroken audit_error | PayloadUnreadable

definition verify_sealed_evidence ::
  "hexmac \<Rightarrow> audit_logger \<Rightarrow> sealed_receipt \<Rightarrow> seal_error + bool" where
  "verify_sealed_evidence hx lg r =
     (case audit_verify_integrity hx lg (ep_tenant_id (sl_evidence_package r)) of
        Inl e \<Rightarrow> Inl (ChainBroken e)
      | Inr _ \<Rightarrow>
        (case find (\<lambda>e. ae_entry_id e = ae_entry_id (sl_audit_entry r))
                (get_entries lg (ep_tenant_id (sl_evidence_package r))) of
           None \<Rightarrow> Inr False
         | Some e \<Rightarrow>
             (case loads (ae_payload_json e) of
                Some (JDict kvs) \<Rightarrow>
                  Inr (map_of kvs ''package_sha256'' = Some (JStr (ep_package_sha256 (sl_evidence_package r))))
              | _ \<Rightarrow> Inl PayloadUnreadable)))"

section \<open>What sealing proves\<close>

definition sealing_event :: "seal_env \<Rightarrow> evidence_package \<Rightarrow> audit_event" where
  "sealing_event env p = \<lparr>ev_uuid_hex = se_audit_uuid env, ev_now = se_audit_now env,
     ev_tenant = ep_tenant_id p, ev_type = EVENT_TYPE, ev_actor = ACTOR_ID, ev_payload = package_to_dict p\<rparr>"

lemma seal_package_logs:
  "snd (seal_package hx env p lg) = log_event hx lg (sealing_event env p)"
  "sl_evidence_package (fst (seal_package hx env p lg)) = p"
  by (simp_all add: seal_package_def log_event_def sealing_event_def split: prod.split)

lemma find_first:
  "P x \<Longrightarrow> \<forall>y \<in> set xs. \<not> P y \<Longrightarrow> find P (xs @ x # ys) = Some x"
  by (induction xs) auto

lemma foldl_log_event_appends:
  "\<exists>more. get_entries (foldl (log_event hx) lg evs) t = get_entries lg t @ more"
proof (induction evs rule: rev_induct)
  case (snoc ev evs)
  then obtain more where more: "get_entries (foldl (log_event hx) lg evs) t = get_entries lg t @ more" by blast
  show ?case
  proof (cases "t = ev_tenant ev")
    case True
    obtain e where "get_entries (log_event hx (foldl (log_event hx) lg evs) ev) (ev_tenant ev) =
        get_entries (foldl (log_event hx) lg evs) (ev_tenant ev) @ [e]" by (rule log_event_own)
    with more True show ?thesis by simp
  next
    case False
    with more show ?thesis by (simp add: log_event_other)
  qed
qed simp

lemma package_dict_fields:
  "wf_json (ep_evidence_payload p) \<Longrightarrow>
     \<exists>kvs. loads (dumps Spaced True (package_to_dict p)) = Some (JDict kvs) \<and>
       map_of kvs ''package_sha256'' = Some (JStr (ep_package_sha256 p))"
proof -
  assume wf: "wf_json (ep_evidence_payload p)"
  let ?d = "[(''evidence_id'', JStr (ep_evidence_id p)), (''incident_type'', JStr (ep_incident_type p)),
      (''tenant_id'', JStr (ep_tenant_id p)), (''custodians_involved'', strings_json (ep_custodians_involved p)),
      (''transaction_ids'', strings_json (ep_transaction_ids p)), (''evidence_payload'', ep_evidence_payload p),
      (''created_at'', JStr (ep_created_at p)), (''package_sha256'', JStr (ep_package_sha256 p))]"
  have "wf_json (package_to_dict p)"
    using wf by (simp add: package_to_dict_def strings_json_def list_all_iff)
  then have "loads (dumps Spaced True (package_to_dict p)) =
      Some (JDict (sort_key fst (map (\<lambda>(k, v). (k, sort_json v)) ?d)))"
    by (simp only: loads_dumps package_to_dict_def sort_json.simps if_True)
  moreover have "distinct (map fst (map (\<lambda>(k, v). (k, sort_json v)) ?d))" by simp
  then have "map_of (sort_key fst (map (\<lambda>(k, v). (k, sort_json v)) ?d)) ''package_sha256'' =
      map_of (map (\<lambda>(k, v). (k, sort_json v)) ?d) ''package_sha256''" by (simp only: map_of_sort_key)
  moreover have "map_of (map (\<lambda>(k, v). (k, sort_json v)) ?d) ''package_sha256'' = Some (JStr (ep_package_sha256 p))"
    by simp
  ultimately show ?thesis by metis
qed

text \<open>Sealed evidence stays verifiable: when a package is sealed under an entry id the tenant's log
  does not use yet, then after any further events of any tenants the receipt verifies. The check
  compares the stored package hash only, so a receipt whose package was given other
  transactions, custodians or evidence verifies as well.\<close>

theorem sealed_evidence_verifies:
  assumes "wf_json (ep_evidence_payload p)" "lg = log_all hx secret before"
    and "seal_package hx env p lg = (r, lg1)" "lg2 = foldl (log_event hx) lg1 after"
    and "\<forall>e \<in> set (get_entries lg (ep_tenant_id p)). ae_entry_id e \<noteq> ae_entry_id (sl_audit_entry r)"
  shows "verify_sealed_evidence hx lg2 r = Inr True \<and>
    verify_sealed_evidence hx lg2 (r\<lparr>sl_evidence_package := p\<lparr>ep_transaction_ids := txs,
      ep_custodians_involved := custodians, ep_evidence_payload := payload\<rparr>\<rparr>) = Inr True"
proof -
  let ?t = "ep_tenant_id p"
  have lg1: "lg1 = log_event hx lg (sealing_event env p)" "sl_evidence_package r = p"
    using seal_package_logs [of hx env p lg] assms(3) by simp_all
  have "lg2 = log_all hx secret (before @ [sealing_event env p] @ after)"
    by (simp add: assms(2,4) lg1(1) log_all_def)
  then have intact: "audit_verify_integrity hx lg2 ?t = Inr True"
    using log_all_records [of hx secret] by (simp add: log_records_def audit_verify_entries)
  have entry: "get_entries lg1 ?t = get_entries lg ?t @ [sl_audit_entry r]"
    "ae_payload_json (sl_audit_entry r) = dumps Spaced True (package_to_dict p)"
    using assms(3) by (auto simp: seal_package_def append_event_def get_entries_def Let_def)
  obtain more where "get_entries lg2 ?t = get_entries lg1 ?t @ more"
    using foldl_log_event_appends [of hx lg1 "after" ?t] assms(4) by blast
  then have "get_entries lg2 ?t = get_entries lg ?t @ sl_audit_entry r # more" by (simp add: entry(1))
  then have "find (\<lambda>e. ae_entry_id e = ae_entry_id (sl_audit_entry r)) (get_entries lg2 ?t) =
      Some (sl_audit_entry r)"
    using assms(5) by (simp only:) (rule find_first, simp_all)
  moreover obtain kvs where "loads (ae_payload_json (sl_audit_entry r)) = Some (JDict kvs)"
    "map_of kvs ''package_sha256'' = Some (JStr (ep_package_sha256 p))"
    using package_dict_fields [OF assms(1)] entry(2) by auto
  ultimately show ?thesis
    using intact by (simp add: verify_sealed_evidence_def lg1(2))
qed

definition demo_seal_env :: seal_env where
  "demo_seal_env = \<lparr>se_evidence_uuid = ''0a'', se_now = ''t0'', se_audit_uuid = ''0b'', se_audit_now = ''t1''\<rparr>"

definition demo_package :: evidence_package where
  "demo_package = create_package (\<lambda>m. ''d'') demo_seal_env ''SPLIT'' ''acme'' [''c1''] [''t1''] (JDict []) None"

theorem sealed_evidence_verifies_witness:
  "verify_sealed_evidence demo_hx (snd (seal_package demo_hx demo_seal_env demo_package (log_all demo_hx ''k'' [])))
     ((fst (seal_package demo_hx demo_seal_env demo_package (log_all demo_hx ''k'' [])))
       \<lparr>sl_evidence_package := demo_package\<lparr>ep_transaction_ids := [''t9''], ep_custodians_involved := [''c9''],
         ep_evidence_payload := JNull\<rparr>\<rparr>) = Inr True"
proof -
  have "wf_json (ep_evidence_payload demo_package)" by (simp add: demo_package_def create_package_def Let_def)
  moreover have "get_entries (log_all demo_hx ''k'' []) t = []" for t
    by (simp add: log_all_def new_audit_logger_def get_entries_def)
  ultimately show ?thesis
    using sealed_evidence_verifies [of demo_package "log_all demo_hx ''k'' []" demo_hx "''k''" "[]"
        demo_seal_env "fst (seal_package demo_hx demo_seal_env demo_package (log_all demo_hx ''k'' []))"
        "snd (seal_package demo_hx demo_seal_env demo_package (log_all demo_hx ''k'' []))" _ "[]"]
    by simp
qed

end
