(* ===== verification/Approval_Api.thy ===== *)
theory Approval_Api
  imports Workflow_Service "HOL-Library.Multiset"
begin

text \<open>
  \<^verbatim>\<open>src/api/rest/approval_router.py\<close>: the REST endpoints of the approval workflow and its live
  feed. The web framework is modelled by what the module asks of it: a body that breaks a declared
  constraint is answered 422, an exception the endpoint does not map is answered 500. A connection
  is a number; \<open>aa_tasks\<close> are the broadcasts handed to the event loop and not yet run, \<open>aa_sent\<close> what
  was sent to whom. Whether the calling thread runs an event loop, the clock text, the dollar text
  and the float text are fields of the environment; error details and durations are left out.
\<close>

section \<open>Schemas\<close>

fun state_value :: "approval_state \<Rightarrow> string" where
  "state_value DRAFT = ''DRAFT''"
| "state_value PENDING = ''PENDING''"
| "state_value APPROVED = ''APPROVED''"
| "state_value REJECTED = ''REJECTED''"
| "state_value DISBURSED = ''DISBURSED''"

fun event_value :: "approval_event \<Rightarrow> string" where
  "event_value SUBMIT = ''SUBMIT''"
| "event_value APPROVE = ''APPROVE''"
| "event_value REJECT = ''REJECT''"
| "event_value DISBURSE = ''DISBURSE''"
| "event_value CANCEL = ''CANCEL''"

definition state_of_value :: "string \<Rightarrow> approval_state option" where
  "state_of_value s = find (\<lambda>x. state_value x = s) [DRAFT, PENDING, APPROVED, REJECTED, DISBURSED]"

definition tier_of_value :: "string \<Rightarrow> approval_tier option" where
  "tier_of_value s = find (\<lambda>x. tier_value x = s) [AUTO_APPROVE, MANAGER, FINANCE_DIRECTOR]"

record transition_dto =
  td_transition_id :: string
  td_request_id :: string
  td_tenant_id :: string
  td_from_state :: string
  td_event :: string
  td_to_state :: string
  td_actor_id :: string
  td_notes :: "string option"
  td_timestamp :: time

record request_dto =
  rd_request_id :: string
  rd_tenant_id :: string
  rd_custodian_id :: string
  rd_amount_scaled :: scaled
  rd_amount_formatted :: string
  rd_currency :: string
  rd_description :: string
  rd_required_approval_tier :: string
  rd_state :: string
  rd_created_at :: time
  rd_updated_at :: time
  rd_receipt_metadata :: fields
  rd_audit_trail :: "transition_dto list"

record policy_dto =
  pd_request_id :: string
  pd_amount_scaled :: scaled
  pd_amount_float :: string
  pd_required_tier :: string
  pd_matching_rule :: string
  pd_auto_approved :: bool

record submit_body =
  sb_tenant_id :: string
  sb_custodian_id :: string
  sb_amount_scaled :: scaled
  sb_currency :: string
  sb_description :: string
  sb_receipt_metadata :: "fields option"
  sb_auto_approve_if_eligible :: bool
  sb_notes :: "string option"

record action_body =
  ab_tenant_id :: string
  ab_actor_id :: string
  ab_notes :: string
  ab_actor_role :: "string option"

record disburse_body =
  db_tenant_id :: string
  db_actor_id :: string
  db_notes :: "string option"

record queue_dto =
  qd_tenant_id :: string
  qd_total_matching :: nat
  qd_requests :: "request_dto list"

text \<open>The constraints of the schemas; the validators normalise the currency and the notes.\<close>

definition submit_valid :: "submit_body \<Rightarrow> bool" where
  "submit_valid b =
     (1 \<le> length (sb_tenant_id b) \<and> length (sb_tenant_id b) \<le> 128 \<and>
      1 \<le> length (sb_custodian_id b) \<and> length (sb_custodian_id b) \<le> 128 \<and>
      0 < sb_amount_scaled b \<and>
      length (sb_currency b) = 3 \<and> list_all is_alpha_ascii (sb_currency b) \<and>
      1 \<le> length (sb_description b) \<and> length (sb_description b) \<le> 1000)"

definition submit_normalize_currency :: "submit_body \<Rightarrow> string" where
  "submit_normalize_currency b = py_upper (sb_currency b)"

definition validate_mandatory_notes :: "string \<Rightarrow> string option" where
  "validate_mandatory_notes v = (let stripped = py_strip v in if stripped = [] then None else Some stripped)"

definition action_valid :: "action_body \<Rightarrow> bool" where
  "action_valid b = (1 \<le> length (ab_tenant_id b) \<and> 1 \<le> length (ab_actor_id b))"

definition disburse_valid :: "disburse_body \<Rightarrow> bool" where
  "disburse_valid b = (1 \<le> length (db_tenant_id b) \<and> 1 \<le> length (db_actor_id b))"

section \<open>The router and its live feed\<close>

record approval_api =
  aa_service :: workflow_service
  aa_listener :: nat
  aa_connections :: "nat list"
  aa_tasks :: "json list"
  aa_sent :: "(nat \<times> json) list"

record api_env =
  ae_running :: bool
  ae_now :: string
  ae_money :: "scaled \<Rightarrow> string"
  ae_float :: "scaled \<Rightarrow> string"

definition create_approval_router :: "nat \<Rightarrow> workflow_service \<Rightarrow> approval_api" where
  "create_approval_router cb svc = \<lparr>aa_service = subscribe cb svc, aa_listener = cb,
     aa_connections = [], aa_tasks = [], aa_sent = []\<rparr>"

definition feed_connect :: "nat \<Rightarrow> approval_api \<Rightarrow> approval_api" where
  "feed_connect w st = st\<lparr>aa_connections := aa_connections st @ [w]\<rparr>"

definition feed_disconnect :: "nat \<Rightarrow> approval_api \<Rightarrow> approval_api" where
  "feed_disconnect w st =
     (if w \<in> set (aa_connections st) then st\<lparr>aa_connections := remove1 w (aa_connections st)\<rparr> else st)"

text \<open>\<open>alive w\<close> says that sending to the connection succeeds.\<close>

definition broadcast_json :: "(nat \<Rightarrow> bool) \<Rightarrow> json \<Rightarrow> approval_api \<Rightarrow> approval_api" where
  "broadcast_json alive payload st =
     (let st' = st\<lparr>aa_sent := aa_sent st @
            map (\<lambda>w. (w, payload)) (filter alive (aa_connections st))\<rparr>;
          dead_connections = filter (\<lambda>w. \<not> alive w) (aa_connections st)
      in fold feed_disconnect dead_connections st')"

definition event_dict :: "api_env \<Rightarrow> workflow_event \<Rightarrow> json" where
  "event_dict env ev = JDict
     [(''type'', JStr ''WORKFLOW_EVENT''), (''event_type'', JStr (we_event_type ev)),
      (''tenant_id'', JStr (we_tenant_id ev)), (''request_id'', JStr (we_request_id ev)),
      (''state'', JStr (state_value (we_state ev))), (''tier'', JStr (we_tier ev)),
      (''amount_scaled'', JInt (we_amount_scaled ev)),
      (''amount_formatted'', JStr (ae_money env (we_amount_scaled ev))),
      (''actor_id'', JStr (we_actor_id ev)),
      (''notes'', (case we_notes ev of None \<Rightarrow> JNull | Some n \<Rightarrow> JStr n)),
      (''timestamp'', JStr (ae_now env)), (''payload'', JDict (we_payload ev))]"

text \<open>Without a running loop \<open>get_running_loop\<close> raises, and the event is dropped.\<close>

definition on_workflow_event :: "api_env \<Rightarrow> workflow_event \<Rightarrow> approval_api \<Rightarrow> approval_api" where
  "on_workflow_event env ev st =
     (if ae_running env then st\<lparr>aa_tasks := aa_tasks st @ [event_dict env ev]\<rparr> else st)"

text \<open>A call of the service, and what it broadcast to the listener of the router.\<close>

definition call_service ::
  "api_env \<Rightarrow> (workflow_service \<Rightarrow> 'a \<times> workflow_service) \<Rightarrow> approval_api \<Rightarrow> 'a \<times> approval_api" where
  "call_service env f st =
     (let svc = aa_service st; (r, svc') = f svc;
          news = filter (\<lambda>e. fst e = aa_listener st) (drop (length (ws_delivered svc)) (ws_delivered svc'))
      in (r, fold (\<lambda>e. on_workflow_event env (snd e)) news (st\<lparr>aa_service := svc'\<rparr>)))"

text \<open>The event loop runs the oldest scheduled broadcast.\<close>

definition run_task :: "(nat \<Rightarrow> bool) \<Rightarrow> approval_api \<Rightarrow> approval_api" where
  "run_task alive st =
     (case aa_tasks st of [] \<Rightarrow> st
      | payload # rest \<Rightarrow> broadcast_json alive payload (st\<lparr>aa_tasks := rest\<rparr>))"

section \<open>Endpoints\<close>

definition transition_to_dto :: "transition_record \<Rightarrow> transition_dto" where
  "transition_to_dto rec = \<lparr>td_transition_id = tr_transition_id rec, td_request_id = tr_request_id rec,
     td_tenant_id = tr_tenant_id rec, td_from_state = state_value (tr_from_state rec),
     td_event = event_value (tr_event rec), td_to_state = state_value (tr_to_state rec),
     td_actor_id = tr_actor_id rec, td_notes = tr_notes rec, td_timestamp = tr_timestamp rec\<rparr>"

definition to_response_dto :: "api_env \<Rightarrow> approval_request \<Rightarrow> fields option \<Rightarrow> request_dto" where
  "to_response_dto env req meta = \<lparr>rd_request_id = ar_request_id req, rd_tenant_id = ar_tenant_id req,
     rd_custodian_id = ar_custodian_id req, rd_amount_scaled = ar_amount_scaled req,
     rd_amount_formatted = ae_money env (ar_amount_scaled req), rd_currency = ar_currency req,
     rd_description = ar_description req, rd_required_approval_tier = ar_required_approval_tier req,
     rd_state = state_value (ar_state req), rd_created_at = ar_created_at req,
     rd_updated_at = ar_updated_at req,
     rd_receipt_metadata = (case meta of None \<Rightarrow> [] | Some m \<Rightarrow> m),
     rd_audit_trail = map transition_to_dto (ar_audit_trail req)\<rparr>"

definition to_policy_dto :: "api_env \<Rightarrow> policy_result \<Rightarrow> policy_dto" where
  "to_policy_dto env res = \<lparr>pd_request_id = pe_request_id res, pd_amount_scaled = pe_amount_scaled res,
     pd_amount_float = ae_float env (pe_amount_scaled res),
     pd_required_tier = tier_value (pe_required_tier res), pd_matching_rule = pe_matching_rule res,
     pd_auto_approved = pe_auto_approved res\<rparr>"

fun submit_status :: "service_error \<Rightarrow> nat" where
  "submit_status (TransitionRefused e) = 500"
| "submit_status AuditReasoningMissing = 500"
| "submit_status (RequestNotFound i t) = 500"
| "submit_status (InsufficientApproverAuthority a r t) = 500"
| "submit_status _ = 400"

fun approve_status :: "service_error \<Rightarrow> nat" where
  "approve_status (RequestNotFound i t) = 404"
| "approve_status AuditReasoningMissing = 422"
| "approve_status (InsufficientApproverAuthority a r t) = 403"
| "approve_status (TransitionRefused e) = 409"
| "approve_status _ = 500"

fun reject_status :: "service_error \<Rightarrow> nat" where
  "reject_status (RequestNotFound i t) = 404"
| "reject_status AuditReasoningMissing = 422"
| "reject_status (TransitionRefused e) = 409"
| "reject_status _ = 500"

fun disburse_status :: "service_error \<Rightarrow> nat" where
  "disburse_status (RequestNotFound i t) = 404"
| "disburse_status (TransitionRefused e) = 409"
| "disburse_status _ = 500"

definition rest_submit ::
  "api_env \<Rightarrow> string \<Rightarrow> string \<Rightarrow> string \<Rightarrow> time \<Rightarrow> submit_body \<Rightarrow> approval_api \<Rightarrow>
   (request_dto \<times> policy_dto) http \<times> approval_api" where
  "rest_submit env request_id uid1 uid2 now body st =
     (if \<not> submit_valid body then (HttpError 422, st)
      else case call_service env (\<lambda>svc. submit_request request_id uid1 uid2 now svc (sb_tenant_id body)
             (sb_custodian_id body) (sb_amount_scaled body) (submit_normalize_currency body)
             (sb_description body) (sb_receipt_metadata body) (sb_auto_approve_if_eligible body)
             (sb_notes body)) st of
        (Inl e, st') \<Rightarrow> (HttpError (submit_status e), st')
      | (Inr (req, res), st') \<Rightarrow>
        (HttpOk 201 (to_response_dto env req (sb_receipt_metadata body), to_policy_dto env res), st'))"

definition list_approvals ::
  "api_env \<Rightarrow> string \<Rightarrow> string option \<Rightarrow> string option \<Rightarrow> string option \<Rightarrow> int \<Rightarrow> int \<Rightarrow> approval_api \<Rightarrow>
   queue_dto http" where
  "list_approvals env tenant_id state tier custodian limit offset st =
     (if limit < 1 \<or> 500 < limit \<or> offset < 0 then HttpError 422
      else let dtos = (\<lambda>s t. map (\<lambda>(r, meta). to_response_dto env r (Some meta))
                 (list_requests (aa_service st) tenant_id s t custodian limit offset));
               parsed_state = state_of_value (py_upper (text_or state []));
               parsed_tier = tier_of_value (py_upper (text_or tier []))
      in if text_or state [] \<noteq> [] \<and> parsed_state = None then HttpError 400
         else if text_or tier [] \<noteq> [] \<and> parsed_tier = None then HttpError 400
         else HttpOk 200 \<lparr>qd_tenant_id = tenant_id,
           qd_total_matching = length (dtos parsed_state parsed_tier),
           qd_requests = dtos parsed_state parsed_tier\<rparr>)"

definition get_approval_details ::
  "api_env \<Rightarrow> string \<Rightarrow> string \<Rightarrow> approval_api \<Rightarrow> request_dto http" where
  "get_approval_details env request_id tenant_id st =
     (case get_request (aa_service st) tenant_id request_id of
        Inl e \<Rightarrow> HttpError 404
      | Inr (req, meta) \<Rightarrow> HttpOk 200 (to_response_dto env req (Some meta)))"

text \<open>The end of the three deciding endpoints: the mapped error, or the request with its receipt.\<close>

definition decision_response ::
  "api_env \<Rightarrow> (service_error \<Rightarrow> nat) \<Rightarrow> string \<Rightarrow> string \<Rightarrow> (service_error + approval_request) \<times> approval_api \<Rightarrow>
   request_dto http \<times> approval_api" where
  "decision_response env status tenant_id request_id out =
     (case out of
        (Inl e, st') \<Rightarrow> (HttpError (status e), st')
      | (Inr req, st') \<Rightarrow>
        (case get_request (aa_service st') tenant_id request_id of
           Inl e \<Rightarrow> (HttpError 500, st')
         | Inr (_, meta) \<Rightarrow> (HttpOk 200 (to_response_dto env req (Some meta)), st')))"

definition rest_approve ::
  "api_env \<Rightarrow> string \<Rightarrow> time \<Rightarrow> string \<Rightarrow> action_body \<Rightarrow> approval_api \<Rightarrow> request_dto http \<times> approval_api" where
  "rest_approve env uid now request_id action st =
     (case validate_mandatory_notes (ab_notes action) of
        None \<Rightarrow> (HttpError 422, st)
      | Some nts \<Rightarrow>
        (if \<not> action_valid action then (HttpError 422, st)
         else decision_response env approve_status (ab_tenant_id action) request_id
           (call_service env (\<lambda>svc. approve_request uid now svc (ab_tenant_id action) request_id
              (ab_actor_id action) nts (ab_actor_role action)) st)))"

definition rest_reject ::
  "api_env \<Rightarrow> string \<Rightarrow> time \<Rightarrow> string \<Rightarrow> action_body \<Rightarrow> approval_api \<Rightarrow> request_dto http \<times> approval_api" where
  "rest_reject env uid now request_id action st =
     (case validate_mandatory_notes (ab_notes action) of
        None \<Rightarrow> (HttpError 422, st)
      | Some nts \<Rightarrow>
        (if \<not> action_valid action then (HttpError 422, st)
         else decision_response env reject_status (ab_tenant_id action) request_id
           (call_service env (\<lambda>svc. reject_request uid now svc (ab_tenant_id action) request_id
              (ab_actor_id action) nts (ab_actor_role action)) st)))"

definition rest_disburse ::
  "api_env \<Rightarrow> string \<Rightarrow> time \<Rightarrow> string \<Rightarrow> disburse_body \<Rightarrow> approval_api \<Rightarrow> request_dto http \<times> approval_api" where
  "rest_disburse env uid now request_id action st =
     (if \<not> disburse_valid action then (HttpError 422, st)
      else decision_response env disburse_status (db_tenant_id action) request_id
        (call_service env (\<lambda>svc. disburse_request uid now svc (db_tenant_id action) request_id
           (db_actor_id action) (db_notes action)) st))"

section \<open>The web socket\<close>

text \<open>What \<open>receive_json\<close> yields: a message, with whether a reply to it can be sent, the end of the
  connection, or any other exception.\<close>

datatype ws_input = WsMessage json bool | WsDisconnect | WsFailure

definition connection_ack :: "string \<Rightarrow> json" where
  "connection_ack now = JDict [(''type'', JStr ''CONNECTION_ESTABLISHED''),
     (''message'', JStr ''Connected to PettyFlow Real-Time Approval Live Feed''),
     (''timestamp'', JStr now)]"

definition pong :: "string \<Rightarrow> json" where
  "pong now = JDict [(''type'', JStr ''PONG''), (''timestamp'', JStr now)]"

text \<open>The upper-cased type of a message, when reading it does not raise.\<close>

fun message_type :: "json \<Rightarrow> string option" where
  "message_type (JDict m) =
     (case map_of m ''type'' of None \<Rightarrow> Some [] | Some (JStr s) \<Rightarrow> Some (py_upper s) | _ \<Rightarrow> None)"
| "message_type _ = None"

text \<open>The session is open until it answers \<open>False\<close>. The acknowledgement is sent before the \<open>try\<close>
  block, so a failure to send it leaves the connection registered.\<close>

definition ws_open :: "string \<Rightarrow> bool \<Rightarrow> nat \<Rightarrow> approval_api \<Rightarrow> bool \<times> approval_api" where
  "ws_open now sendable w st =
     (let st' = feed_connect w st
      in if sendable then (True, st'\<lparr>aa_sent := aa_sent st' @ [(w, connection_ack now)]\<rparr>)
         else (False, st'))"

fun ws_receive :: "string \<Rightarrow> nat \<Rightarrow> ws_input \<Rightarrow> approval_api \<Rightarrow> bool \<times> approval_api" where
  "ws_receive now w WsDisconnect st = (False, feed_disconnect w st)"
| "ws_receive now w WsFailure st = (False, feed_disconnect w st)"
| "ws_receive now w (WsMessage j sendable) st =
     (case message_type j of
        None \<Rightarrow> (False, feed_disconnect w st)
      | Some t \<Rightarrow>
        (if t = ''PING'' then
           (if sendable then (True, st\<lparr>aa_sent := aa_sent st @ [(w, pong now)]\<rparr>)
            else (False, feed_disconnect w st))
         else (True, st)))"

text \<open>The inputs of a session are served one after the other; broadcasts between them are not interleaved, so what
  is sent to a connection is listed by session and by broadcast.\<close>

fun websocket_live_feed :: "string \<Rightarrow> nat \<Rightarrow> ws_input list \<Rightarrow> bool \<times> approval_api \<Rightarrow> bool \<times> approval_api" where
  "websocket_live_feed now w [] s = s"
| "websocket_live_feed now w (i # is) (True, st) = websocket_live_feed now w is (ws_receive now w i st)"
| "websocket_live_feed now w (i # is) (False, st) = (False, st)"

section \<open>What an endpoint answers\<close>

lemma fold_events [simp]:
  "fold (\<lambda>e. on_workflow_event env (snd e)) es st =
   (if ae_running env then st\<lparr>aa_tasks := aa_tasks st @ map (\<lambda>e. event_dict env (snd e)) es\<rparr> else st)"
  by (induction es arbitrary: st) (simp_all add: on_workflow_event_def)

lemma call_service_simps [simp]:
  "fst (call_service env f st) = fst (f (aa_service st))"
  "aa_service (snd (call_service env f st)) = snd (f (aa_service st))"
  "aa_connections (snd (call_service env f st)) = aa_connections st"
  "aa_sent (snd (call_service env f st)) = aa_sent st"
  "aa_listener (snd (call_service env f st)) = aa_listener st"
  by (simp_all add: call_service_def Let_def split: prod.split)

lemma call_service_tasks:
  "aa_tasks (snd (call_service env f st)) = aa_tasks st @ (if ae_running env then
     map (\<lambda>e. event_dict env (snd e)) (filter (\<lambda>e. fst e = aa_listener st)
       (drop (length (ws_delivered (aa_service st))) (ws_delivered (snd (f (aa_service st)))))) else [])"
  by (simp add: call_service_def Let_def split: prod.split)

lemma call_service_kept:
  "snd (f (aa_service st)) = aa_service st \<Longrightarrow> call_service env f st = (fst (f (aa_service st)), st)"
  by (cases st; cases "f (aa_service st)") (simp add: call_service_def)

text \<open>The three decisions of the service, by what they find.\<close>

lemma apply_decision_outcome:
  "fst (apply_decision uid now svc t i actor nts ev check ety pl) =
     (case map_of (ws_requests svc) (t, i) of
        None \<Rightarrow> Inl (RequestNotFound i t)
      | Some r \<Rightarrow> (case check r of Inl e \<Rightarrow> Inl e
        | Inr _ \<Rightarrow> (case table_step (ar_state r) ev of
            None \<Rightarrow> Inl (TransitionRefused (InvalidStateTransition (ar_state r) ev (ar_request_id r)))
          | Some s \<Rightarrow> Inr ((snd (transition uid now ev actor (Some nts) r))\<lparr>ar_updated_at := now\<rparr>))))"
  by (auto simp: apply_decision_def transition_def table_step_def Let_def split: option.splits sum.splits)

lemma apply_decision_failed:
  "fst (apply_decision uid now svc t i actor nts ev check ety pl) = Inl e \<Longrightarrow>
   snd (apply_decision uid now svc t i actor nts ev check ety pl) = svc"
  by (auto simp: apply_decision_def transition_def Let_def split: option.splits sum.splits)

lemma apply_decision_done:
  assumes "fst (apply_decision uid now svc t i actor nts ev check ety pl) = Inr r'"
  shows "map_of (ws_requests (snd (apply_decision uid now svc t i actor nts ev check ety pl))) (t, i) = Some r'"
    and "ws_metadata (snd (apply_decision uid now svc t i actor nts ev check ety pl)) = ws_metadata svc"
    and "ws_delivered (snd (apply_decision uid now svc t i actor nts ev check ety pl)) = ws_delivered svc @
      map (\<lambda>cb. (cb, \<lparr>we_event_type = ety, we_tenant_id = t, we_request_id = i, we_state = ar_state r',
        we_tier = ar_required_approval_tier r', we_amount_scaled = ar_amount_scaled r',
        we_actor_id = actor, we_notes = Some nts, we_payload = pl\<rparr>)) (ws_subscribers svc)"
  using assms
  by (auto simp: apply_decision_def transition_def broadcast_def Let_def update_conv split: option.splits sum.splits)

lemma decision_response_state [simp]: "snd (decision_response env status t i out) = snd out"
  by (auto simp: decision_response_def split: prod.splits sum.splits)

text \<open>An endpoint around a decision: the status of each refusal, which changes nothing, and the
  moved request together with its receipt otherwise.\<close>

lemma decision_response_of:
  assumes d: "f = (\<lambda>svc. apply_decision uid now svc (py_strip t) (py_strip i) actor nts ev check ety pl)"
  shows "decision_response env status t i (call_service env f st) =
    (case fst (f (aa_service st)) of
       Inl e \<Rightarrow> (HttpError (status e), st)
     | Inr r \<Rightarrow> (HttpOk 200 (to_response_dto env r
         (Some (request_metadata (aa_service st) (py_strip t, py_strip i)))), snd (call_service env f st)))"
proof (cases "fst (f (aa_service st))")
  case (Inl e)
  then have "call_service env f st = (Inl e, st)"
    using apply_decision_failed by (subst call_service_kept) (auto simp: d)
  with Inl show ?thesis by (simp add: decision_response_def)
next
  case (Inr r)
  then have "get_request (aa_service (snd (call_service env f st))) t i =
      Inr (r, request_metadata (aa_service st) (py_strip t, py_strip i))"
    using apply_decision_done [of uid now "aa_service st" "py_strip t" "py_strip i" actor nts ev check ety pl r]
    by (simp add: get_request_def request_metadata_def d)
  moreover obtain st' where "call_service env f st = (Inr r, st')"
    using Inr call_service_simps(1) by (metis prod.collapse)
  ultimately show ?thesis using Inr by (simp add: decision_response_def)
qed

text \<open>The status of an answer, with the state of the request when there is one.\<close>

fun answer :: "request_dto http \<Rightarrow> nat \<times> string option" where
  "answer (HttpOk n d) = (n, Some (rd_state d))"
| "answer (HttpError n) = (n, None)"

lemma table_step_PENDING: "table_step s APPROVE = (if s = PENDING then Some APPROVED else None)"
  "table_step s REJECT = (if s = PENDING then Some REJECTED else None)"
  "table_step s DISBURSE = (if s = APPROVED then Some DISBURSED else None)"
  by (cases s; simp)+

lemma moved_state: "table_step (ar_state r) ev = Some s \<Longrightarrow>
  ar_state (snd (transition uid now ev actor nts r)) = s"
  by (simp add: transition_def table_step_def Let_def)

lemma role_check:
  "(case actor_role of None \<Rightarrow> Inr ()
     | Some role \<Rightarrow> if role = [] then Inr () else verify_role_authority tier role actor) =
   (if text_or actor_role [] \<noteq> [] \<and> get_or role_tier_map (py_upper (py_strip (text_or actor_role []))) 0 <
         get_or tier_hierarchy tier 1
    then Inl (InsufficientApproverAuthority actor (text_or actor_role []) tier) else Inr ())"
  by (simp add: verify_role_authority_def text_or_def Let_def split: option.split)

lemma decision_answer:
  assumes "f = (\<lambda>svc. apply_decision uid now svc (py_strip t) (py_strip i) actor nts ev check ety pl)"
  shows "answer (fst (decision_response env status t i (call_service env f st))) =
      (case map_of (ws_requests (aa_service st)) (py_strip t, py_strip i) of
         None \<Rightarrow> (status (RequestNotFound (py_strip i) (py_strip t)), None)
       | Some r \<Rightarrow> (case check r of Inl e \<Rightarrow> (status e, None)
         | Inr _ \<Rightarrow> (case table_step (ar_state r) ev of
             None \<Rightarrow> (status (TransitionRefused (InvalidStateTransition (ar_state r) ev (ar_request_id r))), None)
           | Some s \<Rightarrow> (200, Some (state_value s)))))"
    and "snd (decision_response env status t i (call_service env f st)) = st \<or>
      fst (answer (fst (decision_response env status t i (call_service env f st)))) = 200"
  unfolding decision_response_of [OF assms]
  by (auto simp: assms apply_decision_outcome to_response_dto_def moved_state simp del: decision_response_state
      split: option.split sum.split)

lemma blank_actor:
  "decision_response env status t i (call_service env (\<lambda>svc. (Inl e, svc)) st) = (HttpError (status e), st)"
  by (simp add: call_service_kept decision_response_def)

lemma rest_approve_eq:
  "rest_approve env uid now i b st =
     (if py_strip (ab_notes b) = [] \<or> ab_tenant_id b = [] \<or> ab_actor_id b = [] then (HttpError 422, st)
      else if py_strip (ab_actor_id b) = [] then (HttpError 500, st)
      else decision_response env approve_status (ab_tenant_id b) i
        (call_service env (\<lambda>svc. apply_decision uid now svc (py_strip (ab_tenant_id b)) (py_strip i)
           (py_strip (ab_actor_id b)) (py_strip (ab_notes b)) APPROVE
           (\<lambda>r. if text_or (ab_actor_role b) [] \<noteq> [] \<and>
                get_or role_tier_map (py_upper (py_strip (text_or (ab_actor_role b) []))) 0 <
                get_or tier_hierarchy (ar_required_approval_tier r) 1
              then Inl (InsufficientApproverAuthority (py_strip (ab_actor_id b))
                (text_or (ab_actor_role b) []) (ar_required_approval_tier r)) else Inr ())
           ''REQUEST_APPROVED'' [(''actor_role'', JStr (text_or (ab_actor_role b) []))]) st))"
  unfolding rest_approve_def approve_request_def role_check
  by (simp add: validate_mandatory_notes_def action_valid_def Suc_le_eq blank_actor Let_def)

lemma rest_reject_eq:
  "rest_reject env uid now i b st =
     (if py_strip (ab_notes b) = [] \<or> ab_tenant_id b = [] \<or> ab_actor_id b = [] then (HttpError 422, st)
      else if py_strip (ab_actor_id b) = [] then (HttpError 500, st)
      else decision_response env reject_status (ab_tenant_id b) i
        (call_service env (\<lambda>svc. apply_decision uid now svc (py_strip (ab_tenant_id b)) (py_strip i)
           (py_strip (ab_actor_id b)) (py_strip (ab_notes b)) REJECT (\<lambda>_. Inr ())
           ''REQUEST_REJECTED'' [(''actor_role'', JStr (text_or (ab_actor_role b) []))]) st))"
  unfolding rest_reject_def reject_request_def
  by (simp add: validate_mandatory_notes_def action_valid_def Suc_le_eq blank_actor Let_def)

lemma rest_disburse_eq:
  "rest_disburse env uid now i d st =
     (if db_tenant_id d = [] \<or> db_actor_id d = [] then (HttpError 422, st)
      else if py_strip (db_actor_id d) = [] then (HttpError 500, st)
      else decision_response env disburse_status (db_tenant_id d) i
        (call_service env (\<lambda>svc. apply_decision uid now svc (py_strip (db_tenant_id d)) (py_strip i)
           (py_strip (db_actor_id d)) (py_strip (text_or (db_notes d) ''Funds disbursed by finance custodian''))
           DISBURSE (\<lambda>_. Inr ()) ''REQUEST_DISBURSED'' []) st))"
  unfolding rest_disburse_def disburse_request_def
  by (simp add: disburse_valid_def Suc_le_eq blank_actor Let_def)

lemmas endpoint_eqs = rest_approve_eq rest_reject_eq rest_disburse_eq

text \<open>C26. The three deciding endpoints answer by a table: 422 for a body without tenant, actor or (when
  deciding) reason; 500, since nothing maps it, for an actor of blanks; 404 for a request the tenant
  does not have; 403 for a named role below the required tier; 409 for a request that is not in the
  state the decision starts from; else 200 with the request in its new state. Only a 200 changes
  anything.\<close>

theorem decision_status_table:
  shows "answer (fst (rest_approve env uid now i b st)) =
      (if py_strip (ab_notes b) = [] \<or> ab_tenant_id b = [] \<or> ab_actor_id b = [] then (422, None)
       else if py_strip (ab_actor_id b) = [] then (500, None)
       else case map_of (ws_requests (aa_service st)) (py_strip (ab_tenant_id b), py_strip i) of
         None \<Rightarrow> (404, None)
       | Some r \<Rightarrow> if text_or (ab_actor_role b) [] \<noteq> [] \<and>
             get_or role_tier_map (py_upper (py_strip (text_or (ab_actor_role b) []))) 0 <
             get_or tier_hierarchy (ar_required_approval_tier r) 1 then (403, None)
           else if ar_state r = PENDING then (200, Some ''APPROVED'') else (409, None)) \<and>
    answer (fst (rest_reject env uid now i b st)) =
      (if py_strip (ab_notes b) = [] \<or> ab_tenant_id b = [] \<or> ab_actor_id b = [] then (422, None)
       else if py_strip (ab_actor_id b) = [] then (500, None)
       else case map_of (ws_requests (aa_service st)) (py_strip (ab_tenant_id b), py_strip i) of
         None \<Rightarrow> (404, None)
       | Some r \<Rightarrow> if ar_state r = PENDING then (200, Some ''REJECTED'') else (409, None)) \<and>
    answer (fst (rest_disburse env uid now i d st)) =
      (if db_tenant_id d = [] \<or> db_actor_id d = [] then (422, None)
       else if py_strip (db_actor_id d) = [] then (500, None)
       else case map_of (ws_requests (aa_service st)) (py_strip (db_tenant_id d), py_strip i) of
         None \<Rightarrow> (404, None)
       | Some r \<Rightarrow> if ar_state r = APPROVED then (200, Some ''DISBURSED'') else (409, None)) \<and>
    (snd (rest_approve env uid now i b st) = st \<or> fst (answer (fst (rest_approve env uid now i b st))) = 200) \<and>
    (snd (rest_reject env uid now i b st) = st \<or> fst (answer (fst (rest_reject env uid now i b st))) = 200) \<and>
    (snd (rest_disburse env uid now i d st) = st \<or> fst (answer (fst (rest_disburse env uid now i d st))) = 200)"
proof (intro conjI)
  show "snd (rest_approve env uid now i b st) = st \<or> fst (answer (fst (rest_approve env uid now i b st))) = 200"
    by (simp add: rest_approve_eq decision_answer(2) [OF refl] del: decision_response_state)
  show "snd (rest_reject env uid now i b st) = st \<or> fst (answer (fst (rest_reject env uid now i b st))) = 200"
    by (simp add: rest_reject_eq decision_answer(2) [OF refl] del: decision_response_state)
  show "snd (rest_disburse env uid now i d st) = st \<or> fst (answer (fst (rest_disburse env uid now i d st))) = 200"
    by (simp add: rest_disburse_eq decision_answer(2) [OF refl] del: decision_response_state)
qed (simp_all add: endpoint_eqs decision_answer(1) [OF refl] table_step_PENDING split: option.split)

section \<open>The queue in pages\<close>






text \<open>\<open>total_matching\<close> is the length of the page, not the number of matches.\<close>

lemma total_matching_is_the_page:
  "list_approvals env t s ti c l k st = HttpOk n q \<Longrightarrow> qd_total_matching q = length (qd_requests q)"
  by (auto simp: list_approvals_def Let_def split: if_splits)


section \<open>The live feed\<close>

lemma disconnect_all:
  "fold feed_disconnect ws st = st\<lparr>aa_connections := fold remove1 ws (aa_connections st)\<rparr>"
  by (induction ws arbitrary: st) (simp_all add: feed_disconnect_def remove1_idem)

lemma remove1_dead:
  "distinct cs \<Longrightarrow> fold remove1 ws cs = filter (\<lambda>w. w \<notin> set ws) cs"
proof (induction ws arbitrary: cs)
  case (Cons w ws)
  then show ?case by (auto simp: distinct_remove1_removeAll removeAll_filter_not_eq intro!: filter_cong)
qed simp

lemma broadcast_json_alt:
  assumes "distinct (aa_connections st)"
  shows "broadcast_json alive p st = st\<lparr>aa_sent := aa_sent st @ map (\<lambda>w. (w, p)) (filter alive (aa_connections st)),
    aa_connections := filter alive (aa_connections st)\<rparr>"
proof -
  have "filter (\<lambda>w. w \<notin> set (filter (\<lambda>w. \<not> alive w) (aa_connections st))) (aa_connections st) =
      filter alive (aa_connections st)" by (rule filter_cong) auto
  with assms show ?thesis by (simp add: broadcast_json_def Let_def disconnect_all remove1_dead)
qed

lemma filter_single: "distinct xs \<Longrightarrow> x \<in> set xs \<Longrightarrow> filter (\<lambda>e. fst e = x) (map (\<lambda>cb. (cb, ev)) xs) = [(x, ev)]"
  by (induction xs) (auto simp: filter_map comp_def filter_empty_conv)

text \<open>The live feed is not scoped by tenant, and silent for the endpoints. When an approval
  succeeds in a thread that runs an event loop, exactly one message is scheduled; running it sends
  the event, with the tenant's id, actor and reason, to every live connection whoever opened it, and
  drops the others. In a thread without a loop, which is where the framework runs the synchronous
  endpoints, nothing is scheduled and no connection ever hears of the approval.\<close>

theorem live_feed_unscoped:
  assumes ok: "fst (rest_approve env uid now i b st) = HttpOk 200 d"
    and st: "aa_tasks st = []" "distinct (aa_connections st)"
      "distinct (ws_subscribers (aa_service st))" "aa_listener st \<in> set (ws_subscribers (aa_service st))"
  defines "later \<equiv> \<lambda>alive. run_task alive (snd (rest_approve env uid now i b st))"
  shows "if ae_running env
    then \<exists>payload. payload = JDict [(''type'', JStr ''WORKFLOW_EVENT''), (''event_type'', JStr ''REQUEST_APPROVED''),
        (''tenant_id'', JStr (py_strip (ab_tenant_id b))), (''request_id'', JStr (py_strip i)),
        (''state'', JStr ''APPROVED''), (''tier'', JStr (rd_required_approval_tier d)),
        (''amount_scaled'', JInt (rd_amount_scaled d)), (''amount_formatted'', JStr (rd_amount_formatted d)),
        (''actor_id'', JStr (py_strip (ab_actor_id b))), (''notes'', JStr (py_strip (ab_notes b))),
        (''timestamp'', JStr (ae_now env)),
        (''payload'', JDict [(''actor_role'', JStr (text_or (ab_actor_role b) []))])] \<and>
      aa_sent (later alive) = aa_sent st @ map (\<lambda>w. (w, payload)) (filter alive (aa_connections st)) \<and>
      aa_connections (later alive) = filter alive (aa_connections st) \<and> aa_tasks (later alive) = []
    else aa_sent (later alive) = aa_sent st \<and> aa_connections (later alive) = aa_connections st \<and> aa_tasks (later alive) = []"
proof -
  let ?f = "\<lambda>svc. apply_decision uid now svc (py_strip (ab_tenant_id b)) (py_strip i)
      (py_strip (ab_actor_id b)) (py_strip (ab_notes b)) APPROVE
      (\<lambda>r. if text_or (ab_actor_role b) [] \<noteq> [] \<and>
           get_or role_tier_map (py_upper (py_strip (text_or (ab_actor_role b) []))) 0 <
           get_or tier_hierarchy (ar_required_approval_tier r) 1
         then Inl (InsufficientApproverAuthority (py_strip (ab_actor_id b))
           (text_or (ab_actor_role b) []) (ar_required_approval_tier r)) else Inr ())
      ''REQUEST_APPROVED'' [(''actor_role'', JStr (text_or (ab_actor_role b) []))]"
  have eq: "rest_approve env uid now i b st =
      decision_response env approve_status (ab_tenant_id b) i (call_service env ?f st)"
    using ok unfolding rest_approve_eq by (simp only: split: if_splits) simp_all
  obtain r where r: "fst (?f (aa_service st)) = Inr r"
      "d = to_response_dto env r (Some (request_metadata (aa_service st) (py_strip (ab_tenant_id b), py_strip i)))"
    using ok unfolding eq decision_response_of [OF refl] by (auto split: sum.splits)
  have "ar_state r = APPROVED"
    using r(1) unfolding apply_decision_outcome table_step_PENDING
    by (auto simp: moved_state table_step_PENDING split: option.splits sum.splits if_splits)
  let ?ev = "\<lparr>we_event_type = ''REQUEST_APPROVED'', we_tenant_id = py_strip (ab_tenant_id b),
    we_request_id = py_strip i, we_state = APPROVED, we_tier = ar_required_approval_tier r,
    we_amount_scaled = ar_amount_scaled r, we_actor_id = py_strip (ab_actor_id b),
    we_notes = Some (py_strip (ab_notes b)),
    we_payload = [(''actor_role'', JStr (text_or (ab_actor_role b) []))]\<rparr>"
  let ?st = "snd (rest_approve env uid now i b st)"
  have tasks: "aa_tasks ?st = (if ae_running env then [event_dict env ?ev] else [])"
    unfolding eq decision_response_state call_service_tasks apply_decision_done(3) [OF r(1)]
    using st \<open>ar_state r = APPROVED\<close> by (simp add: filter_single)
  have "aa_connections ?st = aa_connections st" "aa_sent ?st = aa_sent st" by (simp_all add: eq)
  with tasks st(2) show ?thesis
    by (simp add: later_def run_task_def broadcast_json_alt event_dict_def r(2) to_response_dto_def)
qed

section \<open>A web socket session\<close>

text \<open>The inputs that keep a session open, and the pings among them.\<close>

fun keeps_open :: "ws_input \<Rightarrow> bool" where
  "keeps_open (WsMessage j sendable) =
     (case message_type j of None \<Rightarrow> False | Some t \<Rightarrow> t = ''PING'' \<longrightarrow> sendable)"
| "keeps_open _ = False"

fun is_ping :: "ws_input \<Rightarrow> bool" where
  "is_ping (WsMessage j sendable) = (message_type j = Some ''PING'')"
| "is_ping _ = False"

lemma receive_kept:
  "keeps_open i \<Longrightarrow> ws_receive now w i st =
     (True, st\<lparr>aa_sent := aa_sent st @ (if is_ping i then [(w, pong now)] else [])\<rparr>)"
  by (cases i) (auto split: option.splits)

lemma receive_ended: "\<not> keeps_open i \<Longrightarrow> ws_receive now w i st = (False, feed_disconnect w st)"
  by (cases i) (auto split: option.splits)

lemma feed_closed: "websocket_live_feed now w is (False, st) = (False, st)"
  by (cases "is") auto

lemma feed_runs:
  "websocket_live_feed now w is (True, st) =
     (list_all keeps_open is,
      (if list_all keeps_open is then id else feed_disconnect w)
        (st\<lparr>aa_sent := aa_sent st @ map (\<lambda>_. (w, pong now)) (filter is_ping (takeWhile keeps_open is))\<rparr>))"
proof (induction "is" arbitrary: st)
  case (Cons i "is")
  show ?case
  proof (cases "keeps_open i")
    case True
    then show ?thesis by (simp add: receive_kept Cons)
  next
    case False
    then show ?thesis by (simp add: receive_ended feed_closed)
  qed
qed simp

text \<open>C28. In a session every ping is answered, in order, by one pong, and other well-formed messages by
  nothing, until the first input that ends it: the closing of the connection, an exception, a
  message whose type cannot be read, or a pong that cannot be sent. The session then takes its
  connection, and only its own, off the list; until then the connection stays registered.\<close>

theorem pings_answered:
  assumes "w \<notin> set (aa_connections st)"
  shows "websocket_live_feed now w is (ws_open now True w st) =
    (list_all keeps_open is,
     st\<lparr>aa_connections := aa_connections st @ (if list_all keeps_open is then [w] else []),
        aa_sent := aa_sent st @ (w, connection_ack now) #
          map (\<lambda>_. (w, pong now)) (filter is_ping (takeWhile keeps_open is))\<rparr>)"
proof -
  have "remove1 w (aa_connections st @ [w]) = aa_connections st"
    using assms by (simp add: remove1_append)
  then show ?thesis
    by (simp add: ws_open_def feed_connect_def Let_def feed_runs feed_disconnect_def)
qed

section \<open>Every answer is well typed\<close>

datatype rest_call =
    PostSubmit string string string time submit_body
  | PostApprove string time string action_body
  | PostReject string time string action_body
  | PostDisburse string time string disburse_body
  | RunTask "nat \<Rightarrow> bool"
  | Session string nat "ws_input list"

fun serve :: "api_env \<Rightarrow> rest_call \<Rightarrow> approval_api \<Rightarrow> approval_api" where
  "serve env (PostSubmit rid u1 u2 now b) st = snd (rest_submit env rid u1 u2 now b st)"
| "serve env (PostApprove uid now i b) st = snd (rest_approve env uid now i b st)"
| "serve env (PostReject uid now i b) st = snd (rest_reject env uid now i b st)"
| "serve env (PostDisburse uid now i d) st = snd (rest_disburse env uid now i d st)"
| "serve env (RunTask alive) st = run_task alive st"
| "serve env (Session now w is) st = snd (websocket_live_feed now w is (ws_open now True w st))"

text \<open>What the response schema and the enumerations promise of a request.\<close>

definition well_typed_dto :: "request_dto \<Rightarrow> bool" where
  "well_typed_dto d \<longleftrightarrow>
     (\<exists>s. state_of_value (rd_state d) = Some s \<and> s \<noteq> DRAFT) \<and>
     tier_of_value (rd_required_approval_tier d) \<noteq> None \<and>
     0 < rd_amount_scaled d \<and> length (rd_currency d) = 3 \<and> list_all is_upper_ascii (rd_currency d) \<and>
     rd_audit_trail d \<noteq> [] \<and> td_to_state (last (rd_audit_trail d)) = rd_state d"

definition stored_typed :: "(string \<times> string) \<times> approval_request \<Rightarrow> bool" where
  "stored_typed e \<longleftrightarrow> tier_of_value (ar_required_approval_tier (snd e)) \<noteq> None \<and>
     length (ar_currency (snd e)) = 3 \<and> list_all is_upper_ascii (ar_currency (snd e))"

definition api_typed :: "approval_api \<Rightarrow> bool" where
  "api_typed st \<longleftrightarrow> service_ok (aa_service st) \<and> (\<forall>e \<in> set (ws_requests (aa_service st)). stored_typed e)"

lemma state_of_state_value [simp]: "state_of_value (state_value s) = Some s"
  by (cases s) (simp_all add: state_of_value_def)

lemma tier_of_tier_value [simp]: "tier_of_value (tier_value t) = Some t"
  by (cases t) (simp_all add: tier_of_value_def)

lemma alpha_facts:
  "is_alpha_ascii c \<Longrightarrow> \<not> is_space c" "is_alpha_ascii c \<Longrightarrow> is_upper_ascii (upper_char c)"
  by (auto simp: is_alpha_ascii_def is_space_def is_lower_ascii_def is_upper_ascii_def char_code_upper_char Let_def)

lemma strip_alpha: "list_all is_alpha_ascii s \<Longrightarrow> py_strip s = s"
proof -
  assume "list_all is_alpha_ascii s"
  then have "\<forall>c \<in> set s. \<not> is_space c" using alpha_facts(1) by (auto simp: list_all_iff)
  then have "dropWhile is_space s = s" "dropWhile is_space (rev s) = rev s"
    by (auto intro!: dropWhile_idle simp: hd_rev)
  then show ?thesis by (simp only: py_strip_def rev_rev_ident)
qed

lemma stored_typed_moved:
  "stored_typed (k, r) \<Longrightarrow> stored_typed (k', snd (transition uid now ev actor nts r))"
  by (simp add: stored_typed_def transition_def Let_def split: option.split)

lemma api_typed_update:
  assumes "api_typed st" "service_ok svc'" "stored_typed (k, r)"
    "ws_requests svc' = AList.update k r (ws_requests (aa_service st))" "aa_service st' = svc'"
  shows "api_typed st'"
proof -
  have "set (ws_requests svc') \<subseteq> insert (k, r) (set (ws_requests (aa_service st)))"
    unfolding assms(4) by (rule set_update_subset)
  with assms show ?thesis by (auto simp: api_typed_def)
qed

lemma api_typed_decision:
  assumes st: "api_typed st" and ev: "ev \<noteq> CANCEL"
    and reason: "ev \<in> {APPROVE, REJECT} \<longrightarrow> py_strip actor \<noteq> [] \<and> py_strip nts \<noteq> []"
  shows "api_typed (snd (decision_response env status t' i'
    (call_service env (\<lambda>svc. apply_decision uid now svc t i actor nts ev check ety pl) st)))"
    (is "api_typed ?st'")
proof -
  let ?svc = "snd (apply_decision uid now (aa_service st) t i actor nts ev check ety pl)"
  have svc: "aa_service ?st' = ?svc" by simp
  have ok: "service_ok ?svc" using st ev reason by (intro service_ok_decision) (simp_all add: api_typed_def)
  show ?thesis
  proof (cases rule: apply_decision_cases [of uid now "aa_service st" t i actor nts ev check ety pl])
    case (failed e)
    then have "?svc = aa_service st" by (simp only: snd_conv)
    with st svc show ?thesis by (simp add: api_typed_def)
  next
    case (accepted r s rec r')
    have "stored_typed ((t, i), r)"
      using st map_of_SomeD [OF accepted(1)] by (auto simp: api_typed_def)
    then have "stored_typed ((t, i), r')" unfolding accepted(8) by (rule stored_typed_moved)
    from api_typed_update [OF st ok this accepted(10) svc] show ?thesis .
  qed
qed

lemma api_typed_submit:
  assumes "api_typed st"
  shows "api_typed (snd (rest_submit env rid u1 u2 now b st))"
proof (cases "submit_valid b")
  case False
  with assms show ?thesis by (simp add: rest_submit_def)
next
  case True
  let ?f = "\<lambda>svc. submit_request rid u1 u2 now svc (sb_tenant_id b) (sb_custodian_id b)
    (sb_amount_scaled b) (submit_normalize_currency b) (sb_description b) (sb_receipt_metadata b)
    (sb_auto_approve_if_eligible b) (sb_notes b)"
  have state: "snd (rest_submit env rid u1 u2 now b st) = snd (call_service env ?f st)"
    using True by (auto simp: rest_submit_def split: prod.split sum.split)
  have ok: "service_ok (snd (?f (aa_service st)))"
    using assms service_ok_submit by (simp add: api_typed_def)
  show ?thesis
  proof (cases rule: submit_request_cases [of rid u1 u2 now "aa_service st" "sb_tenant_id b" "sb_custodian_id b"
      "sb_amount_scaled b" "submit_normalize_currency b" "sb_description b" "sb_receipt_metadata b"
      "sb_auto_approve_if_eligible b" "sb_notes b"])
    case failed
    with assms state show ?thesis by (simp add: call_service_kept)
  next
    case (accepted res draft r1 r)
    have alpha: "list_all is_alpha_ascii (sb_currency b)" "length (sb_currency b) = 3"
      using True by (simp_all add: submit_valid_def)
    have "ar_currency draft = py_upper (sb_currency b)"
      using accepted(15) strip_alpha [OF alpha(1)] by (simp add: submit_normalize_currency_def py_strip_upper)
    then have "stored_typed (k, draft)" for k
      using alpha accepted(9) alpha_facts(2) by (simp add: stored_typed_def py_upper_def list_all_iff)
    then have "stored_typed (k, r)" for k
      unfolding accepted(11,10) using stored_typed_moved by simp
    then show ?thesis
      unfolding state by (intro api_typed_update [OF assms ok _ accepted(13)]) simp_all
  qed
qed

lemma api_typed_serve: "api_typed st \<Longrightarrow> api_typed (serve env c st)"
proof (induction c)
  case (PostApprove uid now i b)
  then show ?case
    unfolding serve.simps rest_approve_eq
    by (auto intro!: api_typed_decision simp del: decision_response_state)
next
  case (PostReject uid now i b)
  then show ?case
    unfolding serve.simps rest_reject_eq
    by (auto intro!: api_typed_decision simp del: decision_response_state)
next
  case (PostDisburse uid now i d)
  then show ?case
    unfolding serve.simps rest_disburse_eq
    by (auto intro!: api_typed_decision simp del: decision_response_state)
next
  case (RunTask alive)
  then show ?case
    by (simp add: api_typed_def run_task_def broadcast_json_def Let_def disconnect_all split: list.split)
next
  case (Session now w "is")
  then show ?case
    by (simp add: api_typed_def ws_open_def feed_connect_def Let_def feed_runs feed_disconnect_def)
qed (simp_all add: api_typed_submit)

lemma trail_ends:
  assumes "trail_ok r" "ar_state r \<noteq> DRAFT"
  shows "ar_audit_trail r \<noteq> [] \<and> tr_to_state (last (ar_audit_trail r)) = ar_state r"
proof -
  have ne: "ar_audit_trail r \<noteq> []" using assms by (auto simp: trail_ok_def)
  then obtain n where n: "length (ar_audit_trail r) = Suc n" by (cases "ar_audit_trail r") auto
  have all: "approval_cycle.run_events DRAFT (map tr_event (ar_audit_trail r)) = Some (ar_state r)"
    using assms(1) by (simp add: trail_ok_def)
  have "approval_cycle.run_events DRAFT (map tr_event (take (Suc n) (ar_audit_trail r))) =
      Some (tr_to_state (ar_audit_trail r ! n))"
    using assms(1) n unfolding trail_ok_def by (metis lessI)
  moreover have "take (Suc n) (ar_audit_trail r) = ar_audit_trail r" using n by simp
  ultimately have "tr_to_state (ar_audit_trail r ! n) = ar_state r" using all by simp
  with ne n show ?thesis by (simp add: last_conv_nth)
qed

lemma stored_dto_typed:
  assumes "api_typed st" "(k, r) \<in> set (ws_requests (aa_service st))"
  shows "well_typed_dto (to_response_dto env r meta)"
proof -
  have r: "request_ok k r" "stored_typed (k, r)"
    using assms by (auto simp: api_typed_def service_ok_def)
  then have "trail_ok r" "ar_state r \<noteq> DRAFT" by (simp_all add: request_ok_def)
  from trail_ends [OF this] r show ?thesis
    by (simp add: well_typed_dto_def to_response_dto_def request_ok_def stored_typed_def
        transition_to_dto_def last_map)
qed

lemma api_typed_start: "api_typed (create_approval_router cb (new_service policy))"
  by (simp add: api_typed_def create_approval_router_def subscribe_def new_service_def service_ok_def)

text \<open>C29. Whatever calls the router has served, every request it shows is well typed: its state is a
  state past DRAFT and its tier a tier, its amount is positive, its currency is three upper-case
  letters, and its audit trail is not empty and ends in its state.\<close>

theorem responses_well_typed:
  defines "router \<equiv> \<lambda>env cb policy cs. fold (serve env) cs (create_approval_router cb (new_service policy))"
  shows "(case get_approval_details env i t (router env cb policy cs) of
      HttpOk n d \<Rightarrow> well_typed_dto d | HttpError n \<Rightarrow> n = 404) \<and>
    (case list_approvals env t s ti c l k (router env cb policy cs) of
      HttpOk n q \<Rightarrow> list_all well_typed_dto (qd_requests q) | HttpError n \<Rightarrow> n \<in> {400, 422})"
proof -
  let ?st = "router env cb policy cs"
  have "api_typed st \<Longrightarrow> api_typed (fold (serve env) cs st)" for st
    by (induction cs arbitrary: st) (simp_all add: api_typed_serve)
  then have typed: "api_typed ?st" unfolding router_def by (simp add: api_typed_start)
  have "case get_approval_details env i t ?st of HttpOk n d \<Rightarrow> well_typed_dto d | HttpError n \<Rightarrow> n = 404"
    using typed by (auto simp: get_approval_details_def get_request_def Let_def split: option.splits
        dest!: map_of_SomeD intro: stored_dto_typed)
  moreover have "set (list_requests (aa_service ?st) t s' ti' c l k) \<subseteq>
      (\<lambda>e. (snd e, request_metadata (aa_service ?st) (fst e))) ` set (ws_requests (aa_service ?st))" for s' ti'
    unfolding list_requests_def Let_def by (rule order_trans [OF set_py_slice]) auto
  then have "\<forall>x \<in> set (list_requests (aa_service ?st) t s' ti' c l k).
      well_typed_dto (to_response_dto env (fst x) (Some (snd x)))" for s' ti'
    using stored_dto_typed [OF typed] by fastforce
  then have "case list_approvals env t s ti c l k ?st of
      HttpOk n q \<Rightarrow> list_all well_typed_dto (qd_requests q) | HttpError n \<Rightarrow> n \<in> {400, 422}"
    by (auto simp: list_approvals_def list_all_iff case_prod_beta Let_def)
  ultimately show ?thesis by blast
qed

section \<open>A concrete router\<close>

definition demo_api_env :: api_env where
  "demo_api_env = \<lparr>ae_running = True, ae_now = ''2026-08-20T10:00:00'', ae_money = (\<lambda>n. ''$''), ae_float = (\<lambda>n. ''0.0'')\<rparr>"

definition demo_api :: approval_api where
  "demo_api = feed_connect 9 (feed_connect 8 (create_approval_router 1
     (exec_all DEFAULT_PETTYFLOW_POLICY demo_commands)))"

definition demo_action :: action_body where
  "demo_action = \<lparr>ab_tenant_id = ''acme'', ab_actor_id = ''al'', ab_notes = ''fine'', ab_actor_role = Some ''cfo''\<rparr>"

lemma demo_approval: "answer (fst (rest_approve demo_api_env ''u'' 40 ''r1'' demo_action demo_api)) = (200, Some ''APPROVED'')"
  by code_simp

theorem live_feed_unscoped_witness:
  "map fst (aa_sent (run_task (\<lambda>w. w = 8) (snd (rest_approve demo_api_env ''u'' 40 ''r1'' demo_action demo_api)))) = [8]"
proof -
  obtain d where d: "fst (rest_approve demo_api_env ''u'' 40 ''r1'' demo_action demo_api) = HttpOk 200 d"
    using demo_approval by (cases "fst (rest_approve demo_api_env ''u'' 40 ''r1'' demo_action demo_api)") auto
  have st: "aa_tasks demo_api = []" "distinct (aa_connections demo_api)"
      "distinct (ws_subscribers (aa_service demo_api))"
      "aa_listener demo_api \<in> set (ws_subscribers (aa_service demo_api))"
    "ae_running demo_api_env" "aa_sent demo_api = []" "filter (\<lambda>w. w = 8) (aa_connections demo_api) = [8]"
    by code_simp+
  from live_feed_unscoped [OF d st(1-4), of "\<lambda>w. w = 8"] st(5-7) show ?thesis by auto
qed


theorem pings_answered_witness:
  "fst (websocket_live_feed ''t'' 7 [WsMessage (JDict [(''type'', JStr ''ping'')]) True, WsDisconnect]
     (ws_open ''t'' True 7 demo_api)) = False"
proof -
  have "7 \<notin> set (aa_connections demo_api)" by code_simp
  then show ?thesis by (subst pings_answered) simp_all
qed

end
