(* ===== verification/Posting_Book.thy ===== *)
theory Posting_Book
  imports Journal
begin

text \<open>
  The contract of an ERP adapter: entries are objects that the caller builds and the adapter
  mutates, so they live in a store and are named by their address. Posting refuses an entry that
  does not balance, answers a reference it has seen with the entry first posted under it, and
  otherwise stamps the object, logs its address and files it under its reference. Both ERP
  adapters interpret it.
\<close>

datatype ('e, 'env) book_op = Build 'e | Post 'env nat

locale posting_book =
  fixes objects :: "'s \<Rightarrow> 'e list"
    and posted :: "'s \<Rightarrow> string \<Rightarrow> nat option"
    and book_log :: "'s \<Rightarrow> nat list"
    and ref_of :: "'e \<Rightarrow> string option"
    and balanced :: "'e \<Rightarrow> bool"
    and stamp :: "'env \<Rightarrow> 's \<Rightarrow> 'e \<Rightarrow> 'e"
    and build :: "'e \<Rightarrow> 's \<Rightarrow> 's"
    and post :: "'env \<Rightarrow> nat \<Rightarrow> 's \<Rightarrow> ('err + nat) \<times> 's"
  assumes build_laws: "objects (build e s) = objects s @ [e]" "posted (build e s) = posted s"
      "book_log (build e s) = book_log s"
    and post_refused: "a < length (objects s) \<Longrightarrow> \<not> balanced (objects s ! a) \<Longrightarrow>
      \<exists>err. post env a s = (Inl err, s)"
    and post_known: "a < length (objects s) \<Longrightarrow> balanced (objects s ! a) \<Longrightarrow>
      ref_of (objects s ! a) = Some k \<Longrightarrow> k \<noteq> [] \<Longrightarrow> posted s k = Some b \<Longrightarrow> post env a s = (Inr b, s)"
    and post_new: "a < length (objects s) \<Longrightarrow> balanced (objects s ! a) \<Longrightarrow>
      text_or (ref_of (objects s ! a)) [] = [] \<or> posted s (text_or (ref_of (objects s ! a)) []) = None \<Longrightarrow>
      fst (post env a s) = Inr a \<and> objects (snd (post env a s)) = (objects s)[a := stamp env s (objects s ! a)] \<and>
      book_log (snd (post env a s)) = book_log s @ [a] \<and>
      posted (snd (post env a s)) = (if text_or (ref_of (objects s ! a)) [] = [] then posted s
        else (posted s)(text_or (ref_of (objects s ! a)) [] \<mapsto> a))"
    and stamp_keeps: "ref_of (stamp env s e) = ref_of e" "balanced (stamp env s e) = balanced e"
begin

abbreviation key_at :: "'s \<Rightarrow> nat \<Rightarrow> string" where
  "key_at s a \<equiv> text_or (ref_of (objects s ! a)) []"

fun run_op :: "('e, 'env) book_op \<Rightarrow> 's \<Rightarrow> 's" where
  "run_op (Build e) s = build e s"
| "run_op (Post env a) s = (if a < length (objects s) then snd (post env a s) else s)"

definition book_ok :: "'s \<Rightarrow> bool" where
  "book_ok s \<longleftrightarrow>
     (\<forall>a \<in> set (book_log s). a < length (objects s) \<and> balanced (objects s ! a) \<and>
        (key_at s a \<noteq> [] \<longrightarrow> posted s (key_at s a) = Some a)) \<and>
     (\<forall>k a. posted s k = Some a \<longrightarrow> k \<noteq> [] \<and> a \<in> set (book_log s) \<and> key_at s a = k) \<and>
     distinct (filter (\<lambda>a. key_at s a \<noteq> []) (book_log s))"

lemma book_okD:
  assumes "book_ok s" "a \<in> set (book_log s)"
  shows "a < length (objects s)" "balanced (objects s ! a)"
    "key_at s a \<noteq> [] \<Longrightarrow> posted s (key_at s a) = Some a"
  using assms unfolding book_ok_def by blast+

lemma book_ok_posted:
  assumes "book_ok s" "posted s k = Some a"
  shows "k \<noteq> []" "a \<in> set (book_log s)" "key_at s a = k"
  using assms unfolding book_ok_def by blast+

lemma post_cases:
  assumes "a < length (objects s)"
  obtains (refused) err where "\<not> balanced (objects s ! a)" "post env a s = (Inl err, s)"
  | (known) b where "balanced (objects s ! a)" "key_at s a \<noteq> []" "posted s (key_at s a) = Some b"
      "post env a s = (Inr b, s)"
  | (new) "balanced (objects s ! a)" "key_at s a = [] \<or> posted s (key_at s a) = None"
      "fst (post env a s) = Inr a" "objects (snd (post env a s)) = (objects s)[a := stamp env s (objects s ! a)]"
      "book_log (snd (post env a s)) = book_log s @ [a]"
      "posted (snd (post env a s)) = (if key_at s a = [] then posted s else (posted s)(key_at s a \<mapsto> a))"
proof (cases "balanced (objects s ! a)")
  case False
  with assms post_refused refused show thesis by blast
next
  case bal: True
  show thesis
  proof (cases "key_at s a = [] \<or> posted s (key_at s a) = None")
    case True
    with post_new [OF assms bal] bal show thesis by (intro new) blast+
  next
    case False
    then obtain k b where k: "ref_of (objects s ! a) = Some k" "k \<noteq> []" "posted s k = Some b"
      by (auto simp: text_or_def split: option.splits if_splits)
    with post_known [OF assms bal] bal show thesis by (intro known) (auto simp: text_or_def)
  qed
qed

lemma book_ok_build: "book_ok s \<Longrightarrow> book_ok (build e s)"
proof -
  assume ok: "book_ok s"
  then have "filter (\<lambda>a. key_at (build e s) a \<noteq> []) (book_log s) = filter (\<lambda>a. key_at s a \<noteq> []) (book_log s)"
    by (intro filter_cong) (auto simp: book_ok_def build_laws nth_append)
  with ok show ?thesis
    unfolding book_ok_def build_laws by (auto simp: nth_append less_Suc_eq dest: bspec)
qed

lemma book_ok_post:
  assumes ok: "book_ok s" and a: "a < length (objects s)"
  shows "book_ok (snd (post env a s))"
  using a
proof (cases rule: post_cases [where env = env])
  case new
  let ?s = "snd (post env a s)"
  have key: "key_at ?s b = key_at s b" if "b < length (objects s)" for b
    using that a by (cases "b = a") (simp_all add: new(4) stamp_keeps)
  have bal: "balanced (objects ?s ! b) = balanced (objects s ! b)" if "b < length (objects s)" for b
    using that a by (cases "b = a") (simp_all add: new(4) stamp_keeps)
  have log: "b < length (objects s)" if "b \<in> set (book_log s)" for b using ok that by (rule book_okD)
  have fresh: "a \<notin> set (book_log s)" if "key_at s a \<noteq> []"
    using book_okD(3) [OF ok, of a] new(2) that by auto
  have "filter (\<lambda>b. key_at ?s b \<noteq> []) (book_log s) = filter (\<lambda>b. key_at s b \<noteq> []) (book_log s)"
    using key log by (intro filter_cong) simp_all
  moreover have "distinct (filter (\<lambda>b. key_at s b \<noteq> []) (book_log s))" using ok by (simp add: book_ok_def)
  ultimately have "distinct (filter (\<lambda>b. key_at ?s b \<noteq> []) (book_log ?s))"
    using fresh key [OF a] by (simp add: new(5))
  moreover have "b < length (objects ?s) \<and> balanced (objects ?s ! b) \<and>
      (key_at ?s b \<noteq> [] \<longrightarrow> posted ?s (key_at ?s b) = Some b)" if "b \<in> set (book_log ?s)" for b
  proof (cases "b = a")
    case True
    then show ?thesis using a bal [OF a] key [OF a] new(1) by (simp add: new(4,6))
  next
    case False
    then have b: "b \<in> set (book_log s)" using that by (simp add: new(5))
    have "key_at s b \<noteq> key_at s a" if "key_at s b \<noteq> []"
      using book_okD(3) [OF ok b] that new(2) by auto
    then show ?thesis
      using log [OF b] bal key book_okD(2,3) [OF ok b] by (auto simp: new(4,6))
  qed
  moreover have "k \<noteq> [] \<and> b \<in> set (book_log ?s) \<and> key_at ?s b = k" if "posted ?s k = Some b" for k b
  proof (cases "key_at s a \<noteq> [] \<and> k = key_at s a")
    case True
    then show ?thesis using that key [OF a] new(5) by (auto simp: new(6))
  next
    case False
    then have "posted s k = Some b" using that by (auto simp: new(6) split: if_splits)
    from book_ok_posted [OF ok this] show ?thesis using key log by (simp add: new(5))
  qed
  ultimately show ?thesis unfolding book_ok_def by blast
qed (use ok in simp_all)

lemma book_ok_run: "book_ok s \<Longrightarrow> book_ok (fold run_op ops s)"
proof (induction ops arbitrary: s)
  case (Cons op ops)
  then show ?case by (cases op) (simp_all add: book_ok_build book_ok_post)
qed simp

lemma book_ok_empty: "book_log s = [] \<Longrightarrow> posted s = (\<lambda>_. None) \<Longrightarrow> book_ok s"
  by (simp add: book_ok_def)

text \<open>At most one logged entry per reference.\<close>

lemma one_per_reference:
  assumes "book_ok s" "k \<noteq> []"
  shows "filter (\<lambda>a. key_at s a = k) (book_log s) = (case posted s k of None \<Rightarrow> [] | Some a \<Rightarrow> [a])"
proof -
  let ?l = "filter (\<lambda>a. key_at s a = k) (book_log s)"
  have "?l = filter (\<lambda>a. key_at s a = k) (filter (\<lambda>a. key_at s a \<noteq> []) (book_log s))"
    using assms(2) by (auto intro: filter_cong)
  then have d: "distinct ?l" using assms(1) by (metis book_ok_def distinct_filter)
  have set: "a \<in> set ?l \<longleftrightarrow> posted s k = Some a" for a
    using assms by (auto simp: book_ok_def)
  show ?thesis
  proof (cases "posted s k")
    case None
    with set show ?thesis by (metis last_in_set option.simps(3,4))
  next
    case (Some a)
    with set have "set ?l = {a}" by auto
    with d have "?l = [a]" by (intro distinct_singleton)
    with Some show ?thesis by simp
  qed
qed

text \<open>What posting under a reference leaves, and what any later posting under it gets.\<close>

lemma posts_once:
  assumes ok: "book_ok s" and a: "a < length (objects s)" "balanced (objects s ! a)" "key_at s a = k" "k \<noteq> []"
  shows "\<exists>b. fst (post env a s) = Inr b \<and>
    filter (\<lambda>c. key_at (snd (post env a s)) c = k) (book_log (snd (post env a s))) = [b] \<and>
    (\<forall>c \<in> set (book_log (snd (post env a s))). balanced (objects (snd (post env a s)) ! c)) \<and>
    (\<forall>env' a'. a' < length (objects s) \<and> balanced (objects s ! a') \<and> key_at s a' = k \<longrightarrow>
       post env' a' (snd (post env a s)) = (Inr b, snd (post env a s)))"
proof -
  let ?s = "snd (post env a s)"
  have ok': "book_ok ?s" using ok a(1) by (rule book_ok_post)
  have objs: "length (objects ?s) = length (objects s) \<and>
      (\<forall>c < length (objects s). balanced (objects ?s ! c) = balanced (objects s ! c) \<and> key_at ?s c = key_at s c)"
    using a(1) by (cases rule: post_cases [where env = env]) (auto simp: nth_list_update [OF a(1)] stamp_keeps)
  obtain b where b: "fst (post env a s) = Inr b" "posted ?s k = Some b"
    using a(1) by (cases rule: post_cases [where env = env]) (use a in auto)
  have "filter (\<lambda>c. key_at ?s c = k) (book_log ?s) = [b]"
    using one_per_reference [OF ok' a(4)] b(2) by simp
  moreover have "post env' a' ?s = (Inr b, ?s)"
    if "a' < length (objects s)" "balanced (objects s ! a')" "key_at s a' = k" for env' a'
  proof -
    have k: "ref_of (objects ?s ! a') = Some k"
      using that objs a(4) by (auto simp: text_or_def split: option.splits if_splits)
    show ?thesis using that objs a(4) b(2) k by (intro post_known) auto
  qed
  ultimately show ?thesis using b(1) book_okD(2) [OF ok'] by blast
qed

end

end
