(* ===== verification/Sap.thy ===== *)
theory Sap
  imports Posting_Book
begin

text \<open>
  \<^verbatim>\<open>src/infrastructure/erp/sap_adapter.py\<close>: SAP journal entries and the posting adapter with its mock
  backend. Entries are Python objects that the adapter mutates and keeps, so they live in the list
  \<open>sa_objects\<close> and are named by their index. The uuid, the clock and the date are arguments, and so
  is the dash of the line texts, a character outside the character type. The float view of an
  amount is left out.
\<close>

section \<open>Data\<close>

datatype sap_direction = SAP_DEBIT | SAP_CREDIT

fun sap_direction_value :: "sap_direction \<Rightarrow> string" where
  "sap_direction_value SAP_DEBIT = ''40''"
| "sap_direction_value SAP_CREDIT = ''50''"

record sap_line =
  sl_gl_account :: string
  sl_posting_direction :: sap_direction
  sl_amount_scaled :: scaled
  sl_currency :: string
  sl_cost_center :: string
  sl_profit_center :: string
  sl_text :: string

record sap_entry =
  se_tenant_id :: string
  se_reference_document :: string
  se_company_code :: string
  se_posting_date :: string
  se_document_date :: string
  se_description :: string
  se_lines :: "sap_line list"
  se_idempotency_key :: "string option"
  se_sap_document_number :: "string option"
  se_synced_at :: "string option"

record sap_adapter =
  sa_company_code :: string
  sa_fiscal_year :: string
  sa_objects :: "sap_entry list"
  sa_posted :: "string \<Rightarrow> nat option"
  sa_sync_log :: "nat list"

datatype sap_error = SapImbalanced scaled scaled

definition new_sap_adapter :: "string \<Rightarrow> string \<Rightarrow> sap_adapter" where
  "new_sap_adapter company year = \<lparr>sa_company_code = company, sa_fiscal_year = year, sa_objects = [],
     sa_posted = Map.empty, sa_sync_log = []\<rparr>"

section \<open>Operations\<close>

definition sap_validate_balance :: "sap_entry \<Rightarrow> sap_error + bool" where
  "sap_validate_balance e =
     (let debits = sum_list (map sl_amount_scaled (filter (\<lambda>l. sl_posting_direction l = SAP_DEBIT) (se_lines e)));
          credits = sum_list (map sl_amount_scaled (filter (\<lambda>l. sl_posting_direction l = SAP_CREDIT) (se_lines e)))
      in if debits \<noteq> credits then Inl (SapImbalanced debits credits) else Inr True)"

definition sap_document_number :: "nat \<Rightarrow> string" where
  "sap_document_number uid = ''1900'' @ zfill 8 (show_nat (uid mod 100000000))"

definition sap_stamp :: "nat \<times> string \<Rightarrow> sap_entry \<Rightarrow> sap_entry" where
  "sap_stamp env e = e\<lparr>se_sap_document_number := Some (sap_document_number (fst env)),
     se_synced_at := Some (snd env)\<rparr>"

text \<open>The answer is the object itself: its address.\<close>

definition sap_post_journal_entry ::
  "nat \<times> string \<Rightarrow> nat \<Rightarrow> sap_adapter \<Rightarrow> (sap_error + nat) \<times> sap_adapter" where
  "sap_post_journal_entry env a sa =
     (let entry = sa_objects sa ! a; key = text_or (se_idempotency_key entry) []
      in case sap_validate_balance entry of
           Inl e \<Rightarrow> (Inl e, sa)
         | Inr _ \<Rightarrow>
           (case (if key \<noteq> [] then sa_posted sa key else None) of
              Some existing \<Rightarrow> (Inr existing, sa)
            | None \<Rightarrow>
              (Inr a, sa\<lparr>sa_objects := (sa_objects sa)[a := sap_stamp env entry],
                 sa_posted := (if key \<noteq> [] then (sa_posted sa)(key \<mapsto> a) else sa_posted sa),
                 sa_sync_log := sa_sync_log sa @ [a]\<rparr>)))"

definition sap_get_journal_entry :: "string \<Rightarrow> sap_adapter \<Rightarrow> nat option" where
  "sap_get_journal_entry number sa =
     find (\<lambda>a. se_sap_document_number (sa_objects sa ! a) = Some number) (sa_sync_log sa)"

definition sap_sync_log_count :: "sap_adapter \<Rightarrow> nat" where
  "sap_sync_log_count sa = length (sa_sync_log sa)"

definition sap_build :: "sap_entry \<Rightarrow> sap_adapter \<Rightarrow> sap_adapter" where
  "sap_build e sa = sa\<lparr>sa_objects := sa_objects sa @ [e]\<rparr>"

definition sap_build_replenishment_entry ::
  "string \<Rightarrow> string \<Rightarrow> sap_adapter \<Rightarrow> string \<Rightarrow> string \<Rightarrow> scaled \<Rightarrow> string \<Rightarrow> string \<Rightarrow> string \<Rightarrow> string \<Rightarrow> sap_entry" where
  "sap_build_replenishment_entry dash today sa tenant reference amount petty_cash_gl bank_gl currency description =
     \<lparr>se_tenant_id = tenant, se_reference_document = reference, se_company_code = sa_company_code sa,
      se_posting_date = today, se_document_date = today, se_description = description,
      se_lines =
        [\<lparr>sl_gl_account = petty_cash_gl, sl_posting_direction = SAP_DEBIT, sl_amount_scaled = amount,
          sl_currency = currency, sl_cost_center = [], sl_profit_center = [],
          sl_text = ''Replenish petty cash '' @ dash @ '' '' @ description\<rparr>,
         \<lparr>sl_gl_account = bank_gl, sl_posting_direction = SAP_CREDIT, sl_amount_scaled = amount,
          sl_currency = currency, sl_cost_center = [], sl_profit_center = [],
          sl_text = ''Bank transfer '' @ dash @ '' '' @ description\<rparr>],
      se_idempotency_key = Some reference, se_sap_document_number = None, se_synced_at = None\<rparr>"

section \<open>The contracts\<close>

interpretation sap_journal: journal se_lines "\<lambda>l. sl_posting_direction l = SAP_DEBIT"
  "\<lambda>l. sl_posting_direction l = SAP_CREDIT" sl_amount_scaled "\<lambda>e. sap_validate_balance e = Inr True"
proof unfold_locales
  show "sl_posting_direction l = SAP_CREDIT \<longleftrightarrow> sl_posting_direction l \<noteq> SAP_DEBIT" for l
    by (cases "sl_posting_direction l") simp_all
qed (simp add: sap_validate_balance_def total_where_def Let_def)

lemma sap_validate_cases: "sap_validate_balance e = Inr True \<or> (\<exists>err. sap_validate_balance e = Inl err)"
  by (simp add: sap_validate_balance_def Let_def)

interpretation sap_book: posting_book sa_objects sa_posted sa_sync_log se_idempotency_key
  "\<lambda>e. sap_validate_balance e = Inr True" "\<lambda>env s. sap_stamp env" sap_build sap_post_journal_entry
proof unfold_locales
  fix a env and s :: sap_adapter and e :: sap_entry
  show "sap_validate_balance (sa_objects s ! a) \<noteq> Inr True \<Longrightarrow>
      \<exists>err. sap_post_journal_entry env a s = (Inl err, s)"
    using sap_validate_cases [of "sa_objects s ! a"] by (auto simp: sap_post_journal_entry_def Let_def)
  show "sap_validate_balance (sap_stamp env e) = Inr True \<longleftrightarrow> sap_validate_balance e = Inr True"
    by (simp add: sap_stamp_def sap_validate_balance_def)
qed (auto simp: sap_build_def sap_post_journal_entry_def sap_stamp_def Let_def)

lemma replenishment_balanced:
  "sap_validate_balance (sap_build_replenishment_entry dash today sa t r amount pc bank cur d) = Inr True"
  using sap_journal.accepts_pair [of "sap_build_replenishment_entry dash today sa t r amount pc bank cur d"]
  by (simp add: sap_build_replenishment_entry_def)

section \<open>Posting once\<close>

lemma sap_book_ok: "sap_book.book_ok (fold sap_book.run_op ops (new_sap_adapter company year))"
  by (rule sap_book.book_ok_run, rule sap_book.book_ok_empty) (simp_all add: new_sap_adapter_def)

text \<open>C30. After any building and posting of entries: everything in the sync log balances, and posting a
  balanced entry with a reference leaves exactly one document of that reference in the log, the one
  that is answered. Every later posting under the reference, by whatever tenant and for whatever
  amount, is answered with that document and changes nothing.\<close>

theorem sap_reference_posts_once:
  defines "book \<equiv> \<lambda>ops. fold sap_book.run_op ops (new_sap_adapter ''1000'' ''2026'')"
  assumes a: "a < length (sa_objects (book ops))" "sap_validate_balance (sa_objects (book ops) ! a) = Inr True"
      "text_or (se_idempotency_key (sa_objects (book ops) ! a)) [] = k" "k \<noteq> []"
  shows "\<exists>b. fst (sap_post_journal_entry env a (book ops)) = Inr b \<and>
    filter (\<lambda>c. text_or (se_idempotency_key (sa_objects (snd (sap_post_journal_entry env a (book ops))) ! c)) [] = k)
      (sa_sync_log (snd (sap_post_journal_entry env a (book ops)))) = [b] \<and>
    (\<forall>c \<in> set (sa_sync_log (snd (sap_post_journal_entry env a (book ops)))).
       sap_validate_balance (sa_objects (snd (sap_post_journal_entry env a (book ops))) ! c) = Inr True) \<and>
    (\<forall>env' a'. a' < length (sa_objects (book ops)) \<and> sap_validate_balance (sa_objects (book ops) ! a') = Inr True \<and>
       text_or (se_idempotency_key (sa_objects (book ops) ! a')) [] = k \<longrightarrow>
       sap_post_journal_entry env' a' (snd (sap_post_journal_entry env a (book ops))) =
         (Inr b, snd (sap_post_journal_entry env a (book ops))))"
  unfolding book_def
  by (rule sap_book.posts_once [OF sap_book_ok]) (use a in \<open>simp_all add: book_def\<close>)

text \<open>The reference is not scoped by tenant: when two tenants replenish under the same reference, the
  second one is answered with the posted entry of the first, with its amount, and nothing is posted
  for it.\<close>

theorem sap_reference_shared_across_tenants:
  assumes "r \<noteq> []" "sa_posted sa r = None"
    and e1_def: "e1 = sap_build_replenishment_entry dash today sa t1 r amount1 pc bank cur d"
    and e2_def: "e2 = sap_build_replenishment_entry dash today sa t2 r amount2 pc bank cur d"
    and first_def: "first = snd (sap_post_journal_entry env1 (length (sa_objects sa)) (sap_build e1 sa))"
    and second_def: "second = sap_post_journal_entry env2 (length (sa_objects first)) (sap_build e2 first)"
  shows "fst second = Inr (length (sa_objects sa)) \<and>
    se_tenant_id (sa_objects (snd second) ! length (sa_objects sa)) = t1 \<and>
    map sl_amount_scaled (se_lines (sa_objects (snd second) ! length (sa_objects sa))) = [amount1, amount1] \<and>
    sap_sync_log_count (snd second) = sap_sync_log_count sa + 1 \<and>
    se_sap_document_number (sa_objects (snd second) ! length (sa_objects first)) = None"
proof -
  have bal: "sap_validate_balance e1 = Inr True" "sap_validate_balance e2 = Inr True"
    by (simp_all add: e1_def e2_def replenishment_balanced)
  have keys: "se_idempotency_key e1 = Some r" "se_idempotency_key e2 = Some r"
    by (simp_all add: e1_def e2_def sap_build_replenishment_entry_def)
  have first: "sa_objects first = sa_objects sa @ [sap_stamp env1 e1]" "sa_posted first = (sa_posted sa)(r \<mapsto> length (sa_objects sa))"
    "sa_sync_log first = sa_sync_log sa @ [length (sa_objects sa)]"
    using assms(1,2) bal(1) keys(1) by (simp_all add: first_def sap_post_journal_entry_def sap_build_def)
  have second: "second = (Inr (length (sa_objects sa)), sap_build e2 first)"
    using assms(1) bal(2) keys(2) first by (simp add: second_def sap_post_journal_entry_def sap_build_def nth_append Let_def)
  show ?thesis
    unfolding second using first
    by (simp add: sap_build_def nth_append sap_stamp_def sap_sync_log_count_def)
      (simp add: e1_def e2_def sap_build_replenishment_entry_def)
qed

section \<open>Concrete books\<close>

definition demo_sap_ops :: "(sap_entry, nat \<times> string) book_op list" where
  "demo_sap_ops =
     [Build (sap_build_replenishment_entry ''-'' ''2026-08-01'' (new_sap_adapter ''1000'' ''2026'')
        ''t1'' ''TX1'' 500 ''101000'' ''113100'' ''USD'' ''refill''),
      Post (7, ''now'') 0,
      Build (sap_build_replenishment_entry ''-'' ''2026-08-02'' (new_sap_adapter ''1000'' ''2026'')
        ''t2'' ''TX1'' 900 ''101000'' ''113100'' ''USD'' ''refill'')]"

theorem sap_reference_posts_once_witness:
  "\<exists>b. fst (sap_post_journal_entry (8, ''later'') 1
    (fold sap_book.run_op demo_sap_ops (new_sap_adapter ''1000'' ''2026''))) = Inr b"
proof -
  let ?sa = "fold sap_book.run_op demo_sap_ops (new_sap_adapter ''1000'' ''2026'')"
  have a: "1 < length (sa_objects ?sa)" "sap_validate_balance (sa_objects ?sa ! 1) = Inr True"
    "text_or (se_idempotency_key (sa_objects ?sa ! 1)) [] = ''TX1''"
    by (simp_all add: demo_sap_ops_def new_sap_adapter_def sap_build_def sap_post_journal_entry_def
        sap_validate_balance_def sap_build_replenishment_entry_def sap_stamp_def Let_def)
  from sap_reference_posts_once [OF a] show ?thesis by blast
qed

theorem sap_reference_shared_across_tenants_witness:
  "\<exists>second. fst second = (Inr 0 :: sap_error + nat) \<and> sap_sync_log_count (snd second) = 1"
proof -
  let ?sa = "new_sap_adapter ''1000'' ''2026''"
  have "sa_posted ?sa ''TX1'' = None" "''TX1'' \<noteq> []" by (simp_all add: new_sap_adapter_def)
  from sap_reference_shared_across_tenants [OF this(2,1) refl refl refl refl]
  obtain S :: "(sap_error + nat) \<times> sap_adapter" where "fst S = Inr (length (sa_objects ?sa))"
    "sap_sync_log_count (snd S) = sap_sync_log_count ?sa + 1"
    by blast
  then have "fst S = Inr 0 \<and> sap_sync_log_count (snd S) = 1"
    by (simp add: new_sap_adapter_def sap_sync_log_count_def)
  then show ?thesis by blast
qed

end
