(* ===== verification/Netsuite.thy ===== *)
theory Netsuite
  imports Posting_Book
begin

text \<open>
  \<^verbatim>\<open>src/infrastructure/erp/netsuite_adapter.py\<close>: NetSuite journal entries and the posting adapter
  with its mock backend. As for SAP, entries are objects in a list, named by their index; the
  uuid, the clock, the posting period and the dash of the memo texts are arguments.
\<close>

section \<open>Data\<close>

datatype ns_line_type = NS_DEBIT | NS_CREDIT

fun ns_line_type_value :: "ns_line_type \<Rightarrow> string" where
  "ns_line_type_value NS_DEBIT = ''debit''"
| "ns_line_type_value NS_CREDIT = ''credit''"

record ns_line =
  nl_account_id :: string
  nl_line_type :: ns_line_type
  nl_amount_scaled :: scaled
  nl_currency :: string
  nl_department :: string
  nl_class_value :: string
  nl_memo :: string

record ns_entry =
  ne_tenant_id :: string
  ne_subsidiary :: string
  ne_reference_document :: string
  ne_posting_period :: string
  ne_memo :: string
  ne_lines :: "ns_line list"
  ne_idempotency_key :: "string option"
  ne_internal_id :: "string option"
  ne_tran_id :: "string option"
  ne_synced_at :: "string option"
  ne_is_approved :: bool

record ns_adapter =
  na_subsidiary :: string
  na_default_currency :: string
  na_objects :: "ns_entry list"
  na_posted :: "string \<Rightarrow> nat option"
  na_sync_log :: "nat list"
  na_je_counter :: nat

datatype ns_error = NsImbalanced scaled scaled

definition new_ns_adapter :: "string \<Rightarrow> string \<Rightarrow> ns_adapter" where
  "new_ns_adapter subsidiary currency = \<lparr>na_subsidiary = subsidiary, na_default_currency = currency,
     na_objects = [], na_posted = Map.empty, na_sync_log = [], na_je_counter = 0\<rparr>"

section \<open>Operations\<close>

definition ns_validate_balance :: "ns_entry \<Rightarrow> ns_error + bool" where
  "ns_validate_balance e =
     (let debits = sum_list (map nl_amount_scaled (filter (\<lambda>l. nl_line_type l = NS_DEBIT) (ne_lines e)));
          credits = sum_list (map nl_amount_scaled (filter (\<lambda>l. nl_line_type l = NS_CREDIT) (ne_lines e)))
      in if debits \<noteq> credits then Inl (NsImbalanced debits credits) else Inr True)"

definition ns_tran_id :: "nat \<Rightarrow> string" where
  "ns_tran_id n = ''JE-'' @ zfill 5 (show_nat n)"

definition ns_internal_id :: "nat \<Rightarrow> string" where
  "ns_internal_id uid = show_nat (uid mod 1000000)"

definition ns_stamp :: "nat \<times> string \<Rightarrow> ns_adapter \<Rightarrow> ns_entry \<Rightarrow> ns_entry" where
  "ns_stamp env na e = e\<lparr>ne_internal_id := Some (ns_internal_id (fst env)),
     ne_tran_id := Some (ns_tran_id (na_je_counter na + 1)), ne_synced_at := Some (snd env),
     ne_is_approved := True\<rparr>"

definition ns_post_journal_entry ::
  "nat \<times> string \<Rightarrow> nat \<Rightarrow> ns_adapter \<Rightarrow> (ns_error + nat) \<times> ns_adapter" where
  "ns_post_journal_entry env a na =
     (let entry = na_objects na ! a; key = text_or (ne_idempotency_key entry) []
      in case ns_validate_balance entry of
           Inl e \<Rightarrow> (Inl e, na)
         | Inr _ \<Rightarrow>
           (case (if key \<noteq> [] then na_posted na key else None) of
              Some existing \<Rightarrow> (Inr existing, na)
            | None \<Rightarrow>
              (Inr a, na\<lparr>na_je_counter := na_je_counter na + 1,
                 na_objects := (na_objects na)[a := ns_stamp env na entry],
                 na_posted := (if key \<noteq> [] then (na_posted na)(key \<mapsto> a) else na_posted na),
                 na_sync_log := na_sync_log na @ [a]\<rparr>)))"

definition ns_get_journal_entry :: "string \<Rightarrow> ns_adapter \<Rightarrow> nat option" where
  "ns_get_journal_entry internal_id na =
     find (\<lambda>a. ne_internal_id (na_objects na ! a) = Some internal_id) (na_sync_log na)"

definition ns_sync_log_count :: "ns_adapter \<Rightarrow> nat" where
  "ns_sync_log_count na = length (na_sync_log na)"

definition ns_build :: "ns_entry \<Rightarrow> ns_adapter \<Rightarrow> ns_adapter" where
  "ns_build e na = na\<lparr>na_objects := na_objects na @ [e]\<rparr>"

definition ns_build_replenishment_entry ::
  "string \<Rightarrow> string \<Rightarrow> ns_adapter \<Rightarrow> string \<Rightarrow> string \<Rightarrow> scaled \<Rightarrow> string \<Rightarrow> string \<Rightarrow> string \<Rightarrow> string \<Rightarrow> ns_entry" where
  "ns_build_replenishment_entry dash period na tenant reference amount petty_cash bank currency memo =
     \<lparr>ne_tenant_id = tenant, ne_subsidiary = na_subsidiary na, ne_reference_document = reference,
      ne_posting_period = period, ne_memo = memo,
      ne_lines =
        [\<lparr>nl_account_id = petty_cash, nl_line_type = NS_DEBIT, nl_amount_scaled = amount,
          nl_currency = currency, nl_department = [], nl_class_value = [],
          nl_memo = ''Float replenishment '' @ dash @ '' '' @ memo\<rparr>,
         \<lparr>nl_account_id = bank, nl_line_type = NS_CREDIT, nl_amount_scaled = amount,
          nl_currency = currency, nl_department = [], nl_class_value = [],
          nl_memo = ''Bank drawdown '' @ dash @ '' '' @ memo\<rparr>],
      ne_idempotency_key = Some reference, ne_internal_id = None, ne_tran_id = None,
      ne_synced_at = None, ne_is_approved = False\<rparr>"

section \<open>The contracts\<close>

interpretation ns_journal: journal ne_lines "\<lambda>l. nl_line_type l = NS_DEBIT"
  "\<lambda>l. nl_line_type l = NS_CREDIT" nl_amount_scaled "\<lambda>e. ns_validate_balance e = Inr True"
proof unfold_locales
  show "nl_line_type l = NS_CREDIT \<longleftrightarrow> nl_line_type l \<noteq> NS_DEBIT" for l
    by (cases "nl_line_type l") simp_all
qed (simp add: ns_validate_balance_def total_where_def Let_def)

lemma ns_stamp_kept: "ns_validate_balance (ns_stamp env na e) = ns_validate_balance e"
  "ne_idempotency_key (ns_stamp env na e) = ne_idempotency_key e"
  by (simp_all add: ns_stamp_def ns_validate_balance_def)

lemma ns_validate_cases: "ns_validate_balance e = Inr True \<or> (\<exists>err. ns_validate_balance e = Inl err)"
  by (simp add: ns_validate_balance_def Let_def)

interpretation ns_book: posting_book na_objects na_posted na_sync_log ne_idempotency_key
  "\<lambda>e. ns_validate_balance e = Inr True" ns_stamp ns_build ns_post_journal_entry
proof unfold_locales
  fix a env and s :: ns_adapter and e :: ns_entry
  show "ns_validate_balance (na_objects s ! a) \<noteq> Inr True \<Longrightarrow>
      \<exists>err. ns_post_journal_entry env a s = (Inl err, s)"
    using ns_validate_cases [of "na_objects s ! a"] by (auto simp: ns_post_journal_entry_def Let_def)
  show "ns_validate_balance (ns_stamp env s e) = Inr True \<longleftrightarrow> ns_validate_balance e = Inr True"
    by (simp add: ns_stamp_def ns_validate_balance_def)
qed (auto simp: ns_build_def ns_post_journal_entry_def ns_stamp_def Let_def)

lemma ns_replenishment_balanced:
  "ns_validate_balance (ns_build_replenishment_entry dash period na t r amount pc bank cur m) = Inr True"
  using ns_journal.accepts_pair [of "ns_build_replenishment_entry dash period na t r amount pc bank cur m"]
  by (simp add: ns_build_replenishment_entry_def)

section \<open>Numbers\<close>

text \<open>Every object carries a reference, and the log is numbered without gaps.\<close>

definition numbered :: "ns_adapter \<Rightarrow> bool" where
  "numbered na \<longleftrightarrow> (\<forall>e \<in> set (na_objects na). text_or (ne_idempotency_key e) [] \<noteq> []) \<and>
     na_je_counter na = length (na_sync_log na) \<and>
     map (\<lambda>a. ne_tran_id (na_objects na ! a)) (na_sync_log na) =
       map (\<lambda>i. Some (ns_tran_id (i + 1))) [0..<length (na_sync_log na)] \<and>
     (\<forall>a \<in> set (na_sync_log na). ne_is_approved (na_objects na ! a))"

lemma ns_counter: "na_je_counter (snd (ns_post_journal_entry env a na)) =
    na_je_counter na + (length (na_sync_log (snd (ns_post_journal_entry env a na))) - length (na_sync_log na))"
  by (auto simp: ns_post_journal_entry_def Let_def split: sum.split option.split)

lemma numbered_post:
  assumes ok: "ns_book.book_ok na" and na: "numbered na" and a: "a < length (na_objects na)"
  shows "numbered (snd (ns_post_journal_entry env a na))"
  using a
proof (cases rule: ns_book.post_cases [where env = env])
  case new
  let ?na = "snd (ns_post_journal_entry env a na)"
  have key: "text_or (ne_idempotency_key (na_objects na ! a)) [] \<noteq> []"
    using na a by (simp add: numbered_def)
  then have fresh: "a \<notin> set (na_sync_log na)"
    using ns_book.book_okD(3) [OF ok, of a] new(2) by auto
  have kept: "na_objects ?na ! b = na_objects na ! b" if "b \<in> set (na_sync_log na)" for b
    using that fresh new(4) by (metis nth_list_update_neq)
  have "map (\<lambda>b. ne_tran_id (na_objects ?na ! b)) (na_sync_log na) =
      map (\<lambda>b. ne_tran_id (na_objects na ! b)) (na_sync_log na)"
    using kept by simp
  moreover have "text_or (ne_idempotency_key e) [] \<noteq> []" if "e \<in> set (na_objects ?na)" for e
  proof -
    have "e = ns_stamp env na (na_objects na ! a) \<or> e \<in> set (na_objects na)"
      using that set_update_subset_insert unfolding new(4) by fastforce
    then show ?thesis using na key by (auto simp: numbered_def ns_stamp_def)
  qed
  moreover have "na_je_counter ?na = length (na_sync_log ?na)"
    using na by (simp add: ns_counter new(5) numbered_def)
  moreover have "ne_tran_id (na_objects ?na ! a) = Some (ns_tran_id (length (na_sync_log na) + 1))"
    "ne_is_approved (na_objects ?na ! a)"
    using na a by (simp_all add: new(4) numbered_def ns_stamp_def)
  ultimately show ?thesis
    using na kept by (simp add: numbered_def new(5) del: map_eq_conv)
qed (use na in simp_all)

lemma numbered_run:
  "ns_book.book_ok na \<Longrightarrow> numbered na \<Longrightarrow>
   list_all (\<lambda>op. case op of Build e \<Rightarrow> text_or (ne_idempotency_key e) [] \<noteq> [] | Post env a \<Rightarrow> True) ops \<Longrightarrow>
   numbered (fold ns_book.run_op ops na)"
proof (induction ops arbitrary: na)
  case (Cons op ops)
  show ?case
  proof (cases op)
    case (Build e)
    have old: "na_objects (ns_build e na) ! b = na_objects na ! b" if "b \<in> set (na_sync_log na)" for b
      using ns_book.book_okD(1) [OF Cons.prems(1) that] by (simp add: ns_build_def nth_append)
    then have "map (\<lambda>b. ne_tran_id (na_objects (ns_build e na) ! b)) (na_sync_log na) =
        map (\<lambda>b. ne_tran_id (na_objects na ! b)) (na_sync_log na)" by simp
    moreover have "na_sync_log (ns_build e na) = na_sync_log na" "na_je_counter (ns_build e na) = na_je_counter na"
      "set (na_objects (ns_build e na)) = insert e (set (na_objects na))"
      by (simp_all add: ns_build_def)
    ultimately have "numbered (ns_build e na)"
      using Cons.prems(2,3) Build old unfolding numbered_def by simp
    then show ?thesis using Cons Build by (simp add: ns_book.book_ok_build)
  next
    case (Post env a)
    then show ?thesis using Cons by (simp add: numbered_post ns_book.book_ok_post)
  qed
qed simp

text \<open>As long as every entry carries a reference, the transaction ids in the order of the log are
  JE-00001, JE-00002, ... without gap or repetition, one per posted entry; every posted entry is
  approved and balances.\<close>

theorem netsuite_numbers_sequential:
  assumes "list_all (\<lambda>op. case op of Build e \<Rightarrow> text_or (ne_idempotency_key e) [] \<noteq> [] | Post env a \<Rightarrow> True) ops"
  defines "book \<equiv> \<lambda>ops. fold ns_book.run_op ops (new_ns_adapter ''1'' ''USD'')"
  shows "map (\<lambda>a. ne_tran_id (na_objects (book ops) ! a)) (na_sync_log (book ops)) =
      map (\<lambda>i. Some (ns_tran_id (i + 1))) [0..<ns_sync_log_count (book ops)] \<and>
    distinct (map (\<lambda>a. ne_tran_id (na_objects (book ops) ! a)) (na_sync_log (book ops))) \<and>
    list_all (\<lambda>a. ne_is_approved (na_objects (book ops) ! a) \<and>
      ns_validate_balance (na_objects (book ops) ! a) = Inr True) (na_sync_log (book ops))"
proof -
  have start: "ns_book.book_ok (new_ns_adapter ''1'' ''USD'')" "numbered (new_ns_adapter ''1'' ''USD'')"
    by (rule ns_book.book_ok_empty) (simp_all add: new_ns_adapter_def numbered_def)
  have num: "numbered (book ops)" unfolding book_def using start assms(1) by (rule numbered_run)
  have ok: "ns_book.book_ok (book ops)" unfolding book_def using start(1) by (rule ns_book.book_ok_run)
  have ids: "map (\<lambda>a. ne_tran_id (na_objects (book ops) ! a)) (na_sync_log (book ops)) =
      map (\<lambda>i. Some (ns_tran_id (i + 1))) [0..<ns_sync_log_count (book ops)]"
    using num by (simp add: numbered_def ns_sync_log_count_def)
  moreover have "distinct (map (\<lambda>i. Some (ns_tran_id (i + 1))) [0..<n])" for n
    by (simp add: distinct_map inj_on_def ns_tran_id_def)
  moreover have "list_all (\<lambda>a. ne_is_approved (na_objects (book ops) ! a) \<and>
      ns_validate_balance (na_objects (book ops) ! a) = Inr True) (na_sync_log (book ops))"
    using num ns_book.book_okD(2) [OF ok] by (simp add: numbered_def list_all_iff)
  ultimately show ?thesis by simp
qed

text \<open>Without a reference the entry object is posted again: the log lists it twice, both times with
  its last number, and the document that the first posting announced can no longer be found.\<close>

theorem netsuite_repost_loses_document:
  assumes "a < length (na_objects na)" "ns_validate_balance (na_objects na ! a) = Inr True"
    and "text_or (ne_idempotency_key (na_objects na ! a)) [] = []"
    and "ns_get_journal_entry (ns_internal_id u1) na = None" "u1 mod 1000000 \<noteq> u2 mod 1000000"
    and na1: "na1 = snd (ns_post_journal_entry (u1, t1) a na)" and na2: "na2 = snd (ns_post_journal_entry (u2, t2) a na1)"
  shows "ne_internal_id (na_objects na1 ! a) = Some (ns_internal_id u1) \<and>
    ns_get_journal_entry (ns_internal_id u1) na2 = None \<and>
    na_sync_log na2 = na_sync_log na @ [a, a] \<and> na_je_counter na2 = na_je_counter na + 2"
proof -
  have one: "na1 = na\<lparr>na_je_counter := na_je_counter na + 1,
      na_objects := (na_objects na)[a := ns_stamp (u1, t1) na (na_objects na ! a)],
      na_sync_log := na_sync_log na @ [a]\<rparr>"
    using assms(2,3) by (simp add: na1 ns_post_journal_entry_def)
  have e: "ns_validate_balance (na_objects na1 ! a) = Inr True"
    "text_or (ne_idempotency_key (na_objects na1 ! a)) [] = []"
    using assms(1-3) by (simp_all add: one ns_stamp_def ns_validate_balance_def)
  have two: "na2 = na1\<lparr>na_je_counter := na_je_counter na1 + 1,
      na_objects := (na_objects na1)[a := ns_stamp (u2, t2) na1 (na_objects na1 ! a)],
      na_sync_log := na_sync_log na1 @ [a]\<rparr>"
    using e by (simp add: na2 ns_post_journal_entry_def)
  have ids: "ns_internal_id u1 \<noteq> ns_internal_id u2" using assms(5) by (simp add: ns_internal_id_def)
  have "\<forall>b \<in> set (na_sync_log na). ne_internal_id (na_objects na ! b) \<noteq> Some (ns_internal_id u1)"
    using assms(4) by (auto simp: ns_get_journal_entry_def find_None_iff)
  then have "\<forall>b \<in> set (na_sync_log na2). ne_internal_id (na_objects na2 ! b) \<noteq> Some (ns_internal_id u1)"
    using assms(1) ids by (auto simp: one two ns_stamp_def nth_list_update)
  then have "ns_get_journal_entry (ns_internal_id u1) na2 = None"
    by (simp add: ns_get_journal_entry_def find_None_iff)
  then show ?thesis using assms(1) by (simp add: one two ns_stamp_def)
qed

section \<open>Concrete books\<close>

definition demo_ns_entry :: ns_entry where
  "demo_ns_entry = ns_build_replenishment_entry ''-'' ''Aug 2026'' (new_ns_adapter ''1'' ''USD'')
     ''t1'' ''TX1'' 500 ''10100'' ''10000'' ''USD'' ''refill''"

lemma demo_ns_entry_facts: "ns_validate_balance demo_ns_entry = Inr True" "ne_idempotency_key demo_ns_entry = Some ''TX1''"
  by (simp_all add: demo_ns_entry_def ns_replenishment_balanced) (simp add: ns_build_replenishment_entry_def)

theorem netsuite_numbers_sequential_witness:
  "map (\<lambda>a. ne_tran_id (na_objects (fold ns_book.run_op [Build demo_ns_entry, Post (7, ''now'') 0, Post (8, ''now'') 0]
     (new_ns_adapter ''1'' ''USD'')) ! a)) [0] = [Some (ns_tran_id 1)]"
proof -
  let ?ops = "[Build demo_ns_entry, Post (7, ''now'') 0, Post (8, ''now'') 0]"
  have "list_all (\<lambda>op. case op of Build e \<Rightarrow> text_or (ne_idempotency_key e) [] \<noteq> [] | Post env a \<Rightarrow> True) ?ops"
    by (simp add: demo_ns_entry_facts)
  from netsuite_numbers_sequential [OF this] have "map (\<lambda>a. ne_tran_id (na_objects (fold ns_book.run_op ?ops (new_ns_adapter ''1'' ''USD'')) ! a))
      (na_sync_log (fold ns_book.run_op ?ops (new_ns_adapter ''1'' ''USD''))) =
      map (\<lambda>i. Some (ns_tran_id (i + 1))) [0..<ns_sync_log_count (fold ns_book.run_op ?ops (new_ns_adapter ''1'' ''USD''))]"
    by (rule conjunct1)
  moreover have "na_sync_log (fold ns_book.run_op ?ops (new_ns_adapter ''1'' ''USD'')) = [0]"
    by (simp add: new_ns_adapter_def ns_build_def ns_post_journal_entry_def demo_ns_entry_facts ns_stamp_kept Let_def)
  ultimately show ?thesis by (simp only: ns_sync_log_count_def) simp
qed

theorem netsuite_repost_loses_document_witness:
  "\<exists>na2. ns_get_journal_entry (ns_internal_id 7) na2 = None \<and> na_sync_log na2 = [0, 0]"
proof -
  let ?na = "ns_build (demo_ns_entry\<lparr>ne_idempotency_key := None\<rparr>) (new_ns_adapter ''1'' ''USD'')"
  have "0 < length (na_objects ?na)" "ns_validate_balance (na_objects ?na ! 0) = Inr True"
    "text_or (ne_idempotency_key (na_objects ?na ! 0)) [] = []" "ns_get_journal_entry (ns_internal_id 7) ?na = None"
    "(7::nat) mod 1000000 \<noteq> 8 mod 1000000" "na_sync_log ?na = []"
    using demo_ns_entry_facts(1) by (simp_all add: ns_build_def new_ns_adapter_def ns_get_journal_entry_def ns_validate_balance_def)
  from netsuite_repost_loses_document [OF this(1-5) refl refl] this(6) show ?thesis by auto
qed

end
