(* ===== verification/Base64.thy ===== *)
theory Base64
  imports Prelude
begin

text \<open>
  Python's \<open>base64\<close> and the UTF-8 decoding of bytes, as the envelope encryption and the token
  verifier use them: the standard and the URL-safe alphabet, the lenient decoder that skips foreign
  characters and stops at a complete padding, and the round trips. A byte string is a \<open>string\<close>.
\<close>

section \<open>Encoding\<close>

definition b64_char :: "nat \<Rightarrow> char" where
  "b64_char n =
     char_of (if n < 26 then 65 + n else if n < 52 then 71 + n else if n < 62 then n - 4
       else if n = 62 then 43 else 47)"

fun b64_unpadded :: "string \<Rightarrow> string" where
  "b64_unpadded [] = []"
| "b64_unpadded [a] = [b64_char (char_code a div 4), b64_char (char_code a mod 4 * 16)]"
| "b64_unpadded [a, b] = [b64_char (char_code a div 4),
     b64_char (char_code a mod 4 * 16 + char_code b div 16), b64_char (char_code b mod 16 * 4)]"
| "b64_unpadded (a # b # c # s) = [b64_char (char_code a div 4),
     b64_char (char_code a mod 4 * 16 + char_code b div 16),
     b64_char (char_code b mod 16 * 4 + char_code c div 64), b64_char (char_code c mod 64)] @ b64_unpadded s"

definition b64_padding :: "string \<Rightarrow> string" where
  "b64_padding s = replicate ((3 - length s mod 3) mod 3) (CHR ''='')"

definition b64encode :: "string \<Rightarrow> string" where
  "b64encode s = b64_unpadded s @ b64_padding s"

section \<open>Decoding\<close>

definition b64_value :: "char \<Rightarrow> nat option" where
  "b64_value c =
     (let n = char_code c
      in if 65 \<le> n \<and> n \<le> 90 then Some (n - 65)
         else if 97 \<le> n \<and> n \<le> 122 then Some (n - 71)
         else if 48 \<le> n \<and> n \<le> 57 then Some (n + 4)
         else if n = 43 then Some 62 else if n = 47 then Some 63 else None)"

text \<open>The decoder of \<open>binascii\<close>: \<open>quad\<close> is the position in the group of four, \<open>left\<close> the bits carried
  over, \<open>pads\<close> the padding characters in a row.\<close>

fun b64_scan :: "nat \<Rightarrow> nat \<Rightarrow> nat \<Rightarrow> string \<Rightarrow> string option" where
  "b64_scan quad left pads [] = (if quad = 0 then Some [] else None)"
| "b64_scan quad left pads (c # s) =
     (if c = CHR ''='' then
        (if 2 \<le> quad \<and> 4 \<le> quad + pads + 1 then Some []
         else b64_scan quad left (if 2 \<le> quad then pads + 1 else pads) s)
      else case b64_value c of
        None \<Rightarrow> b64_scan quad left pads s
      | Some v \<Rightarrow>
        (if quad = 0 then b64_scan 1 v 0 s
         else if quad = 1 then map_option (Cons (char_of (left * 4 + v div 16))) (b64_scan 2 (v mod 16) 0 s)
         else if quad = 2 then map_option (Cons (char_of (left * 16 + v div 4))) (b64_scan 3 (v mod 4) 0 s)
         else map_option (Cons (char_of (left * 64 + v))) (b64_scan 0 0 0 s)))"

definition b64decode :: "string \<Rightarrow> string option" where
  "b64decode s = (if list_all (\<lambda>c. char_code c < 128) s then b64_scan 0 0 0 s else None)"

definition to_urlsafe :: "char \<Rightarrow> char" where
  "to_urlsafe c = (if c = CHR ''+'' then CHR ''-'' else if c = CHR ''/'' then CHR ''_'' else c)"

definition from_urlsafe :: "char \<Rightarrow> char" where
  "from_urlsafe c = (if c = CHR ''-'' then CHR ''+'' else if c = CHR ''_'' then CHR ''/'' else c)"

definition urlsafe_b64encode :: "string \<Rightarrow> string" where
  "urlsafe_b64encode s = map to_urlsafe (b64encode s)"

definition urlsafe_b64decode :: "string \<Rightarrow> string option" where
  "urlsafe_b64decode s = b64decode (map from_urlsafe s)"

section \<open>The round trip\<close>

lemma char_numerals:
  "CHR ''='' = char_of (61::nat)" "CHR ''+'' = char_of (43::nat)" "CHR ''/'' = char_of (47::nat)"
  "CHR ''-'' = char_of (45::nat)" "CHR ''_'' = char_of (95::nat)" "CHR ''.'' = char_of (46::nat)"
  by code_simp+

lemma char_of_eq: "m < 256 \<Longrightarrow> n < 256 \<Longrightarrow> char_of m = (char_of n :: char) \<longleftrightarrow> m = (n::nat)"
  by (metis char_code_char_of)

lemma b64_char_code:
  "n < 64 \<Longrightarrow> char_code (b64_char n) = (if n < 26 then 65 + n else if n < 52 then 71 + n
     else if n < 62 then n - 4 else if n = 62 then 43 else 47)"
  by (auto simp: b64_char_def)

lemma b64_char_facts:
  assumes "n < 64"
  shows "b64_value (b64_char n) = Some n" "b64_char n \<noteq> CHR ''=''" "char_code (b64_char n) < 128"
    "from_urlsafe (to_urlsafe (b64_char n)) = b64_char n" "to_urlsafe (b64_char n) \<noteq> CHR ''=''"
    "to_urlsafe (b64_char n) \<noteq> CHR ''.''"
proof -
  show "b64_value (b64_char n) = Some n" "char_code (b64_char n) < 128"
    using assms by (auto simp: b64_value_def b64_char_code Let_def)
  show "b64_char n \<noteq> CHR ''=''" "from_urlsafe (to_urlsafe (b64_char n)) = b64_char n"
    "to_urlsafe (b64_char n) \<noteq> CHR ''=''" "to_urlsafe (b64_char n) \<noteq> CHR ''.''"
    using assms by (auto simp: b64_char_def to_urlsafe_def from_urlsafe_def char_numerals char_of_eq)
qed

lemma sextets:
  fixes a b c :: nat
  assumes "a < 256" "b < 256" "c < 256"
  shows "a div 4 < 64" "a mod 4 * 16 < 64" "a mod 4 * 16 + b div 16 < 64" "b mod 16 * 4 < 64"
    "b mod 16 * 4 + c div 64 < 64" "c mod 64 < 64"
  using assms by auto

lemma char_sextets:
  "char_code a div 4 < 64" "char_code a mod 4 * 16 < 64" "char_code a mod 4 * 16 + char_code b div 16 < 64"
  "char_code b mod 16 * 4 < 64" "char_code b mod 16 * 4 + char_code c div 64 < 64" "char_code c mod 64 < 64"
  by (rule sextets [OF char_code_less [of a] char_code_less [of b] char_code_less [of c]])+

lemma b64_char_ex: "n < 64 \<Longrightarrow> \<exists>m < 64. b64_char n = b64_char m"
  by blast

lemma b64_unpadded_chars: "c \<in> set (b64_unpadded s) \<Longrightarrow> \<exists>n < 64. c = b64_char n"
  by (induction s rule: b64_unpadded.induct) (auto intro!: b64_char_ex char_sextets)

lemma regroup: "a div 4 * 4 + (a mod 4 * 16 + b div 16) div 16 = a"
  "(a mod 4 * 16 + b div 16) mod 16 = b div 16"
  "b div 16 * 16 + (b mod 16 * 4 + c div 64) div 4 = b"
  "(b mod 16 * 4 + c div 64) mod 4 = c div 64" "c div 64 * 64 + c mod 64 = c"
  "b div 16 mod 16 * 16 + b mod 16 = b"
  if "b < 256" "c < 256" for a b c :: nat
  using that by auto

lemma b64_scan_encode: "b64_scan 0 0 0 (b64encode s) = Some s"
proof (induction s rule: b64_unpadded.induct)
  case (2 a)
  note s = sextets [OF char_code_less [of a] char_code_less [of a] char_code_less [of a]]
  show ?case
    using s regroup [of 0 0] by (simp add: b64encode_def b64_padding_def b64_char_facts char_code_def numeral_2_eq_2)
next
  case (3 a b)
  note s = sextets [OF char_code_less [of a] char_code_less [of b] char_code_less [of b]]
  show ?case
    using s regroup [of "char_code b" 0]
    by (simp add: b64encode_def b64_padding_def b64_char_facts char_code_def numeral_2_eq_2)
next
  case (4 a b c s)
  note s = sextets [OF char_code_less [of a] char_code_less [of b] char_code_less [of c]]
  show ?case
    using s regroup [of "char_code b" "char_code c"] 4
    by (simp add: b64encode_def b64_padding_def b64_char_facts char_code_def numeral_2_eq_2)
qed (simp add: b64encode_def b64_padding_def)

lemma b64encode_chars: "c \<in> set (b64encode s) \<Longrightarrow> c = CHR ''='' \<or> (\<exists>n < 64. c = b64_char n)"
  using b64_unpadded_chars by (auto simp: b64encode_def b64_padding_def split: if_splits)

lemma b64decode_encode [simp]: "b64decode (b64encode s) = Some s"
proof -
  have "char_code (CHR ''='') < 128" by (simp add: char_code_def)
  then have "list_all (\<lambda>c. char_code c < 128) (b64encode s)"
    unfolding list_all_iff using b64encode_chars b64_char_facts(3) by blast
  then show ?thesis by (simp add: b64decode_def b64_scan_encode)
qed

lemma urlsafe_decode_encode [simp]: "urlsafe_b64decode (urlsafe_b64encode s) = Some s"
proof -
  have "from_urlsafe (to_urlsafe c) = c" if "c \<in> set (b64encode s)" for c
    using b64encode_chars [OF that]
  proof
    assume "c = CHR ''=''"
    then show ?thesis by (simp add: to_urlsafe_def from_urlsafe_def)
  qed (use b64_char_facts(4) in blast)
  then have "map from_urlsafe (urlsafe_b64encode s) = b64encode s"
    by (simp add: urlsafe_b64encode_def map_idI)
  then show ?thesis by (simp add: urlsafe_b64decode_def)
qed

text \<open>The unpadded text and its length, for a decoder that restores the padding.\<close>

lemma length_b64_unpadded: "length (b64_unpadded s) = length s div 3 * 4 + (if length s mod 3 = 0 then 0 else length s mod 3 + 1)"
proof (induction s rule: b64_unpadded.induct)
  case (4 a b c s)
  have "Suc (Suc (Suc (length s))) div 3 = Suc (length s div 3)" "Suc (Suc (Suc (length s))) mod 3 = length s mod 3"
    by presburger+
  with 4 show ?case by simp
qed simp_all

lemma unpadded_quads:
  "(4 - length (b64_unpadded s) mod 4) mod 4 = (3 - length s mod 3) mod 3"
proof -
  have "length (b64_unpadded s) mod 4 = (if length s mod 3 = 0 then 0 else length s mod 3 + 1) mod 4"
    by (simp add: length_b64_unpadded)
  moreover have "length s mod 3 = 0 \<or> length s mod 3 = 1 \<or> length s mod 3 = 2" by presburger
  ultimately show ?thesis by auto
qed

section \<open>UTF-8 decoding\<close>

text \<open>Text outside U+0000 to U+00FF is outside the character type and refused like malformed bytes.\<close>

fun utf8_decode :: "string \<Rightarrow> string option" where
  "utf8_decode [] = Some []"
| "utf8_decode (c # s) =
     (if char_code c < 128 then map_option (Cons c) (utf8_decode s)
      else if char_code c = 194 \<or> char_code c = 195 then
        (case s of [] \<Rightarrow> None
         | d # t \<Rightarrow> if 128 \<le> char_code d \<and> char_code d < 192
             then map_option (Cons (char_of ((char_code c - 192) * 64 + (char_code d - 128)))) (utf8_decode t)
             else None)
      else None)"

lemma utf8_decode_char: "utf8_decode (utf8_char c @ s) = map_option (Cons c) (utf8_decode s)"
proof (cases "char_code c < 128")
  case False
  define h l where "h = char_of (192 + char_code c div 64)" and "l = char_of (128 + char_code c mod 64)"
  have h: "char_code h = 192 + char_code c div 64" and l: "char_code l = 128 + char_code c mod 64"
    using utf8_char_high [of c] False by (simp_all add: h_def l_def)
  have two: "n div 64 = 2 \<or> n div 64 = 3" if "\<not> n < 128" "n < 256" for n :: nat
  proof -
    have "2 \<le> n div 64" using that(1) div_le_mono [of 128 n 64] by simp
    moreover have "n div 64 < 4" using that(2) by (intro less_mult_imp_div_less) simp
    ultimately show ?thesis by linarith
  qed
  have "192 + char_code c div 64 = 194 \<or> 192 + char_code c div 64 = 195"
    using two [OF False char_code_less] by auto
  moreover have "(char_code h - 192) * 64 + (char_code l - 128) = char_code c" by (simp add: h l)
  then have "char_of ((char_code h - 192) * 64 + (char_code l - 128)) = c" by (simp add: char_code_def)
  moreover have "char_code l < 192" by (simp add: l)
  ultimately have "utf8_decode (h # l # s) = map_option (Cons c) (utf8_decode s)"
    using h l by simp
  then show ?thesis using False by (simp add: utf8_char_def h_def l_def)
qed (simp add: utf8_char_def)

lemma utf8_decode_encode [simp]: "utf8_decode (utf8 s) = Some s"
  by (induction s) (simp_all add: utf8_decode_char)

lemma utf8_ascii: "list_all (\<lambda>c. char_code c < 128) s \<Longrightarrow> utf8 s = s"
  by (induction s) (simp_all add: utf8_char_def)

end
