(* ===== verification/Kms_Vault.thy ===== *)
theory Kms_Vault
  imports Base64 Json
begin

text \<open>
  \<^verbatim>\<open>src/infrastructure/security/kms_vault.py\<close>: envelope encryption of single fields. AES-GCM is the
  pair of parameters \<open>seal\<close> and \<open>unseal\<close> (key, nonce, text, associated data); the random keys and
  nonces and the clock are arguments. \<open>aead\<close> states what the package documents of AES-GCM: a sealed
  text opens under the same key, nonce and associated data. \<open>no_forgery\<close> states the authenticity of a
  ciphertext: under a key of the vault it opens only with a nonce and associated data it was sealed with.
\<close>

section \<open>Data\<close>

record envelope =
  en_key_id :: string
  en_tenant_id :: string
  en_ciphertext_b64 :: string
  en_wrapped_dek_b64 :: string
  en_nonce_b64 :: string
  en_created_at :: string

record kms_vault =
  kv_key_id :: string
  kv_kek :: string

record aes_gcm =
  gcm_seal :: "string \<Rightarrow> string \<Rightarrow> string \<Rightarrow> string \<Rightarrow> string"
  gcm_unseal :: "string \<Rightarrow> string \<Rightarrow> string \<Rightarrow> string \<Rightarrow> string option"

datatype kms_error =
    MasterKeyLength
  | CorruptedWrappedDek
  | UnwrapFailed
  | CrossTenantAccess string string
  | DecryptionFailed

definition envelope_to_json :: "envelope \<Rightarrow> string" where
  "envelope_to_json e = dumps Spaced False (JDict
     [(''key_id'', JStr (en_key_id e)), (''tenant_id'', JStr (en_tenant_id e)),
      (''ciphertext'', JStr (en_ciphertext_b64 e)), (''wrapped_dek'', JStr (en_wrapped_dek_b64 e)),
      (''nonce'', JStr (en_nonce_b64 e)), (''created_at'', JStr (en_created_at e))])"

text \<open>A missing key, or a value that is no text, is answered \<open>None\<close>; \<open>created_at\<close> may be missing.\<close>

definition envelope_from_json :: "string \<Rightarrow> envelope option" where
  "envelope_from_json data =
     (case loads data of
        Some (JDict d) \<Rightarrow>
          (case (map_of d ''key_id'', map_of d ''tenant_id'', map_of d ''ciphertext'',
                 map_of d ''wrapped_dek'', map_of d ''nonce'',
                 case map_of d ''created_at'' of None \<Rightarrow> Some (JStr []) | Some c \<Rightarrow> Some c) of
             (Some (JStr k), Some (JStr t), Some (JStr c), Some (JStr w), Some (JStr n), Some (JStr a)) \<Rightarrow>
               Some \<lparr>en_key_id = k, en_tenant_id = t, en_ciphertext_b64 = c, en_wrapped_dek_b64 = w,
                 en_nonce_b64 = n, en_created_at = a\<rparr>
           | _ \<Rightarrow> None)
      | _ \<Rightarrow> None)"

section \<open>The vault\<close>

text \<open>A missing or empty master key is replaced by a random one.\<close>

definition new_kms_vault :: "string \<Rightarrow> string option \<Rightarrow> string \<Rightarrow> kms_error + kms_vault" where
  "new_kms_vault random_key master_key key_id =
     (let kek = text_or master_key random_key
      in if length kek \<noteq> 32 then Inl MasterKeyLength else Inr \<lparr>kv_key_id = key_id, kv_kek = kek\<rparr>)"

definition wrap_aad :: "string \<Rightarrow> string" where
  "wrap_aad tenant = utf8 (''tenant:'' @ tenant @ '':kek_wrap'')"

definition field_aad :: "string \<Rightarrow> string" where
  "field_aad tenant = utf8 (''tenant:'' @ tenant @ '':field_encryption'')"

definition wrap_dek :: "aes_gcm \<Rightarrow> string \<Rightarrow> kms_vault \<Rightarrow> string \<Rightarrow> string \<Rightarrow> string" where
  "wrap_dek gcm nonce kv dek tenant = nonce @ gcm_seal gcm (kv_kek kv) nonce dek (wrap_aad tenant)"

definition unwrap_dek :: "aes_gcm \<Rightarrow> kms_vault \<Rightarrow> string \<Rightarrow> string \<Rightarrow> kms_error + string" where
  "unwrap_dek gcm kv payload tenant =
     (if length payload < 28 then Inl CorruptedWrappedDek
      else case gcm_unseal gcm (kv_kek kv) (take 12 payload) (drop 12 payload) (wrap_aad tenant) of
        None \<Rightarrow> Inl UnwrapFailed | Some dek \<Rightarrow> Inr dek)"

record kms_env =
  ke_dek :: string
  ke_nonce :: string
  ke_wrap_nonce :: string
  ke_now :: string

definition encrypt_field :: "aes_gcm \<Rightarrow> kms_env \<Rightarrow> kms_vault \<Rightarrow> string \<Rightarrow> string \<Rightarrow> envelope" where
  "encrypt_field gcm env kv plaintext tenant =
     (let ciphertext = gcm_seal gcm (ke_dek env) (ke_nonce env) (utf8 plaintext) (field_aad tenant);
          wrapped = wrap_dek gcm (ke_wrap_nonce env) kv (ke_dek env) tenant
      in \<lparr>en_key_id = kv_key_id kv, en_tenant_id = tenant, en_ciphertext_b64 = b64encode ciphertext,
          en_wrapped_dek_b64 = b64encode wrapped, en_nonce_b64 = b64encode (ke_nonce env),
          en_created_at = ke_now env\<rparr>)"

definition decrypt_field :: "aes_gcm \<Rightarrow> kms_vault \<Rightarrow> envelope \<Rightarrow> string \<Rightarrow> kms_error + string" where
  "decrypt_field gcm kv e tenant =
     (if en_tenant_id e \<noteq> tenant then Inl (CrossTenantAccess (en_tenant_id e) tenant)
      else case (b64decode (en_wrapped_dek_b64 e), b64decode (en_ciphertext_b64 e), b64decode (en_nonce_b64 e)) of
        (Some wrapped, Some ciphertext, Some nonce) \<Rightarrow>
          bind_result (unwrap_dek gcm kv wrapped tenant) (\<lambda>dek.
            case gcm_unseal gcm dek nonce ciphertext (field_aad tenant) of
              None \<Rightarrow> Inl DecryptionFailed
            | Some bytes \<Rightarrow> (case utf8_decode bytes of None \<Rightarrow> Inl DecryptionFailed | Some t \<Rightarrow> Inr t))
      | _ \<Rightarrow> Inl DecryptionFailed)"

section \<open>What authenticated encryption gives\<close>

definition aead :: "aes_gcm \<Rightarrow> bool" where
  "aead gcm \<longleftrightarrow>
     (\<forall>k n c a p. gcm_unseal gcm k n c a = Some p \<longleftrightarrow>
        length k \<in> {16, 24, 32} \<and> 8 \<le> length n \<and> length n \<le> 128 \<and> c = gcm_seal gcm k n p a) \<and>
     (\<forall>k n p a. length p + 16 \<le> length (gcm_seal gcm k n p a))"

definition good_env :: "kms_env \<Rightarrow> bool" where
  "good_env env \<longleftrightarrow> length (ke_dek env) = 32 \<and> length (ke_nonce env) = 12 \<and> length (ke_wrap_nonce env) = 12"

text \<open>The encryptions a vault was asked for (environment, text, tenant), and what they sealed: per call the data
  key under the key of the vault, and the text under the data key.\<close>

type_synonym kms_call = "kms_env \<times> string \<times> string"

definition sealings :: "kms_vault \<Rightarrow> kms_call list \<Rightarrow> (string \<times> string \<times> string \<times> string) list" where
  "sealings kv calls = concat (map (\<lambda>(env, p, t).
     [(kv_kek kv, ke_wrap_nonce env, ke_dek env, wrap_aad t), (ke_dek env, ke_nonce env, utf8 p, field_aad t)]) calls)"

definition vault_keys :: "kms_vault \<Rightarrow> kms_call list \<Rightarrow> string list" where
  "vault_keys kv calls = kv_kek kv # map (\<lambda>(env, p, t). ke_dek env) calls"

text \<open>A ciphertext is no forgery when it opens, under the keys nobody else has, only as it was sealed; an
  envelope is unforged when its two ciphertexts are none. Its labels, its nonce and the way its parts are
  combined are free.\<close>

definition no_forgery :: "aes_gcm \<Rightarrow> kms_vault \<Rightarrow> kms_call list \<Rightarrow> string \<Rightarrow> bool" where
  "no_forgery gcm kv calls c \<longleftrightarrow> (\<forall>k n a p. k \<in> set (vault_keys kv calls) \<and> gcm_unseal gcm k n c a = Some p \<longrightarrow>
     (k, n, p, a) \<in> set (sealings kv calls))"

definition unforged :: "aes_gcm \<Rightarrow> kms_vault \<Rightarrow> kms_call list \<Rightarrow> envelope \<Rightarrow> bool" where
  "unforged gcm kv calls e \<longleftrightarrow>
     (\<forall>w. b64decode (en_wrapped_dek_b64 e) = Some w \<longrightarrow> no_forgery gcm kv calls (drop 12 w)) \<and>
     (\<forall>c. b64decode (en_ciphertext_b64 e) = Some c \<longrightarrow> no_forgery gcm kv calls c)"

lemma aad_inject [simp]:
  "wrap_aad t = wrap_aad u \<longleftrightarrow> t = u" "field_aad t = field_aad u \<longleftrightarrow> t = u"
  by (simp_all add: wrap_aad_def field_aad_def del: utf8_simps)

lemma aad_distinct [simp]: "wrap_aad t \<noteq> field_aad u" "field_aad u \<noteq> wrap_aad t"
proof -
  have "''tenant:'' @ t @ '':kek_wrap'' \<noteq> ''tenant:'' @ u @ '':field_encryption''"
    by (rule notI, drule arg_cong [of _ _ last]) simp
  then show "wrap_aad t \<noteq> field_aad u" "field_aad u \<noteq> wrap_aad t"
    by (auto simp: wrap_aad_def field_aad_def simp del: utf8_simps)
qed

lemma call_sealings:
  assumes "(env, p, t) \<in> set calls"
  shows "(kv_kek kv, ke_wrap_nonce env, ke_dek env, wrap_aad t) \<in> set (sealings kv calls)"
    "(ke_dek env, ke_nonce env, utf8 p, field_aad t) \<in> set (sealings kv calls)"
  unfolding sealings_def set_concat set_map by (rule UN_I [OF imageI [OF assms]], simp)+

lemma wrap_sealing:
  "(k, n, p, wrap_aad t) \<in> set (sealings kv calls) \<Longrightarrow>
     \<exists>env q. (env, q, t) \<in> set calls \<and> k = kv_kek kv \<and> n = ke_wrap_nonce env \<and> p = ke_dek env"
  by (auto simp: sealings_def)

lemma field_sealing:
  "(k, n, p, field_aad t) \<in> set (sealings kv calls) \<Longrightarrow>
     \<exists>env q. (env, q, t) \<in> set calls \<and> k = ke_dek env \<and> n = ke_nonce env \<and> p = utf8 q"
  by (auto simp: sealings_def)

lemma unwrap_sealed:
  assumes "aead gcm" "no_forgery gcm kv calls (drop 12 w)" "unwrap_dek gcm kv w t = Inr dek"
  shows "\<exists>env q. (env, q, t) \<in> set calls \<and> dek = ke_dek env \<and> w = wrap_dek gcm (ke_wrap_nonce env) kv (ke_dek env) t"
proof -
  have open': "gcm_unseal gcm (kv_kek kv) (take 12 w) (drop 12 w) (wrap_aad t) = Some dek"
    using assms(3) by (auto simp: unwrap_dek_def split: if_splits option.splits)
  then have "(kv_kek kv, take 12 w, dek, wrap_aad t) \<in> set (sealings kv calls)"
    using assms(2) by (simp add: no_forgery_def vault_keys_def)
  moreover have "drop 12 w = gcm_seal gcm (kv_kek kv) (take 12 w) dek (wrap_aad t)"
    using assms(1) open' by (simp add: aead_def)
  ultimately show ?thesis
    unfolding wrap_dek_def by (metis append_take_drop_id wrap_sealing)
qed

lemma envelope_opens:
  assumes "aead gcm" "good_env env" "length (kv_kek kv) = 32"
  shows "decrypt_field gcm kv (encrypt_field gcm env kv text tenant) tenant = Inr text"
proof -
  have len: "length (gcm_seal gcm k n p a) \<ge> length p + 16"
      "gcm_unseal gcm k n (gcm_seal gcm k n p a) a = Some p"
    if "length k = 32" "length n = 12" for k n p a
    using assms(1) that by (auto simp: aead_def)
  show ?thesis
    using assms(2,3) len(1) [of "kv_kek kv" "ke_wrap_nonce env" "ke_dek env" "wrap_aad tenant"]
    by (simp add: decrypt_field_def encrypt_field_def wrap_dek_def unwrap_dek_def good_env_def Let_def len)
qed

text \<open>A field that a vault with a 256-bit key encrypted for a tenant decrypts, also after a trip through
  JSON, to the same text for this tenant, and is refused to every other tenant.\<close>

theorem envelope_roundtrip:
  assumes "aead gcm" "good_env env" "length (kv_kek kv) = 32"
  shows "envelope_from_json (envelope_to_json (encrypt_field gcm env kv text tenant)) =
      Some (encrypt_field gcm env kv text tenant) \<and>
    decrypt_field gcm kv (encrypt_field gcm env kv text tenant) other =
      (if other = tenant then Inr text else Inl (CrossTenantAccess tenant other))"
proof -
  let ?e = "encrypt_field gcm env kv text tenant"
  let ?d = "JDict [(''key_id'', JStr (en_key_id ?e)), (''tenant_id'', JStr (en_tenant_id ?e)),
      (''ciphertext'', JStr (en_ciphertext_b64 ?e)), (''wrapped_dek'', JStr (en_wrapped_dek_b64 ?e)),
      (''nonce'', JStr (en_nonce_b64 ?e)), (''created_at'', JStr (en_created_at ?e))]"
  have "wf_json ?d" by simp
  then have "loads (envelope_to_json ?e) = Some ?d" by (simp add: envelope_to_json_def loads_dumps)
  then have "envelope_from_json (envelope_to_json ?e) = Some ?e" by (simp add: envelope_from_json_def)
  moreover have "decrypt_field gcm kv ?e tenant = Inr text" by (rule envelope_opens [OF assms])
  moreover have "en_tenant_id ?e = tenant" by (simp add: encrypt_field_def Let_def)
  ultimately show ?thesis by (cases "other = tenant") (simp, simp add: decrypt_field_def)
qed

text \<open>C31. What a vault encrypts for a tenant opens for that tenant, and nothing else opens: whatever the labels of an
  unforged envelope say, and however its wrapped key, nonce and ciphertext were combined from what the
  vault has sealed for any tenants, if it decrypts for a tenant, then its data key was wrapped by an
  encryption for exactly this tenant, its ciphertext was sealed under that data key by an encryption for
  exactly this tenant, and its text is the text of that encryption.\<close>

theorem only_sealed_fields_open:
  assumes "aead gcm" "length (kv_kek kv) = 32" "unforged gcm kv calls e" "decrypt_field gcm kv e tenant = Inr text"
  shows "en_tenant_id e = tenant \<and>
    (\<exists>env p. (env, p, tenant) \<in> set calls \<and>
       b64decode (en_wrapped_dek_b64 e) = Some (wrap_dek gcm (ke_wrap_nonce env) kv (ke_dek env) tenant) \<and>
       (\<exists>env'. (env', text, tenant) \<in> set calls \<and> ke_dek env' = ke_dek env \<and>
          b64decode (en_nonce_b64 e) = Some (ke_nonce env') \<and>
          b64decode (en_ciphertext_b64 e) =
            b64decode (en_ciphertext_b64 (encrypt_field gcm env' kv text tenant)))) \<and>
    (\<forall>env p. good_env env \<longrightarrow> decrypt_field gcm kv (encrypt_field gcm env kv p tenant) tenant = Inr p)"
proof -
  have t: "en_tenant_id e = tenant" using assms(4) by (auto simp: decrypt_field_def split: if_splits)
  obtain w c n where b64: "b64decode (en_wrapped_dek_b64 e) = Some w" "b64decode (en_ciphertext_b64 e) = Some c"
      "b64decode (en_nonce_b64 e) = Some n"
    using assms(4) by (auto simp: decrypt_field_def split: if_splits option.splits)
  obtain dek where dek: "unwrap_dek gcm kv w tenant = Inr dek"
    using assms(4) t b64 by (cases "unwrap_dek gcm kv w tenant") (simp_all add: decrypt_field_def)
  obtain bytes where bytes: "gcm_unseal gcm dek n c (field_aad tenant) = Some bytes" "utf8_decode bytes = Some text"
    using assms(4) t b64 dek by (auto simp: decrypt_field_def split: option.splits)
  have unforged: "no_forgery gcm kv calls (drop 12 w)" "no_forgery gcm kv calls c"
    using assms(3) b64 by (simp_all add: unforged_def)
  obtain env q where wrapped: "(env, q, tenant) \<in> set calls" "dek = ke_dek env"
      "w = wrap_dek gcm (ke_wrap_nonce env) kv (ke_dek env) tenant"
    using unwrap_sealed [OF assms(1) unforged(1) dek] by blast
  have "dek \<in> set (vault_keys kv calls)" using wrapped(1,2) by (force simp: vault_keys_def)
  then obtain env' q' where sealed: "(env', q', tenant) \<in> set calls" "dek = ke_dek env'" "n = ke_nonce env'" "bytes = utf8 q'"
    using unforged(2) bytes(1) field_sealing unfolding no_forgery_def by blast
  have "q' = text" using bytes(2) sealed(4) by simp
  moreover have "c = gcm_seal gcm dek n bytes (field_aad tenant)" using bytes(1) assms(1) by (simp add: aead_def)
  then have "b64decode (en_ciphertext_b64 (encrypt_field gcm env' kv text tenant)) = Some c"
    using sealed \<open>q' = text\<close> by (simp add: encrypt_field_def Let_def)
  ultimately show ?thesis
    using t b64 wrapped sealed(1-3) envelope_opens [OF assms(1) _ assms(2)] by metis
qed

section \<open>A concrete vault\<close>

text \<open>A cipher that hides nothing and authenticates everything: key, nonce, text and associated data stand one
  after the other, each character marked and each text ended.\<close>

fun framed :: "string \<Rightarrow> string" where
  "framed [] = ''0''"
| "framed (c # s) = CHR ''1'' # c # framed s"

fun unframe :: "string \<Rightarrow> (string \<times> string) option" where
  "unframe (f # s) = (if f = CHR ''0'' then Some ([], s) else
     case s of [] \<Rightarrow> None | c # r \<Rightarrow> map_option (apfst (Cons c)) (unframe r))"
| "unframe [] = None"

lemma framed_inject [simp]: "framed s @ r = framed t @ q \<longleftrightarrow> s = t \<and> r = q"
proof (induction s arbitrary: t)
  case Nil
  then show ?case by (cases t) auto
next
  case (Cons c s)
  then show ?case by (cases t) auto
qed

lemma framed_eq [simp]: "framed s = framed t \<longleftrightarrow> s = t"
  using framed_inject [of s "[]" t "[]"] by simp

lemma unframe_framed [simp]: "unframe (framed s @ r) = Some (s, r)"
  by (induction s) auto

lemma length_framed: "length (framed s) = 2 * length s + 1"
  by (induction s) auto

definition demo_tag :: "string \<Rightarrow> string \<Rightarrow> string \<Rightarrow> string" where
  "demo_tag k n a = framed k @ framed n @ framed a @ replicate 16 (CHR ''!'')"

definition demo_gcm :: aes_gcm where
  "demo_gcm = \<lparr>gcm_seal = (\<lambda>k n p a. framed p @ demo_tag k n a),
     gcm_unseal = (\<lambda>k n c a. case unframe c of None \<Rightarrow> None | Some (p, tag) \<Rightarrow>
       if length k \<in> {16, 24, 32} \<and> 8 \<le> length n \<and> length n \<le> 128 \<and> c = framed p @ demo_tag k n a then Some p else None)\<rparr>"

lemma demo_gcm_aead: "aead demo_gcm"
  by (auto simp: aead_def demo_gcm_def demo_tag_def length_framed split: option.splits if_splits)

lemma demo_seal_inject:
  "gcm_seal demo_gcm k n p a = gcm_seal demo_gcm k' n' p' a' \<longleftrightarrow> k = k' \<and> n = n' \<and> p = p' \<and> a = a'"
  by (auto simp: demo_gcm_def demo_tag_def)

lemma demo_no_forgery:
  assumes "(k, n, p, a) \<in> set (sealings kv calls)" "c = gcm_seal demo_gcm k n p a"
  shows "no_forgery demo_gcm kv calls c"
  unfolding no_forgery_def
proof (intro allI impI)
  fix k' n' a' p' assume "k' \<in> set (vault_keys kv calls) \<and> gcm_unseal demo_gcm k' n' c a' = Some p'"
  then have "c = gcm_seal demo_gcm k' n' p' a'" using demo_gcm_aead by (simp add: aead_def)
  with assms show "(k', n', p', a') \<in> set (sealings kv calls)" by (simp add: demo_seal_inject)
qed

lemma demo_unforged:
  assumes "(env, p, t) \<in> set calls" "length (ke_wrap_nonce env) = 12"
  shows "unforged demo_gcm kv calls (encrypt_field demo_gcm env kv p t)"
proof -
  have "no_forgery demo_gcm kv calls (gcm_seal demo_gcm (kv_kek kv) (ke_wrap_nonce env) (ke_dek env) (wrap_aad t))"
    "no_forgery demo_gcm kv calls (gcm_seal demo_gcm (ke_dek env) (ke_nonce env) (utf8 p) (field_aad t))"
    by (rule demo_no_forgery [OF _ refl], rule call_sealings [OF assms(1)])+
  then show ?thesis using assms(2) by (simp add: unforged_def encrypt_field_def wrap_dek_def Let_def)
qed

definition demo_kms_env :: kms_env where
  "demo_kms_env = \<lparr>ke_dek = replicate 32 (CHR ''d''), ke_nonce = replicate 12 (CHR ''n''),
     ke_wrap_nonce = replicate 12 (CHR ''w''), ke_now = ''now''\<rparr>"

definition demo_vault :: kms_vault where
  "demo_vault = \<lparr>kv_key_id = ''k1'', kv_kek = replicate 32 (CHR ''k'')\<rparr>"

lemma demo_kms_facts: "good_env demo_kms_env" "length (kv_kek demo_vault) = 32"
  by (simp_all add: good_env_def demo_kms_env_def demo_vault_def)

theorem envelope_roundtrip_witness:
  "decrypt_field demo_gcm demo_vault (encrypt_field demo_gcm demo_kms_env demo_vault ''SSN 1'' ''acme'') ''acme'' = Inr ''SSN 1'' \<and>
   decrypt_field demo_gcm demo_vault (encrypt_field demo_gcm demo_kms_env demo_vault ''SSN 1'' ''acme'') ''beta'' =
     Inl (CrossTenantAccess ''acme'' ''beta'')"
  using envelope_roundtrip [OF demo_gcm_aead demo_kms_facts, of "''SSN 1''" "''acme''" "''acme''"]
    envelope_roundtrip [OF demo_gcm_aead demo_kms_facts, of "''SSN 1''" "''acme''" "''beta''"] by simp

text \<open>Two tenants, the second with the data key and nonces of the first.\<close>

definition demo_kms_calls :: "kms_call list" where
  "demo_kms_calls = [(demo_kms_env, ''SSN 1'', ''acme''), (demo_kms_env, ''SSN 2'', ''beta'')]"

theorem only_sealed_fields_open_witness:
  "decrypt_field demo_gcm demo_vault (encrypt_field demo_gcm demo_kms_env demo_vault ''SSN 1'' ''acme'') ''acme'' = Inr ''SSN 1'' \<and>
   (\<exists>env. (env, ''SSN 1'', ''acme'') \<in> set demo_kms_calls)"
proof -
  let ?e = "encrypt_field demo_gcm demo_kms_env demo_vault ''SSN 1'' ''acme''"
  have opens: "decrypt_field demo_gcm demo_vault ?e ''acme'' = Inr ''SSN 1''"
    by (rule envelope_opens [OF demo_gcm_aead demo_kms_facts])
  have "unforged demo_gcm demo_vault demo_kms_calls ?e"
    by (rule demo_unforged) (simp_all add: demo_kms_calls_def demo_kms_env_def)
  from only_sealed_fields_open [OF demo_gcm_aead demo_kms_facts(2) this opens] opens show ?thesis by blast
qed

end
