(* ===== verification/Jwt.thy ===== *)
theory Jwt
  imports Base64 Json
begin

text \<open>
  \<^verbatim>\<open>src/infrastructure/security/jwt_verifier.py\<close>: tokens, their verification and the security
  context. HMAC-SHA256 is the parameter \<open>hm\<close> (key, message, digest bytes), the clock an argument.
  The claims of a payload keep whatever JSON type they have; what Python does with a claim of
  another type than the issuer writes is a branch of its own.
\<close>

section \<open>Roles and contexts\<close>

datatype user_role = CUSTODIAN | FINANCE_MANAGER | FINANCE_DIRECTOR | AUDITOR | SYSTEM_ADMIN

fun user_role_value :: "user_role \<Rightarrow> string" where
  "user_role_value CUSTODIAN = ''CUSTODIAN''"
| "user_role_value FINANCE_MANAGER = ''FINANCE_MANAGER''"
| "user_role_value FINANCE_DIRECTOR = ''FINANCE_DIRECTOR''"
| "user_role_value AUDITOR = ''AUDITOR''"
| "user_role_value SYSTEM_ADMIN = ''SYSTEM_ADMIN''"

record security_context =
  sc_user_id :: json
  sc_tenant_id :: json
  sc_email :: json
  sc_roles :: json
  sc_permissions :: json
  sc_issued_at :: json
  sc_expires_at :: json
  sc_issuer :: json

datatype security_error =
    MalformedToken
  | InvalidSignature
  | PayloadNotParsed
  | TokenExpired
  | IssuerMismatch
  | MissingTenantClaim
  | BoundaryViolation json string
  | Unhandled string

text \<open>\<open>s in v\<close> for a text: membership in a list, key of a dict, substring of a text, else a \<open>TypeError\<close>.\<close>

fun py_in :: "string \<Rightarrow> json \<Rightarrow> security_error + bool" where
  "py_in s (JList xs) = Inr (JStr s \<in> set xs)"
| "py_in s (JDict d) = Inr (s \<in> fst ` set d)"
| "py_in s (JStr t) = Inr (is_infix s t)"
| "py_in s _ = Inl (Unhandled ''TypeError'')"

definition has_role :: "security_context \<Rightarrow> string \<Rightarrow> security_error + bool" where
  "has_role sc role = bind_result (py_in role (sc_roles sc)) (\<lambda>b.
     if b then Inr True else py_in (user_role_value SYSTEM_ADMIN) (sc_roles sc))"

definition has_permission :: "security_context \<Rightarrow> string \<Rightarrow> security_error + bool" where
  "has_permission sc p = bind_result (py_in p (sc_permissions sc)) (\<lambda>b.
     if b then Inr True else py_in (user_role_value SYSTEM_ADMIN) (sc_roles sc))"

definition validate_tenant_boundary :: "security_context \<Rightarrow> string \<Rightarrow> security_error + unit" where
  "validate_tenant_boundary sc requested =
     (if sc_tenant_id sc = JStr requested then Inr ()
      else bind_result (py_in (user_role_value SYSTEM_ADMIN) (sc_roles sc)) (\<lambda>admin.
        if \<not> admin then Inl (BoundaryViolation (sc_tenant_id sc) requested) else Inr ()))"

section \<open>Tokens\<close>

record jwt_verifier =
  jv_secret :: string
  jv_issuer :: string
  jv_default_expiry_seconds :: int

definition new_jwt_verifier :: "string \<Rightarrow> string \<Rightarrow> int \<Rightarrow> jwt_verifier" where
  "new_jwt_verifier secret issuer expiry = \<lparr>jv_secret = utf8 secret, jv_issuer = issuer,
     jv_default_expiry_seconds = expiry\<rparr>"

definition jwt_b64_encode :: "string \<Rightarrow> string" where
  "jwt_b64_encode bytes = rev (dropWhile (\<lambda>c. c = CHR ''='') (rev (urlsafe_b64encode bytes)))"

definition jwt_b64_decode :: "string \<Rightarrow> string option" where
  "jwt_b64_decode s =
     (let padding = 4 - length s mod 4
      in urlsafe_b64decode (if padding \<noteq> 4 then s @ replicate padding (CHR ''='') else s))"

definition jwt_header :: json where
  "jwt_header = JDict [(''alg'', JStr ''HS256''), (''typ'', JStr ''JWT'')]"

definition jwt_payload ::
  "jwt_verifier \<Rightarrow> int \<Rightarrow> int \<Rightarrow> string \<Rightarrow> string \<Rightarrow> string \<Rightarrow> string list \<Rightarrow> string list \<Rightarrow> json" where
  "jwt_payload jv now exp user tenant email roles permissions = JDict
     [(''sub'', JStr user), (''tenant_id'', JStr tenant), (''email'', JStr email),
      (''roles'', JList (map JStr roles)), (''permissions'', JList (map JStr permissions)),
      (''iat'', JInt now), (''exp'', JInt exp), (''iss'', JStr (jv_issuer jv))]"

definition signature_of :: "(string \<Rightarrow> string \<Rightarrow> string) \<Rightarrow> jwt_verifier \<Rightarrow> string \<Rightarrow> string \<Rightarrow> string" where
  "signature_of hm jv header_b64 payload_b64 =
     jwt_b64_encode (hm (jv_secret jv) (utf8 (header_b64 @ ''.'' @ payload_b64)))"

definition issue_token ::
  "(string \<Rightarrow> string \<Rightarrow> string) \<Rightarrow> int \<Rightarrow> jwt_verifier \<Rightarrow> string \<Rightarrow> string \<Rightarrow> string \<Rightarrow> string list \<Rightarrow>
   string list option \<Rightarrow> int option \<Rightarrow> string" where
  "issue_token hm now jv user tenant email roles permissions expiry_seconds =
     (let exp = now + (case expiry_seconds of None \<Rightarrow> jv_default_expiry_seconds jv
            | Some n \<Rightarrow> if n = 0 then jv_default_expiry_seconds jv else n);
          header_b64 = jwt_b64_encode (utf8 (dumps Spaced False jwt_header));
          payload_b64 = jwt_b64_encode (utf8 (dumps Spaced False (jwt_payload jv now exp user tenant email roles
            (case permissions of None \<Rightarrow> [] | Some ps \<Rightarrow> ps))))
      in header_b64 @ ''.'' @ payload_b64 @ ''.'' @ signature_of hm jv header_b64 payload_b64)"

definition claim :: "(string \<times> json) list \<Rightarrow> string \<Rightarrow> json \<Rightarrow> json" where
  "claim d k v = (case map_of d k of None \<Rightarrow> v | Some j \<Rightarrow> j)"

text \<open>A float text that reads as zero: its digits are, or they are so small that it rounds to zero, which
  the values up to half the least positive double do.\<close>

definition float_zero :: "string \<Rightarrow> bool" where
  "float_zero t \<longleftrightarrow>
     (let mantissa = takeWhile (\<lambda>c. c \<noteq> CHR ''e'' \<and> c \<noteq> CHR ''E'') t;
          exponent = tl (dropWhile (\<lambda>c. c \<noteq> CHR ''e'' \<and> c \<noteq> CHR ''E'') t);
          e = read_int (if exponent \<noteq> [] \<and> hd exponent = CHR ''+'' then tl exponent else exponent);
          decimals = length (filter is_digit (dropWhile (\<lambda>c. c \<noteq> CHR ''.'') mantissa));
          m = int (read_nat (filter is_digit mantissa)); k = e - int decimals
      in list_ex is_digit t \<and> (if 0 \<le> k then m = 0 else m * 2 ^ 1075 \<le> 10 ^ nat (- k)))"

text \<open>Python truth of a JSON value.\<close>

fun truthy :: "json \<Rightarrow> bool" where
  "truthy JNull = False"
| "truthy (JBool b) = b"
| "truthy (JInt i) = (i \<noteq> 0)"
| "truthy (JFloat t) = (\<not> float_zero t)"
| "truthy (JStr s) = (s \<noteq> [])"
| "truthy (JList xs) = (xs \<noteq> [])"
| "truthy (JDict d) = (d \<noteq> [])"

text \<open>\<open>exp + leeway < now\<close>; \<open>float_before\<close> compares a float claim, other types raise.\<close>

fun expired :: "(string \<Rightarrow> int \<Rightarrow> int \<Rightarrow> bool) \<Rightarrow> json \<Rightarrow> int \<Rightarrow> int \<Rightarrow> security_error + bool" where
  "expired float_before (JInt e) leeway now = Inr (e + leeway < now)"
| "expired float_before (JBool b) leeway now = Inr ((if b then 1 else 0) + leeway < now)"
| "expired float_before (JFloat t) leeway now = Inr (float_before t leeway now)"
| "expired float_before _ leeway now = Inl (Unhandled ''TypeError'')"

definition context_of :: "(string \<times> json) list \<Rightarrow> string \<Rightarrow> security_context" where
  "context_of d issuer = \<lparr>sc_user_id = claim d ''sub'' (JStr []), sc_tenant_id = claim d ''tenant_id'' JNull,
     sc_email = claim d ''email'' (JStr []), sc_roles = claim d ''roles'' (JList []),
     sc_permissions = claim d ''permissions'' (JList []), sc_issued_at = claim d ''iat'' (JInt 0),
     sc_expires_at = claim d ''exp'' (JInt 0), sc_issuer = claim d ''iss'' (JStr issuer)\<rparr>"

definition check_claims ::
  "(string \<Rightarrow> int \<Rightarrow> int \<Rightarrow> bool) \<Rightarrow> int \<Rightarrow> int \<Rightarrow> jwt_verifier \<Rightarrow> json \<Rightarrow> security_error + security_context" where
  "check_claims float_before now leeway jv payload =
     (case payload of
        JDict d \<Rightarrow>
          bind_result (expired float_before (claim d ''exp'' (JInt 0)) leeway now) (\<lambda>late.
            if late then Inl TokenExpired
            else if claim d ''iss'' JNull \<noteq> JStr (jv_issuer jv) then Inl IssuerMismatch
            else if \<not> truthy (claim d ''tenant_id'' JNull) then Inl MissingTenantClaim
            else Inr (context_of d (jv_issuer jv)))
      | _ \<Rightarrow> Inl (Unhandled ''AttributeError''))"

definition verify_token ::
  "(string \<Rightarrow> string \<Rightarrow> string) \<Rightarrow> (string \<Rightarrow> int \<Rightarrow> int \<Rightarrow> bool) \<Rightarrow> int \<Rightarrow> jwt_verifier \<Rightarrow> string \<Rightarrow> int \<Rightarrow>
   security_error + security_context" where
  "verify_token hm float_before now jv token leeway =
     (case split_on (CHR ''.'') token of
        [header_b64, payload_b64, sig_b64] \<Rightarrow>
          (if \<not> list_all (\<lambda>c. char_code c < 128) sig_b64 then Inl (Unhandled ''TypeError'')
           else if sig_b64 \<noteq> signature_of hm jv header_b64 payload_b64 then Inl InvalidSignature
           else case jwt_b64_decode payload_b64 of
             None \<Rightarrow> Inl PayloadNotParsed
           | Some bytes \<Rightarrow> (case utf8_decode bytes of
               None \<Rightarrow> Inl PayloadNotParsed
             | Some text \<Rightarrow> (case loads text of
                 None \<Rightarrow> Inl PayloadNotParsed
               | Some payload \<Rightarrow> check_claims float_before now leeway jv payload)))
      | _ \<Rightarrow> Inl MalformedToken)"

section \<open>Encoding facts\<close>

lemma strip_padding:
  "dropWhile (\<lambda>c. c = x) (rev (a @ replicate n x)) = rev a" if "x \<notin> set a"
proof -
  have "dropWhile (\<lambda>c. c = x) (replicate n x @ ys) = dropWhile (\<lambda>c. c = x) ys" for ys
    by (induction n) auto
  moreover have "dropWhile (\<lambda>c. c = x) (rev a) = rev a"
    using that by (intro dropWhile_idle) (auto simp: hd_rev)
  ultimately show ?thesis by simp
qed

lemma urlsafe_padded: "urlsafe_b64encode s = map to_urlsafe (b64_unpadded s) @ replicate ((3 - length s mod 3) mod 3) (CHR ''='')"
  by (simp add: urlsafe_b64encode_def b64encode_def b64_padding_def to_urlsafe_def)

lemma jwt_encode_unpadded: "jwt_b64_encode s = map to_urlsafe (b64_unpadded s)"
proof -
  have "CHR ''='' \<notin> set (map to_urlsafe (b64_unpadded s))"
    using b64_unpadded_chars b64_char_facts(5) by fastforce
  from strip_padding [OF this] show ?thesis by (simp only: jwt_b64_encode_def urlsafe_padded rev_rev_ident)
qed

lemma jwt_decode_encode [simp]: "jwt_b64_decode (jwt_b64_encode s) = Some s"
proof -
  have p: "(4 - length (b64_unpadded s) mod 4) mod 4 = (3 - length s mod 3) mod 3"
    by (rule unpadded_quads)
  have "(if 4 - length (b64_unpadded s) mod 4 \<noteq> 4
      then map to_urlsafe (b64_unpadded s) @ replicate (4 - length (b64_unpadded s) mod 4) (CHR ''='')
      else map to_urlsafe (b64_unpadded s)) =
      map to_urlsafe (b64_unpadded s) @ replicate ((4 - length (b64_unpadded s) mod 4) mod 4) (CHR ''='')"
  proof (cases "length (b64_unpadded s) mod 4 = 0")
    case False
    then have "4 - length (b64_unpadded s) mod 4 < 4" by linarith
    then show ?thesis by simp
  qed simp
  then have "jwt_b64_decode (jwt_b64_encode s) = urlsafe_b64decode (urlsafe_b64encode s)"
    by (simp add: jwt_b64_decode_def jwt_encode_unpadded urlsafe_padded p Let_def)
  then show ?thesis by simp
qed

lemma jwt_encode_no_dot: "CHR ''.'' \<notin> set (jwt_b64_encode s)"
  using b64_unpadded_chars b64_char_facts(6) by (fastforce simp: jwt_encode_unpadded)

lemma jwt_encode_ascii: "list_all (\<lambda>c. char_code c < 128) (jwt_b64_encode s)"
proof -
  have "char_code (to_urlsafe (b64_char n)) < 128" if "n < 64" for n
    using b64_char_facts(3) [OF that] by (simp add: to_urlsafe_def char_code_def)
  then show ?thesis using b64_unpadded_chars by (fastforce simp: jwt_encode_unpadded list_all_iff)
qed

section \<open>Issued tokens\<close>

definition lifetime :: "jwt_verifier \<Rightarrow> int option \<Rightarrow> int" where
  "lifetime jv expiry_seconds = (case expiry_seconds of None \<Rightarrow> jv_default_expiry_seconds jv
     | Some n \<Rightarrow> if n = 0 then jv_default_expiry_seconds jv else n)"

lemma verify_issued:
  "verify_token hm fb later jv (issue_token hm now jv user tenant email roles perms expiry) leeway =
     check_claims fb later leeway jv (jwt_payload jv now (now + lifetime jv expiry) user tenant email roles
       (case perms of None \<Rightarrow> [] | Some ps \<Rightarrow> ps))"
proof -
  define payload where "payload = jwt_payload jv now (now + lifetime jv expiry) user tenant email roles
    (case perms of None \<Rightarrow> [] | Some ps \<Rightarrow> ps)"
  define h p where "h = jwt_b64_encode (utf8 (dumps Spaced False jwt_header))"
    and "p = jwt_b64_encode (utf8 (dumps Spaced False payload))"
  have "issue_token hm now jv user tenant email roles perms expiry = h @ CHR ''.'' # p @ CHR ''.'' # signature_of hm jv h p"
    by (simp add: issue_token_def h_def p_def payload_def lifetime_def Let_def split: option.split)
  moreover have "split_on (CHR ''.'') (h @ CHR ''.'' # p @ CHR ''.'' # signature_of hm jv h p) = [h, p, signature_of hm jv h p]"
    using jwt_encode_no_dot by (simp add: split_on_append split_on_single h_def p_def signature_of_def)
  moreover have "wf_json payload" by (simp add: payload_def jwt_payload_def list_all_iff)
  then have "loads (dumps Spaced False payload) = Some payload" by (simp add: loads_dumps)
  moreover have "list_all (\<lambda>c. char_code c < 128) (signature_of hm jv h p)"
    by (simp add: signature_of_def jwt_encode_ascii)
  ultimately show ?thesis by (simp add: verify_token_def p_def payload_def)
qed

text \<open>C32. A token that was issued for a tenant is accepted by the same verifier until its lifetime and
  the leeway are over, and the context then grants exactly what was issued: the boundary check
  passes for the token's tenant and, with the role SYSTEM\_ADMIN, for every tenant; a role or a
  permission is granted when it was issued, or to SYSTEM\_ADMIN. A lifetime of zero is replaced by
  the default one.\<close>

theorem token_grants_exactly:
  assumes "tenant \<noteq> []" "later \<le> now + (case expiry of None \<Rightarrow> jv_default_expiry_seconds jv
      | Some n \<Rightarrow> if n = 0 then jv_default_expiry_seconds jv else n) + leeway"
  shows "\<exists>sc. verify_token hm fb later jv (issue_token hm now jv user tenant email roles (Some perms) expiry) leeway = Inr sc \<and>
    sc_user_id sc = JStr user \<and> sc_tenant_id sc = JStr tenant \<and>
    validate_tenant_boundary sc other =
      (if other = tenant \<or> ''SYSTEM_ADMIN'' \<in> set roles then Inr () else Inl (BoundaryViolation (JStr tenant) other)) \<and>
    has_role sc role = Inr (role \<in> set roles \<or> ''SYSTEM_ADMIN'' \<in> set roles) \<and>
    has_permission sc perm = Inr (perm \<in> set perms \<or> ''SYSTEM_ADMIN'' \<in> set roles)"
proof -
  have "\<not> now + lifetime jv expiry + leeway < later" using assms(2) by (simp add: lifetime_def)
  then have "verify_token hm fb later jv (issue_token hm now jv user tenant email roles (Some perms) expiry) leeway =
      Inr \<lparr>sc_user_id = JStr user, sc_tenant_id = JStr tenant, sc_email = JStr email,
        sc_roles = JList (map JStr roles), sc_permissions = JList (map JStr perms), sc_issued_at = JInt now,
        sc_expires_at = JInt (now + lifetime jv expiry), sc_issuer = JStr (jv_issuer jv)\<rparr>"
    using assms(1) by (simp add: verify_issued check_claims_def jwt_payload_def claim_def context_of_def)
  moreover have mem: "JStr s \<in> JStr ` X \<longleftrightarrow> s \<in> X" for s X by auto
  ultimately show ?thesis
    by (simp add: validate_tenant_boundary_def has_role_def has_permission_def mem)
qed

text \<open>C10. Nothing else is accepted: whatever text is presented, if it verifies then it is two parts and
  the signature of exactly these parts under the secret of the verifier, and the signed claims name
  a tenant and this issuer and have not expired.\<close>

theorem accepted_tokens_are_signed:
  assumes "verify_token hm fb now jv token leeway = Inr sc"
  shows "\<exists>hd64 payload d bytes body.
    token = hd64 @ ''.'' @ payload @ ''.'' @ signature_of hm jv hd64 payload \<and>
    jwt_b64_decode payload = Some bytes \<and> utf8_decode bytes = Some body \<and> loads body = Some (JDict d) \<and>
    sc = context_of d (jv_issuer jv) \<and> truthy (sc_tenant_id sc) \<and> sc_issuer sc = JStr (jv_issuer jv) \<and>
    expired fb (sc_expires_at sc) leeway now = Inr False"
proof -
  obtain h p where split: "split_on (CHR ''.'') token = [h, p, signature_of hm jv h p]"
    using assms by (auto simp: verify_token_def split: list.splits if_splits)
  have token: "token = h @ ''.'' @ p @ ''.'' @ signature_of hm jv h p"
    using split_on_join [OF split] by simp
  obtain bytes body payload where parse:
      "jwt_b64_decode p = Some bytes" "utf8_decode bytes = Some body"
      "loads body = Some payload"
    using assms unfolding verify_token_def split by (auto split: if_splits option.splits)
  have claims: "check_claims fb now leeway jv payload = Inr sc"
    using assms unfolding verify_token_def split by (simp add: parse split: if_splits)
  then obtain d where d: "payload = JDict d" by (auto simp: check_claims_def split: json.splits)
  have late: "expired fb (claim d ''exp'' (JInt 0)) leeway now = Inr False"
    and iss: "claim d ''iss'' JNull = JStr (jv_issuer jv)" and tenant: "truthy (claim d ''tenant_id'' JNull)"
    and sc: "sc = context_of d (jv_issuer jv)"
    using claims by (auto simp: check_claims_def d bind_result_Inr_iff split: if_splits)
  have "claim d ''iss'' (JStr (jv_issuer jv)) = JStr (jv_issuer jv)"
    using iss by (simp add: claim_def split: option.splits)
  with late tenant have "truthy (sc_tenant_id sc) \<and> sc_issuer sc = JStr (jv_issuer jv) \<and>
      expired fb (sc_expires_at sc) leeway now = Inr False"
    by (simp add: sc context_of_def)
  with token parse d sc show ?thesis by blast
qed

section \<open>A concrete verifier\<close>

definition demo_jwt :: jwt_verifier where
  "demo_jwt = new_jwt_verifier ''s'' ''pettyflow-auth-service'' 3600"

theorem token_grants_exactly_witness:
  "\<exists>sc. verify_token (\<lambda>k m. k @ m) (\<lambda>_ _ _. True) 3700 demo_jwt
      (issue_token (\<lambda>k m. k @ m) 100 demo_jwt ''u'' ''acme'' ''u@x'' [''AUDITOR''] (Some [''read'']) (Some 0)) 0 = Inr sc \<and>
    validate_tenant_boundary sc ''beta'' = Inl (BoundaryViolation (JStr ''acme'') ''beta'')"
proof -
  have "''acme'' \<noteq> []" "(3700::int) \<le> 100 + (case Some (0::int) of None \<Rightarrow> jv_default_expiry_seconds demo_jwt
      | Some n \<Rightarrow> if n = 0 then jv_default_expiry_seconds demo_jwt else n) + 0"
    by (simp_all add: demo_jwt_def new_jwt_verifier_def)
  from token_grants_exactly [OF this, of "\<lambda>k m. k @ m" "\<lambda>_ _ _. True" "''u''" "''u@x''" "[''AUDITOR'']" "[''read'']" "''beta''"]
  show ?thesis by auto
qed

lemma demo_accepted:
  "\<exists>sc. verify_token (\<lambda>k m. k @ m) (\<lambda>_ _ _. True) 3700 demo_jwt
      (issue_token (\<lambda>k m. k @ m) 100 demo_jwt ''u'' ''acme'' ''u@x'' [''AUDITOR''] None None) 0 = Inr sc"
  by (simp add: verify_issued lifetime_def demo_jwt_def new_jwt_verifier_def check_claims_def jwt_payload_def claim_def)

theorem accepted_tokens_are_signed_witness:
  "\<exists>header payload. issue_token (\<lambda>k m. k @ m) 100 demo_jwt ''u'' ''acme'' ''u@x'' [''AUDITOR''] None None =
     header @ ''.'' @ payload @ ''.'' @ signature_of (\<lambda>k m. k @ m) demo_jwt header payload"
  using demo_accepted accepted_tokens_are_signed by blast

end
