(* ===== verification/Balance_Cache.thy ===== *)
theory Balance_Cache
  imports Prelude
begin

text \<open>
  \<^verbatim>\<open>src/infrastructure/cache/redis_balance_cache.py\<close>: cached balances with optimistic versions. The Redis
  server is a map from keys to texts with atomic GET, SET, DEL and EVAL; the Lua script of the module
  is translated. Lua keeps numbers as doubles and prints them with fourteen significant digits, so
  \<open>tonumber\<close> and \<open>tostring\<close> are parameters that \<open>lua_exact\<close> fixes below ten to the fourteenth.
  The type checks of the arguments are omitted.
\<close>

section \<open>The server and the script\<close>

type_synonym redis = "string \<Rightarrow> string option"

record lua =
  lua_tonumber :: "string \<Rightarrow> int option"
  lua_tostring :: "int \<Rightarrow> string"

datatype cache_error =
    BlankIds
  | FieldNone string
  | FieldEmpty string
  | FieldNotInteger string
  | VersionNegative
  | ScriptError
  | OptimisticLock string int int
  | InsufficientBalance string int int

text \<open>\<open>ATOMIC_BALANCE_MUTATION_LUA\<close>: the pair it returns, or an error when a text is no number.\<close>

definition atomic_balance_mutation ::
  "lua \<Rightarrow> string \<Rightarrow> string \<Rightarrow> string \<Rightarrow> string \<Rightarrow> redis \<Rightarrow> (cache_error + int \<times> int) \<times> redis" where
  "atomic_balance_mutation l balance_key version_key arg_delta arg_version r =
     (case (lua_tonumber l arg_delta, lua_tonumber l arg_version,
            lua_tonumber l (case r version_key of None \<Rightarrow> ''0'' | Some s \<Rightarrow> s)) of
        (Some delta, Some expected_version, Some current_version) \<Rightarrow>
          (if expected_version \<noteq> -1 \<and> current_version \<noteq> expected_version then (Inr (-1, current_version), r)
           else case lua_tonumber l (case r balance_key of None \<Rightarrow> ''0'' | Some s \<Rightarrow> s) of
             None \<Rightarrow> (Inl ScriptError, r)
           | Some current_balance \<Rightarrow>
             (let new_balance = current_balance + delta; new_version = current_version + 1
              in if new_balance < 0 then (Inr (-2, current_balance), r)
                 else (Inr (new_balance, new_version),
                   r(balance_key \<mapsto> lua_tostring l new_balance, version_key \<mapsto> lua_tostring l new_version))))
      | _ \<Rightarrow> (Inl ScriptError, r))"

section \<open>The cache\<close>

text \<open>Python's \<open>int(s)\<close> on a stripped text: an optional sign and digits, which single underscores may
  separate.\<close>

fun digits_grouped :: "string \<Rightarrow> bool" where
  "digits_grouped [] = False"
| "digits_grouped [c] = is_digit c"
| "digits_grouped (c # d # s) =
     (is_digit c \<and> (if d = CHR ''_'' then digits_grouped s else digits_grouped (d # s)))"

definition py_int :: "string \<Rightarrow> int option" where
  "py_int s =
     (case s of [] \<Rightarrow> None
      | c # t \<Rightarrow>
        (let body = (if c = CHR ''-'' \<or> c = CHR ''+'' then t else s)
         in if digits_grouped body
            then Some ((if c = CHR ''-'' then -1 else 1) * int (read_nat (filter (\<lambda>d. d \<noteq> CHR ''_'') body)))
            else None))"

definition coerce_int :: "string option \<Rightarrow> string \<Rightarrow> cache_error + int" where
  "coerce_int raw_value field_name =
     (case raw_value of None \<Rightarrow> Inl (FieldNone field_name)
      | Some s \<Rightarrow>
        (if py_strip s = [] then Inl (FieldEmpty field_name)
         else case py_int (py_strip s) of
           None \<Rightarrow> Inl (FieldNotInteger field_name) | Some i \<Rightarrow> Inr i))"

definition get_keys :: "string \<Rightarrow> string \<Rightarrow> cache_error + string \<times> string" where
  "get_keys tenant account =
     (if tenant = [] \<or> account = [] then Inl BlankIds
      else let key_prefix = ''pettyflow:{'' @ tenant @ '':'' @ account @ ''}''
           in Inr (key_prefix @ '':balance'', key_prefix @ '':version''))"

definition get_balance :: "redis \<Rightarrow> string \<Rightarrow> string \<Rightarrow> cache_error + (int \<times> int) option" where
  "get_balance r tenant account =
     bind_result (get_keys tenant account) (\<lambda>(b_key, v_key).
       case r b_key of None \<Rightarrow> Inr None
       | Some raw_balance \<Rightarrow>
         bind_result (coerce_int (Some raw_balance) ''balance'') (\<lambda>balance.
           bind_result (case r v_key of None \<Rightarrow> Inr 1 | Some v \<Rightarrow> coerce_int (Some v) ''version'') (\<lambda>version.
             Inr (Some (balance, version)))))"

definition set_balance ::
  "string \<Rightarrow> string \<Rightarrow> int \<Rightarrow> int \<Rightarrow> redis \<Rightarrow> (cache_error + bool) \<times> redis" where
  "set_balance tenant account amount version r =
     (if version < 0 then (Inl VersionNegative, r)
      else case get_keys tenant account of
        Inl e \<Rightarrow> (Inl e, r)
      | Inr (b_key, v_key) \<Rightarrow> (Inr True, r(b_key \<mapsto> show_int amount, v_key \<mapsto> show_int version)))"

definition atomic_increment_balance ::
  "lua \<Rightarrow> string \<Rightarrow> string \<Rightarrow> int \<Rightarrow> int \<Rightarrow> redis \<Rightarrow> (cache_error + int \<times> int) \<times> redis" where
  "atomic_increment_balance l tenant account delta expected_version r =
     (case get_keys tenant account of
        Inl e \<Rightarrow> (Inl e, r)
      | Inr (b_key, v_key) \<Rightarrow>
        (case atomic_balance_mutation l b_key v_key (show_int delta) (show_int expected_version) r of
           (Inl e, r') \<Rightarrow> (Inl e, r')
         | (Inr (status_code, payload), r') \<Rightarrow>
           (if status_code = -1 then (Inl (OptimisticLock account expected_version payload), r')
            else if status_code = -2 then (Inl (InsufficientBalance account payload delta), r')
            else (Inr (status_code, payload), r'))))"

definition invalidate_cache :: "string \<Rightarrow> string \<Rightarrow> redis \<Rightarrow> (cache_error + bool) \<times> redis" where
  "invalidate_cache tenant account r =
     (case get_keys tenant account of
        Inl e \<Rightarrow> (Inl e, r)
      | Inr (b_key, v_key) \<Rightarrow> (Inr True, r(b_key := None, v_key := None)))"

section \<open>The abstract account table\<close>

type_synonym accounts = "string \<times> string \<Rightarrow> (int \<times> int) option"

datatype cache_op =
    Increment string string int int
  | SetBalance string string int int
  | Invalidate string string
  | ReadBalance string string

datatype cache_answer = Done bool | Moved int int | Read "(int \<times> int) option" | Failed cache_error

definition table_increment ::
  "string \<Rightarrow> string \<Rightarrow> int \<Rightarrow> int \<Rightarrow> accounts \<Rightarrow> cache_answer \<times> accounts" where
  "table_increment t a delta expected m =
     (let (b, v) = (case m (t, a) of None \<Rightarrow> (0, 0) | Some x \<Rightarrow> x)
      in if expected \<noteq> -1 \<and> v \<noteq> expected then (Failed (OptimisticLock a expected v), m)
         else if b + delta < 0 then (Failed (InsufficientBalance a b delta), m)
         else (Moved (b + delta) (v + 1), m((t, a) \<mapsto> (b + delta, v + 1))))"

fun table_op :: "cache_op \<Rightarrow> accounts \<Rightarrow> cache_answer \<times> accounts" where
  "table_op (Increment t a delta expected) m = table_increment t a delta expected m"
| "table_op (SetBalance t a amount version) m =
     (if version < 0 then (Failed VersionNegative, m) else (Done True, m((t, a) \<mapsto> (amount, version))))"
| "table_op (Invalidate t a) m = (Done True, m((t, a) := None))"
| "table_op (ReadBalance t a) m = (Read (m (t, a)), m)"

fun table_run :: "cache_op list \<Rightarrow> accounts \<Rightarrow> cache_answer list \<times> accounts" where
  "table_run [] m = ([], m)"
| "table_run (op # ops) m =
     (let (x, m') = table_op op m; (xs, m'') = table_run ops m' in (x # xs, m''))"

definition answer_of :: "('b \<Rightarrow> cache_answer) \<Rightarrow> cache_error + 'b \<Rightarrow> cache_answer" where
  "answer_of f out = (case out of Inl e \<Rightarrow> Failed e | Inr b \<Rightarrow> f b)"

fun cache_step :: "lua \<Rightarrow> cache_op \<Rightarrow> redis \<Rightarrow> cache_answer \<times> redis" where
  "cache_step l (Increment t a delta expected) r =
     apfst (answer_of (\<lambda>(b, v). Moved b v)) (atomic_increment_balance l t a delta expected r)"
| "cache_step l (SetBalance t a amount version) r = apfst (answer_of Done) (set_balance t a amount version r)"
| "cache_step l (Invalidate t a) r = apfst (answer_of Done) (invalidate_cache t a r)"
| "cache_step l (ReadBalance t a) r = (answer_of Read (get_balance r t a), r)"

fun cache_run :: "lua \<Rightarrow> cache_op list \<Rightarrow> redis \<Rightarrow> cache_answer list \<times> redis" where
  "cache_run l [] r = ([], r)"
| "cache_run l (op # ops) r =
     (let (x, r') = cache_step l op r; (xs, r'') = cache_run l ops r' in (x # xs, r''))"

text \<open>The numbers Lua keeps exactly, and the operations that stay within them.\<close>

definition small :: "int \<Rightarrow> bool" where
  "small i = (\<bar>i\<bar> < 10 ^ 14)"

definition lua_exact :: "lua \<Rightarrow> bool" where
  "lua_exact l \<longleftrightarrow> (\<forall>i. small i \<longrightarrow> lua_tonumber l (show_int i) = Some i \<and> lua_tostring l i = show_int i)"

fun op_ids :: "cache_op \<Rightarrow> string \<times> string" where
  "op_ids (Increment t a d e) = (t, a)"
| "op_ids (SetBalance t a d e) = (t, a)"
| "op_ids (Invalidate t a) = (t, a)"
| "op_ids (ReadBalance t a) = (t, a)"

definition ids_ok :: "string \<times> string \<Rightarrow> bool" where
  "ids_ok ta = (fst ta \<noteq> [] \<and> snd ta \<noteq> [] \<and> CHR '':'' \<notin> set (fst ta))"

fun op_small :: "cache_op \<Rightarrow> accounts \<Rightarrow> bool" where
  "op_small (Increment t a delta expected) m =
     (let (b, v) = (case m (t, a) of None \<Rightarrow> (0, 0) | Some x \<Rightarrow> x)
      in small delta \<and> small expected \<and> small (b + delta) \<and> small (v + 1))"
| "op_small (SetBalance t a amount version) m = (small amount \<and> small version)"
| "op_small _ m = True"

fun run_small :: "cache_op list \<Rightarrow> accounts \<Rightarrow> bool" where
  "run_small [] m = True"
| "run_small (op # ops) m = (op_small op m \<and> run_small ops (snd (table_op op m)))"

section \<open>Numbers as texts\<close>

lemma digits_grouped_digits: "s \<noteq> [] \<Longrightarrow> \<forall>c \<in> set s. is_digit c \<Longrightarrow> digits_grouped s"
proof (induction s rule: digits_grouped.induct)
  case (3 c d s)
  have "\<not> is_digit (CHR ''_'')" by (simp add: is_digit_def char_code_def)
  with 3 show ?case by auto
qed auto

lemma not_digit_sign: "\<not> is_digit (CHR ''-'')" "\<not> is_digit (CHR ''+'')" "\<not> is_digit (CHR ''_'')"
  by (simp_all add: is_digit_def char_code_def)

lemma py_int_show_int: "py_int (show_int i) = Some i"
proof -
  have body: "digits_grouped (show_nat n) \<and> filter (\<lambda>d. d \<noteq> CHR ''_'') (show_nat n) = show_nat n" for n
    using show_nat_digits not_digit_sign by (auto intro!: digits_grouped_digits simp: filter_id_conv)
  show ?thesis
  proof (cases "i < 0")
    case True
    then show ?thesis using body by (simp add: py_int_def show_int_def)
  next
    case False
    obtain c t where c: "show_nat (nat i) = c # t" by (cases "show_nat (nat i)") auto
    then have "is_digit c" using show_nat_digits [of c "nat i"] by simp
    then have "c \<noteq> CHR ''-''" "c \<noteq> CHR ''+''" using not_digit_sign by auto
    then show ?thesis
      using False body [of "nat i"] read_show_nat [of "nat i"] c by (simp add: py_int_def show_int_def)
  qed
qed

lemma digit_not_space: "is_digit c \<or> c = CHR ''-'' \<Longrightarrow> \<not> is_space c"
  by (auto simp: is_digit_def is_space_def char_code_def)

lemma strip_show_int: "py_strip (show_int i) = show_int i"
proof -
  have "\<forall>c \<in> set (show_int i). \<not> is_space c" using show_int_chars digit_not_space by blast
  then have "dropWhile is_space (show_int i) = show_int i" "dropWhile is_space (rev (show_int i)) = rev (show_int i)"
    by (auto intro!: dropWhile_idle simp: hd_rev)
  then show ?thesis by (simp only: py_strip_def rev_rev_ident)
qed

lemma coerce_show_int [simp]: "coerce_int (Some (show_int i)) f = Inr i"
  by (simp add: coerce_int_def strip_show_int py_int_show_int)

section \<open>Keys\<close>

definition balance_key_of :: "string \<times> string \<Rightarrow> string" where
  "balance_key_of ta = ''pettyflow:{'' @ fst ta @ '':'' @ snd ta @ ''}:balance''"

definition version_key_of :: "string \<times> string \<Rightarrow> string" where
  "version_key_of ta = ''pettyflow:{'' @ fst ta @ '':'' @ snd ta @ ''}:version''"

lemma get_keys_ok: "ids_ok (t, a) \<Longrightarrow> get_keys t a = Inr (balance_key_of (t, a), version_key_of (t, a))"
  by (simp add: get_keys_def ids_ok_def balance_key_of_def version_key_of_def)

lemma keys_distinct: "balance_key_of x \<noteq> version_key_of y"
proof
  assume "balance_key_of x = version_key_of y"
  then have "last (balance_key_of x) = last (version_key_of y)" by simp
  then show False by (simp add: balance_key_of_def version_key_of_def)
qed

lemma keys_inject:
  assumes "ids_ok x" "ids_ok y"
  shows "balance_key_of x = balance_key_of y \<longleftrightarrow> x = y" "version_key_of x = version_key_of y \<longleftrightarrow> x = y"
proof -
  have colon: "CHR '':'' \<notin> set (fst x)" "CHR '':'' \<notin> set (fst y)" using assms by (simp_all add: ids_ok_def)
  have split: "fst x @ CHR '':'' # u = fst y @ CHR '':'' # v \<longleftrightarrow> fst x = fst y \<and> u = v" for u v
    using colon by (rule append_sep_eq)
  show "balance_key_of x = balance_key_of y \<longleftrightarrow> x = y" "version_key_of x = version_key_of y \<longleftrightarrow> x = y"
    by (auto simp: balance_key_of_def version_key_of_def split prod_eq_iff)
qed

section \<open>The cache refines the table\<close>

definition represents :: "redis \<Rightarrow> accounts \<Rightarrow> bool" where
  "represents r m \<longleftrightarrow>
     (\<forall>x. ids_ok x \<longrightarrow> r (balance_key_of x) = map_option (show_int \<circ> fst) (m x) \<and>
        r (version_key_of x) = map_option (show_int \<circ> snd) (m x)) \<and>
     (\<forall>x b v. m x = Some (b, v) \<longrightarrow> small b \<and> small v)"

lemma representsD:
  assumes "represents r m" "ids_ok x"
  shows "r (balance_key_of x) = map_option (show_int \<circ> fst) (m x)"
    "r (version_key_of x) = map_option (show_int \<circ> snd) (m x)"
  using assms by (simp_all add: represents_def del: split_paired_All)

lemma represents_update:
  assumes "represents r m" "ids_ok x" "small b" "small v"
  shows "represents (r(balance_key_of x \<mapsto> show_int b, version_key_of x \<mapsto> show_int v)) (m(x \<mapsto> (b, v)))"
  using assms keys_distinct keys_distinct [symmetric]
  by (auto simp: represents_def keys_inject)

lemma represents_delete:
  assumes "represents r m" "ids_ok x"
  shows "represents (r(balance_key_of x := None, version_key_of x := None)) (m(x := None))"
  using assms keys_distinct keys_distinct [symmetric]
  by (auto simp: represents_def keys_inject)

lemma lua_zero: "lua_exact l \<Longrightarrow> lua_tonumber l ''0'' = Some 0"
proof -
  assume l: "lua_exact l"
  have "show_int 0 = ''0''" by (simp add: show_int_def show_nat.simps)
  with l show ?thesis by (metis abs_zero lua_exact_def small_def zero_less_power zero_less_numeral)
qed

lemma increment_represents:
  assumes l: "lua_exact l" and rm: "represents r m" and ids: "ids_ok (t, a)"
    and small: "op_small (Increment t a delta expected) m"
  shows "fst (cache_step l (Increment t a delta expected) r) = fst (table_increment t a delta expected m) \<and>
    represents (snd (cache_step l (Increment t a delta expected) r)) (snd (table_increment t a delta expected m))"
proof -
  obtain b v where bv: "(case m (t, a) of None \<Rightarrow> (0, 0) | Some x \<Rightarrow> x) = (b, v)" by fastforce
  have sm: "small delta" "small expected" "small (b + delta)" "small (v + 1)" "small b" "small v"
    using small bv rm by (auto simp: represents_def small_def split: option.splits)
  have num: "lua_tonumber l (show_int i) = Some i" "lua_tostring l i = show_int i" if "small i" for i
    using l that by (simp_all add: lua_exact_def)
  have cur: "lua_tonumber l (case r (balance_key_of (t, a)) of None \<Rightarrow> ''0'' | Some s \<Rightarrow> s) = Some b"
    "lua_tonumber l (case r (version_key_of (t, a)) of None \<Rightarrow> ''0'' | Some s \<Rightarrow> s) = Some v"
    using bv sm lua_zero [OF l] representsD [OF rm ids] num by (auto split: option.splits)
  have out: "atomic_increment_balance l t a delta expected r =
     (if expected \<noteq> -1 \<and> v \<noteq> expected then (Inl (OptimisticLock a expected v), r)
      else if b + delta < 0 then (Inl (InsufficientBalance a b delta), r)
      else (Inr (b + delta, v + 1), r(balance_key_of (t, a) \<mapsto> show_int (b + delta),
        version_key_of (t, a) \<mapsto> show_int (v + 1))))"
    using sm num cur num(2) [OF sm(3)] num(2) [OF sm(4)] by (auto simp: atomic_increment_balance_def get_keys_ok [OF ids] atomic_balance_mutation_def Let_def)
  show ?thesis
    using represents_update [OF rm ids sm(3,4)] rm bv
    by (auto simp: out table_increment_def answer_of_def)
qed

lemma step_represents:
  assumes "lua_exact l" "represents r m" "ids_ok (op_ids op)" "op_small op m"
  shows "fst (cache_step l op r) = fst (table_op op m) \<and> represents (snd (cache_step l op r)) (snd (table_op op m))"
proof (cases op)
  case (Increment t a delta expected)
  then show ?thesis using assms increment_represents by simp
next
  case (SetBalance t a amount version)
  then show ?thesis
    using assms represents_update [OF assms(2)] by (simp add: set_balance_def get_keys_ok answer_of_def)
next
  case (Invalidate t a)
  then show ?thesis
    using assms represents_delete [OF assms(2)] by (simp add: invalidate_cache_def get_keys_ok answer_of_def)
next
  case (ReadBalance t a)
  then show ?thesis
    using assms representsD [OF assms(2), of "(t, a)"]
    by (cases "m (t, a)") (auto simp: get_balance_def get_keys_ok answer_of_def)
qed

text \<open>C9. For tenants without a colon and numbers below ten to the fourteenth, the Redis cache refines a table of
  accounts with a balance and a version each: every sequence of operations is answered as by the table,
  and the keys it leaves represent the table, each account by its two texts and an absent account by
  none. So a stale version and an overdraft are refused without effect, an accepted increment adds its
  delta and advances the version by one, and no account is touched by the operations on another.\<close>

theorem cache_refines_table:
  assumes "lua_exact l" "list_all (\<lambda>op. ids_ok (op_ids op)) ops" "run_small ops Map.empty"
  shows "fst (cache_run l ops Map.empty) = fst (table_run ops Map.empty) \<and>
    represents (snd (cache_run l ops Map.empty)) (snd (table_run ops Map.empty))"
proof -
  have "represents r m \<Longrightarrow> list_all (\<lambda>op. ids_ok (op_ids op)) ops \<Longrightarrow> run_small ops m \<Longrightarrow>
      fst (cache_run l ops r) = fst (table_run ops m) \<and> represents (snd (cache_run l ops r)) (snd (table_run ops m))" for r m
  proof (induction ops arbitrary: r m)
    case (Cons op ops)
    from Cons.prems have "fst (cache_step l op r) = fst (table_op op m)"
        "represents (snd (cache_step l op r)) (snd (table_op op m))"
      using step_represents [OF assms(1) Cons.prems(1)] by simp_all
    with Cons show ?case by (simp add: Let_def case_prod_beta)
  qed simp
  moreover have "represents Map.empty Map.empty" by (simp add: represents_def)
  ultimately show ?thesis using assms(2,3) by blast
qed

section \<open>Where it departs from the table\<close>

text \<open>A colon in an id makes two accounts of different tenants one: whatever is written for the one is
  read for the other.\<close>

theorem colon_ids_share_a_balance:
  assumes "t \<noteq> []" "u \<noteq> []" "a \<noteq> []" "0 \<le> version"
  shows "get_balance (snd (set_balance (t @ '':'' @ u) a amount version r)) t (u @ '':'' @ a) = Inr (Some (amount, version))"
  using assms by (simp add: set_balance_def get_keys_def get_balance_def)

text \<open>When the version key is gone, reading reports version 1 while the script takes it as 0, so an
  increment under the version just read is refused.\<close>

theorem missing_version_conflicts:
  assumes l: "lua_exact l" and ids: "ids_ok (t, a)" and small: "small b" "small delta"
    and r: "r (balance_key_of (t, a)) = Some (show_int b)" "r (version_key_of (t, a)) = None"
  shows "get_balance r t a = Inr (Some (b, 1)) \<and>
    atomic_increment_balance l t a delta 1 r = (Inl (OptimisticLock a 1 0), r)"
proof -
  have "lua_tonumber l (show_int delta) = Some delta" "lua_tonumber l (show_int 1) = Some 1"
    using l small by (simp_all add: lua_exact_def small_def)
  then show ?thesis
    using lua_zero [OF l] r
    by (simp add: get_balance_def atomic_increment_balance_def atomic_balance_mutation_def get_keys_ok [OF ids])
qed

section \<open>A concrete cache\<close>

definition demo_lua :: lua where
  "demo_lua = \<lparr>lua_tonumber = py_int, lua_tostring = show_int\<rparr>"

lemma demo_lua_exact: "lua_exact demo_lua"
  by (simp add: lua_exact_def demo_lua_def py_int_show_int)

definition demo_cache_ops :: "cache_op list" where
  "demo_cache_ops = [SetBalance ''acme'' ''petty'' 500 1, Increment ''acme'' ''petty'' (- 200) 1,
     Increment ''acme'' ''petty'' (- 100) 1, Increment ''acme'' ''petty'' (- 400) (- 1), ReadBalance ''acme'' ''petty'']"

theorem cache_refines_table_witness:
  "fst (cache_run demo_lua demo_cache_ops Map.empty) =
     [Done True, Moved 300 2, Failed (OptimisticLock ''petty'' 1 2), Failed (InsufficientBalance ''petty'' 300 (- 400)),
      Read (Some (300, 2))] \<and>
   snd (cache_run demo_lua demo_cache_ops Map.empty) (balance_key_of (''acme'', ''petty'')) = Some (show_int 300)"
proof -
  have ops: "list_all (\<lambda>op. ids_ok (op_ids op)) demo_cache_ops" "run_small demo_cache_ops Map.empty"
    by (simp_all add: demo_cache_ops_def ids_ok_def small_def table_increment_def)
  have table: "fst (table_run demo_cache_ops Map.empty) =
     [Done True, Moved 300 2, Failed (OptimisticLock ''petty'' 1 2), Failed (InsufficientBalance ''petty'' 300 (- 400)),
      Read (Some (300, 2))]" "snd (table_run demo_cache_ops Map.empty) (''acme'', ''petty'') = Some (300, 2)"
    by (simp_all add: demo_cache_ops_def table_increment_def)
  have ids: "ids_ok (''acme'', ''petty'')" by (simp add: ids_ok_def)
  note refines = cache_refines_table [OF demo_lua_exact ops]
  show ?thesis
    using representsD(1) [OF conjunct2 [OF refines] ids] conjunct1 [OF refines] table by simp
qed

theorem colon_ids_share_a_balance_witness:
  "get_balance (snd (set_balance ''a:b'' ''c'' 7 1 Map.empty)) ''a'' ''b:c'' = Inr (Some (7, 1))"
  using colon_ids_share_a_balance [of "''a''" "''b''" "''c''" 1 7 Map.empty] by simp

theorem missing_version_conflicts_witness:
  "fst (atomic_increment_balance demo_lua ''a'' ''p'' 5 1
     (Map.empty(balance_key_of (''a'', ''p'') \<mapsto> show_int 9))) = Inl (OptimisticLock ''p'' 1 0)"
proof -
  have "(Map.empty(balance_key_of (''a'', ''p'') \<mapsto> show_int 9)) (version_key_of (''a'', ''p'')) = None"
    by (simp add: keys_distinct [symmetric])
  with missing_version_conflicts [OF demo_lua_exact, of "''a''" "''p''" 9 5 "Map.empty(balance_key_of (''a'', ''p'') \<mapsto> show_int 9)"]
  show ?thesis by (simp add: ids_ok_def small_def)
qed

end
