(* ===== verification/Spend.thy ===== *)
theory Spend
  imports Json
begin

text \<open>
  \<^verbatim>\<open>src/services/analytics/spend_aggregator.py\<close>: spend by department, category and location, computed
  from records or from columns. The result dictionaries are maps, since the columnar engine iterates
  over sets, whose order is not specified. The dollar text and the rounded percentage are parameters.
\<close>

section \<open>Data\<close>

record spend_record =
  sr_transaction_id :: string
  sr_tenant_id :: string
  sr_department :: string
  sr_location :: string
  sr_category :: string
  sr_amount_scaled :: scaled
  sr_currency :: string
  sr_timestamp :: string

record columnar_batch =
  cb_batch_tenant_id :: string
  cb_departments :: "string list"
  cb_locations :: "string list"
  cb_categories :: "string list"
  cb_amounts_scaled :: "scaled list"

record metric =
  am_dimension_key :: string
  am_total_spend_scaled :: scaled
  am_transaction_count :: int
  am_min_spend_scaled :: scaled
  am_max_spend_scaled :: scaled
  am_percentage :: string

record spend_fmt =
  sf_money :: "scaled \<Rightarrow> string"
  sf_share :: "scaled \<Rightarrow> scaled \<Rightarrow> string"

definition average_ticket_scaled :: "metric \<Rightarrow> scaled" where
  "average_ticket_scaled m =
     (if 0 < am_transaction_count m then am_total_spend_scaled m div am_transaction_count m else 0)"

definition metric_to_dict :: "spend_fmt \<Rightarrow> metric \<Rightarrow> json" where
  "metric_to_dict fmt m = JDict
     [(''dimension_key'', JStr (am_dimension_key m)), (''total_spend_scaled'', JInt (am_total_spend_scaled m)),
      (''total_spend_formatted'', JStr (sf_money fmt (am_total_spend_scaled m))),
      (''transaction_count'', JInt (am_transaction_count m)),
      (''average_ticket_formatted'', JStr (sf_money fmt (average_ticket_scaled m))),
      (''min_spend_formatted'', JStr (sf_money fmt (am_min_spend_scaled m))),
      (''max_spend_formatted'', JStr (sf_money fmt (am_max_spend_scaled m))),
      (''percentage_of_total'', JFloat (am_percentage m))]"

record spend_summary =
  su_tenant_id :: string
  su_total_spend_scaled :: scaled
  su_total_spend_formatted :: string
  su_total_transactions :: nat
  su_average_ticket_formatted :: string
  su_by_department :: "string \<rightharpoonup> json"
  su_by_category :: "string \<rightharpoonup> json"
  su_by_location :: "string \<rightharpoonup> json"

section \<open>Accumulators\<close>

text \<open>\<open>[total, count, minimum, maximum]\<close>.\<close>

type_synonym accum = "scaled \<times> int \<times> scaled \<times> scaled"

definition bump :: "scaled \<Rightarrow> accum \<Rightarrow> accum" where
  "bump amt e = (case e of (tot, cnt, mn, mx) \<Rightarrow>
     (tot + amt, cnt + 1, if amt < mn then amt else mn, if amt > mx then amt else mx))"

definition metrics_of ::
  "spend_fmt \<Rightarrow> (int \<Rightarrow> scaled \<Rightarrow> scaled) \<Rightarrow> scaled \<Rightarrow> (string \<rightharpoonup> accum) \<Rightarrow> string \<rightharpoonup> json" where
  "metrics_of fmt clean_min grand d k = (case d k of
     None \<Rightarrow> None
   | Some (tot, cnt, mn, mx) \<Rightarrow> Some (metric_to_dict fmt
       \<lparr>am_dimension_key = k, am_total_spend_scaled = tot, am_transaction_count = cnt,
        am_min_spend_scaled = clean_min cnt mn, am_max_spend_scaled = mx,
        am_percentage = (if 0 < grand then sf_share fmt tot grand else ''0.0'')\<rparr>))"

definition summary_of ::
  "spend_fmt \<Rightarrow> (int \<Rightarrow> scaled \<Rightarrow> scaled) \<Rightarrow> string \<Rightarrow> scaled \<Rightarrow> nat \<Rightarrow>
   (string \<rightharpoonup> accum) \<times> (string \<rightharpoonup> accum) \<times> (string \<rightharpoonup> accum) \<Rightarrow> spend_summary" where
  "summary_of fmt clean_min tenant grand n ds = (case ds of (depts, cats, locs) \<Rightarrow>
     \<lparr>su_tenant_id = tenant, su_total_spend_scaled = grand, su_total_spend_formatted = sf_money fmt grand,
      su_total_transactions = n,
      su_average_ticket_formatted = (if 0 < n then sf_money fmt (grand div int n) else ''$0.00''),
      su_by_department = metrics_of fmt clean_min grand depts,
      su_by_category = metrics_of fmt clean_min grand cats,
      su_by_location = metrics_of fmt clean_min grand locs\<rparr>)"

section \<open>The columnar engine\<close>

definition fresh_accum :: accum where
  "fresh_accum = (0, 0, 999999999999, 0)"

definition preset :: "string list \<Rightarrow> string \<rightharpoonup> accum" where
  "preset ks k = (if k \<in> set ks then Some fresh_accum else None)"

definition bump_at :: "string \<Rightarrow> scaled \<Rightarrow> (string \<rightharpoonup> accum) \<Rightarrow> (string \<rightharpoonup> accum)" where
  "bump_at k amt d = d(k := map_option (bump amt) (d k))"

fun columnar_rows ::
  "string list \<Rightarrow> string list \<Rightarrow> string list \<Rightarrow> scaled list \<Rightarrow>
   (string \<rightharpoonup> accum) \<times> (string \<rightharpoonup> accum) \<times> (string \<rightharpoonup> accum) \<Rightarrow>
   (string \<rightharpoonup> accum) \<times> (string \<rightharpoonup> accum) \<times> (string \<rightharpoonup> accum)" where
  "columnar_rows (d # ds) (c # cs) (l # ls) (amt # amts) (da, ca, la) =
     columnar_rows ds cs ls amts (bump_at d amt da, bump_at c amt ca, bump_at l amt la)"
| "columnar_rows _ _ _ _ accs = accs"

definition aggregate_columnar :: "spend_fmt \<Rightarrow> columnar_batch \<Rightarrow> spend_summary" where
  "aggregate_columnar fmt b =
     summary_of fmt (\<lambda>cnt mn. if 0 < cnt then mn else 0) (cb_batch_tenant_id b)
       (sum_list (cb_amounts_scaled b)) (length (cb_amounts_scaled b))
       (columnar_rows (cb_departments b) (cb_categories b) (cb_locations b) (cb_amounts_scaled b)
         (preset (cb_departments b), preset (cb_categories b), preset (cb_locations b)))"

section \<open>The record engine\<close>

definition bump_or_add :: "string \<Rightarrow> scaled \<Rightarrow> (string \<rightharpoonup> accum) \<Rightarrow> (string \<rightharpoonup> accum)" where
  "bump_or_add k amt d = (case d k of None \<Rightarrow> d(k \<mapsto> (amt, 1, amt, amt)) | Some e \<Rightarrow> d(k \<mapsto> bump amt e))"

definition summary_row ::
  "string \<Rightarrow> spend_record \<Rightarrow> scaled \<times> nat \<times> (string \<rightharpoonup> accum) \<times> (string \<rightharpoonup> accum) \<times> (string \<rightharpoonup> accum) \<Rightarrow>
   scaled \<times> nat \<times> (string \<rightharpoonup> accum) \<times> (string \<rightharpoonup> accum) \<times> (string \<rightharpoonup> accum)" where
  "summary_row tenant r s =
     (if sr_tenant_id r \<noteq> tenant then s
      else case s of (grand, n, depts, cats, locs) \<Rightarrow>
        (grand + sr_amount_scaled r, n + 1, bump_or_add (sr_department r) (sr_amount_scaled r) depts,
         bump_or_add (sr_category r) (sr_amount_scaled r) cats,
         bump_or_add (sr_location r) (sr_amount_scaled r) locs))"

definition get_executive_summary :: "spend_fmt \<Rightarrow> spend_record list \<Rightarrow> string \<Rightarrow> spend_summary" where
  "get_executive_summary fmt records tenant =
     (case fold (summary_row tenant) records (0, 0, Map.empty, Map.empty, Map.empty) of
        (grand, n, ds) \<Rightarrow> summary_of fmt (\<lambda>cnt mn. mn) tenant grand n ds)"

section \<open>What the engines compute\<close>

text \<open>The reference: total, number, least and greatest amount of the rows of a key.\<close>

definition group_of :: "(string \<times> scaled) list \<Rightarrow> string \<Rightarrow> scaled list" where
  "group_of rows k = map snd (filter (\<lambda>row. fst row = k) rows)"

definition reference_accum :: "(string \<times> scaled) list \<Rightarrow> string \<rightharpoonup> accum" where
  "reference_accum rows k = (let xs = group_of rows k
     in if xs = [] then None else Some (sum_list xs, int (length xs), Min (set xs), Max (set xs)))"

lemma group_of_snoc [simp]: "group_of (rows @ [(k, amt)]) j = group_of rows j @ (if k = j then [amt] else [])"
  by (simp add: group_of_def)

lemma bump_quad [simp]: "bump amt (tot, cnt, mn, mx) =
  (tot + amt, cnt + 1, if amt < mn then amt else mn, if amt > mx then amt else mx)"
  by (simp add: bump_def)

lemma min_max_if: "min a m = (if a < m then a else m)" "max a m = (if a > m then a else m)" for a m :: int
  by (simp_all add: min_def max_def)

lemma bump_or_add_reference:
  "bump_or_add k amt (reference_accum rows) = reference_accum (rows @ [(k, amt)])"
proof
  fix j
  show "bump_or_add k amt (reference_accum rows) j = reference_accum (rows @ [(k, amt)]) j"
  proof (cases "group_of rows k = []")
    case False
    then have "Min (set (group_of rows k @ [amt])) = min amt (Min (set (group_of rows k)))"
      "Max (set (group_of rows k @ [amt])) = max amt (Max (set (group_of rows k)))"
      by simp_all
    note this [unfolded min_max_if]
    with False show ?thesis
      by (auto simp: bump_or_add_def reference_accum_def Let_def simp del: set_append)
  qed (auto simp: bump_or_add_def reference_accum_def Let_def)
qed

lemma fold_bump_or_add:
  "fold (\<lambda>(k, amt). bump_or_add k amt) rows (reference_accum rows0) = reference_accum (rows0 @ rows)"
proof (induction rows arbitrary: rows0)
  case (Cons row rows)
  then show ?case by (cases row) (simp add: bump_or_add_reference)
qed simp

text \<open>The columnar accumulators start from sentinels, which vanish when the amounts lie between them.\<close>

lemma fold_bump:
  assumes "\<forall>x \<in> set xs. 0 \<le> x \<and> x \<le> 999999999999" "xs \<noteq> []"
  shows "fold bump xs fresh_accum = (sum_list xs, int (length xs), Min (set xs), Max (set xs))"
proof -
  have "fold bump xs (tot, cnt, mn, mx) =
      (tot + sum_list xs, cnt + int (length xs), Min (insert mn (set xs)), Max (insert mx (set xs)))" for tot cnt mn mx
  proof (induction xs arbitrary: tot cnt mn mx)
    case (Cons x xs)
    have "Min (insert (if x < mn then x else mn) (set xs)) = Min (insert mn (insert x (set xs)))"
      "Max (insert (if x > mx then x else mx) (set xs)) = Max (insert mx (insert x (set xs)))"
      by (cases "xs = []"; auto simp: min_def max_def)+
    then show ?case by (simp add: Cons del: Min_insert Max_insert)
  qed simp
  moreover have "0 \<le> Max (set xs)" "Min (set xs) \<le> 999999999999"
    using assms by (auto simp: Max_ge_iff Min_le_iff intro: hd_in_set)
  then have "Min (insert 999999999999 (set xs)) = Min (set xs)" "Max (insert 0 (set xs)) = Max (set xs)"
    using assms(2) by (simp_all add: min_absorb2 max_absorb2)
  ultimately show ?thesis by (simp add: fresh_accum_def)
qed

section \<open>Both engines compute the reference\<close>

text \<open>The rows of a dimension, and the columns of the records of a tenant.\<close>

definition rows_by :: "(spend_record \<Rightarrow> string) \<Rightarrow> spend_record list \<Rightarrow> (string \<times> scaled) list" where
  "rows_by f rs = map (\<lambda>r. (f r, sr_amount_scaled r)) rs"

definition of_tenant :: "spend_record list \<Rightarrow> string \<Rightarrow> spend_record list" where
  "of_tenant rs tenant = filter (\<lambda>r. sr_tenant_id r = tenant) rs"

definition columns_of :: "spend_record list \<Rightarrow> string \<Rightarrow> columnar_batch" where
  "columns_of rs tenant = \<lparr>cb_batch_tenant_id = tenant,
     cb_departments = map sr_department (of_tenant rs tenant), cb_locations = map sr_location (of_tenant rs tenant),
     cb_categories = map sr_category (of_tenant rs tenant),
     cb_amounts_scaled = map sr_amount_scaled (of_tenant rs tenant)\<rparr>"

lemma fold_summary_rows:
  "fold (summary_row t) rs (tot, n, reference_accum d, reference_accum c, reference_accum l) =
     (tot + sum_list (map sr_amount_scaled (of_tenant rs t)), n + length (of_tenant rs t),
      reference_accum (d @ rows_by sr_department (of_tenant rs t)),
      reference_accum (c @ rows_by sr_category (of_tenant rs t)),
      reference_accum (l @ rows_by sr_location (of_tenant rs t)))"
proof (induction rs arbitrary: tot n d c l)
  case (Cons r rs)
  then show ?case
    by (simp add: summary_row_def of_tenant_def rows_by_def bump_or_add_reference)
qed (simp add: of_tenant_def rows_by_def)

lemma executive_reference:
  "get_executive_summary fmt rs t = summary_of fmt (\<lambda>cnt mn. mn) t
     (sum_list (map sr_amount_scaled (of_tenant rs t))) (length (of_tenant rs t))
     (reference_accum (rows_by sr_department (of_tenant rs t)),
      reference_accum (rows_by sr_category (of_tenant rs t)),
      reference_accum (rows_by sr_location (of_tenant rs t)))"
proof -
  have "Map.empty = reference_accum []" by (simp add: fun_eq_iff reference_accum_def group_of_def)
  then show ?thesis
    by (simp add: get_executive_summary_def fold_summary_rows [of t rs 0 0 "[]" "[]" "[]", simplified])
qed

lemma columnar_rows_records:
  "columnar_rows (map sr_department rs) (map sr_category rs) (map sr_location rs) (map sr_amount_scaled rs) (da, ca, la) =
     (fold (\<lambda>(k, amt). bump_at k amt) (rows_by sr_department rs) da,
      fold (\<lambda>(k, amt). bump_at k amt) (rows_by sr_category rs) ca,
      fold (\<lambda>(k, amt). bump_at k amt) (rows_by sr_location rs) la)"
  by (induction rs arbitrary: da ca la) (simp_all add: rows_by_def)

lemma fold_bump_at:
  "fold (\<lambda>(k, amt). bump_at k amt) rows d k = map_option (fold bump (group_of rows k)) (d k)"
proof (induction rows arbitrary: d)
  case Nil
  then show ?case by (cases "d k") (simp_all add: group_of_def)
next
  case (Cons row rows)
  obtain j a where row: "row = (j, a)" by (cases row)
  have "bump_at j a d k = (if j = k then map_option (bump a) (d k) else d k)"
    by (simp add: bump_at_def)
  moreover have "group_of ((j, a) # rows) k = (if j = k then a # group_of rows k else group_of rows k)"
    by (simp add: group_of_def)
  ultimately show ?case
    by (cases "d k") (simp_all add: row Cons.IH option.map del: bump_quad map_option_eq_Some)
qed

lemma group_of_Nil: "group_of rows k = [] \<longleftrightarrow> k \<notin> fst ` set rows"
  by (auto simp: group_of_def filter_empty_conv)

lemma columnar_reference:
  assumes "\<forall>row \<in> set rows. 0 \<le> snd row \<and> snd row \<le> 999999999999"
  shows "fold (\<lambda>(k, amt). bump_at k amt) rows (preset (map fst rows)) = reference_accum rows"
proof
  fix k
  have "\<forall>x \<in> set (group_of rows k). 0 \<le> x \<and> x \<le> 999999999999"
    using assms by (auto simp: group_of_def)
  then show "fold (\<lambda>(k, amt). bump_at k amt) rows (preset (map fst rows)) k = reference_accum rows k"
    using group_of_Nil [of rows k]
    by (cases "group_of rows k = []")
      (auto simp: fold_bump_at preset_def reference_accum_def fold_bump Let_def)
qed

lemma metrics_reference:
  "metrics_of fmt (\<lambda>cnt mn. if 0 < cnt then mn else 0) tot (reference_accum rows) =
   metrics_of fmt (\<lambda>cnt mn. mn) tot (reference_accum rows)"
  by (rule ext) (simp add: metrics_of_def reference_accum_def Let_def)

text \<open>C33. On the records of a tenant whose amounts lie between 0 and 999,999,999,999 the columnar engine
  returns exactly what the record engine returns: per department, category and location the total,
  the number and the least and greatest amount of its records, and nothing for other keys.\<close>

theorem spend_engines_agree:
  assumes "\<forall>r \<in> set (of_tenant rs t). 0 \<le> sr_amount_scaled r \<and> sr_amount_scaled r \<le> 999999999999"
  shows "aggregate_columnar fmt (columns_of rs t) = get_executive_summary fmt rs t \<and>
    su_by_department (get_executive_summary fmt rs t) = metrics_of fmt (\<lambda>cnt mn. mn)
      (sum_list (map sr_amount_scaled (of_tenant rs t))) (reference_accum (rows_by sr_department (of_tenant rs t)))"
proof -
  have keys: "map f (of_tenant rs t) = map fst (rows_by f (of_tenant rs t))" for f
    by (simp add: rows_by_def)
  have bounds: "\<forall>row \<in> set (rows_by f (of_tenant rs t)). 0 \<le> snd row \<and> snd row \<le> 999999999999" for f
    using assms by (auto simp: rows_by_def)
  have cols: "fold (\<lambda>(k, amt). bump_at k amt) (rows_by f (of_tenant rs t)) (preset (map f (of_tenant rs t))) =
      reference_accum (rows_by f (of_tenant rs t))" for f
    unfolding keys [of f] using bounds by (rule columnar_reference)
  have "aggregate_columnar fmt (columns_of rs t) = get_executive_summary fmt rs t"
    by (simp add: aggregate_columnar_def columns_of_def columnar_rows_records cols executive_reference
        summary_of_def metrics_reference)
  then show ?thesis by (simp add: executive_reference summary_of_def)
qed

text \<open>Outside these bounds the sentinels show: a batch of one refund has the greatest amount 0 in the
  columnar engine, and one amount above the upper sentinel has the sentinel as its least amount.\<close>

theorem columnar_sentinels_show:
  assumes "a < 0" "999999999999 < b"
  shows "columnar_rows [d] [c] [l] [a] (preset [d], preset [c], preset [l]) =
      (Map.empty(d \<mapsto> (a, 1, a, 0)), Map.empty(c \<mapsto> (a, 1, a, 0)), Map.empty(l \<mapsto> (a, 1, a, 0))) \<and>
    columnar_rows [d] [c] [l] [b] (preset [d], preset [c], preset [l]) =
      (Map.empty(d \<mapsto> (b, 1, 999999999999, b)), Map.empty(c \<mapsto> (b, 1, 999999999999, b)),
       Map.empty(l \<mapsto> (b, 1, 999999999999, b)))"
  using assms by (simp add: bump_at_def preset_def fresh_accum_def fun_eq_iff)

section \<open>Concrete records\<close>

definition demo_spend :: "string \<Rightarrow> string \<Rightarrow> scaled \<Rightarrow> spend_record" where
  "demo_spend t d a = \<lparr>sr_transaction_id = ''x'', sr_tenant_id = t, sr_department = d, sr_location = ''hq'',
     sr_category = ''misc'', sr_amount_scaled = a, sr_currency = ''USD'', sr_timestamp = ''now''\<rparr>"

theorem spend_engines_agree_witness:
  "aggregate_columnar \<lparr>sf_money = (\<lambda>_. ''$''), sf_share = (\<lambda>_ _. ''1.0'')\<rparr>
     (columns_of [demo_spend ''t'' ''ops'' 5, demo_spend ''u'' ''ops'' 9, demo_spend ''t'' ''hr'' 7] ''t'') =
   get_executive_summary \<lparr>sf_money = (\<lambda>_. ''$''), sf_share = (\<lambda>_ _. ''1.0'')\<rparr>
     [demo_spend ''t'' ''ops'' 5, demo_spend ''u'' ''ops'' 9, demo_spend ''t'' ''hr'' 7] ''t''"
proof -
  have "\<forall>r \<in> set (of_tenant [demo_spend ''t'' ''ops'' 5, demo_spend ''u'' ''ops'' 9, demo_spend ''t'' ''hr'' 7] ''t'').
      0 \<le> sr_amount_scaled r \<and> sr_amount_scaled r \<le> 999999999999"
    by (simp add: of_tenant_def demo_spend_def)
  from spend_engines_agree [OF this] show ?thesis by blast
qed

theorem columnar_sentinels_show_witness:
  "columnar_rows [''d''] [''c''] [''l''] [-5] (preset [''d''], preset [''c''], preset [''l'']) =
     (Map.empty(''d'' \<mapsto> (-5, 1, -5, 0)), Map.empty(''c'' \<mapsto> (-5, 1, -5, 0)), Map.empty(''l'' \<mapsto> (-5, 1, -5, 0)))"
  using columnar_sentinels_show [of "-5" "10 ^ 12" "''d''" "''c''" "''l''"] by simp

end
