(* ===== verification/Xml.thy ===== *)
theory Xml
  imports Prelude
begin

text \<open>
  The part of Python's \<open>xml.etree.ElementTree\<close> the bank adapter uses: element trees, and \<open>tostring\<close>
  with its two escapings. The reader is the part of \<open>fromstring\<close> these texts need: it refuses the control
  characters XML does not allow and turns every line end into a line feed, as the standard demands, and
  keeps tags as they are written, without resolving namespaces.
\<close>

section \<open>Elements and their text\<close>

datatype xml = Elem (xml_tag: string) (xml_attrs: "(string \<times> string) list") (xml_text: string) (xml_children: "xml list")

definition cdata_char :: "char \<Rightarrow> string" where
  "cdata_char c =
     (if c = CHR ''&'' then ''&amp;'' else if c = CHR ''<'' then ''&lt;''
      else if c = CHR ''>'' then ''&gt;'' else [c])"

definition attrib_char :: "char \<Rightarrow> string" where
  "attrib_char c =
     (if c = CHR 0x22 then ''&quot;'' else if c = CHR 0x0D then ''&#13;''
      else if c = CHR 0x0A then ''&#10;'' else if c = CHR 0x09 then ''&#09;'' else cdata_char c)"

definition print_attr :: "string \<times> string \<Rightarrow> string" where
  "print_attr kv = '' '' @ fst kv @ [CHR ''='', CHR 0x22] @ concat (map attrib_char (snd kv)) @ [CHR 0x22]"

fun print_xml :: "xml \<Rightarrow> string" where
  "print_xml (Elem tag attrs text cs) =
     ''<'' @ tag @ concat (map print_attr attrs) @
     (if text = [] \<and> cs = [] then '' />''
      else ''>'' @ concat (map cdata_char text) @ concat (map print_xml cs) @ ''</'' @ tag @ ''>'')"

section \<open>Reading\<close>

definition entity_char :: "string \<Rightarrow> string" where
  "entity_char e =
     (if e = ''amp'' then ''&'' else if e = ''lt'' then ''<'' else if e = ''gt'' then ''>''
      else if e = ''quot'' then [CHR 0x22] else if e = ''#13'' then [CHR 0x0D]
      else if e = ''#10'' then [CHR 0x0A] else if e = ''#09'' then [CHR 0x09] else [])"

function xml_unescape :: "string \<Rightarrow> string" where
  "xml_unescape [] = []"
| "xml_unescape (c # s) =
     (if c = CHR ''&'' then
        entity_char (takeWhile (\<lambda>x. x \<noteq> CHR '';'') s) @ xml_unescape (tl (dropWhile (\<lambda>x. x \<noteq> CHR '';'') s))
      else c # xml_unescape s)"
  by pat_completeness auto
termination
proof (relation "measure length")
  fix c :: char and s :: string
  have "length (dropWhile (\<lambda>x. x \<noteq> CHR '';'') s) \<le> length s" by (rule length_dropWhile_le)
  then show "(tl (dropWhile (\<lambda>x. x \<noteq> CHR '';'') s), c # s) \<in> measure length" by simp
qed auto

definition strip_prefix :: "string \<Rightarrow> string \<Rightarrow> string option" where
  "strip_prefix p s = (if take (length p) s = p then Some (drop (length p) s) else None)"

definition xml_name_char :: "char \<Rightarrow> bool" where
  "xml_name_char c = (is_alpha_ascii c \<or> is_digit c)"

fun read_attrs :: "nat \<Rightarrow> string \<Rightarrow> (string \<times> string) list \<times> string" where
  "read_attrs 0 s = ([], s)"
| "read_attrs (Suc n) s =
     (case strip_prefix '' '' s of
        None \<Rightarrow> ([], s)
      | Some s1 \<Rightarrow>
        (case strip_prefix [CHR ''='', CHR 0x22] (dropWhile xml_name_char s1) of
           None \<Rightarrow> ([], s)
         | Some s2 \<Rightarrow>
           (case read_attrs n (tl (dropWhile (\<lambda>c. c \<noteq> CHR 0x22) s2)) of
              (kvs, r) \<Rightarrow> ((takeWhile xml_name_char s1, xml_unescape (takeWhile (\<lambda>c. c \<noteq> CHR 0x22) s2)) # kvs, r))))"

fun read_elem :: "nat \<Rightarrow> string \<Rightarrow> (xml \<times> string) option"
  and read_children :: "nat \<Rightarrow> string \<Rightarrow> (xml list \<times> string) option" where
  "read_elem 0 s = None"
| "read_elem (Suc n) s =
     (case strip_prefix ''<'' s of
        None \<Rightarrow> None
      | Some s1 \<Rightarrow>
        (case read_attrs (length s1) (dropWhile xml_name_char s1) of
           (attrs, s2) \<Rightarrow>
          (case strip_prefix '' />'' s2 of
             Some r \<Rightarrow> Some (Elem (takeWhile xml_name_char s1) attrs [] [], r)
           | None \<Rightarrow>
             (case strip_prefix ''>'' s2 of
                None \<Rightarrow> None
              | Some s3 \<Rightarrow>
                (case read_children n (dropWhile (\<lambda>c. c \<noteq> CHR ''<'') s3) of
                   None \<Rightarrow> None
                 | Some (cs, s4) \<Rightarrow>
                   (case strip_prefix (''</'' @ takeWhile xml_name_char s1 @ ''>'') s4 of
                      None \<Rightarrow> None
                    | Some r \<Rightarrow>
                      Some (Elem (takeWhile xml_name_char s1) attrs
                        (xml_unescape (takeWhile (\<lambda>c. c \<noteq> CHR ''<'') s3)) cs, r)))))))"
| "read_children 0 s = None"
| "read_children (Suc n) s =
     (if take 2 s = ''</'' then Some ([], s)
      else case read_elem n s of
        None \<Rightarrow> None
      | Some (c, r) \<Rightarrow> (case read_children n r of None \<Rightarrow> None | Some (cs, r') \<Rightarrow> Some (c # cs, r')))"

text \<open>The characters of a document, and its line ends.\<close>

definition xml_char :: "char \<Rightarrow> bool" where
  "xml_char c = (32 \<le> char_code c \<or> char_code c \<in> {9, 10, 13})"

fun line_feeds :: "string \<Rightarrow> string" where
  "line_feeds [] = []"
| "line_feeds (c # s) =
     (if c = CHR 0x0D then CHR 0x0A # (case s of [] \<Rightarrow> [] | d # r \<Rightarrow> if d = CHR 0x0A then line_feeds r else line_feeds s)
      else c # line_feeds s)"

definition read_xml :: "string \<Rightarrow> xml option" where
  "read_xml s =
     (if list_all xml_char s
      then (case read_elem (length (line_feeds s)) (line_feeds s) of Some (x, []) \<Rightarrow> Some x | _ \<Rightarrow> None) else None)"

text \<open>The text found along a path of tags, always through the first child with the tag.\<close>

fun text_at :: "xml \<Rightarrow> string list \<Rightarrow> string option" where
  "text_at x [] = Some (xml_text x)"
| "text_at x (t # ts) = (case find (\<lambda>c. xml_tag c = t) (xml_children x) of
     None \<Rightarrow> None | Some c \<Rightarrow> text_at c ts)"

text \<open>The value of an attribute of the element at a path.\<close>

fun attr_at :: "xml \<Rightarrow> string list \<Rightarrow> string \<Rightarrow> string option" where
  "attr_at x [] k = map_of (xml_attrs x) k"
| "attr_at x (t # ts) k = (case find (\<lambda>c. xml_tag c = t) (xml_children x) of
     None \<Rightarrow> None | Some c \<Rightarrow> attr_at c ts k)"

section \<open>What is printed is read\<close>

text \<open>A text that survives: no control characters but tabs and line feeds.\<close>

definition xml_plain :: "string \<Rightarrow> bool" where
  "xml_plain s = list_all (\<lambda>c. xml_char c \<and> c \<noteq> CHR 0x0D) s"

fun plain_xml :: "xml \<Rightarrow> bool" where
  "plain_xml (Elem tag attrs text cs) =
     (list_all (\<lambda>kv. xml_plain (snd kv)) attrs \<and> xml_plain text \<and> list_all plain_xml cs)"

definition xml_name :: "string \<Rightarrow> bool" where
  "xml_name s = list_all xml_name_char s"

fun wf_xml :: "xml \<Rightarrow> bool" where
  "wf_xml (Elem tag attrs text cs) = (xml_name tag \<and> list_all (\<lambda>kv. xml_name (fst kv)) attrs \<and> list_all wf_xml cs)"

lemma strip_prefix_append [simp]: "strip_prefix p (p @ s) = Some s"
  by (simp add: strip_prefix_def)

lemma strip_prefix_Cons [simp]:
  "strip_prefix [] s = Some s"
  "strip_prefix (c # p) (d # s) = (if c = d then strip_prefix p s else None)"
  "strip_prefix (c # p) [] = None"
  by (simp_all add: strip_prefix_def)

lemma not_name_char [simp]:
  "\<not> xml_name_char (CHR '' '')" "\<not> xml_name_char (CHR ''='')" "\<not> xml_name_char (CHR ''>'')" "\<not> xml_name_char (CHR ''/'')"
  by (simp_all add: xml_name_char_def is_alpha_ascii_def is_lower_ascii_def is_upper_ascii_def is_digit_def char_code_def)

lemma name_split:
  assumes "xml_name t" "s = [] \<or> \<not> xml_name_char (hd s)"
  shows "takeWhile xml_name_char (t @ s) = t" "dropWhile xml_name_char (t @ s) = s"
  using assms by (cases s; auto simp: xml_name_def list_all_iff takeWhile_append dropWhile_append)+

lemma entity_text: "s = e @ CHR '';'' # r \<Longrightarrow> CHR '';'' \<notin> set e \<Longrightarrow>
    xml_unescape (CHR ''&'' # s) = entity_char e @ xml_unescape r"
  by (auto simp: takeWhile_append dropWhile_append)

lemma unescape_cdata_char: "xml_unescape (cdata_char c @ r) = c # xml_unescape r"
proof -
  have e: "xml_unescape (''&amp;'' @ r) = ''&'' @ xml_unescape r" "xml_unescape (''&lt;'' @ r) = ''<'' @ xml_unescape r"
    "xml_unescape (''&gt;'' @ r) = ''>'' @ xml_unescape r"
    by (simp_all add: entity_char_def)
  show ?thesis
  proof (cases "c \<in> {CHR ''&'', CHR ''<'', CHR ''>''}")
    case True
    with e show ?thesis unfolding cdata_char_def by auto
  qed (simp add: cdata_char_def)
qed

lemma unescape_attrib_char: "xml_unescape (attrib_char c @ r) = c # xml_unescape r"
proof -
  have e: "xml_unescape (''&quot;'' @ r) = CHR 0x22 # xml_unescape r" "xml_unescape (''&#13;'' @ r) = CHR 0x0D # xml_unescape r"
    "xml_unescape (''&#10;'' @ r) = CHR 0x0A # xml_unescape r" "xml_unescape (''&#09;'' @ r) = CHR 0x09 # xml_unescape r"
    by (simp_all add: entity_char_def)
  show ?thesis
    unfolding attrib_char_def using e unescape_cdata_char [of c r] by presburger
qed

lemma unescape_texts:
  "xml_unescape (concat (map cdata_char s)) = s" "xml_unescape (concat (map attrib_char s)) = s"
  by (induction s) (simp_all only: list.map concat.simps xml_unescape.simps(1) unescape_cdata_char unescape_attrib_char)

lemma escaped_clean:
  "CHR ''<'' \<notin> set (concat (map cdata_char s))" "CHR 0x22 \<notin> set (concat (map attrib_char s))"
  by (auto simp: cdata_char_def attrib_char_def split: if_splits)

lemma split_at_char:
  assumes "c \<notin> set a"
  shows "takeWhile (\<lambda>x. x \<noteq> c) (a @ c # r) = a" "dropWhile (\<lambda>x. x \<noteq> c) (a @ c # r) = c # r"
  using assms by (auto simp: takeWhile_append dropWhile_append)

lemma read_attrs_print:
  assumes "list_all (\<lambda>kv. xml_name (fst kv)) attrs" "s = CHR ''>'' # r \<or> s = '' />'' @ r'"
    "length attrs < n"
  shows "read_attrs n (concat (map print_attr attrs) @ s) = (attrs, s)"
  using assms
proof (induction attrs arbitrary: n)
  case Nil
  then obtain m where "n = Suc m" by (cases n) auto
  then show ?case using Nil.prems(2) by (auto simp: dropWhile.simps)
next
  case (Cons kv attrs)
  then obtain m where n: "n = Suc m" by (cases n) auto
  obtain k v where kv: "kv = (k, v)" by (cases kv)
  have "xml_name k" using Cons.prems kv by simp
  then have ns: "takeWhile xml_name_char (k @ CHR ''='' # t) = k" "dropWhile xml_name_char (k @ CHR ''='' # t) = CHR ''='' # t" for t
    by (intro name_split; simp)+
  have "read_attrs m (concat (map print_attr attrs) @ s) = (attrs, s)"
    using Cons by (intro Cons.IH) (auto simp: n)
  then show ?case
    by (simp add: n kv print_attr_def [of "(k, v)"] ns split_at_char [OF escaped_clean(2)] unescape_texts)
qed

definition reads :: "xml \<Rightarrow> bool" where
  "reads x = (\<forall>n r. length (print_xml x) \<le> n \<longrightarrow> read_elem n (print_xml x @ r) = Some (x, r))"

lemma print_xml_starts: "\<exists>s. print_xml x = CHR ''<'' # s"
  by (cases x) auto

lemma print_xml_no_end: "wf_xml x \<Longrightarrow> take 2 (print_xml x @ r) \<noteq> ''</''"
proof (cases x)
  case (Elem tag attrs txs cs)
  assume "wf_xml x"
  then show ?thesis
    using Elem by (cases tag; cases attrs) (auto simp: xml_name_def print_attr_def)
qed

lemma read_children_print:
  assumes "\<And>c. c \<in> set cs \<Longrightarrow> reads c" "list_all wf_xml cs" "length (concat (map print_xml cs)) < n"
  shows "read_children n (concat (map print_xml cs) @ ''</'' @ s) = Some (cs, ''</'' @ s)"
  using assms
proof (induction cs arbitrary: n)
  case Nil
  then show ?case by (cases n) auto
next
  case (Cons c cs)
  then obtain m where n: "n = Suc m" by (cases n) auto
  have "1 \<le> length (print_xml c)" using print_xml_starts [of c] by auto
  then have l: "length (print_xml c) \<le> m" "length (concat (map print_xml cs)) < m"
    using Cons.prems(3) n by auto
  have "read_elem m (print_xml c @ concat (map print_xml cs) @ ''</'' @ s) =
      Some (c, concat (map print_xml cs) @ ''</'' @ s)"
    using Cons.prems(1) [of c] l(1) by (simp add: reads_def)
  moreover have "read_children m (concat (map print_xml cs) @ ''</'' @ s) = Some (cs, ''</'' @ s)"
    using Cons.prems l(2) by (intro Cons.IH) auto
  moreover have "take 2 (print_xml c @ concat (map print_xml cs) @ ''</'' @ s) \<noteq> ''</''"
    using Cons.prems(2) by (intro print_xml_no_end) simp
  ultimately show ?case by (simp add: n)
qed

lemma length_print_attrs: "length attrs \<le> length (concat (map print_attr attrs))"
  by (induction attrs) (auto simp: print_attr_def)

lemma children_start: "cs \<noteq> [] \<Longrightarrow> \<exists>s. concat (map print_xml cs) = CHR ''<'' # s"
  using print_xml_starts by (cases cs) (auto, metis append_Cons)

lemma wf_reads: "wf_xml x \<Longrightarrow> reads x"
proof (induction x)
  case (Elem tag attrs txs cs)
  have kids: "reads c" if "c \<in> set cs" for c
    using Elem that by (auto simp: list_all_iff)
  show ?case
    unfolding reads_def
  proof (intro allI impI)
    fix n r
    assume n: "length (print_xml (Elem tag attrs txs cs)) \<le> n"
    then obtain m where m: "n = Suc m" by (cases n) auto
    define tail where "tail = (if txs = [] \<and> cs = [] then '' />'' @ r
      else ''>'' @ concat (map cdata_char txs) @ concat (map print_xml cs) @ ''</'' @ tag @ ''>'' @ r)"
    let ?as = "concat (map print_attr attrs)"
    have p: "print_xml (Elem tag attrs txs cs) @ r = CHR ''<'' # tag @ ?as @ tail"
      by (simp add: tail_def)
    have stop: "?as @ tail = [] \<or> \<not> xml_name_char (hd (?as @ tail))"
      by (cases attrs) (simp_all add: tail_def print_attr_def)
    have name: "xml_name tag" using Elem.prems by simp
    have "read_attrs (length (tag @ ?as @ tail)) (?as @ tail) = (attrs, tail)"
      using Elem.prems length_print_attrs [of attrs]
      by (intro read_attrs_print [where r = "tl tail" and r' = r]) (simp_all add: tail_def)
    note front = p name_split [OF name stop] this
    show "read_elem n (print_xml (Elem tag attrs txs cs) @ r) = Some (Elem tag attrs txs cs, r)"
    proof (cases "txs = [] \<and> cs = []")
      case True
      then have "strip_prefix '' />'' tail = Some r" by (simp add: tail_def)
      with True show ?thesis
        unfolding front(1) m by (simp only: read_elem.simps strip_prefix_Cons refl if_True option.case prod.case front(2-4))
    next
      case False
      let ?kids = "concat (map print_xml cs) @ ''</'' @ tag @ ''>'' @ r"
      obtain t where t: "?kids = CHR ''<'' # t"
        using children_start [of cs] by (cases "cs = []") auto
      have tail: "strip_prefix '' />'' tail = None" "strip_prefix ''>'' tail = Some (concat (map cdata_char txs) @ ?kids)"
        using False by (simp_all add: tail_def)
      have inner: "takeWhile (\<lambda>c. c \<noteq> CHR ''<'') (concat (map cdata_char txs) @ ?kids) = concat (map cdata_char txs)"
        "dropWhile (\<lambda>c. c \<noteq> CHR ''<'') (concat (map cdata_char txs) @ ?kids) = ?kids"
        unfolding t by (rule split_at_char [OF escaped_clean(1)])+
      have "read_children m ?kids = Some (cs, ''</'' @ tag @ ''>'' @ r)"
        using kids Elem.prems n False by (intro read_children_print) (auto simp: m split: if_splits)
      moreover have "strip_prefix (''</'' @ tag @ ''>'') (''</'' @ tag @ ''>'' @ r) = Some r"
        using strip_prefix_append [of "''</'' @ tag @ ''>''" r] by (simp only: append_assoc)
      ultimately show ?thesis
        unfolding front(1) m by (simp only: read_elem.simps strip_prefix_Cons refl if_True option.case prod.case front(2-4) tail inner unescape_texts)
    qed
  qed
qed

lemma xml_plain_simps [simp]:
  "xml_plain []" "xml_plain (c # s) \<longleftrightarrow> xml_char c \<and> c \<noteq> CHR 0x0D \<and> xml_plain s"
  "xml_plain (s @ t) \<longleftrightarrow> xml_plain s \<and> xml_plain t"
  by (simp_all add: xml_plain_def)

lemma xml_plain_concat: "xml_plain (concat ss) \<longleftrightarrow> (\<forall>s \<in> set ss. xml_plain s)"
  by (induction ss) auto

lemma plain_escaped:
  "xml_plain s \<Longrightarrow> xml_plain (concat (map cdata_char s))" "xml_plain s \<Longrightarrow> xml_plain (concat (map attrib_char s))"
  by (induction s) (simp_all add: cdata_char_def attrib_char_def xml_char_def char_code_def)

lemma name_plain: "xml_name t \<Longrightarrow> xml_plain t"
  by (auto simp: xml_name_def xml_plain_def list_all_iff xml_name_char_def is_alpha_ascii_def is_lower_ascii_def
      is_upper_ascii_def is_digit_def xml_char_def char_code_def)

lemma plain_print: "wf_xml x \<Longrightarrow> plain_xml x \<Longrightarrow> xml_plain (print_xml x)"
proof (induction x)
  case (Elem tag attrs txs cs)
  have "xml_plain (print_attr kv)" if "kv \<in> set attrs" for kv
    using Elem.prems that plain_escaped(2) [of "snd kv"] name_plain [of "fst kv"]
    by (auto simp: print_attr_def list_all_iff xml_char_def char_code_def)
  moreover have "xml_plain (print_xml c)" if "c \<in> set cs" for c
    using Elem that by (auto simp: list_all_iff)
  ultimately show ?case
    using Elem.prems plain_escaped(1) [of txs] name_plain [of tag]
    by (simp add: xml_plain_concat) (simp add: xml_char_def char_code_def)
qed

lemma plain_line_feeds: "xml_plain s \<Longrightarrow> line_feeds s = s"
  by (induction s) auto

lemma read_print_xml: "wf_xml x \<Longrightarrow> plain_xml x \<Longrightarrow> read_xml (print_xml x) = Some x"
proof -
  assume x: "wf_xml x" "plain_xml x"
  then have plain: "xml_plain (print_xml x)" by (rule plain_print)
  then have "list_all xml_char (print_xml x)" by (simp add: xml_plain_def list_all_iff)
  then show ?thesis
    using wf_reads [OF x(1), unfolded reads_def, rule_format, of "length (print_xml x)" "[]"]
    by (simp add: read_xml_def plain_line_feeds [OF plain])
qed

end
