(* ===== verification/Plaid.thy ===== *)
theory Plaid
  imports Once_Per_Key Xml Json
begin

text \<open>
  \<^verbatim>\<open>src/infrastructure/banking/plaid_adapter.py\<close>: bank transfers and their \<open>pain.001\<close> messages. The
  SHA-256 digest and the two-decimal amount text are parameters; uuids, clock and date are arguments.
\<close>

section \<open>Data\<close>

datatype ach_status = AchPending | AchSubmitted | AchSettled | AchReturned | AchFailed

fun ach_status_value :: "ach_status \<Rightarrow> string" where
  "ach_status_value AchPending = ''pending''"
| "ach_status_value AchSubmitted = ''submitted''"
| "ach_status_value AchSettled = ''settled''"
| "ach_status_value AchReturned = ''returned''"
| "ach_status_value AchFailed = ''failed''"

datatype service_level = SEPA | NURG | URGP

fun service_level_value :: "service_level \<Rightarrow> string" where
  "service_level_value SEPA = ''SEPA''"
| "service_level_value NURG = ''NURG''"
| "service_level_value URGP = ''URGP''"

record bank_account =
  ba_account_holder :: string
  ba_account_number :: string
  ba_routing_number :: string
  ba_bank_name :: string
  ba_currency :: string
  ba_country_code :: string

record ach_request =
  aq_tenant_id :: string
  aq_reference_document :: string
  aq_initiating_account :: bank_account
  aq_beneficiary_account :: bank_account
  aq_amount_scaled :: scaled
  aq_currency :: string
  aq_service_level :: service_level
  aq_purpose :: string
  aq_idempotency_key :: string

record ach_result =
  ax_transfer_id :: string
  ax_tenant_id :: string
  ax_reference_document :: string
  ax_message_id :: string
  ax_payment_info_id :: string
  ax_amount_scaled :: scaled
  ax_currency :: string
  ax_status :: ach_status
  ax_idempotency_key :: string
  ax_pain001_xml :: string
  ax_initiated_at :: string
  ax_settled_at :: "string option"
  ax_failure_reason :: "string option"

text \<open>\<open>ACHTransferRequest.__post_init__\<close>: a request without a key gets one from its content.\<close>

definition mk_ach_request ::
  "(string \<Rightarrow> string) \<Rightarrow> string \<Rightarrow> string \<Rightarrow> bank_account \<Rightarrow> bank_account \<Rightarrow> scaled \<Rightarrow> string \<Rightarrow>
   service_level \<Rightarrow> string \<Rightarrow> string option \<Rightarrow> scaled + ach_request" where
  "mk_ach_request sha tenant ref initiating beneficiary amount currency level purpose key =
     (if amount \<le> 0 then Inl amount
      else Inr \<lparr>aq_tenant_id = tenant, aq_reference_document = ref, aq_initiating_account = initiating,
             aq_beneficiary_account = beneficiary, aq_amount_scaled = amount, aq_currency = currency,
             aq_service_level = level, aq_purpose = purpose,
             aq_idempotency_key = text_or key
               (take 32 (sha (utf8 (tenant @ '':'' @ ref @ '':'' @ show_int amount))))\<rparr>)"

definition ach_to_dict :: "(scaled \<Rightarrow> string) \<Rightarrow> ach_result \<Rightarrow> json" where
  "ach_to_dict money x = JDict
     [(''transfer_id'', JStr (ax_transfer_id x)), (''tenant_id'', JStr (ax_tenant_id x)),
      (''reference_document'', JStr (ax_reference_document x)), (''message_id'', JStr (ax_message_id x)),
      (''payment_info_id'', JStr (ax_payment_info_id x)), (''amount_scaled'', JInt (ax_amount_scaled x)),
      (''amount_formatted'', JStr (''$'' @ money (ax_amount_scaled x))), (''currency'', JStr (ax_currency x)),
      (''status'', JStr (ach_status_value (ax_status x))), (''idempotency_key'', JStr (ax_idempotency_key x)),
      (''pain001_xml_length'', JInt (int (length (ax_pain001_xml x)))),
      (''initiated_at'', JStr (ax_initiated_at x)), (''settled_at'', json_opt (ax_settled_at x)),
      (''failure_reason'', json_opt (ax_failure_reason x))]"

section \<open>The message\<close>

definition leaf :: "string \<Rightarrow> string \<Rightarrow> xml" where
  "leaf tag txs = Elem tag [] txs []"

definition node :: "string \<Rightarrow> xml list \<Rightarrow> xml" where
  "node tag cs = Elem tag [] [] cs"

definition group_header :: "string \<Rightarrow> string \<Rightarrow> string \<Rightarrow> ach_request \<Rightarrow> xml" where
  "group_header message_id creation_datetime amount_str r = node ''GrpHdr''
     [leaf ''MsgId'' message_id, leaf ''CreDtTm'' creation_datetime, leaf ''NbOfTxs'' ''1'', leaf ''CtrlSum'' amount_str,
      node ''InitgPty'' [leaf ''Nm'' (ba_account_holder (aq_initiating_account r))]]"

definition credit_transfer :: "string \<Rightarrow> ach_request \<Rightarrow> xml" where
  "credit_transfer amount_str r = node ''CdtTrfTxInf''
     [node ''PmtId'' [leaf ''EndToEndId'' (aq_reference_document r)],
      node ''Amt'' [Elem ''InstdAmt'' [(''Ccy'', aq_currency r)] amount_str []],
      node ''CdtrAgt'' [node ''FinInstnId'' [leaf ''ClrSysMmbId'' (ba_routing_number (aq_beneficiary_account r))]],
      node ''Cdtr'' [leaf ''Nm'' (ba_account_holder (aq_beneficiary_account r))],
      node ''CdtrAcct'' [node ''Id'' [leaf ''Othr'' (ba_account_number (aq_beneficiary_account r))]],
      node ''RmtInf'' [leaf ''Ustrd'' (aq_purpose r)]]"

definition payment_information :: "string \<Rightarrow> string \<Rightarrow> string \<Rightarrow> ach_request \<Rightarrow> xml" where
  "payment_information payment_info_id amount_str today_str r = node ''PmtInf''
     [leaf ''PmtInfId'' payment_info_id, leaf ''PmtMtd'' ''TRF'', leaf ''NbOfTxs'' ''1'', leaf ''CtrlSum'' amount_str,
      node ''PmtTpInf'' [node ''SvcLvl'' [leaf ''Cd'' (service_level_value (aq_service_level r))]],
      leaf ''ReqdExctnDt'' today_str,
      node ''Dbtr'' [leaf ''Nm'' (ba_account_holder (aq_initiating_account r))],
      node ''DbtrAcct'' [node ''Id'' [leaf ''Othr'' (ba_account_number (aq_initiating_account r))],
                         leaf ''Ccy'' (aq_currency r)],
      node ''DbtrAgt'' [node ''FinInstnId'' [leaf ''ClrSysMmbId'' (ba_routing_number (aq_initiating_account r))]],
      credit_transfer amount_str r]"

definition pain001_document ::
  "(scaled \<Rightarrow> string) \<Rightarrow> string \<Rightarrow> string \<Rightarrow> string \<Rightarrow> string \<Rightarrow> ach_request \<Rightarrow> xml" where
  "pain001_document money message_id payment_info_id creation_datetime today_str r =
     Elem ''Document'' [(''xmlns'', ''urn:iso:std:iso:20022:tech:xsd:pain.001.001.09'')] []
       [node ''CstmrCdtTrfInitn''
          [group_header message_id creation_datetime (money (aq_amount_scaled r)) r,
           payment_information payment_info_id (money (aq_amount_scaled r)) today_str r]]"

definition build_pain001_xml ::
  "(scaled \<Rightarrow> string) \<Rightarrow> string \<Rightarrow> string \<Rightarrow> string \<Rightarrow> string \<Rightarrow> ach_request \<Rightarrow> string" where
  "build_pain001_xml money message_id payment_info_id creation_datetime today_str r =
     print_xml (pain001_document money message_id payment_info_id creation_datetime today_str r)"

section \<open>The adapter\<close>

type_synonym plaid_adapter = "(string \<times> ach_result) list"

record plaid_env =
  pe_transfer_hex :: string
  pe_message_hex :: string
  pe_payment_hex :: string
  pe_now_str :: string
  pe_now_iso :: string
  pe_today :: string

definition initiate_transfer ::
  "(scaled \<Rightarrow> string) \<Rightarrow> ach_request \<Rightarrow> plaid_env \<Rightarrow> plaid_adapter \<Rightarrow> ach_result \<times> plaid_adapter" where
  "initiate_transfer money r env pa =
     (case map_of pa (aq_idempotency_key r) of
        Some existing \<Rightarrow> (existing, pa)
      | None \<Rightarrow>
        (let message_id = ''MSG'' @ py_upper (take 12 (pe_message_hex env));
             payment_info_id = ''PMT'' @ py_upper (take 12 (pe_payment_hex env));
             result = \<lparr>ax_transfer_id = ''ach_'' @ take 16 (pe_transfer_hex env),
               ax_tenant_id = aq_tenant_id r, ax_reference_document = aq_reference_document r,
               ax_message_id = message_id, ax_payment_info_id = payment_info_id,
               ax_amount_scaled = aq_amount_scaled r, ax_currency = aq_currency r, ax_status = AchSubmitted,
               ax_idempotency_key = aq_idempotency_key r,
               ax_pain001_xml = build_pain001_xml money message_id payment_info_id (pe_now_str env) (pe_today env) r,
               ax_initiated_at = pe_now_iso env, ax_settled_at = None, ax_failure_reason = None\<rparr>
         in (result, AList.update (aq_idempotency_key r) result pa)))"

definition get_transfer :: "plaid_adapter \<Rightarrow> string \<Rightarrow> ach_result option" where
  "get_transfer pa i = find (\<lambda>x. ax_transfer_id x = i) (map snd pa)"

definition count_transfers :: "plaid_adapter \<Rightarrow> nat" where
  "count_transfers pa = length pa"

interpretation plaid_once: once_per_key "initiate_transfer money" map_of aq_idempotency_key for money
  by unfold_locales (simp_all add: initiate_transfer_def Let_def update_conv')

section \<open>What a receiver reads\<close>

lemma wf_nodes [simp]:
  "wf_xml (leaf t txs) = xml_name t" "wf_xml (node t cs) = (xml_name t \<and> list_all wf_xml cs)"
  by (simp_all add: leaf_def node_def)

lemma xml_name_simps [simp]:
  "xml_name []" "xml_name (c # s) \<longleftrightarrow> (97 \<le> char_code c \<and> char_code c \<le> 122 \<or> 65 \<le> char_code c \<and> char_code c \<le> 90 \<or>
    48 \<le> char_code c \<and> char_code c \<le> 57) \<and> xml_name s"
  by (auto simp: xml_name_def xml_name_char_def is_alpha_ascii_def is_lower_ascii_def is_upper_ascii_def is_digit_def)

lemma wf_pain001: "wf_xml (pain001_document money m p c t r)"
  by (simp add: pain001_document_def group_header_def payment_information_def credit_transfer_def char_code_def)

definition in_payment :: "string list \<Rightarrow> string list" where
  "in_payment path = [''CstmrCdtTrfInitn'', ''PmtInf''] @ path"

definition in_transfer :: "string list \<Rightarrow> string list" where
  "in_transfer path = in_payment ([''CdtTrfTxInf''] @ path)"

text \<open>What a bank must not misread of a request, with the place each is read at: the creditor, the amount in ten
  thousandths and its currency, the references, the debtor and the control sums.\<close>

definition amount_at :: "xml \<Rightarrow> string list \<Rightarrow> scaled option" where
  "amount_at x path = Option.bind (text_at x path) amount_of_text"

definition carries :: "xml \<Rightarrow> ach_request \<Rightarrow> bool" where
  "carries x r \<longleftrightarrow>
     text_at x (in_transfer [''Cdtr'', ''Nm'']) = Some (ba_account_holder (aq_beneficiary_account r)) \<and>
     text_at x (in_transfer [''CdtrAcct'', ''Id'', ''Othr'']) = Some (ba_account_number (aq_beneficiary_account r)) \<and>
     text_at x (in_transfer [''CdtrAgt'', ''FinInstnId'', ''ClrSysMmbId'']) =
       Some (ba_routing_number (aq_beneficiary_account r)) \<and>
     amount_at x (in_transfer [''Amt'', ''InstdAmt'']) = Some (aq_amount_scaled r) \<and>
     attr_at x (in_transfer [''Amt'', ''InstdAmt'']) ''Ccy'' = Some (aq_currency r) \<and>
     text_at x (in_transfer [''PmtId'', ''EndToEndId'']) = Some (aq_reference_document r) \<and>
     text_at x (in_transfer [''RmtInf'', ''Ustrd'']) = Some (aq_purpose r) \<and>
     text_at x (in_payment [''Dbtr'', ''Nm'']) = Some (ba_account_holder (aq_initiating_account r)) \<and>
     text_at x (in_payment [''DbtrAcct'', ''Id'', ''Othr'']) = Some (ba_account_number (aq_initiating_account r)) \<and>
     text_at x (in_payment [''DbtrAcct'', ''Ccy'']) = Some (aq_currency r) \<and>
     text_at x (in_payment [''DbtrAgt'', ''FinInstnId'', ''ClrSysMmbId'']) =
       Some (ba_routing_number (aq_initiating_account r)) \<and>
     text_at x (in_payment [''PmtTpInf'', ''SvcLvl'', ''Cd'']) = Some (service_level_value (aq_service_level r)) \<and>
     amount_at x (in_payment [''CtrlSum'']) = Some (aq_amount_scaled r) \<and>
     text_at x (in_payment [''NbOfTxs'']) = Some ''1'' \<and>
     text_at x [''CstmrCdtTrfInitn'', ''GrpHdr'', ''InitgPty'', ''Nm''] =
       Some (ba_account_holder (aq_initiating_account r)) \<and>
     amount_at x [''CstmrCdtTrfInitn'', ''GrpHdr'', ''CtrlSum''] = Some (aq_amount_scaled r)"

text \<open>The format \<open>.2f\<close> of \<open>n / 10_000.0\<close> is exact on whole cents of at most fifteen digits.\<close>

definition prints_cents :: "(scaled \<Rightarrow> string) \<Rightarrow> bool" where
  "prints_cents money \<longleftrightarrow> (\<forall>n. 0 \<le> n \<and> n < 10 ^ 15 \<and> n mod 100 = 0 \<longrightarrow> money n = amount_text n)"

definition whole_cents :: "ach_request \<Rightarrow> bool" where
  "whole_cents r \<longleftrightarrow> 0 < aq_amount_scaled r \<and> aq_amount_scaled r < 10 ^ 15 \<and> aq_amount_scaled r mod 100 = 0"

lemma prints_amount:
  "prints_cents money \<Longrightarrow> whole_cents r \<Longrightarrow> money (aq_amount_scaled r) = amount_text (aq_amount_scaled r) \<and>
     amount_of_text (amount_text (aq_amount_scaled r)) = Some (aq_amount_scaled r)"
  by (simp add: prints_cents_def whole_cents_def amount_of_amount_text)

lemma document_carries:
  assumes "prints_cents money" "whole_cents r"
  shows "carries (pain001_document money m p c t r) r"
  using prints_amount [OF assms]
  by (simp add: carries_def amount_at_def in_transfer_def in_payment_def pain001_document_def group_header_def
      payment_information_def credit_transfer_def node_def leaf_def)

text \<open>Requests and clock texts without characters XML refuses or rewrites.\<close>

definition plain_account :: "bank_account \<Rightarrow> bool" where
  "plain_account b \<longleftrightarrow> xml_plain (ba_account_holder b) \<and> xml_plain (ba_account_number b) \<and> xml_plain (ba_routing_number b)"

definition plain_request :: "ach_request \<Rightarrow> bool" where
  "plain_request r \<longleftrightarrow> plain_account (aq_initiating_account r) \<and> plain_account (aq_beneficiary_account r) \<and>
     xml_plain (aq_reference_document r) \<and> xml_plain (aq_currency r) \<and> xml_plain (aq_purpose r)"

definition plain_env :: "plaid_env \<Rightarrow> bool" where
  "plain_env env \<longleftrightarrow> xml_plain (pe_message_hex env) \<and> xml_plain (pe_payment_hex env) \<and>
     xml_plain (pe_now_str env) \<and> xml_plain (pe_today env)"

lemma plain_nodes [simp]:
  "plain_xml (leaf t txs) = xml_plain txs" "plain_xml (node t cs) = list_all plain_xml cs"
  by (simp_all add: leaf_def node_def)

lemma plain_amount_text: "xml_plain (amount_text n)"
  using amount_text_chars [of _ n]
  by (fastforce simp: xml_plain_def list_all_iff xml_char_def is_digit_def char_code_def)

lemma plain_id: "xml_plain s \<Longrightarrow> xml_plain (py_upper (take n s))"
  by (auto simp: xml_plain_def list_all_iff py_upper_def xml_char_def char_code_upper_char is_lower_ascii_def
      simp flip: char_code_inj dest!: in_set_takeD) (simp_all add: char_code_def)

lemma plain_document:
  assumes "plain_request r" "xml_plain (money (aq_amount_scaled r))" "xml_plain m" "xml_plain p" "xml_plain c" "xml_plain t"
  shows "plain_xml (pain001_document money m p c t r)"
  using assms
  by (cases "aq_service_level r") (simp_all add: pain001_document_def group_header_def payment_information_def
      credit_transfer_def plain_request_def plain_account_def, simp_all add: xml_char_def char_code_def)

text \<open>C34. The first transfer under a key answers every later request with that key, whatever is
  initiated in between, and its message reads back with what was requested, also when names and purposes
  contain markup: the names, accounts and banks of debtor and creditor, the amount and its currency, the
  service level, the reference and the purpose, and control sums of this amount. The amount is of whole
  cents and at most fifteen digits, where the float format is exact; the texts have no control characters
  but tabs and line feeds.\<close>

theorem transfer_sent_once_as_requested:
  assumes "map_of pa (aq_idempotency_key r) = None" "aq_idempotency_key r' = aq_idempotency_key r"
    and "initiate_transfer money r env pa = (x, pa1)" "pa2 = plaid_once.issue_all money later pa1"
    and "prints_cents money" "whole_cents r" "plain_request r" "plain_env env"
  shows "initiate_transfer money r' env' pa2 = (x, pa2) \<and>
    (\<exists>doc. read_xml (ax_pain001_xml x) = Some doc \<and> carries doc r)"
proof
  show "initiate_transfer money r' env' pa2 = (x, pa2)"
    using plaid_once.retry [where r = r and r' = r' and e = env and s = pa and rs = later and money = money, OF assms(2)] assms(3,4) by simp
  let ?doc = "pain001_document money (''MSG'' @ py_upper (take 12 (pe_message_hex env)))
    (''PMT'' @ py_upper (take 12 (pe_payment_hex env))) (pe_now_str env) (pe_today env) r"
  have "ax_pain001_xml x = print_xml ?doc"
    using assms(1,3) by (auto simp: initiate_transfer_def build_pain001_xml_def Let_def)
  moreover have "plain_xml ?doc"
    using assms(8) prints_amount [OF assms(5,6)]
    by (intro plain_document [OF assms(7)]) (simp_all add: plain_amount_text plain_env_def plain_id, simp_all add: xml_char_def char_code_def)
  ultimately show "\<exists>doc. read_xml (ax_pain001_xml x) = Some doc \<and> carries doc r"
    using document_carries [OF assms(5,6)] by (auto simp: read_print_xml [OF wf_pain001])
qed

text \<open>Derived keys join tenant, reference and amount by colons, and transfers are filed without the
  tenant: two tenants whose parts join to the same text share one transfer.\<close>

theorem colon_tenants_share_a_transfer:
  assumes "mk_ach_request sha (t @ '':'' @ u) ref a b n cur l p None = Inr r"
    "mk_ach_request sha t (u @ '':'' @ ref) a' b' n cur' l' p' None = Inr r'"
  shows "fst (initiate_transfer money r' env' (snd (initiate_transfer money r env pa))) =
    fst (initiate_transfer money r env pa)"
proof -
  have "aq_idempotency_key r' = aq_idempotency_key r"
    using assms by (auto simp: mk_ach_request_def split: if_splits)
  from plaid_once.retry [where rs = "[]", OF this] show ?thesis by simp
qed

section \<open>A concrete transfer\<close>

definition demo_account :: "string \<Rightarrow> bank_account" where
  "demo_account holder = \<lparr>ba_account_holder = holder, ba_account_number = ''42'', ba_routing_number = ''9'',
     ba_bank_name = ''b'', ba_currency = ''USD'', ba_country_code = ''US''\<rparr>"

definition demo_ach :: ach_request where
  "demo_ach = \<lparr>aq_tenant_id = ''t'', aq_reference_document = ''r'', aq_initiating_account = demo_account ''a & b'',
     aq_beneficiary_account = demo_account ''</Nm>'', aq_amount_scaled = 12500, aq_currency = ''USD'',
     aq_service_level = NURG, aq_purpose = [], aq_idempotency_key = ''k''\<rparr>"

definition demo_plaid_env :: plaid_env where
  "demo_plaid_env = \<lparr>pe_transfer_hex = ''1'', pe_message_hex = ''2'', pe_payment_hex = ''3'', pe_now_str = ''now'',
     pe_now_iso = ''now'', pe_today = ''today''\<rparr>"

theorem transfer_sent_once_as_requested_witness:
  "snd (initiate_transfer amount_text demo_ach demo_plaid_env
      (snd (initiate_transfer amount_text demo_ach demo_plaid_env []))) =
    snd (initiate_transfer amount_text demo_ach demo_plaid_env []) \<and>
   (\<exists>doc. read_xml (ax_pain001_xml (fst (initiate_transfer amount_text demo_ach demo_plaid_env []))) = Some doc \<and>
     amount_at doc (in_transfer [''Amt'', ''InstdAmt'']) = Some 12500)"
proof -
  have "prints_cents amount_text" "whole_cents demo_ach" "plain_request demo_ach" "plain_env demo_plaid_env"
    by (simp_all add: prints_cents_def whole_cents_def plain_request_def plain_account_def plain_env_def demo_ach_def
        demo_account_def demo_plaid_env_def xml_char_def char_code_def)
  note sent = transfer_sent_once_as_requested [where pa = "[]" and r = demo_ach and r' = demo_ach and later = "[]"
      and money = amount_text and env = demo_plaid_env and env' = demo_plaid_env, OF _ refl surjective_pairing refl this]
  have "aq_amount_scaled demo_ach = 12500" by (simp add: demo_ach_def)
  with sent show ?thesis by (auto simp: carries_def)
qed

theorem colon_tenants_share_a_transfer_witness:
  "\<exists>r r'. mk_ach_request (\<lambda>s. s) ''a:b'' ''c'' (demo_account []) (demo_account []) 1 ''USD'' NURG [] None = Inr r \<and>
    mk_ach_request (\<lambda>s. s) ''a'' ''b:c'' (demo_account ''x'') (demo_account ''y'') 1 ''EUR'' NURG [] None = Inr r' \<and>
    fst (initiate_transfer (\<lambda>_. []) r' demo_plaid_env (snd (initiate_transfer (\<lambda>_. []) r demo_plaid_env []))) =
      fst (initiate_transfer (\<lambda>_. []) r demo_plaid_env [])"
  using colon_tenants_share_a_transfer [of "\<lambda>s. s" "''a''" "''b''" "''c''" "demo_account []" "demo_account []" 1 "''USD''" NURG "[]"
      _ "demo_account ''x''" "demo_account ''y''" "''EUR''" NURG "[]"]
  by (simp add: mk_ach_request_def)

end
