(* ===== verification/Regex.thy ===== *)
theory Regex
  imports Prelude
begin

text \<open>
  The part of Python's \<open>re\<close> module the components use. A pattern yields the positions where it can
  end, in the order in which the backtracking matcher tries them, so the first one is the match; a
  position keeps the character before it for word boundaries. All repetitions of the source's
  patterns repeat a single character class.
\<close>

section \<open>Patterns\<close>

type_synonym rx_at = "char option \<times> string \<times> (nat \<times> string) list"

datatype rx =
    REps
  | RSet "char \<Rightarrow> bool" nat "nat option" bool
  | RSeq rx rx
  | RAlt rx rx
  | RGroup nat rx
  | RBound
  | RAhead "char \<Rightarrow> bool"
  | REnd

text \<open>The characters \<open>\w\<close> accepts below U+0100.\<close>

definition is_word :: "char \<Rightarrow> bool" where
  "is_word c = (is_alpha_ascii c \<or> is_digit c \<or> c = CHR ''_'' \<or>
     char_code c \<in> {170, 178, 179, 181, 185, 186, 188, 189, 190} \<or>
     192 \<le> char_code c \<and> char_code c \<noteq> 215 \<and> char_code c \<noteq> 247)"

definition at_boundary :: "char option \<Rightarrow> string \<Rightarrow> bool" where
  "at_boundary p s = ((case p of None \<Rightarrow> False | Some c \<Rightarrow> is_word c) \<noteq> (s \<noteq> [] \<and> is_word (hd s)))"

fun rx_advance :: "rx_at \<Rightarrow> nat \<Rightarrow> rx_at" where
  "rx_advance (p, s, gs) k = (if k = 0 then p else Some (s ! (k - 1)), drop k s, gs)"

definition rx_counts :: "(char \<Rightarrow> bool) \<Rightarrow> nat \<Rightarrow> nat option \<Rightarrow> bool \<Rightarrow> string \<Rightarrow> nat list" where
  "rx_counts P lo hi greedy s =
     (let longest = length (takeWhile P s);
          ks = [lo..<Suc (case hi of None \<Rightarrow> longest | Some n \<Rightarrow> min n longest)]
      in if greedy then rev ks else ks)"

fun rx_run :: "rx \<Rightarrow> rx_at \<Rightarrow> rx_at list" where
  "rx_run REps a = [a]"
| "rx_run (RSet P lo hi greedy) a = map (rx_advance a) (rx_counts P lo hi greedy (fst (snd a)))"
| "rx_run (RSeq r q) a = concat (map (rx_run q) (rx_run r a))"
| "rx_run (RAlt r q) a = rx_run r a @ rx_run q a"
| "rx_run (RGroup i r) a = map (\<lambda>(p, s, gs).
     (p, s, (i, take (length (fst (snd a)) - length s) (fst (snd a))) # gs)) (rx_run r a)"
| "rx_run RBound a = (if at_boundary (fst a) (fst (snd a)) then [a] else [])"
| "rx_run (RAhead P) a = (if fst (snd a) \<noteq> [] \<and> P (hd (fst (snd a))) then [a] else [])"
| "rx_run REnd a = (if fst (snd a) \<in> {[], [CHR 0x0A]} then [a] else [])"

section \<open>Matching, searching, substituting\<close>

definition rx_match :: "rx \<Rightarrow> char option \<Rightarrow> string \<Rightarrow> rx_at option" where
  "rx_match r p s = (case rx_run r (p, s, []) of [] \<Rightarrow> None | m # _ \<Rightarrow> Some m)"

text \<open>\<open>search\<close> returns the text before the match and its groups.\<close>

fun rx_search :: "rx \<Rightarrow> char option \<Rightarrow> string \<Rightarrow> (string \<times> (nat \<times> string) list) option" where
  "rx_search r p [] = (case rx_match r p [] of Some (_, _, gs) \<Rightarrow> Some ([], gs) | None \<Rightarrow> None)"
| "rx_search r p (c # s) =
     (case rx_match r p (c # s) of
        Some (_, _, gs) \<Rightarrow> Some ([], gs)
      | None \<Rightarrow> map_option (\<lambda>(pre, gs). (c # pre, gs)) (rx_search r (Some c) s))"

text \<open>\<open>sub\<close> for patterns that never match the empty text; the replacement sees the groups.\<close>

function rx_sub :: "rx \<Rightarrow> ((nat \<times> string) list \<Rightarrow> string) \<Rightarrow> char option \<Rightarrow> string \<Rightarrow> string" where
  "rx_sub r f p [] = []"
| "rx_sub r f p (c # s) =
     (case rx_match r p (c # s) of
        Some (p', s', gs) \<Rightarrow>
          (if length s' < length (c # s) then f gs @ rx_sub r f p' s' else c # rx_sub r f (Some c) s)
      | None \<Rightarrow> c # rx_sub r f (Some c) s)"
  by pat_completeness auto
termination
  by (relation "measure (\<lambda>(r, f, p, s). length s)") auto

section \<open>Notation for the patterns of the source\<close>

definition rx_seq :: "rx list \<Rightarrow> rx" where
  "rx_seq rs = foldr RSeq rs REps"

definition rx_one :: "(char \<Rightarrow> bool) \<Rightarrow> rx" where
  "rx_one P = RSet P 1 (Some 1) True"

definition rx_opt :: "(char \<Rightarrow> bool) \<Rightarrow> rx" where
  "rx_opt P = RSet P 0 (Some 1) True"

definition rx_many :: "(char \<Rightarrow> bool) \<Rightarrow> rx" where
  "rx_many P = RSet P 0 None True"

definition rx_some :: "(char \<Rightarrow> bool) \<Rightarrow> rx" where
  "rx_some P = RSet P 1 None True"

definition rx_times :: "(char \<Rightarrow> bool) \<Rightarrow> nat \<Rightarrow> rx" where
  "rx_times P n = RSet P n (Some n) True"

text \<open>A literal word under \<open>IGNORECASE\<close>, and as it is.\<close>

definition rx_word_ci :: "string \<Rightarrow> rx" where
  "rx_word_ci w = rx_seq (map (\<lambda>x. rx_one (\<lambda>c. lower_char c = lower_char x)) w)"

definition rx_word :: "string \<Rightarrow> rx" where
  "rx_word w = rx_seq (map (\<lambda>x. rx_one (\<lambda>c. c = x)) w)"

section \<open>Following a match\<close>

definition rx_first :: "rx \<Rightarrow> rx_at \<Rightarrow> rx_at option" where
  "rx_first r a = (case rx_run r a of [] \<Rightarrow> None | m # _ \<Rightarrow> Some m)"

lemma rx_match_first: "rx_match r p s = rx_first r (p, s, [])"
  by (simp add: rx_match_def rx_first_def)

lemma rx_first_Some: "rx_first r a = Some m \<longleftrightarrow> (\<exists>ms. rx_run r a = m # ms)"
  by (auto simp: rx_first_def split: list.splits)

lemma rx_first_None: "rx_first r a = None \<longleftrightarrow> rx_run r a = []"
  by (auto simp: rx_first_def split: list.splits)

lemma rx_first_seq: "rx_first r a = Some b \<Longrightarrow> rx_first q b = Some m \<Longrightarrow> rx_first (RSeq r q) a = Some m"
  by (auto simp: rx_first_Some)

lemma rx_first_group: "rx_first r (p, s, gs) = Some (p', s', gs') \<Longrightarrow>
    rx_first (RGroup i r) (p, s, gs) = Some (p', s', (i, take (length s - length s') s) # gs')"
  by (auto simp: rx_first_Some)

lemma rx_first_eps: "rx_first REps a = Some a"
  by (simp add: rx_first_def)

lemma rx_first_bound: "at_boundary p s \<Longrightarrow> rx_first RBound (p, s, gs) = Some (p, s, gs)"
  by (simp add: rx_first_def)

lemma rx_seq_simps [simp]: "rx_seq [] = REps" "rx_seq (r # rs) = RSeq r (rx_seq rs)"
  by (simp_all add: rx_seq_def)

lemma takeWhile_run:
  "list_all P w \<Longrightarrow> s = [] \<or> \<not> P (hd s) \<Longrightarrow> takeWhile P (w @ s) = w"
  by (cases s) (auto simp: list_all_iff takeWhile_append)

text \<open>A greedy repetition first takes the whole run, when the bound allows it.\<close>

lemma rx_first_greedy:
  assumes "list_all P w" "s = [] \<or> \<not> P (hd s)" "lo \<le> length w" "case hi of None \<Rightarrow> True | Some n \<Rightarrow> length w \<le> n"
  shows "rx_first (RSet P lo hi True) (p, w @ s, gs) = Some (if w = [] then p else Some (last w), s, gs)"
proof -
  have "rx_counts P lo hi True (w @ s) = rev ([lo..<length w] @ [length w])"
    using assms by (auto simp: rx_counts_def takeWhile_run Let_def min_def split: option.splits)
  then show ?thesis
    by (cases w rule: rev_cases) (auto simp: nth_append rx_first_def)
qed

text \<open>A repetition of an exact number does not look further.\<close>

lemma rx_first_times:
  assumes "list_all P w" "length w = n"
  shows "rx_first (rx_times P n) (p, w @ s, gs) = Some (if w = [] then p else Some (last w), s, gs)"
proof -
  have "n \<le> length (takeWhile P (w @ s))" using assms by (simp add: takeWhile_append list_all_iff)
  then have "rx_counts P n (Some n) True (w @ s) = [n]" by (simp add: rx_counts_def Let_def min_def)
  then show ?thesis
    using assms by (cases w rule: rev_cases) (auto simp: rx_times_def nth_append rx_first_def)
qed

lemma rx_first_one: "P c \<Longrightarrow> rx_first (rx_one P) (p, c # s, gs) = Some (Some c, s, gs)"
  using rx_first_times [of P "[c]" 1 p s gs] by (simp add: rx_one_def rx_times_def)

lemma rx_run_set_Nil: "rx_run (RSet P lo hi g) (p, s, gs) = [] \<longleftrightarrow>
    (case hi of None \<Rightarrow> length (takeWhile P s) | Some n \<Rightarrow> min n (length (takeWhile P s))) < lo"
  by (auto simp: rx_counts_def Let_def)

lemma rx_search_skip:
  assumes "\<And>i. i < length pre \<Longrightarrow> rx_match r (if i = 0 then p else Some (pre ! (i - 1))) (drop i (pre @ s)) = None"
    and "rx_match r (if pre = [] then p else Some (last pre)) s = Some (p', s', gs)"
  shows "rx_search r p (pre @ s) = Some (pre, gs)"
  using assms
proof (induction pre arbitrary: p)
  case Nil
  then show ?case by (cases s) auto
next
  case (Cons c pre)
  have "rx_search r (Some c) (pre @ s) = Some (pre, gs)"
  proof (rule Cons.IH)
    show "rx_match r (if i = 0 then Some c else Some (pre ! (i - 1))) (drop i (pre @ s)) = None"
      if "i < length pre" for i
      using Cons.prems(1) [of "Suc i"] that by (auto simp: nth_Cons')
    show "rx_match r (if pre = [] then Some c else Some (last pre)) s = Some (p', s', gs)"
      using Cons.prems(2) by (auto split: if_splits)
  qed
  then show ?case using Cons.prems(1) [of 0] by simp
qed

end
