(* ===== verification/Receipt.thy ===== *)
theory Receipt
  imports Regex Json
begin

text \<open>
  \<^verbatim>\<open>src/services/ai/ocr_processor.py\<close>: structured data from the text of a receipt. The conversion of an
  amount text through \<open>float\<close>, the two-decimal dollar text, the date of today and the measured duration
  are parameters.
\<close>

section \<open>Data\<close>

record line_item =
  li_description :: string
  li_amount_scaled :: scaled

record extraction =
  ex_merchant_name :: string
  ex_tax_id :: "string option"
  ex_transaction_date :: string
  ex_line_items :: "line_item list"
  ex_subtotal_scaled :: scaled
  ex_tax_scaled :: scaled
  ex_tip_scaled :: scaled
  ex_total_scaled :: scaled
  ex_math_validated :: bool
  ex_confidence_score :: string
  ex_processing_time_ms :: string

record ocr_env =
  oe_today :: string
  oe_elapsed :: string
  oe_float_scaled :: "string \<Rightarrow> int option"

definition extraction_to_dict :: "(scaled \<Rightarrow> string) \<Rightarrow> extraction \<Rightarrow> json" where
  "extraction_to_dict money x = JDict
     [(''merchant_name'', JStr (ex_merchant_name x)), (''tax_id'', json_opt (ex_tax_id x)),
      (''transaction_date'', JStr (ex_transaction_date x)),
      (''line_items'', JList (map (\<lambda>i. JDict [(''description'', JStr (li_description i)),
         (''amount_scaled'', JInt (li_amount_scaled i)),
         (''amount_formatted'', JStr (''$'' @ money (li_amount_scaled i)))]) (ex_line_items x))),
      (''subtotal_scaled'', JInt (ex_subtotal_scaled x)),
      (''subtotal_formatted'', JStr (''$'' @ money (ex_subtotal_scaled x))),
      (''tax_scaled'', JInt (ex_tax_scaled x)), (''tax_formatted'', JStr (''$'' @ money (ex_tax_scaled x))),
      (''tip_scaled'', JInt (ex_tip_scaled x)), (''tip_formatted'', JStr (''$'' @ money (ex_tip_scaled x))),
      (''total_scaled'', JInt (ex_total_scaled x)), (''total_formatted'', JStr (''$'' @ money (ex_total_scaled x))),
      (''math_validated'', JBool (ex_math_validated x)), (''confidence_score'', JFloat (ex_confidence_score x)),
      (''processing_time_ms'', JFloat (ex_processing_time_ms x))]"

section \<open>Patterns\<close>

definition id_char :: "char \<Rightarrow> bool" where
  "id_char c = (is_alpha_ascii c \<or> is_digit c \<or> c = CHR ''-'')"

definition tax_id_patterns :: "rx list" where
  "tax_id_patterns =
     [rx_seq
        [RAlt (rx_seq [rx_word_ci ''TAX'', rx_many is_space, rx_word_ci ''ID''])
         (RAlt (rx_seq [rx_word_ci ''VAT'', rx_many is_space,
                  RAlt (RAlt (rx_word_ci ''NO'') (rx_word_ci ''ID'')) REps])
         (RAlt (rx_word_ci ''GSTIN'') (RAlt (rx_word_ci ''EIN'')
           (rx_seq [rx_word_ci ''REG'', rx_many is_space, rx_word_ci ''NO''])))),
         rx_many is_space, rx_opt (\<lambda>c. c = CHR '':'' \<or> c = CHR ''#''), rx_many is_space,
         RGroup 1 (RSet id_char 5 (Some 18) True)],
      rx_seq [RBound, RGroup 1 (rx_seq [rx_times is_digit 2, rx_word ''-'', rx_times is_digit 7]), RBound]]"

definition date_sep :: rx where
  "date_sep = rx_one (\<lambda>c. c = CHR ''-'' \<or> c = CHR ''/'')"

definition date_patterns :: "rx list" where
  "date_patterns =
     [rx_seq [RBound, RGroup 1 (rx_seq [rx_times is_digit 4, date_sep, rx_times is_digit 2, date_sep,
        rx_times is_digit 2]), RBound],
      rx_seq [RBound, RGroup 1 (rx_seq [rx_times is_digit 2, date_sep, rx_times is_digit 2, date_sep,
        rx_times is_digit 4]), RBound],
      rx_seq [RBound, RGroup 1 (rx_seq [rx_times is_digit 2, date_sep, rx_times is_alpha_ascii 3, date_sep,
        rx_times is_digit 4]), RBound]]"

definition amount_pattern :: rx where
  "amount_pattern = rx_seq [rx_opt (\<lambda>c. c = CHR ''$''), rx_many is_space,
     RGroup 1 (rx_seq [RSet is_digit 1 (Some 6) True, rx_word ''.'', rx_times is_digit 2]), RBound]"

section \<open>Fields\<close>

text \<open>The group of the first pattern that is found in a line.\<close>

fun first_group :: "rx list \<Rightarrow> string \<Rightarrow> string option" where
  "first_group [] line = None"
| "first_group (r # rs) line =
     (case rx_search r None line of Some (_, gs) \<Rightarrow> map_of gs 1 | None \<Rightarrow> first_group rs line)"

fun scan_tax_id :: "string option \<Rightarrow> string list \<Rightarrow> string option" where
  "scan_tax_id tax_id [] = tax_id"
| "scan_tax_id tax_id (line # lines) =
     (let t = (case first_group tax_id_patterns line of Some g \<Rightarrow> Some g | None \<Rightarrow> tax_id)
      in if text_or t [] \<noteq> [] then t else scan_tax_id t lines)"

text \<open>\<open>int\<close> of a part of a matched date, which has only digits or only letters.\<close>

definition date_int :: "string \<Rightarrow> nat option" where
  "date_int s = (if s \<noteq> [] \<and> list_all is_digit s then Some (read_nat s) else None)"

definition normalize_date :: "string \<Rightarrow> string \<Rightarrow> string" where
  "normalize_date raw_date transaction_date =
     (if CHR ''-'' \<in> set raw_date \<and> length (hd (split_on (CHR ''-'') raw_date)) = 4 then raw_date
      else if CHR ''/'' \<in> set raw_date then
        (case split_on (CHR ''/'') raw_date of
           a # b # c # _ \<Rightarrow>
             (if length c \<noteq> 4 then transaction_date
              else case (date_int a, date_int b) of
                (Some i, Some j) \<Rightarrow> c @ ''-'' @ zfill 2 (show_nat i) @ ''-'' @ zfill 2 (show_nat j)
              | _ \<Rightarrow> raw_date)
         | _ \<Rightarrow> raw_date)
      else raw_date)"

fun scan_date :: "string \<Rightarrow> string \<Rightarrow> string list \<Rightarrow> string" where
  "scan_date now_str transaction_date [] = transaction_date"
| "scan_date now_str transaction_date (line # lines) =
     (let t = (case first_group date_patterns line of
         Some raw_date \<Rightarrow> normalize_date raw_date transaction_date | None \<Rightarrow> transaction_date)
      in if t \<noteq> now_str then t else scan_date now_str t lines)"

definition has_any :: "string list \<Rightarrow> string \<Rightarrow> bool" where
  "has_any kws s = list_ex (\<lambda>kw. is_infix kw s) kws"

definition merchant_of :: "string list \<Rightarrow> string" where
  "merchant_of lines =
     (case find (\<lambda>line. \<not> has_any [''TAX'', ''WELCOME'', ''RECEIPT'', ''DATE'', ''TEL''] (py_upper line)) (take 3 lines) of
        Some line \<Rightarrow> line
      | None \<Rightarrow> hd lines)"

section \<open>Amounts\<close>

definition parse_scaled_amount :: "(string \<Rightarrow> int option) \<Rightarrow> string \<Rightarrow> scaled" where
  "parse_scaled_amount fl amount_str =
     (case fl (py_strip (filter (\<lambda>c. c \<noteq> CHR ''$'' \<and> c \<noteq> CHR '','') amount_str)) of Some v \<Rightarrow> v | None \<Rightarrow> 0)"

text \<open>The first amount of a line, with the text before its match.\<close>

definition find_amount :: "(string \<Rightarrow> int option) \<Rightarrow> string \<Rightarrow> (string \<times> scaled) option" where
  "find_amount fl line =
     (case rx_search amount_pattern None line of
        None \<Rightarrow> None
      | Some (before, gs) \<Rightarrow> map_option (\<lambda>g. (before, parse_scaled_amount fl g)) (map_of gs 1))"

record tally =
  ta_subtotal :: scaled
  ta_tax :: scaled
  ta_tip :: scaled
  ta_total :: scaled
  ta_items :: "line_item list"

definition tally_line :: "(string \<Rightarrow> int option) \<Rightarrow> string \<Rightarrow> tally \<Rightarrow> tally" where
  "tally_line fl line t =
     (let upper_line = py_upper line; amount = find_amount fl line
      in if has_any [''SUBTOTAL'', ''SUB TOTAL''] upper_line then
           (case amount of Some (_, a) \<Rightarrow> t\<lparr>ta_subtotal := a\<rparr> | None \<Rightarrow> t)
         else if has_any [''TAX'', ''VAT'', ''GST''] upper_line then
           (if has_any [''TAX ID'', ''VAT NO''] upper_line then t
            else case amount of Some (_, a) \<Rightarrow> t\<lparr>ta_tax := a\<rparr> | None \<Rightarrow> t)
         else if has_any [''TIP'', ''GRATUITY''] upper_line then
           (case amount of Some (_, a) \<Rightarrow> t\<lparr>ta_tip := a\<rparr> | None \<Rightarrow> t)
         else if has_any [''TOTAL'', ''AMOUNT DUE'', ''GRAND TOTAL''] upper_line then
           (case amount of Some (_, a) \<Rightarrow> t\<lparr>ta_total := a\<rparr> | None \<Rightarrow> t)
         else case amount of
           None \<Rightarrow> t
         | Some (before, a) \<Rightarrow>
           (let desc = py_strip before
            in if length desc > 1 \<and> \<not> has_any [''CASH'', ''CHANGE'', ''CARD'', ''VISA''] (py_upper desc)
               then t\<lparr>ta_items := ta_items t @ [\<lparr>li_description = desc, li_amount_scaled = a\<rparr>]\<rparr> else t))"

definition items_sum :: "line_item list \<Rightarrow> scaled" where
  "items_sum is = sum_list (map li_amount_scaled is)"

definition complete_tally :: "tally \<Rightarrow> tally" where
  "complete_tally t =
     (let t1 = (if ta_total t = 0 \<and> ta_items t \<noteq> [] then t\<lparr>ta_total := items_sum (ta_items t) + ta_tax t + ta_tip t\<rparr> else t)
      in if ta_subtotal t1 = 0 \<and> ta_items t1 \<noteq> [] then t1\<lparr>ta_subtotal := items_sum (ta_items t1)\<rparr> else t1)"

definition receipt_lines :: "string \<Rightarrow> string list" where
  "receipt_lines txs = filter (\<lambda>l. l \<noteq> []) (map py_strip (split_on (CHR 0x0A) txs))"

definition process_text :: "ocr_env \<Rightarrow> string \<Rightarrow> extraction" where
  "process_text env txs =
     (let lines = receipt_lines txs
      in if lines = [] then
           \<lparr>ex_merchant_name = ''Unknown Merchant'', ex_tax_id = None, ex_transaction_date = oe_today env,
            ex_line_items = [], ex_subtotal_scaled = 0, ex_tax_scaled = 0, ex_tip_scaled = 0, ex_total_scaled = 0,
            ex_math_validated = False, ex_confidence_score = ''0.0'', ex_processing_time_ms = oe_elapsed env\<rparr>
         else
           (let t = complete_tally (fold (tally_line (oe_float_scaled env)) lines
                  \<lparr>ta_subtotal = 0, ta_tax = 0, ta_tip = 0, ta_total = 0, ta_items = []\<rparr>);
                validated = (ta_subtotal t + ta_tax t + ta_tip t = ta_total t \<and> 0 < ta_total t)
            in \<lparr>ex_merchant_name = merchant_of lines, ex_tax_id = scan_tax_id None lines,
                ex_transaction_date = scan_date (oe_today env) (oe_today env) lines,
                ex_line_items = ta_items t, ex_subtotal_scaled = ta_subtotal t, ex_tax_scaled = ta_tax t,
                ex_tip_scaled = ta_tip t, ex_total_scaled = ta_total t, ex_math_validated = validated,
                ex_confidence_score = (if validated then ''0.98'' else ''0.85''),
                ex_processing_time_ms = oe_elapsed env\<rparr>))"

end
