(* ===== verification/Receipt_Reading.thy ===== *)
theory Receipt_Reading
  imports Receipt
begin

text \<open>
  What \<^verbatim>\<open>src/services/ai/ocr_processor.py\<close> reads out of a receipt: a printed receipt is read back, and
  inputs it misreads.
\<close>

section \<open>Reading one line\<close>

text \<open>Amounts of whole cents below a million.\<close>

definition cents :: "scaled \<Rightarrow> bool" where
  "cents n \<longleftrightarrow> 0 \<le> n \<and> n < 10000000000 \<and> n mod 100 = 0"

definition exact_cents :: "(string \<Rightarrow> int option) \<Rightarrow> bool" where
  "exact_cents fl \<longleftrightarrow> (\<forall>n. cents n \<longrightarrow> fl (amount_text n) = Some n)"

text \<open>Descriptions of letters and blanks.\<close>

definition plain_char :: "char \<Rightarrow> bool" where
  "plain_char c = (is_alpha_ascii c \<or> c = CHR '' '')"

definition labelled :: "string \<Rightarrow> scaled \<Rightarrow> string" where
  "labelled d n = d @ '' $'' @ amount_text n"

lemma plain_char_facts: "plain_char c \<Longrightarrow> \<not> is_digit c \<and> c \<noteq> CHR ''$'' \<and> c \<noteq> CHR 0x0A"
  by (auto simp: plain_char_def is_alpha_ascii_def is_lower_ascii_def is_upper_ascii_def is_digit_def char_code_def)

lemma list_all_digits [simp]: "list_all is_digit (show_nat n)"
  by (auto simp: list_all_iff dest: show_nat_digits)

lemma length_show_nat: "0 < k \<Longrightarrow> n < 10 ^ k \<Longrightarrow> length (show_nat n) \<le> k"
proof (induction k arbitrary: n)
  case (Suc k)
  show ?case
  proof (cases "n < 10")
    case False
    then have "0 < k" using Suc.prems by (cases k) auto
    moreover have "n div 10 < 10 ^ k" using Suc.prems by (simp add: less_mult_imp_div_less mult.commute)
    ultimately show ?thesis using Suc.IH [of "n div 10"] False by (subst show_nat.simps) simp
  qed (subst show_nat.simps, simp)
qed simp

lemma cents_frac:
  assumes "cents n"
  shows "list_all is_digit (zfill 2 (show_nat (nat (n mod 10000 div 100))))"
    "length (zfill 2 (show_nat (nat (n mod 10000 div 100)))) = 2"
    "length (show_nat (nat (n div 10000))) \<le> 6"
proof -
  have "nat (n mod 10000 div 100) < 10 ^ 2"
    using pos_mod_bound [of 10000 n] by (simp add: nat_less_iff)
  then have l: "length (show_nat (nat (n mod 10000 div 100))) \<le> 2" by (rule length_show_nat [rotated]) simp
  then show "length (zfill 2 (show_nat (nat (n mod 10000 div 100)))) = 2" by (simp add: zfill_def)
  show "list_all is_digit (zfill 2 (show_nat (nat (n mod 10000 div 100))))"
    by (auto simp: zfill_def list_all_iff is_digit_def char_code_def dest: show_nat_digits)
  have "nat (n div 10000) < 10 ^ 6" using assms by (auto simp: cents_def nat_less_iff)
  then show "length (show_nat (nat (n div 10000))) \<le> 6" by (rule length_show_nat [rotated]) simp
qed

lemma plain_hd: "list_all plain_char d \<Longrightarrow> s = [] \<or> hd s = CHR ''$'' \<Longrightarrow> takeWhile is_digit (d @ s) = []"
  by (cases d; cases s) (auto dest: plain_char_facts simp: is_digit_def char_code_def)

lemma amount_not_found:
  assumes "list_all plain_char d" "s = [] \<or> d \<noteq> [] \<and> hd s = CHR ''$''"
  shows "rx_match amount_pattern p (d @ s) = None"
proof -
  let ?s = "d @ s"
  have "takeWhile (\<lambda>c. c = CHR ''$'') ?s = []"
    using assms plain_char_facts by (cases d) auto
  then have opt: "rx_run (rx_opt (\<lambda>c. c = CHR ''$'')) (p, ?s, []) = [(p, ?s, [])]"
    by (simp add: rx_opt_def rx_counts_def)
  have "length (takeWhile is_space ?s) \<le> length d"
    using assms(2) by (cases s) (auto simp: takeWhile_append is_space_def char_code_def intro: length_takeWhile_le)
  then have "takeWhile is_digit (drop k ?s) = []" if "k \<le> length (takeWhile is_space ?s)" for k
    using that assms plain_hd [of "drop k d" s] by (auto simp: list_all_iff dest: in_set_dropD)
  then have "rx_run (RSet is_digit 1 (Some 6) True) a = []" if "a \<in> set (rx_run (rx_many is_space) (p, ?s, []))" for a
    using that by (auto simp: rx_many_def rx_counts_def Let_def)
  then show ?thesis
    by (auto simp: rx_match_first rx_first_None amount_pattern_def opt simp del: rx_run.simps(2))
qed

lemma no_amount_plain: "list_all plain_char d \<Longrightarrow> find_amount fl d = None"
proof -
  have "list_all plain_char d \<Longrightarrow> rx_search amount_pattern p d = None" for p
  proof (induction d arbitrary: p)
    case (Cons c d)
    then show ?case using amount_not_found [of "c # d" "[]" p] by simp
  qed (use amount_not_found [of "[]" "[]"] in simp)
  then show "list_all plain_char d \<Longrightarrow> ?thesis" by (simp add: find_amount_def)
qed

lemma amount_found:
  assumes "cents n"
  shows "\<exists>p'. rx_match amount_pattern p (CHR ''$'' # amount_text n) = Some (p', [], [(1, amount_text n)])"
proof -
  define w where "w = show_nat (nat (n div 10000))"
  define f where "f = zfill 2 (show_nat (nat (n mod 10000 div 100)))"
  note facts = cents_frac [OF assms, folded w_def f_def]
  have at: "amount_text n = w @ CHR ''.'' # f" by (simp add: amount_text_def w_def f_def)
  have w: "list_all is_digit w" "w \<noteq> []" by (simp_all add: w_def)
  then have hdw: "takeWhile is_space (w @ s) = []" "w @ s \<noteq> [] \<and> hd (w @ s) \<noteq> CHR ''$''" for s
    by (cases w; auto simp: is_space_def is_digit_def char_code_def)+
  have "f \<noteq> []" using facts(2) by auto
  then have "is_digit (last f)" using facts(1) by (auto simp: list_all_iff)
  then have lastf: "is_word (last f)" by (simp add: is_word_def)
  have dollar: "rx_first (rx_opt (\<lambda>c. c = CHR ''$'')) (p, CHR ''$'' # w @ CHR ''.'' # f, []) = Some (Some (CHR ''$''), w @ CHR ''.'' # f, [])"
    using rx_first_greedy [of "\<lambda>c. c = CHR ''$''" "''$''" "w @ CHR ''.'' # f" 0 "Some 1" p "[]"] hdw by (simp add: rx_opt_def)
  have spaces: "rx_first (rx_many is_space) (Some (CHR ''$''), w @ CHR ''.'' # f, []) = Some (Some (CHR ''$''), w @ CHR ''.'' # f, [])"
    using hdw(1) by (simp add: rx_many_def rx_first_def rx_counts_def)
  have "rx_first (RSet is_digit 1 (Some 6) True) (Some (CHR ''$''), w @ CHR ''.'' # f, []) = Some (Some (last w), CHR ''.'' # f, [])"
    using w facts(3) rx_first_greedy [of is_digit w "CHR ''.'' # f" 1 "Some 6"]
    by (simp add: is_digit_def char_code_def Suc_le_eq)
  moreover have "rx_first (rx_word ''.'') (Some (last w), CHR ''.'' # f, []) = Some (Some (CHR ''.''), f, [])"
    by (auto simp: rx_word_def intro!: rx_first_seq [OF rx_first_one] rx_first_eps)
  moreover have "rx_first (rx_times is_digit 2) (Some (CHR ''.''), f, []) = Some (Some (last f), [], [])"
    using rx_first_times [of is_digit f 2 _ "[]"] facts \<open>f \<noteq> []\<close> by simp
  ultimately have "rx_first (RGroup 1 (rx_seq [RSet is_digit 1 (Some 6) True, rx_word ''.'', rx_times is_digit 2]))
      (Some (CHR ''$''), w @ CHR ''.'' # f, []) = Some (Some (last f), [], [(1, w @ CHR ''.'' # f)])"
    using rx_first_group [where s' = "[]"] by (fastforce intro!: rx_first_seq rx_first_eps)
  moreover have "rx_first RBound (Some (last f), [], gs) = Some (Some (last f), [], gs)" for gs
    using lastf by (intro rx_first_bound) (simp add: at_boundary_def)
  ultimately show ?thesis
    unfolding rx_match_first amount_pattern_def at rx_seq_simps
    using rx_first_seq [OF dollar rx_first_seq [OF spaces rx_first_seq [OF _ rx_first_seq [OF _ rx_first_eps]]]] by blast
qed

lemma strip_idle: "s = [] \<or> \<not> is_space (hd s) \<and> \<not> is_space (last s) \<Longrightarrow> py_strip s = s"
  by (cases s rule: rev_cases) (auto simp: py_strip_def dropWhile_idle hd_append split: if_splits)

lemma amount_text_clean: "py_strip (filter (\<lambda>c. c \<noteq> CHR ''$'' \<and> c \<noteq> CHR '','') (amount_text n)) = amount_text n"
proof -
  have "\<not> is_space c \<and> c \<noteq> CHR ''$'' \<and> c \<noteq> CHR '',''" if "c \<in> set (amount_text n)" for c
    using amount_text_chars [OF that] by (auto simp: is_space_def is_digit_def char_code_def)
  moreover have "amount_text n \<noteq> []" by (simp add: amount_text_def)
  ultimately show ?thesis
    by (subst filter_True) (auto intro!: strip_idle)
qed

lemma find_amount_labelled:
  assumes "exact_cents fl" "list_all plain_char d" "cents n"
  shows "find_amount fl (labelled d n) = Some (d @ '' '', n)"
proof -
  obtain p' where found: "rx_match amount_pattern (Some (CHR '' '')) (CHR ''$'' # amount_text n) = Some (p', [], [(1, amount_text n)])"
    using amount_found [OF assms(3)] by blast
  have "rx_search amount_pattern None ((d @ '' '') @ CHR ''$'' # amount_text n) = Some (d @ '' '', [(1, amount_text n)])"
  proof (rule rx_search_skip)
    fix i
    assume i: "i < length (d @ '' '')"
    have "list_all plain_char (drop i (d @ '' ''))"
      using assms(2) by (auto simp: list_all_iff plain_char_def dest: in_set_dropD)
    moreover have "drop i (d @ '' '') \<noteq> []" using i by simp
    ultimately have "rx_match amount_pattern q (drop i (d @ '' '') @ CHR ''$'' # amount_text n) = None" for q
      by (intro amount_not_found) simp_all
    then show "rx_match amount_pattern (if i = 0 then None else Some ((d @ '' '') ! (i - 1)))
        (drop i ((d @ '' '') @ CHR ''$'' # amount_text n)) = None"
      using i by simp
  qed (use found in simp)
  then show ?thesis
    using assms by (simp add: find_amount_def labelled_def parse_scaled_amount_def amount_text_clean exact_cents_def)
qed

section \<open>Reading a receipt back\<close>

text \<open>Keywords of letters and inner blanks are found in a labelled amount exactly when they are in the label.\<close>

definition keyword :: "string \<Rightarrow> bool" where
  "keyword k \<longleftrightarrow> k \<noteq> [] \<and> last k \<noteq> CHR '' '' \<and> list_all plain_char k"

lemma infix_chars: "is_infix k s \<Longrightarrow> set k \<subseteq> set s"
proof (induction s)
  case (Cons c s)
  then show ?case using set_take_subset [of "length k" "c # s"] by fastforce
qed simp

lemma infix_labelled:
  assumes "keyword k" "\<forall>c \<in> set a. \<not> plain_char c"
  shows "is_infix k (d @ CHR '' '' # CHR ''$'' # a) = is_infix k d"
proof -
  have dollar: "CHR ''$'' \<notin> set k" using assms(1) plain_char_facts by (auto simp: keyword_def list_all_iff)
  have front: "take (length k) (d @ CHR '' '' # CHR ''$'' # a) = k \<longleftrightarrow> take (length k) d = k" for d
  proof (cases "length k \<le> length d")
    case False
    then obtain m where m: "length k = Suc (length d + m)" by (metis add_Suc_right less_imp_Suc_add not_le)
    show ?thesis
    proof (cases m)
      case 0
      with m have "take (length k) (d @ CHR '' '' # CHR ''$'' # a) = d @ '' ''" by simp
      then show ?thesis using assms(1) False by (auto simp: keyword_def)
    next
      case (Suc l)
      with m have "CHR ''$'' \<in> set (take (length k) (d @ CHR '' '' # CHR ''$'' # a))" by simp
      then have "take (length k) (d @ CHR '' '' # CHR ''$'' # a) \<noteq> k" using dollar by metis
      moreover have "length (take (length k) d) \<noteq> length k" using False by simp
      ultimately show ?thesis by metis
    qed
  qed simp
  have "\<not> is_infix k a"
  proof
    assume "is_infix k a"
    then have "hd k \<in> set a" using infix_chars [of k a] assms(1) by (auto simp: keyword_def)
    moreover have "plain_char (hd k)" using assms(1) by (cases k) (auto simp: keyword_def)
    ultimately show False using assms(2) by blast
  qed
  moreover have "take (length k) (CHR ''$'' # a) \<noteq> k"
    using dollar assms(1) by (cases k) (auto simp: keyword_def)
  ultimately have base: "is_infix k (CHR '' '' # CHR ''$'' # a) = is_infix k []"
    using front [of "[]"] by (auto simp: eq_commute)
  show ?thesis
  proof (induction d)
    case (Cons c d)
    then show ?case using front [of "c # d"] by simp
  qed (use base in simp)
qed

definition all_keywords :: "string list" where
  "all_keywords = [''SUBTOTAL'', ''SUB TOTAL'', ''TAX'', ''VAT'', ''GST'', ''TAX ID'', ''VAT NO'', ''TIP'', ''GRATUITY'',
     ''TOTAL'', ''AMOUNT DUE'', ''GRAND TOTAL'', ''CASH'', ''CHANGE'', ''CARD'', ''VISA'']"

lemma keyword_all: "k \<in> set all_keywords \<Longrightarrow> keyword k"
  by (auto simp: all_keywords_def keyword_def plain_char_def is_alpha_ascii_def is_lower_ascii_def is_upper_ascii_def char_code_def)

lemma has_any_labelled:
  assumes "set kws \<subseteq> set all_keywords"
  shows "has_any kws (py_upper (labelled d n)) = has_any kws (py_upper d)"
proof -
  have digits: "\<not> plain_char c" "upper_char c = c" if "c \<in> set (amount_text n)" for c
    using amount_text_chars [OF that]
    by (auto simp: plain_char_def is_alpha_ascii_def is_lower_ascii_def is_upper_ascii_def is_digit_def upper_char_def char_code_def)
  have "map upper_char (amount_text n) = amount_text n" using digits(2) by (simp add: map_idI)
  moreover have "upper_char (CHR '' '') = CHR '' ''" "upper_char (CHR ''$'') = CHR ''$''"
    by (simp_all add: upper_char_def is_lower_ascii_def char_code_def)
  ultimately have "py_upper (labelled d n) = py_upper d @ CHR '' '' # CHR ''$'' # amount_text n"
    by (simp add: labelled_def py_upper_def)
  then show ?thesis
    using assms digits(1) keyword_all by (auto simp: has_any_def list_ex_iff infix_labelled subset_iff)
qed

definition item_ok :: "line_item \<Rightarrow> bool" where
  "item_ok i \<longleftrightarrow> list_all plain_char (li_description i) \<and> py_strip (li_description i) = li_description i \<and>
     1 < length (li_description i) \<and> \<not> has_any all_keywords (py_upper (li_description i)) \<and> cents (li_amount_scaled i)"

definition receipt_text :: "string \<Rightarrow> line_item list \<Rightarrow> scaled \<Rightarrow> scaled \<Rightarrow> scaled \<Rightarrow> scaled \<Rightarrow> string" where
  "receipt_text merchant items sub tax tip tot = join [CHR 0x0A] (merchant #
     map (\<lambda>i. labelled (li_description i) (li_amount_scaled i)) items @
     [labelled ''Subtotal'' sub, labelled ''Tax'' tax, labelled ''Tip'' tip, labelled ''Total'' tot])"

lemma has_any_mono: "has_any kws s \<Longrightarrow> set kws \<subseteq> set kws' \<Longrightarrow> has_any kws' s"
  by (auto simp: has_any_def list_ex_iff)

lemma strip_blank_end: "py_strip (d @ '' '') = py_strip d"
proof -
  have sp: "is_space (CHR '' '')" by (simp add: is_space_def char_code_def)
  show ?thesis
  proof (cases "\<forall>c \<in> set d. is_space c")
    case True
    then have "py_strip d = []" "py_strip (d @ '' '') = []" using sp by (simp_all add: py_strip_blank_iff)
    then show ?thesis by simp
  next
    case False
    then show ?thesis using sp by (auto simp: py_strip_def dropWhile_append)
  qed
qed

text \<open>The keyword tests of a line look at the label only.\<close>

lemma line_words:
  "has_any [''SUBTOTAL'', ''SUB TOTAL''] (py_upper (labelled d n)) = has_any [''SUBTOTAL'', ''SUB TOTAL''] (py_upper d)"
  "has_any [''TAX'', ''VAT'', ''GST''] (py_upper (labelled d n)) = has_any [''TAX'', ''VAT'', ''GST''] (py_upper d)"
  "has_any [''TAX ID'', ''VAT NO''] (py_upper (labelled d n)) = has_any [''TAX ID'', ''VAT NO''] (py_upper d)"
  "has_any [''TIP'', ''GRATUITY''] (py_upper (labelled d n)) = has_any [''TIP'', ''GRATUITY''] (py_upper d)"
  "has_any [''TOTAL'', ''AMOUNT DUE'', ''GRAND TOTAL''] (py_upper (labelled d n)) =
     has_any [''TOTAL'', ''AMOUNT DUE'', ''GRAND TOTAL''] (py_upper d)"
  by (rule has_any_labelled, simp add: all_keywords_def)+

lemma tally_item:
  assumes "exact_cents fl" "item_ok i"
  shows "tally_line fl (labelled (li_description i) (li_amount_scaled i)) t = t\<lparr>ta_items := ta_items t @ [i]\<rparr>"
proof -
  have none: "\<not> has_any kws (py_upper (li_description i))" if "set kws \<subseteq> set all_keywords" for kws
    using assms(2) has_any_mono [OF _ that] by (auto simp: item_ok_def)
  have "find_amount fl (labelled (li_description i) (li_amount_scaled i)) = Some (li_description i @ '' '', li_amount_scaled i)"
    using assms by (intro find_amount_labelled) (auto simp: item_ok_def)
  moreover have "\<not> has_any [''SUBTOTAL'', ''SUB TOTAL''] (py_upper (li_description i))"
    "\<not> has_any [''TAX'', ''VAT'', ''GST''] (py_upper (li_description i))"
    "\<not> has_any [''TIP'', ''GRATUITY''] (py_upper (li_description i))"
    "\<not> has_any [''TOTAL'', ''AMOUNT DUE'', ''GRAND TOTAL''] (py_upper (li_description i))"
    "\<not> has_any [''CASH'', ''CHANGE'', ''CARD'', ''VISA''] (py_upper (li_description i))"
    by (rule none, simp add: all_keywords_def)+
  ultimately show ?thesis
    using assms(2) by (simp add: tally_line_def Let_def line_words strip_blank_end item_ok_def)
qed

lemma tally_items:
  assumes "exact_cents fl" "\<forall>i \<in> set items. item_ok i"
  shows "fold (tally_line fl) (map (\<lambda>i. labelled (li_description i) (li_amount_scaled i)) items) t =
    t\<lparr>ta_items := ta_items t @ items\<rparr>"
  using assms(2) by (induction items arbitrary: t) (simp_all add: tally_item [OF assms(1)])

lemma split_on_lines:
  assumes "ws \<noteq> []" "\<forall>w \<in> set ws. sep \<notin> set w"
  shows "split_on sep (join [sep] ws) = ws"
  using assms
  by (induction "[sep]" ws rule: join.induct) (simp_all add: split_on_append split_on_single)

lemma strip_hd: "py_strip d = d \<Longrightarrow> d \<noteq> [] \<Longrightarrow> \<not> is_space (hd d)"
proof -
  assume d: "py_strip d = d" "d \<noteq> []"
  let ?l = "dropWhile is_space d"
  have "?l \<noteq> []"
  proof
    assume "?l = []"
    then have "py_strip d = []" by (simp only: py_strip_def rev.simps dropWhile.simps)
    with d show False by simp
  qed
  moreover from this have "\<not> is_space (hd ?l)" by (rule hd_dropWhile_neg)
  ultimately have "hd (py_strip d) = hd ?l" unfolding py_strip_def by (rule hd_rev_dropWhile_rev)
  with d \<open>\<not> is_space (hd ?l)\<close> show ?thesis by simp
qed

lemma labelled_line:
  assumes "py_strip d = d" "d \<noteq> []" "list_all plain_char d"
  shows "py_strip (labelled d n) = labelled d n" "labelled d n \<noteq> []" "CHR 0x0A \<notin> set (labelled d n)"
proof -
  have a: "amount_text n \<noteq> []" "c \<in> set (amount_text n) \<Longrightarrow> \<not> is_space c" for c
    using amount_text_chars [of c n] by (auto simp: amount_text_def is_space_def is_digit_def char_code_def)
  then have "\<not> is_space (last (labelled d n))" by (simp add: labelled_def)
  moreover have "\<not> is_space (hd (labelled d n))" using assms strip_hd by (simp add: labelled_def)
  ultimately show "py_strip (labelled d n) = labelled d n" by (intro strip_idle) simp
  show "labelled d n \<noteq> []" by (simp add: labelled_def)
  have "is_space (CHR 0x0A)" by (simp add: is_space_def char_code_def)
  then show "CHR 0x0A \<notin> set (labelled d n)"
    using assms(3) plain_char_facts a(2) by (auto simp: labelled_def list_all_iff)
qed

definition merchant_ok :: "string \<Rightarrow> bool" where
  "merchant_ok m \<longleftrightarrow> m \<noteq> [] \<and> list_all plain_char m \<and> py_strip m = m \<and>
     \<not> has_any [''TAX'', ''WELCOME'', ''RECEIPT'', ''DATE'', ''TEL''] (py_upper m)"

lemma total_labels:
  "py_upper ''Subtotal'' = ''SUBTOTAL''" "py_upper ''Tax'' = ''TAX''" "py_upper ''Tip'' = ''TIP''" "py_upper ''Total'' = ''TOTAL''"
  by code_simp+

lemma label_words:
  "d \<in> {''Subtotal'', ''Tax'', ''Tip'', ''Total''} \<Longrightarrow> list_all plain_char d \<and> py_strip d = d \<and> d \<noteq> []"
  by (auto simp: plain_char_def is_alpha_ascii_def is_lower_ascii_def is_upper_ascii_def char_code_def is_space_def
      intro!: strip_idle)

lemma receipt_lines_text:
  assumes "merchant_ok m" "\<forall>i \<in> set items. item_ok i"
  shows "receipt_lines (receipt_text m items sub tax tip tot) = m #
     map (\<lambda>i. labelled (li_description i) (li_amount_scaled i)) items @
     [labelled ''Subtotal'' sub, labelled ''Tax'' tax, labelled ''Tip'' tip, labelled ''Total'' tot]" (is "_ = ?ls")
proof -
  have "\<forall>l \<in> set ?ls. py_strip l = l \<and> l \<noteq> [] \<and> CHR 0x0A \<notin> set l"
  proof
    fix l
    assume "l \<in> set ?ls"
    then consider "l = m" | i where "i \<in> set items" "l = labelled (li_description i) (li_amount_scaled i)"
      | d n where "d \<in> {''Subtotal'', ''Tax'', ''Tip'', ''Total''}" "l = labelled d n"
      by auto
    then show "py_strip l = l \<and> l \<noteq> [] \<and> CHR 0x0A \<notin> set l"
    proof cases
      case 1
      then show ?thesis using assms(1) plain_char_facts by (auto simp: merchant_ok_def list_all_iff)
    next
      case 2
      then have "py_strip (li_description i) = li_description i \<and> li_description i \<noteq> [] \<and> list_all plain_char (li_description i)"
        using assms(2) by (auto simp: item_ok_def)
      then show ?thesis by (simp add: 2(2) labelled_line)
    next
      case 3
      show ?thesis using label_words [OF 3(1)] by (simp add: 3(2) labelled_line)
    qed
  qed
  define ls where "ls = ?ls"
  have clean: "\<forall>l \<in> set ls. py_strip l = l \<and> l \<noteq> [] \<and> CHR 0x0A \<notin> set l"
    unfolding ls_def by fact
  have "ls \<noteq> []" by (simp add: ls_def)
  have "split_on (CHR 0x0A) (receipt_text m items sub tax tip tot) = ls"
    unfolding receipt_text_def ls_def [symmetric] using \<open>ls \<noteq> []\<close> clean by (intro split_on_lines) simp_all
  moreover have "map py_strip ls = ls" using clean by (simp add: map_idI)
  moreover have "filter (\<lambda>l. l \<noteq> []) ls = ls" using clean by (simp add: filter_id_conv)
  ultimately show ?thesis by (simp only: receipt_lines_def ls_def [symmetric])
qed

lemma total_words:
  "has_any [''SUBTOTAL'', ''SUB TOTAL''] ''SUBTOTAL''" "\<not> has_any [''SUBTOTAL'', ''SUB TOTAL''] ''TAX''"
  "\<not> has_any [''SUBTOTAL'', ''SUB TOTAL''] ''TIP''" "\<not> has_any [''SUBTOTAL'', ''SUB TOTAL''] ''TOTAL''"
  "has_any [''TAX'', ''VAT'', ''GST''] ''TAX''" "\<not> has_any [''TAX'', ''VAT'', ''GST''] ''TIP''"
  "\<not> has_any [''TAX'', ''VAT'', ''GST''] ''TOTAL''" "\<not> has_any [''TAX ID'', ''VAT NO''] ''TAX''"
  "has_any [''TIP'', ''GRATUITY''] ''TIP''" "\<not> has_any [''TIP'', ''GRATUITY''] ''TOTAL''"
  "has_any [''TOTAL'', ''AMOUNT DUE'', ''GRAND TOTAL''] ''TOTAL''"
  by code_simp+

lemma tally_total:
  assumes "exact_cents fl" "cents n"
  shows "tally_line fl (labelled ''Subtotal'' n) t = t\<lparr>ta_subtotal := n\<rparr>"
    "tally_line fl (labelled ''Tax'' n) t = t\<lparr>ta_tax := n\<rparr>"
    "tally_line fl (labelled ''Tip'' n) t = t\<lparr>ta_tip := n\<rparr>"
    "tally_line fl (labelled ''Total'' n) t = t\<lparr>ta_total := n\<rparr>"
proof -
  have a: "find_amount fl (labelled d n) = Some (d @ '' '', n)" if "d \<in> {''Subtotal'', ''Tax'', ''Tip'', ''Total''}" for d
    using that assms label_words by (intro find_amount_labelled) blast+
  note amounts = a [of "''Subtotal''", simplified] a [of "''Tax''", simplified] a [of "''Tip''", simplified] a [of "''Total''", simplified]
  show "tally_line fl (labelled ''Subtotal'' n) t = t\<lparr>ta_subtotal := n\<rparr>"
    "tally_line fl (labelled ''Tax'' n) t = t\<lparr>ta_tax := n\<rparr>"
    "tally_line fl (labelled ''Tip'' n) t = t\<lparr>ta_tip := n\<rparr>"
    "tally_line fl (labelled ''Total'' n) t = t\<lparr>ta_total := n\<rparr>"
    by (simp_all only: tally_line_def Let_def line_words total_labels total_words amounts
        if_True if_False option.case prod.case not_True_eq_False not_False_eq_True simp_thms)
qed

text \<open>C35. A receipt printed with a merchant, items, subtotal, tax, tip and total is read back exactly,
  and it is validated exactly when its parts add up to its total.\<close>

theorem receipt_read_back:
  assumes "exact_cents (oe_float_scaled env)" "merchant_ok m" "\<forall>i \<in> set items. item_ok i"
    and "cents sub" "cents tax" "cents tip" "cents tot" "0 < sub" "0 < tot"
    and "x = process_text env (receipt_text m items sub tax tip tot)"
  shows "ex_merchant_name x = m \<and> ex_line_items x = items \<and> ex_subtotal_scaled x = sub \<and> ex_tax_scaled x = tax \<and>
    ex_tip_scaled x = tip \<and> ex_total_scaled x = tot \<and> (ex_math_validated x \<longleftrightarrow> sub + tax + tip = tot)"
proof -
  have "tally_line (oe_float_scaled env) m t = t" for t
    using no_amount_plain [of m] assms(2) by (simp add: tally_line_def Let_def merchant_ok_def)
  then have "fold (tally_line (oe_float_scaled env)) (receipt_lines (receipt_text m items sub tax tip tot)) t =
      t\<lparr>ta_subtotal := sub, ta_tax := tax, ta_tip := tip, ta_total := tot, ta_items := ta_items t @ items\<rparr>" for t
    using assms by (simp add: receipt_lines_text tally_items tally_total)
  moreover have "merchant_of (receipt_lines (receipt_text m items sub tax tip tot)) = m"
    using assms by (simp add: receipt_lines_text merchant_of_def merchant_ok_def)
  ultimately show ?thesis
    using assms by (simp add: process_text_def Let_def complete_tally_def receipt_lines_text)
qed

section \<open>What is misread\<close>

text \<open>A concrete conversion that is exact on whole cents.\<close>

definition demo_cents :: "string \<Rightarrow> int option" where
  "demo_cents s = (if filter is_digit s = [] then None else Some (int (read_nat (filter is_digit s)) * 100))"

definition demo_ocr :: ocr_env where
  "demo_ocr = \<lparr>oe_today = ''2026-01-01'', oe_elapsed = ''0.1'', oe_float_scaled = demo_cents\<rparr>"

lemma foldl_digits:
  fixes d :: "char \<Rightarrow> nat"
  shows "foldl (\<lambda>a c. 10 * a + d c) k b = k * 10 ^ length b + foldl (\<lambda>a c. 10 * a + d c) 0 b"
proof (induction b arbitrary: k)
  case (Cons c b)
  let ?F = "\<lambda>k. foldl (\<lambda>a c. 10 * a + d c) k b"
  have "?F (10 * k + d c) = (10 * k + d c) * 10 ^ length b + ?F 0" "?F (d c) = d c * 10 ^ length b + ?F 0"
    by (rule Cons)+
  then have "?F (10 * k + d c) = k * 10 ^ Suc (length b) + ?F (d c)" by (simp add: distrib_right)
  then show ?case by simp
qed simp

lemma read_nat_append: "read_nat (a @ b) = read_nat a * 10 ^ length b + read_nat b"
  unfolding read_nat_def foldl_append by (rule foldl_digits)

lemma demo_cents_exact: "exact_cents demo_cents"
  unfolding exact_cents_def
proof (intro allI impI)
  fix n
  assume n: "cents n"
  let ?f = "zfill 2 (show_nat (nat (n mod 10000 div 100)))"
  have "filter is_digit (show_nat k) = show_nat k" for k
    using show_nat_digits by (auto simp: filter_id_conv)
  moreover have "filter is_digit ?f = ?f" using cents_frac(1) [OF n] by (simp add: filter_id_conv list_all_iff)
  ultimately have digits: "filter is_digit (amount_text n) = show_nat (nat (n div 10000)) @ ?f"
    by (simp add: amount_text_def) (simp add: is_digit_def char_code_def)
  have "read_nat ?f = nat (n mod 10000 div 100)" by (simp add: zfill_def read_nat_zeros)
  then have "read_nat (filter is_digit (amount_text n)) = nat (n div 10000) * 100 + nat (n mod 10000 div 100)"
    using cents_frac(2) [OF n] by (simp add: digits read_nat_append)
  moreover have "100 dvd n mod 10000" using n by (intro dvd_mod) (auto simp: cents_def)
  then have "n = (n div 10000 * 100 + n mod 10000 div 100) * 100"
    using div_mult_mod_eq [of n 10000] by (simp add: algebra_simps)
  moreover have "0 \<le> n div 10000" "0 \<le> n mod 10000 div 100"
    using n by (simp_all add: cents_def pos_imp_zdiv_nonneg_iff)
  ultimately show "demo_cents (amount_text n) = Some n" by (simp add: demo_cents_def digits)
qed

text \<open>When no line gives a total or a subtotal, both are inferred from the items, so the arithmetic
  check compares a sum with itself.\<close>

theorem inferred_totals_validate:
  assumes "fold (tally_line (oe_float_scaled env)) (receipt_lines txs)
      \<lparr>ta_subtotal = 0, ta_tax = 0, ta_tip = 0, ta_total = 0, ta_items = []\<rparr> = t"
    and "ta_total t = 0" "ta_subtotal t = 0" "ta_items t \<noteq> []" "0 < items_sum (ta_items t) + ta_tax t + ta_tip t"
  shows "ex_math_validated (process_text env txs)"
proof -
  have "receipt_lines txs \<noteq> []" using assms by auto
  then show ?thesis using assms by (simp add: process_text_def Let_def complete_tally_def)
qed

theorem inferred_totals_validate_witness: "ex_math_validated (process_text demo_ocr ''Coffee $4.50'')"
  by (rule inferred_totals_validate [OF refl]; code_simp)

text \<open>Digits before a thousands separator are dropped, a taxi ride is booked as tax, a merchant's name
  gives a tax id, a day that comes first becomes the month, and a date written YYYY/MM/DD is ignored.\<close>

theorem amounts_misread:
  "find_amount demo_cents ''Total $1,234.56'' = Some (''Total $1,'', 2345600)"
  "ta_tax (tally_line demo_cents ''Taxi $20.00'' \<lparr>ta_subtotal = 0, ta_tax = 0, ta_tip = 0, ta_total = 0, ta_items = []\<rparr>) = 200000"
  "scan_tax_id None [''Einstein Bagels''] = Some ''stein''"
  "scan_date ''now'' ''now'' [''DATE: 20/08/2026''] = ''2026-20-08''"
  "scan_date ''now'' ''now'' [''DATE: 2026/08/20''] = ''now''"
  by code_simp+

definition demo_items :: "line_item list" where
  "demo_items = [\<lparr>li_description = ''Espresso'', li_amount_scaled = 45000\<rparr>]"

lemma demo_items_ok: "\<forall>i \<in> set demo_items. item_ok i" "merchant_ok ''Blue Bottle''"
  by code_simp+

theorem receipt_read_back_witness:
  "ex_math_validated (process_text demo_ocr (receipt_text ''Blue Bottle'' demo_items 45000 5000 0 50000))"
proof -
  have "exact_cents (oe_float_scaled demo_ocr)" by (simp add: demo_ocr_def demo_cents_exact)
  from receipt_read_back [OF this demo_items_ok(2,1) _ _ _ _ _ _ refl, of 45000 5000 0 50000] show ?thesis
    by (simp add: cents_def)
qed

end
