(* ===== verification/Receipt_Api.thy ===== *)
theory Receipt_Api
  imports Receipt
begin

text \<open>
  \<^verbatim>\<open>src/services/ai/preprocessor.py\<close> and \<^verbatim>\<open>src/api/rest/receipt_router.py\<close>: the preparation of an
  uploaded receipt image and the endpoint that extracts it. The imaging library is a record of
  functions, where \<open>None\<close> stands for an exception; the vision extractor is a function to its outcome.
\<close>

section \<open>The imaging library\<close>

record 'img imaging =
  il_open :: "string \<Rightarrow> 'img option"
  il_format :: "'img \<Rightarrow> string option"
  il_size :: "'img \<Rightarrow> nat \<times> nat"
  il_load :: "'img \<Rightarrow> 'img option"
  il_transpose :: "'img \<Rightarrow> 'img option"
  il_copy :: "'img \<Rightarrow> 'img option"
  il_mode :: "'img \<Rightarrow> string"
  il_convert_rgb :: "'img \<Rightarrow> 'img option"
  il_shrink :: "nat \<Rightarrow> nat \<Rightarrow> nat \<Rightarrow> nat"
  il_resize :: "nat \<times> nat \<Rightarrow> 'img \<Rightarrow> 'img option"
  il_grayscale :: "'img \<Rightarrow> 'img option"
  il_autocontrast :: "'img \<Rightarrow> 'img option"
  il_contrast :: "'img \<Rightarrow> 'img option"
  il_sharpen :: "'img \<Rightarrow> 'img option"
  il_save_png :: "'img \<Rightarrow> string option"

datatype image_error =
    EmptyPayload
  | FileTooLarge nat
  | UnsupportedFormat string
  | TooManyPixels nat nat
  | DecodeFailed

section \<open>Preparing an image\<close>

record preprocessor =
  pp_target_max_dimension :: nat
  pp_max_pixels :: nat

definition default_preprocessor :: preprocessor where
  "default_preprocessor = \<lparr>pp_target_max_dimension = 2048, pp_max_pixels = 50000000\<rparr>"

definition max_file_size :: nat where
  "max_file_size = 10 * 1024 * 1024"

definition allowed_formats :: "string list" where
  "allowed_formats = [''JPEG'', ''PNG'', ''MPO'', ''PDF'']"

text \<open>The steps after the pixels are loaded.\<close>

definition orient :: "'img imaging \<Rightarrow> 'img \<Rightarrow> 'img option" where
  "orient lib raw = (case il_transpose lib raw of Some i \<Rightarrow> Some i | None \<Rightarrow> il_copy lib raw)"

definition fit_dimension :: "'img imaging \<Rightarrow> preprocessor \<Rightarrow> 'img \<Rightarrow> 'img option" where
  "fit_dimension lib pp i =
     (case il_size lib i of (w, h) \<Rightarrow>
        if max w h > pp_target_max_dimension pp then
          il_resize lib (il_shrink lib w (pp_target_max_dimension pp) (max w h),
                         il_shrink lib h (pp_target_max_dimension pp) (max w h)) i
        else Some i)"

definition enhance_steps :: "'img imaging \<Rightarrow> preprocessor \<Rightarrow> 'img \<Rightarrow> ('img \<times> string) option" where
  "enhance_steps lib pp raw =
     Option.bind (orient lib raw) (\<lambda>i.
     Option.bind (if il_mode lib i \<notin> {''RGB'', ''L''} then il_convert_rgb lib i else Some i) (\<lambda>i.
     Option.bind (fit_dimension lib pp i) (\<lambda>i.
     Option.bind (il_grayscale lib i) (\<lambda>i.
     Option.bind (il_autocontrast lib i) (\<lambda>i.
     Option.bind (il_contrast lib i) (\<lambda>i.
     Option.bind (il_sharpen lib i) (\<lambda>i.
     map_option (Pair i) (il_save_png lib i))))))))"

text \<open>The outcome, and the images whose pixels were decoded on the way.\<close>

definition preprocess_image_bytes ::
  "'img imaging \<Rightarrow> preprocessor \<Rightarrow> string \<Rightarrow> (image_error + 'img \<times> string) \<times> 'img list" where
  "preprocess_image_bytes lib pp raw_bytes =
     (if raw_bytes = [] then (Inl EmptyPayload, [])
      else if length raw_bytes > max_file_size then (Inl (FileTooLarge (length raw_bytes)), [])
      else case il_open lib raw_bytes of
        None \<Rightarrow> (Inl DecodeFailed, [])
      | Some raw_img \<Rightarrow>
        (let fmt = text_or (il_format lib raw_img) []; (width, height) = il_size lib raw_img
         in if fmt \<noteq> [] \<and> fmt \<notin> set allowed_formats then (Inl (UnsupportedFormat fmt), [])
            else if width * height > pp_max_pixels pp then (Inl (TooManyPixels width height), [])
            else case il_load lib raw_img of
              None \<Rightarrow> (Inl DecodeFailed, [raw_img])
            | Some img \<Rightarrow>
              (case enhance_steps lib pp img of
                 Some r \<Rightarrow> (Inr r, [raw_img])
               | None \<Rightarrow> (Inl DecodeFailed, [raw_img]))))"

section \<open>The endpoint\<close>

datatype vision_outcome = VisionText string | VisionTimeout | VisionFailure

definition sample_receipt :: string where
  "sample_receipt = join [CHR 0x0A]
     [''BLUE BOTTLE COFFEE'', ''TAX ID: US-98765432'', ''DATE: 2026-08-20'', ''Espresso $4.50'',
      ''Almond Croissant $5.50'', ''Subtotal $10.00'', ''Tax $0.88'', ''Tip $1.50'', ''Total $12.38'', []]"

definition extract_receipt ::
  "(scaled \<Rightarrow> string) \<Rightarrow> ocr_env \<Rightarrow> 'img imaging \<Rightarrow> preprocessor \<Rightarrow> (string \<Rightarrow> vision_outcome) option \<Rightarrow>
   string option \<Rightarrow> string option \<Rightarrow> json http \<times> 'img list" where
  "extract_receipt money env lib pp vision_extractor file raw_text_override =
     (let answer = \<lambda>txs. HttpOk 200 (extraction_to_dict money (process_text env txs))
      in if text_or raw_text_override [] \<noteq> [] then (answer (text_or raw_text_override []), [])
         else case file of
           None \<Rightarrow> (HttpError 400, [])
         | Some content_bytes \<Rightarrow>
           (if content_bytes = [] then (HttpError 400, [])
            else case preprocess_image_bytes lib pp content_bytes of
              (Inl _, decoded) \<Rightarrow> (HttpError 422, decoded)
            | (Inr (_, normalized_bytes), decoded) \<Rightarrow>
              (case vision_extractor of
                 None \<Rightarrow> (answer sample_receipt, decoded)
               | Some extractor \<Rightarrow>
                 (case extractor normalized_bytes of
                    VisionText txs \<Rightarrow> (answer txs, decoded)
                  | VisionTimeout \<Rightarrow> (HttpError 504, decoded)
                  | VisionFailure \<Rightarrow> (HttpError 502, decoded)))))"

section \<open>What is decoded and what is answered\<close>

lemma preprocess_decoded:
  assumes "preprocess_image_bytes lib pp raw = (r, decoded)" "img \<in> set decoded"
  shows "length raw \<le> max_file_size \<and> il_open lib raw = Some img \<and> fst (il_size lib img) * snd (il_size lib img) \<le> pp_max_pixels pp
    \<and> (\<forall>fmt. il_format lib img = Some fmt \<longrightarrow> fmt = [] \<or> fmt \<in> set allowed_formats)"
  using assms
  by (auto simp: preprocess_image_bytes_def Let_def split: if_splits option.splits prod.splits)

text \<open>Whatever is uploaded, pixels are decoded only from a file of at most ten megabytes in an allowed
  (or undeclared) format whose declared size is within the pixel limit, and an upload that violates
  one of these is answered 400 or 422 without asking the vision extractor.\<close>

theorem only_bounded_images_decoded:
  assumes "extract_receipt money env lib pp vis (Some raw) None = (answer, decoded)"
  shows "(\<forall>img \<in> set decoded. length raw \<le> max_file_size \<and> il_open lib raw = Some img \<and>
      fst (il_size lib img) * snd (il_size lib img) \<le> pp_max_pixels pp \<and>
      (\<forall>fmt. il_format lib img = Some fmt \<longrightarrow> fmt = [] \<or> fmt \<in> set allowed_formats)) \<and>
    (decoded = [] \<longrightarrow> answer \<in> {HttpError 400, HttpError 422})"
proof (cases "raw = []")
  case False
  obtain r d where p: "preprocess_image_bytes lib pp raw = (r, d)" by (cases "preprocess_image_bytes lib pp raw")
  then have d: "decoded = d" using assms False
    by (auto simp: extract_receipt_def Let_def split: sum.splits option.splits vision_outcome.splits)
  moreover have "\<exists>e. r = Inl e" if "d = []"
    using p that by (auto simp: preprocess_image_bytes_def Let_def split: if_splits option.splits prod.splits)
  ultimately show ?thesis
    using assms False p preprocess_decoded [OF p] by (auto simp: extract_receipt_def Let_def)
qed (use assms in \<open>auto simp: extract_receipt_def\<close>)

text \<open>A service without a vision extractor, as the application builds it, answers every image it can
  prepare with one and the same receipt.\<close>

theorem unconfigured_extractor_invents:
  assumes "preprocess_image_bytes lib pp raw = (Inr r, d)"
  shows "fst (extract_receipt money env lib pp None (Some raw) None) =
    HttpOk 200 (extraction_to_dict money (process_text env sample_receipt))"
proof -
  have "raw \<noteq> []" using assms by (auto simp: preprocess_image_bytes_def)
  then show ?thesis using assms by (cases r) (simp add: extract_receipt_def Let_def)
qed

definition demo_imaging :: "nat imaging" where
  "demo_imaging = \<lparr>il_open = (\<lambda>s. Some (length s)), il_format = (\<lambda>_. Some ''PNG''), il_size = (\<lambda>n. (n, n)),
     il_load = Some, il_transpose = Some, il_copy = Some, il_mode = (\<lambda>_. ''L''), il_convert_rgb = Some,
     il_shrink = (\<lambda>d t m. d * t div m), il_resize = (\<lambda>_. Some), il_grayscale = Some, il_autocontrast = Some,
     il_contrast = Some, il_sharpen = Some, il_save_png = (\<lambda>_. Some ''png'')\<rparr>"

theorem only_bounded_images_decoded_witness:
  "length ''abc'' \<le> max_file_size \<and> snd (extract_receipt (\<lambda>_. []) \<lparr>oe_today = [], oe_elapsed = [], oe_float_scaled = (\<lambda>_. None)\<rparr>
     demo_imaging default_preprocessor (Some (\<lambda>_. VisionTimeout)) (Some ''abc'') None) = [3]"
proof -
  have e: "extract_receipt (\<lambda>_. []) \<lparr>oe_today = [], oe_elapsed = [], oe_float_scaled = (\<lambda>_. None)\<rparr>
      demo_imaging default_preprocessor (Some (\<lambda>_. VisionTimeout)) (Some ''abc'') None = (HttpError 504, [3])"
    by (simp add: extract_receipt_def preprocess_image_bytes_def demo_imaging_def default_preprocessor_def
        max_file_size_def allowed_formats_def enhance_steps_def orient_def fit_dimension_def)
  show ?thesis using only_bounded_images_decoded [OF e] e by simp
qed

theorem unconfigured_extractor_invents_witness:
  "fst (extract_receipt money env demo_imaging default_preprocessor None (Some ''abc'') None) =
    HttpOk 200 (extraction_to_dict money (process_text env sample_receipt))"
  by (rule unconfigured_extractor_invents [where r = "(3, ''png'')" and d = "[3]"])
    (simp add: preprocess_image_bytes_def demo_imaging_def default_preprocessor_def
        max_file_size_def allowed_formats_def enhance_steps_def orient_def fit_dimension_def)

end
