(* ===== verification/Recon_Api.thy ===== *)
theory Recon_Api
  imports Reconciliation
begin

text \<open>
  \<^verbatim>\<open>src/api/rest/reconciliation_router.py\<close>: daily closings, their signatures and their history. The
  uuids, clock texts and amount formats of a request are an environment record.
\<close>

section \<open>Requests\<close>

record closing_request =
  lr_tenant_id :: string
  lr_fund_id :: string
  lr_custodian_id :: string
  lr_fund_account_id :: string
  lr_denominations :: denominations
  lr_opening_float_scaled :: scaled
  lr_total_disbursed_scaled :: scaled
  lr_total_replenished_scaled :: scaled
  lr_bank_cleared :: "scaled option"
  lr_notes :: "string option"

record closing_env =
  le_count_uuid :: string
  le_feed_uuid :: string
  le_rec_uuid :: string
  le_now :: string
  le_today :: string
  le_adjust :: adjust_env
  le_match_money :: "scaled \<Rightarrow> string"
  le_money :: "scaled \<Rightarrow> string"

record sign_off_request =
  so_tenant_id :: string
  so_reconciliation_id :: string
  so_signer_id :: string
  so_signer_role :: string
  so_approval_notes :: "string option"

text \<open>The \<open>ge=0\<close> constraints of \<open>DenominationsSchema\<close> and \<open>DailyClosingRequest\<close>.\<close>

definition denominations_valid :: "denominations \<Rightarrow> bool" where
  "denominations_valid d \<longleftrightarrow> 0 \<le> dn_hundreds d \<and> 0 \<le> dn_fifties d \<and> 0 \<le> dn_twenties d \<and> 0 \<le> dn_tens d \<and>
     0 \<le> dn_fives d \<and> 0 \<le> dn_ones d \<and> 0 \<le> dn_quarters d \<and> 0 \<le> dn_dimes d \<and> 0 \<le> dn_nickels d \<and>
     0 \<le> dn_pennies d \<and> 0 \<le> dn_custom_coins_scaled d"

definition closing_valid :: "closing_request \<Rightarrow> bool" where
  "closing_valid r \<longleftrightarrow> denominations_valid (lr_denominations r) \<and> 0 \<le> lr_opening_float_scaled r \<and>
     0 \<le> lr_total_disbursed_scaled r \<and> 0 \<le> lr_total_replenished_scaled r"

section \<open>State\<close>

record closing_entry =
  ce_result :: reconciliation_result
  ce_analysis :: variance_analysis

record signature =
  sg_signer_id :: string
  sg_signer_role :: string
  sg_signed_at :: string
  sg_approval_notes :: "string option"

record recon_api =
  rh_history :: "(string \<times> closing_entry) list"
  rh_signoffs :: "string \<rightharpoonup> signature list"

definition new_recon_api :: recon_api where
  "new_recon_api = \<lparr>rh_history = [], rh_signoffs = Map.empty\<rparr>"

definition closing_response :: "(scaled \<Rightarrow> string) \<Rightarrow> closing_entry \<Rightarrow> json" where
  "closing_response money e = JDict
     [(''reconciliation'', reconciliation_to_dict money (ce_result e)),
      (''analysis'', analysis_to_dict (ce_analysis e)),
      (''has_adjustment'', JBool (va_adjustment_batch (ce_analysis e) \<noteq> None))]"

definition signature_json :: "signature \<Rightarrow> json" where
  "signature_json s = JDict
     [(''signer_id'', JStr (sg_signer_id s)), (''signer_role'', JStr (sg_signer_role s)),
      (''signed_at'', JStr (sg_signed_at s)), (''approval_notes'', json_opt (sg_approval_notes s))]"

section \<open>Endpoints\<close>

definition closing_count :: "closing_env \<Rightarrow> closing_request \<Rightarrow> cash_count" where
  "closing_count env r = \<lparr>cc_count_id = ''COUNT-'' @ py_upper (take 8 (le_count_uuid env)),
     cc_tenant_id = lr_tenant_id r, cc_fund_id = lr_fund_id r, cc_custodian_id = lr_custodian_id r,
     cc_denominations = lr_denominations r, cc_counted_at = le_now env, cc_verified_by = None, cc_notes = lr_notes r\<rparr>"

definition closing_float :: "closing_request \<Rightarrow> system_float" where
  "closing_float r = \<lparr>sf_fund_id = lr_fund_id r, sf_tenant_id = lr_tenant_id r,
     sf_opening_float_scaled = lr_opening_float_scaled r, sf_total_disbursed_scaled = lr_total_disbursed_scaled r,
     sf_total_replenished_scaled = lr_total_replenished_scaled r, sf_pending_disbursements_scaled = 0\<rparr>"

definition closing_feed :: "closing_env \<Rightarrow> closing_request \<Rightarrow> bank_feed option" where
  "closing_feed env r = map_option (\<lambda>cleared. \<lparr>bf_feed_id = ''FEED-'' @ py_upper (take 8 (le_feed_uuid env)),
     bf_tenant_id = lr_tenant_id r, bf_bank_account_id = ''BANK_MAIN'', bf_cleared_replenishments_scaled = cleared,
     bf_pending_transfers_scaled = 0, bf_statement_date = le_today env\<rparr>) (lr_bank_cleared r)"

definition submit_daily_closing ::
  "scaled \<Rightarrow> variance_analyzer \<Rightarrow> closing_env \<Rightarrow> closing_request \<Rightarrow> recon_api \<Rightarrow> json http \<times> recon_api" where
  "submit_daily_closing tol vz env r st =
     (if \<not> closing_valid r then (HttpError 422, st)
      else case bind_result (reconcile (le_match_money env) tol (le_rec_uuid env) (le_now env) (closing_count env r)
             (closing_float r) (closing_feed env r))
           (\<lambda>rr. bind_result (analyze (le_match_money env) (le_adjust env) vz rr (lr_fund_account_id r))
             (\<lambda>va. Inr \<lparr>ce_result = rr, ce_analysis = va\<rparr>)) of
        Inl _ \<Rightarrow> (HttpError 400, st)
      | Inr e \<Rightarrow> (HttpOk 200 (closing_response (le_money env) e),
          st\<lparr>rh_history := AList.update (rr_reconciliation_id (ce_result e)) e (rh_history st),
             rh_signoffs := (rh_signoffs st)(rr_reconciliation_id (ce_result e) \<mapsto> [])\<rparr>))"

definition signed :: "string \<Rightarrow> sign_off_request \<Rightarrow> signature" where
  "signed now r = \<lparr>sg_signer_id = so_signer_id r, sg_signer_role = so_signer_role r, sg_signed_at = now,
     sg_approval_notes = so_approval_notes r\<rparr>"

definition sign_off_reconciliation ::
  "string \<Rightarrow> sign_off_request \<Rightarrow> recon_api \<Rightarrow> json http \<times> recon_api" where
  "sign_off_reconciliation now r st =
     (case map_of (rh_history st) (so_reconciliation_id r) of
        None \<Rightarrow> (HttpError 404, st)
      | Some e \<Rightarrow>
        (if so_tenant_id r \<noteq> rr_tenant_id (ce_result e) then (HttpError 403, st)
         else
           (let signatures = (case rh_signoffs st (so_reconciliation_id r) of None \<Rightarrow> [] | Some l \<Rightarrow> l) @ [signed now r]
            in (HttpOk 200 (JDict [(''reconciliation_id'', JStr (so_reconciliation_id r)), (''status'', JStr ''SIGNED''),
                  (''total_signatures'', JInt (int (length signatures))),
                  (''signatures'', JList (map signature_json signatures))]),
                st\<lparr>rh_signoffs := (rh_signoffs st)(so_reconciliation_id r \<mapsto> signatures)\<rparr>))))"

definition tenant_history :: "string \<Rightarrow> recon_api \<Rightarrow> closing_entry list" where
  "tenant_history t st = filter (\<lambda>e. rr_tenant_id (ce_result e) = t) (map snd (rh_history st))"

definition recon_get_history :: "(scaled \<Rightarrow> string) \<Rightarrow> string \<Rightarrow> recon_api \<Rightarrow> json" where
  "recon_get_history money t st = JDict
     [(''tenant_id'', JStr t), (''total_records'', JInt (int (length (tenant_history t st)))),
      (''records'', JList (map (closing_response money) (tenant_history t st)))]"

section \<open>Histories\<close>

datatype recon_cmd = Close closing_env closing_request | Sign string sign_off_request

fun recon_step :: "scaled \<Rightarrow> variance_analyzer \<Rightarrow> recon_cmd \<Rightarrow> recon_api \<Rightarrow> json http \<times> recon_api" where
  "recon_step tol vz (Close env r) st = submit_daily_closing tol vz env r st"
| "recon_step tol vz (Sign now r) st = sign_off_reconciliation now r st"

fun recon_run ::
  "scaled \<Rightarrow> variance_analyzer \<Rightarrow> recon_cmd list \<Rightarrow> recon_api \<Rightarrow> (recon_cmd \<times> json http) list \<times> recon_api" where
  "recon_run tol vz [] st = ([], st)"
| "recon_run tol vz (c # cs) st =
     (case recon_step tol vz c st of (a, st1) \<Rightarrow>
        (case recon_run tol vz cs st1 of (as, st2) \<Rightarrow> ((c, a) # as, st2)))"

text \<open>The signatures under a reconciliation that were answered with 200, in order.\<close>

fun accepted_signature :: "string \<Rightarrow> recon_cmd \<times> json http \<Rightarrow> signature list" where
  "accepted_signature i (Sign now r, HttpOk _ _) = (if so_reconciliation_id r = i then [signed now r] else [])"
| "accepted_signature i _ = []"

definition accepted_signatures :: "string \<Rightarrow> (recon_cmd \<times> json http) list \<Rightarrow> signature list" where
  "accepted_signatures i log = concat (map (accepted_signature i) log)"

fun closing_ids :: "recon_cmd list \<Rightarrow> string list" where
  "closing_ids [] = []"
| "closing_ids (Close env r # cs) = (''REC-'' @ py_upper (take 12 (le_rec_uuid env))) # closing_ids cs"
| "closing_ids (Sign now r # cs) = closing_ids cs"

definition recon_ok :: "recon_api \<Rightarrow> bool" where
  "recon_ok st \<longleftrightarrow> distinct (map fst (rh_history st)) \<and> dom (rh_signoffs st) = fst ` set (rh_history st)"

text \<open>What an accepted closing adds.\<close>

lemma reconcile_id: "reconcile money tol u now cc sf feed = Inr rr \<Longrightarrow> rr_reconciliation_id rr = ''REC-'' @ py_upper (take 12 u)"
  by (auto simp: reconcile_def Let_def split: if_splits prod.splits)

lemma closing_cases:
  obtains (refused) a where "submit_daily_closing tol vz env r st = (HttpError a, st)"
  | (accepted) e where "closing_valid r"
      "submit_daily_closing tol vz env r st = (HttpOk 200 (closing_response (le_money env) e),
         st\<lparr>rh_history := AList.update (''REC-'' @ py_upper (take 12 (le_rec_uuid env))) e (rh_history st),
            rh_signoffs := (rh_signoffs st)(''REC-'' @ py_upper (take 12 (le_rec_uuid env)) \<mapsto> [])\<rparr>)"
      "reconcile (le_match_money env) tol (le_rec_uuid env) (le_now env) (closing_count env r)
         (closing_float r) (closing_feed env r) = Inr (ce_result e)"
      "analyze (le_match_money env) (le_adjust env) vz (ce_result e) (lr_fund_account_id r) = Inr (ce_analysis e)"
proof (cases "closing_valid r")
  case False
  then show ?thesis using refused by (simp add: submit_daily_closing_def)
next
  case valid: True
  show ?thesis
  proof (cases "reconcile (le_match_money env) tol (le_rec_uuid env) (le_now env) (closing_count env r)
         (closing_float r) (closing_feed env r)")
    case (Inl x)
    then show ?thesis using refused valid by (simp add: submit_daily_closing_def)
  next
    case rr: (Inr rr)
    show ?thesis
    proof (cases "analyze (le_match_money env) (le_adjust env) vz rr (lr_fund_account_id r)")
      case (Inl x)
      then show ?thesis using refused valid rr by (simp add: submit_daily_closing_def)
    next
      case (Inr va)
      then show ?thesis
        using accepted [of "\<lparr>ce_result = rr, ce_analysis = va\<rparr>"] valid rr reconcile_id [OF rr]
        by (simp add: submit_daily_closing_def)
    qed
  qed
qed

section \<open>What the history holds\<close>

lemma analysis_batch_balances:
  assumes "analyze money env vz rr acct = Inr va" "va_adjustment_batch va = Some b"
  shows "validate_balance b = Inr True"
proof -
  have v: "rr_cash_variance_scaled rr \<noteq> 0" using assms by (auto simp: analyze_def)
  obtain reason where "generate_adjustment_batch money env vz (rr_tenant_id rr) acct (rr_cash_variance_scaled rr) reason = Inr b"
    using assms v by (auto simp: analyze_def Let_def bind_result_Inr_iff split: if_splits)
  with adjustment_batch [OF v, of money env vz "rr_tenant_id rr" acct reason] show ?thesis by force
qed

definition entry_ok :: "string \<times> closing_entry \<Rightarrow> bool" where
  "entry_ok ie \<longleftrightarrow> rr_reconciliation_id (ce_result (snd ie)) = fst ie \<and>
     (\<forall>b. va_adjustment_batch (ce_analysis (snd ie)) = Some b \<longrightarrow> validate_balance b = Inr True)"

lemma update_new: "k \<notin> fst ` set xs \<Longrightarrow> AList.update k v xs = xs @ [(k, v)]"
  by (induction xs) auto

text \<open>Every step keeps the closings made before it, adds at most a closing under a new id, and keeps
  the signatures it does not append to.\<close>

definition signatures_of :: "recon_api \<Rightarrow> string \<Rightarrow> signature list" where
  "signatures_of st i = (case rh_signoffs st i of None \<Rightarrow> [] | Some l \<Rightarrow> l)"

definition signed_by_tenant :: "recon_api \<Rightarrow> (recon_cmd \<times> json http) list \<Rightarrow> bool" where
  "signed_by_tenant st log \<longleftrightarrow> (\<forall>now r n j. (Sign now r, HttpOk n j) \<in> set log \<longrightarrow>
     (\<exists>e. map_of (rh_history st) (so_reconciliation_id r) = Some e \<and> so_tenant_id r = rr_tenant_id (ce_result e)))"

definition recon_kept :: "recon_api \<Rightarrow> (recon_cmd \<times> json http) list \<Rightarrow> recon_api \<Rightarrow> string list \<Rightarrow> bool" where
  "recon_kept st log st2 ids \<longleftrightarrow> recon_ok st2 \<and> (\<forall>ie \<in> set (rh_history st2). entry_ok ie) \<and>
     (\<exists>new. rh_history st2 = rh_history st @ new \<and> fst ` set new \<subseteq> set ids) \<and>
     (\<forall>i. signatures_of st2 i = signatures_of st i @ accepted_signatures i log) \<and> signed_by_tenant st2 log"

lemma signed_by_tenant_later:
  "signed_by_tenant st log \<Longrightarrow> rh_history st2 = rh_history st @ new \<Longrightarrow> signed_by_tenant st2 log"
  unfolding signed_by_tenant_def by (fastforce simp: map_add_Some_iff)

lemma signed_by_tenant_append:
  "signed_by_tenant st (a @ b) \<longleftrightarrow> signed_by_tenant st a \<and> signed_by_tenant st b"
  unfolding signed_by_tenant_def set_append by blast

lemma recon_kept_trans:
  assumes "recon_kept st log1 st1 ids1" "recon_kept st1 log2 st2 ids2"
  shows "recon_kept st (log1 @ log2) st2 (ids1 @ ids2)"
proof -
  obtain new1 new2 where new: "rh_history st1 = rh_history st @ new1" "fst ` set new1 \<subseteq> set ids1"
    "rh_history st2 = rh_history st1 @ new2" "fst ` set new2 \<subseteq> set ids2"
    using assms by (auto simp: recon_kept_def)
  have "signed_by_tenant st2 log1" using assms(1) new(3) signed_by_tenant_later by (auto simp: recon_kept_def)
  then have "signed_by_tenant st2 (log1 @ log2)" using assms(2) by (simp add: recon_kept_def signed_by_tenant_append)
  moreover have "\<exists>new. rh_history st2 = rh_history st @ new \<and> fst ` set new \<subseteq> set (ids1 @ ids2)"
    using new by (intro exI [of _ "new1 @ new2"]) auto
  ultimately show ?thesis
    using assms by (simp add: recon_kept_def accepted_signatures_def)
qed

lemma closing_kept:
  assumes "recon_ok st" "\<forall>ie \<in> set (rh_history st). entry_ok ie" "i \<notin> fst ` set (rh_history st)" "entry_ok (i, e)"
  shows "recon_kept st [(Close env r, a)] (st\<lparr>rh_history := AList.update i e (rh_history st),
    rh_signoffs := (rh_signoffs st)(i \<mapsto> [])\<rparr>) [i]"
proof -
  have "rh_signoffs st i = None" using assms(1,3) by (auto simp: recon_ok_def)
  then show ?thesis
    using assms by (auto simp: recon_kept_def update_new recon_ok_def signatures_of_def accepted_signatures_def signed_by_tenant_def)
qed

lemma sign_kept:
  assumes "recon_ok st" "\<forall>ie \<in> set (rh_history st). entry_ok ie" "sign_off_reconciliation now r st = (a, st1)"
  shows "recon_kept st [(Sign now r, a)] st1 []"
proof (cases "\<exists>e. map_of (rh_history st) (so_reconciliation_id r) = Some e \<and> so_tenant_id r = rr_tenant_id (ce_result e)")
  case False
  then have "st1 = st \<and> (\<exists>n. a = HttpError n)"
    using assms(3) by (auto simp: sign_off_reconciliation_def split: option.splits if_splits)
  then show ?thesis
    using assms by (auto simp: recon_kept_def accepted_signatures_def signed_by_tenant_def)
next
  case True
  then obtain e where e: "map_of (rh_history st) (so_reconciliation_id r) = Some e" "so_tenant_id r = rr_tenant_id (ce_result e)"
    by blast
  then have "so_reconciliation_id r \<in> fst ` set (rh_history st)" by (force dest: map_of_SomeD)
  then have k: "insert (so_reconciliation_id r) (fst ` set (rh_history st)) = fst ` set (rh_history st)"
    by (rule insert_absorb)
  have st1: "st1 = st\<lparr>rh_signoffs := (rh_signoffs st)(so_reconciliation_id r \<mapsto> signatures_of st (so_reconciliation_id r) @ [signed now r])\<rparr>"
    "\<exists>j. a = HttpOk 200 j"
    using assms(3) e by (auto simp: sign_off_reconciliation_def signatures_of_def Let_def)
  have "recon_ok st1" using assms(1) k by (simp add: st1 recon_ok_def)
  then show ?thesis
    using assms(2) e st1(2) by (auto simp: st1(1) recon_kept_def signatures_of_def accepted_signatures_def signed_by_tenant_def)
qed

lemma recon_step_kept:
  assumes "recon_step tol vz c st = (a, st1)" "recon_ok st" "\<forall>ie \<in> set (rh_history st). entry_ok ie"
    and "set (closing_ids [c]) \<inter> fst ` set (rh_history st) = {}"
  shows "recon_kept st [(c, a)] st1 (closing_ids [c])"
proof (cases c)
  case (Close env r)
  show ?thesis
  proof (cases rule: closing_cases [of tol vz env r st])
    case (refused x)
    then show ?thesis
      using assms Close by (auto simp: recon_kept_def accepted_signatures_def signed_by_tenant_def)
  next
    case (accepted e)
    have "entry_ok (''REC-'' @ py_upper (take 12 (le_rec_uuid env)), e)"
      using reconcile_id [OF accepted(3)] analysis_batch_balances [OF accepted(4)] by (simp add: entry_ok_def)
    with assms Close show ?thesis
      using closing_kept [of st "''REC-'' @ py_upper (take 12 (le_rec_uuid env))" e] accepted(2) by simp
  qed
next
  case (Sign now r)
  then show ?thesis using assms sign_kept by simp
qed

lemma closing_ids_Cons: "closing_ids (c # cs) = closing_ids [c] @ closing_ids cs"
  by (cases c) simp_all

lemma recon_run_kept:
  assumes "recon_run tol vz cs st = (log, st2)" "recon_ok st" "\<forall>ie \<in> set (rh_history st). entry_ok ie"
    and "distinct (closing_ids cs)" "set (closing_ids cs) \<inter> fst ` set (rh_history st) = {}"
  shows "recon_kept st log st2 (closing_ids cs)"
  using assms
proof (induction cs arbitrary: st log)
  case Nil
  then show ?case by (simp add: recon_kept_def accepted_signatures_def signed_by_tenant_def)
next
  case (Cons c cs)
  obtain a st1 where one: "recon_step tol vz c st = (a, st1)" by (cases "recon_step tol vz c st")
  obtain as where rest: "recon_run tol vz cs st1 = (as, st2)" and log: "log = [(c, a)] @ as"
    using Cons.prems(1) one by (auto split: prod.splits)
  have ids: "set (closing_ids [c]) \<inter> fst ` set (rh_history st) = {}" "distinct (closing_ids cs)"
    "set (closing_ids [c]) \<inter> set (closing_ids cs) = {}" "set (closing_ids cs) \<inter> fst ` set (rh_history st) = {}"
    using Cons.prems(4,5) closing_ids_Cons [of c cs] by auto
  note s = recon_step_kept [OF one Cons.prems(2,3) ids(1)]
  then obtain new where new: "rh_history st1 = rh_history st @ new" "fst ` set new \<subseteq> set (closing_ids [c])"
    by (auto simp: recon_kept_def)
  have "recon_ok st1" "\<forall>ie \<in> set (rh_history st1). entry_ok ie" using s by (simp_all add: recon_kept_def)
  moreover have "fst ` set (rh_history st1) \<subseteq> fst ` set (rh_history st) \<union> set (closing_ids [c])"
    unfolding new(1) set_append image_Un using new(2) by blast
  moreover from this ids have "set (closing_ids cs) \<inter> fst ` set (rh_history st1) = {}" by blast
  ultimately have "recon_kept st1 as st2 (closing_ids cs)" using ids(2) by (intro Cons.IH [OF rest])
  from recon_kept_trans [OF s this] show ?case by (simp add: log closing_ids_Cons [of c cs])
qed

text \<open>C36. After any calls with distinct reconciliation ids, the history lists every reconciliation once, each
  adjusting batch in it passes the zero-sum check, the signatures stored under a reconciliation are
  exactly the sign-offs answered with 200, in order, and each of them came from its tenant.\<close>

theorem closings_keep_their_signatures:
  assumes "recon_run tol vz cs new_recon_api = (log, st)" "distinct (closing_ids cs)"
    and "map_of (rh_history st) i = Some e"
  shows "distinct (map fst (rh_history st)) \<and> rr_reconciliation_id (ce_result e) = i \<and>
    (\<forall>b. va_adjustment_batch (ce_analysis e) = Some b \<longrightarrow> validate_balance b = Inr True) \<and>
    rh_signoffs st i = Some (accepted_signatures i log) \<and>
    (\<forall>now r n j. (Sign now r, HttpOk n j) \<in> set log \<and> so_reconciliation_id r = i \<longrightarrow>
       so_tenant_id r = rr_tenant_id (ce_result e))"
proof -
  have "recon_kept new_recon_api log st (closing_ids cs)"
    by (rule recon_run_kept [OF assms(1)]) (simp_all add: new_recon_api_def recon_ok_def assms(2))
  then have k: "recon_ok st" "\<forall>ie \<in> set (rh_history st). entry_ok ie" "signed_by_tenant st log"
    "signatures_of st i = accepted_signatures i log"
    by (simp_all add: recon_kept_def signatures_of_def new_recon_api_def)
  have "(i, e) \<in> set (rh_history st)" using assms(3) by (rule map_of_SomeD)
  then have e: "entry_ok (i, e)" "i \<in> dom (rh_signoffs st)" using k(1,2) by (force simp: recon_ok_def)+
  then have "rh_signoffs st i = Some (accepted_signatures i log)" using k(4) by (auto simp: signatures_of_def)
  moreover have "so_tenant_id r = rr_tenant_id (ce_result e)"
    if "(Sign now r, HttpOk n j) \<in> set log" "so_reconciliation_id r = i" for now r n j
    using k(3) that assms(3) unfolding signed_by_tenant_def by fastforce
  ultimately show ?thesis
    using k(1) e(1) by (simp add: recon_ok_def entry_ok_def) blast
qed

text \<open>A signature needs no authority: whatever role the analysis requires, a sign-off of the tenant
  under any role, also a second one of the same signer, is recorded and answered as signed.\<close>

theorem any_role_signs:
  assumes "map_of (rh_history st) i = Some e" "va_required_role (ce_analysis e) = Some ''FINANCE_DIRECTOR''"
    and "so_tenant_id r = rr_tenant_id (ce_result e)" "so_reconciliation_id r = i" "so_signer_role r = ''CUSTODIAN''"
  shows "\<exists>j. fst (sign_off_reconciliation now r st) = HttpOk 200 j \<and>
    signatures_of (snd (sign_off_reconciliation now r st)) i = signatures_of st i @ [signed now r]"
  using assms by (simp add: sign_off_reconciliation_def signatures_of_def Let_def)

section \<open>A concrete day\<close>

definition demo_closing :: closing_request where
  "demo_closing = \<lparr>lr_tenant_id = ''acme'', lr_fund_id = ''f'', lr_custodian_id = ''u'', lr_fund_account_id = ''cash'',
     lr_denominations = cc_denominations (demo_count 3), lr_opening_float_scaled = 1500000,
     lr_total_disbursed_scaled = 500000, lr_total_replenished_scaled = 0, lr_bank_cleared = None, lr_notes = None\<rparr>"

definition demo_closing_env :: closing_env where
  "demo_closing_env = \<lparr>le_count_uuid = ''0'', le_feed_uuid = ''1'', le_rec_uuid = ''2'', le_now = ''now'', le_today = ''today'',
     le_adjust = demo_adjust_env, le_match_money = (\<lambda>_. ''$''), le_money = (\<lambda>_. ''$'')\<rparr>"

definition demo_sign :: sign_off_request where
  "demo_sign = \<lparr>so_tenant_id = ''acme'', so_reconciliation_id = ''REC-2'', so_signer_id = ''u'', so_signer_role = ''CUSTODIAN'',
     so_approval_notes = None\<rparr>"

definition demo_day :: "(recon_cmd \<times> json http) list \<times> recon_api" where
  "demo_day = recon_run 0 default_analyzer [Close demo_closing_env demo_closing, Sign ''t'' demo_sign] new_recon_api"

theorem closings_keep_their_signatures_witness:
  "rh_signoffs (snd demo_day) ''REC-2'' = Some (accepted_signatures ''REC-2'' (fst demo_day)) \<and>
    accepted_signatures ''REC-2'' (fst demo_day) = [signed ''t'' demo_sign]"
proof -
  obtain log st where d: "demo_day = (log, st)" by (cases demo_day)
  have ok: "map_of (rh_history (snd demo_day)) ''REC-2'' \<noteq> None" "accepted_signatures ''REC-2'' (fst demo_day) = [signed ''t'' demo_sign]"
    by code_simp+
  then obtain e where e: "map_of (rh_history st) ''REC-2'' = Some e" by (auto simp: d)
  have "distinct (closing_ids [Close demo_closing_env demo_closing, Sign ''t'' demo_sign])" by simp
  from closings_keep_their_signatures [OF d [unfolded demo_day_def] this e] ok(2) show ?thesis by (simp add: d)
qed

end
