(* ===== verification/Csv.thy ===== *)
theory Csv
  imports Prelude
begin

text \<open>
  The writer of Python's \<open>csv\<close> module in its default dialect, and a reader of what it writes: a state
  machine over the characters, with quoted fields and doubled quotes.
\<close>

section \<open>Writing\<close>

definition csv_special :: "char \<Rightarrow> bool" where
  "csv_special c \<longleftrightarrow> c = CHR '','' \<or> c = CHR 0x22 \<or> c = CHR 0x0D \<or> c = CHR 0x0A"

definition double_quotes :: "string \<Rightarrow> string" where
  "double_quotes f = concat (map (\<lambda>c. if c = CHR 0x22 then [CHR 0x22, CHR 0x22] else [c]) f)"

definition csv_field :: "string \<Rightarrow> string" where
  "csv_field f = (if list_ex csv_special f then CHR 0x22 # double_quotes f @ [CHR 0x22] else f)"

text \<open>\<open>writerow\<close> of a row with more than one field.\<close>

definition csv_row :: "string list \<Rightarrow> string" where
  "csv_row fs = join '','' (map csv_field fs) @ [CHR 0x0D, CHR 0x0A]"

section \<open>Reading\<close>

datatype csv_state = FieldStart | InField | InQuotes | QuoteSeen

fun csv_scan :: "csv_state \<Rightarrow> string \<Rightarrow> string list \<Rightarrow> string \<Rightarrow> string list list" where
  "csv_scan st cur fs [] = (if cur = [] \<and> fs = [] then [] else [fs @ [cur]])"
| "csv_scan st cur fs (c # s) =
     (if st = InQuotes then
        (if c = CHR 0x22 then csv_scan QuoteSeen cur fs s else csv_scan InQuotes (cur @ [c]) fs s)
      else if c = CHR 0x22 \<and> st = FieldStart then csv_scan InQuotes cur fs s
      else if c = CHR 0x22 \<and> st = QuoteSeen then csv_scan InQuotes (cur @ [c]) fs s
      else if c = CHR '','' then csv_scan FieldStart [] (fs @ [cur]) s
      else if c = CHR 0x0D then csv_scan st cur fs s
      else if c = CHR 0x0A then (fs @ [cur]) # csv_scan FieldStart [] [] s
      else csv_scan InField (cur @ [c]) fs s)"

definition csv_read :: "string \<Rightarrow> string list list" where
  "csv_read s = csv_scan FieldStart [] [] s"

section \<open>What is written is read\<close>

lemma scan_quoted: "csv_scan InQuotes cur fs (double_quotes f @ s) = csv_scan InQuotes (cur @ f) fs s"
  by (induction f arbitrary: cur) (auto simp: double_quotes_def)

lemma scan_plain: "\<not> list_ex csv_special f \<Longrightarrow> csv_scan InField cur fs (f @ s) = csv_scan InField (cur @ f) fs s"
  by (induction f arbitrary: cur) (auto simp: csv_special_def)

lemma scan_field:
  assumes "c = CHR '','' \<or> c = CHR 0x0D"
  shows "csv_scan FieldStart [] fs (csv_field f @ c # s) =
    csv_scan FieldStart [] fs (c # s) \<and> f = [] \<or>
    (\<exists>st. st \<in> {InField, QuoteSeen} \<and> csv_scan FieldStart [] fs (csv_field f @ c # s) = csv_scan st f fs (c # s))"
proof (cases "list_ex csv_special f")
  case True
  then show ?thesis by (auto simp: csv_field_def scan_quoted)
next
  case False
  then show ?thesis
    by (cases f) (use scan_plain [of "tl f" "[hd f]" fs "c # s"] in \<open>auto simp: csv_field_def csv_special_def\<close>)
qed

lemma scan_comma: "csv_scan FieldStart [] fs (csv_field f @ CHR '','' # s) = csv_scan FieldStart [] (fs @ [f]) s"
  using scan_field [of "CHR '',''" fs f s] by auto

lemma scan_end: "csv_scan FieldStart [] fs (csv_field f @ CHR 0x0D # CHR 0x0A # s) = (fs @ [f]) # csv_read s"
  using scan_field [of "CHR 0x0D" fs f "CHR 0x0A # s"] by (auto simp: csv_read_def)

lemma scan_row: "gs \<noteq> [] \<Longrightarrow> csv_scan FieldStart [] fs (csv_row gs @ s) = (fs @ gs) # csv_read s"
proof (induction gs arbitrary: fs)
  case (Cons g gs)
  show ?case
  proof (cases gs)
    case Nil
    then show ?thesis by (simp add: csv_row_def scan_end)
  next
    case (Cons h hs)
    then have "csv_row (g # gs) = csv_field g @ CHR '','' # csv_row gs" by (simp add: csv_row_def)
    then show ?thesis using Cons.IH [of "fs @ [g]"] Cons by (simp add: scan_comma)
  qed
qed simp

lemma csv_read_rows: "[] \<notin> set rows \<Longrightarrow> csv_read (concat (map csv_row rows)) = rows"
proof (induction rows)
  case (Cons r rows)
  then show ?case using scan_row [of r "[]" "concat (map csv_row rows)"] by (auto simp: csv_read_def)
qed (simp add: csv_read_def)

end
