(* ===== verification/Reports.thy ===== *)
theory Reports
  imports Spend Csv
begin

text \<open>
  \<^verbatim>\<open>src/api/rest/reports_router.py\<close>: the stored spend records, their summary, and the statements
  exported from them. The two-decimal amount text and the date are parameters; the PDF library
  renders the content that is modelled here.
\<close>

section \<open>Records\<close>

text \<open>The keys of a posted record, \<open>None\<close> where one is missing. The endpoint takes any dictionary and stores
  what it holds; only the bodies are modelled whose values have the types of the fields.\<close>

record record_body =
  rb_transaction_id :: "string option"
  rb_tenant_id :: "string option"
  rb_department :: "string option"
  rb_location :: "string option"
  rb_category :: "string option"
  rb_amount_scaled :: "scaled option"
  rb_currency :: "string option"

definition record_of_body :: "string \<Rightarrow> record_body \<Rightarrow> spend_record option" where
  "record_of_body now b =
     (case (rb_transaction_id b, rb_tenant_id b, rb_department b, rb_location b, rb_category b, rb_amount_scaled b) of
        (Some i, Some t, Some d, Some l, Some c, Some a) \<Rightarrow>
          Some \<lparr>sr_transaction_id = i, sr_tenant_id = t, sr_department = d, sr_location = l, sr_category = c,
            sr_amount_scaled = a, sr_currency = (case rb_currency b of None \<Rightarrow> ''USD'' | Some x \<Rightarrow> x), sr_timestamp = now\<rparr>
      | _ \<Rightarrow> None)"

text \<open>A missing key is an unhandled \<open>KeyError\<close>.\<close>

definition add_spend_record :: "string \<Rightarrow> record_body \<Rightarrow> spend_record list \<Rightarrow> json http \<times> spend_record list" where
  "add_spend_record now b records =
     (case record_of_body now b of
        None \<Rightarrow> (HttpError 500, records)
      | Some r \<Rightarrow> (HttpOk 201 (JDict [(''status'', JStr ''RECORD_ADDED''), (''transaction_id'', JStr (sr_transaction_id r))]),
                   records @ [r]))"

definition get_spend_summary :: "spend_fmt \<Rightarrow> string \<Rightarrow> spend_record list \<Rightarrow> spend_summary" where
  "get_spend_summary fmt tenant records = get_executive_summary fmt records tenant"

section \<open>Statements\<close>

definition csv_header :: "string list" where
  "csv_header = [''Transaction ID'', ''Tenant ID'', ''Timestamp'', ''Department'', ''Location'', ''Category'',
     ''Amount (Scaled)'', ''Amount (USD)'', ''Currency'']"

definition csv_line :: "(scaled \<Rightarrow> string) \<Rightarrow> spend_record \<Rightarrow> string list" where
  "csv_line money r = [sr_transaction_id r, sr_tenant_id r, sr_timestamp r, sr_department r, sr_location r,
     sr_category r, show_int (sr_amount_scaled r), money (sr_amount_scaled r), sr_currency r]"

definition export_csv_statement ::
  "(scaled \<Rightarrow> string) \<Rightarrow> string \<Rightarrow> string \<Rightarrow> spend_record list \<Rightarrow> string \<times> string" where
  "export_csv_statement money today tenant records =
     (let tenant_recs = of_tenant records tenant
      in (concat (map csv_row (csv_header # map (csv_line money) tenant_recs)),
          ''attachment; filename=pettyflow_statement_'' @ tenant @ ''_'' @ today @ ''.csv''))"

text \<open>The content of the PDF statement: its three paragraphs, and its table when it has rows.\<close>

definition pdf_row :: "(scaled \<Rightarrow> string) \<Rightarrow> spend_record \<Rightarrow> string list" where
  "pdf_row money r = [sr_transaction_id r, sr_department r, sr_location r, sr_category r, ''$'' @ money (sr_amount_scaled r)]"

definition pdf_content ::
  "(scaled \<Rightarrow> string) \<Rightarrow> spend_fmt \<Rightarrow> string \<Rightarrow> string \<Rightarrow> spend_record list \<Rightarrow> string list \<times> string list list" where
  "pdf_content money fmt today tenant records =
     (let tenant_recs = of_tenant records tenant; summary = get_executive_summary fmt records tenant;
          table_data = [''Transaction ID'', ''Department'', ''Location'', ''Category'', ''Amount''] #
            map (pdf_row money) (take 30 tenant_recs)
      in ([''PETTYFLOW EXECUTIVE FINANCIAL STATEMENT'',
           ''<b>Tenant ID:</b> '' @ tenant @ '' | <b>Date:</b> '' @ today,
           ''<b>Total Spend:</b> '' @ su_total_spend_formatted summary @ '' | <b>Transactions:</b> '' @
             show_nat (su_total_transactions summary)],
          if length table_data > 1 then table_data else []))"

definition export_pdf_statement ::
  "(string list \<times> string list list \<Rightarrow> string) \<Rightarrow> (scaled \<Rightarrow> string) \<Rightarrow> spend_fmt \<Rightarrow> string \<Rightarrow> string \<Rightarrow> spend_record list \<Rightarrow>
   string \<times> string" where
  "export_pdf_statement render money fmt today tenant records =
     (render (pdf_content money fmt today tenant records),
      ''attachment; filename=pettyflow_statement_'' @ tenant @ ''_'' @ today @ ''.pdf'')"

section \<open>What a statement says\<close>

lemma summary_totals:
  "su_total_spend_scaled (get_executive_summary fmt rs t) = sum_list (map sr_amount_scaled (of_tenant rs t))"
  "su_total_transactions (get_executive_summary fmt rs t) = length (of_tenant rs t)"
  by (simp_all add: executive_reference summary_of_def)

text \<open>C37. Read back, a CSV statement is its header and one row per record of the tenant in the order they
  were added, with every field as it was posted, also one with commas, quotes or line breaks; the
  amounts of its rows add up to the total of the tenant's summary.\<close>

theorem statement_is_complete:
  "csv_read (fst (export_csv_statement money today tenant records)) =
      csv_header # map (csv_line money) (of_tenant records tenant) \<and>
    sum_list (map (\<lambda>row. read_int (row ! 6)) (tl (csv_read (fst (export_csv_statement money today tenant records))))) =
      su_total_spend_scaled (get_spend_summary fmt tenant records)"
proof -
  have "[] \<notin> set (csv_header # map (csv_line money) (of_tenant records tenant))"
    by (auto simp: csv_header_def csv_line_def)
  then have "csv_read (fst (export_csv_statement money today tenant records)) =
      csv_header # map (csv_line money) (of_tenant records tenant)"
    unfolding export_csv_statement_def Let_def fst_conv by (rule csv_read_rows)
  then show ?thesis
    by (simp add: get_spend_summary_def summary_totals csv_line_def comp_def read_show_int)
qed

text \<open>The PDF statement lists thirty records, below totals over all of them.\<close>

theorem pdf_lists_thirty:
  assumes "30 < length (of_tenant records tenant)"
  shows "length (snd (pdf_content money fmt today tenant records)) = 31 \<and>
    su_total_transactions (get_executive_summary fmt records tenant) > 30"
proof -
  have "of_tenant records tenant \<noteq> []" using assms by auto
  then show ?thesis using assms by (simp add: pdf_content_def Let_def summary_totals)
qed

end
