(* ===== verification/Telemetry.thy ===== *)
theory Telemetry
  imports Json "HOL-Library.Multiset"
begin

text \<open>
  \<^verbatim>\<open>src/infrastructure/observability/telemetry.py\<close>: recorded metrics, alerts with their listeners, the
  health check and the provider drills. Floating point values are a type \<open>'f\<close> with the operations the
  code applies; clock texts are arguments. A listener is a name: what it does, and whether it raises,
  does not influence the registry, so only the order of the notifications is kept.
\<close>

section \<open>Data\<close>

datatype severity = P1_CRITICAL | P2_HIGH | P3_WARNING

fun severity_value :: "severity \<Rightarrow> string" where
  "severity_value P1_CRITICAL = ''P1_CRITICAL''"
| "severity_value P2_HIGH = ''P2_HIGH''"
| "severity_value P3_WARNING = ''P3_WARNING''"

record 'f alert_event =
  al_alert_id :: string
  al_tenant_id :: string
  al_metric_name :: string
  al_severity :: severity
  al_message :: string
  al_current_value :: 'f
  al_threshold_value :: 'f
  al_timestamp_utc :: string
  al_runbook_url :: string

record 'f telemetry =
  tm_metrics :: "(string \<times> (time \<times> 'f \<times> tags) list) list"
  tm_alerts :: "'f alert_event list"
  tm_listeners :: "string list"
  tm_notified :: "(string \<times> 'f alert_event) list"

record 'f floats =
  ff_zero :: 'f
  ff_add :: "'f \<Rightarrow> 'f \<Rightarrow> 'f"
  ff_of_int :: "int \<Rightarrow> 'f"
  ff_sort :: "'f list \<Rightarrow> 'f list"
  ff_rank :: "'f \<Rightarrow> nat \<Rightarrow> int"
  ff_failures :: "int \<Rightarrow> 'f \<Rightarrow> int"
  ff_at_least_20 :: "'f \<Rightarrow> bool"
  ff_20 :: 'f
  ff_percent :: "'f \<Rightarrow> string"

definition new_telemetry :: "'f telemetry" where
  "new_telemetry = \<lparr>tm_metrics = [], tm_alerts = [], tm_listeners = [], tm_notified = []\<rparr>"

section \<open>Metrics\<close>

definition metric_entries :: "'f telemetry \<Rightarrow> string \<Rightarrow> (time \<times> 'f \<times> tags) list" where
  "metric_entries tm name = (case map_of (tm_metrics tm) name of None \<Rightarrow> [] | Some es \<Rightarrow> es)"

definition record_counter :: "time \<Rightarrow> string \<Rightarrow> 'f \<Rightarrow> tags \<Rightarrow> 'f telemetry \<Rightarrow> 'f telemetry" where
  "record_counter now name v tags tm =
     tm\<lparr>tm_metrics := AList.update name (metric_entries tm name @ [(now, v, tags)]) (tm_metrics tm)\<rparr>"

definition record_latency :: "time \<Rightarrow> string \<Rightarrow> 'f \<Rightarrow> tags \<Rightarrow> 'f telemetry \<Rightarrow> 'f telemetry" where
  "record_latency now name latency_ms tags tm =
     tm\<lparr>tm_metrics := AList.update name (metric_entries tm name @ [(now, latency_ms, tags)]) (tm_metrics tm)\<rparr>"

definition tags_match :: "tags \<Rightarrow> tags \<Rightarrow> bool" where
  "tags_match tag_filter tags = list_all (\<lambda>(k, v). map_of tags k = Some v) tag_filter"

definition get_metric_sum :: "'f floats \<Rightarrow> string \<Rightarrow> tags \<Rightarrow> 'f telemetry \<Rightarrow> 'f" where
  "get_metric_sum ff name tag_filter tm =
     fold (\<lambda>(_, v, tags) total. if tags_match tag_filter tags then ff_add ff total v else total)
       (metric_entries tm name) (ff_zero ff)"

definition get_metric_count :: "string \<Rightarrow> tags \<Rightarrow> 'f telemetry \<Rightarrow> nat" where
  "get_metric_count name tag_filter tm =
     length (filter (\<lambda>(_, _, tags). tags_match tag_filter tags) (metric_entries tm name))"

text \<open>\<open>xs[i]\<close>; \<open>None\<close> is an \<open>IndexError\<close>.\<close>

definition py_index :: "'a list \<Rightarrow> int \<Rightarrow> 'a option" where
  "py_index xs i =
     (if 0 \<le> i \<and> i < int (length xs) then Some (xs ! nat i)
      else if i < 0 \<and> - i \<le> int (length xs) then Some (xs ! nat (int (length xs) + i)) else None)"

definition get_latency_percentile :: "'f floats \<Rightarrow> string \<Rightarrow> 'f \<Rightarrow> 'f telemetry \<Rightarrow> 'f option" where
  "get_latency_percentile ff name percentile tm =
     (let entries = metric_entries tm name
      in if entries = [] then Some (ff_zero ff)
         else (let values = ff_sort ff (map (\<lambda>(_, v, _). v) entries)
               in py_index values (min (ff_rank ff percentile (length values)) (int (length values) - 1))))"

section \<open>Alerts\<close>

definition add_alert_listener :: "string \<Rightarrow> 'f telemetry \<Rightarrow> 'f telemetry" where
  "add_alert_listener l tm = tm\<lparr>tm_listeners := tm_listeners tm @ [l]\<rparr>"

definition alert_id :: "nat \<Rightarrow> string" where
  "alert_id n = ''alt-'' @ zfill 4 (show_nat n)"

definition trigger_alert ::
  "string \<Rightarrow> string \<Rightarrow> string \<Rightarrow> severity \<Rightarrow> string \<Rightarrow> 'f \<Rightarrow> 'f \<Rightarrow> string \<Rightarrow> 'f telemetry \<Rightarrow> 'f alert_event \<times> 'f telemetry" where
  "trigger_alert now tenant name severity message current threshold url tm =
     (let event = \<lparr>al_alert_id = alert_id (length (tm_alerts tm) + 1), al_tenant_id = tenant, al_metric_name = name,
            al_severity = severity, al_message = message, al_current_value = current, al_threshold_value = threshold,
            al_timestamp_utc = now, al_runbook_url = url\<rparr>
      in (event, tm\<lparr>tm_alerts := tm_alerts tm @ [event],
            tm_notified := tm_notified tm @ map (\<lambda>l. (l, event)) (tm_listeners tm)\<rparr>))"

definition get_active_alerts :: "severity option \<Rightarrow> 'f telemetry \<Rightarrow> 'f alert_event list" where
  "get_active_alerts min_severity tm =
     (case min_severity of
        None \<Rightarrow> tm_alerts tm
      | Some s \<Rightarrow> filter (\<lambda>a. al_severity a = s) (tm_alerts tm))"

record health =
  hl_status :: string
  hl_p1_alerts_count :: nat
  hl_p2_alerts_count :: nat
  hl_p3_alerts_count :: nat
  hl_metrics_tracked :: "string list"

definition evaluate_system_health :: "'f telemetry \<Rightarrow> health" where
  "evaluate_system_health tm =
     (let p1 = length (get_active_alerts (Some P1_CRITICAL) tm);
          p2 = length (get_active_alerts (Some P2_HIGH) tm)
      in \<lparr>hl_status = (if p1 > 0 then ''CRITICAL'' else if p2 > 0 then ''DEGRADED'' else ''HEALTHY''),
          hl_p1_alerts_count = p1, hl_p2_alerts_count = p2,
          hl_p3_alerts_count = length (get_active_alerts (Some P3_WARNING) tm),
          hl_metrics_tracked = map fst (tm_metrics tm)\<rparr>)"

section \<open>Drills\<close>

record drill_env =
  de_time :: time
  de_now :: string

datatype 'f drill_result =
    DrillSuccess int
  | DrillVariance int
  | DrillAlerted 'f
  | DrillNormal 'f

definition execute_bank_reconciliation_drill ::
  "'f floats \<Rightarrow> drill_env \<Rightarrow> string \<Rightarrow> int \<Rightarrow> int \<Rightarrow> int \<Rightarrow> 'f telemetry \<Rightarrow> 'f drill_result \<times> 'f telemetry" where
  "execute_bank_reconciliation_drill ff env tenant matched unmatched variance tm =
     (let tm1 = record_counter (de_time env) ''bank.reconciliation.matched'' (ff_of_int ff matched) [(''tenant_id'', tenant)] tm;
          tm2 = record_counter (de_time env) ''bank.reconciliation.unmatched'' (ff_of_int ff unmatched) [(''tenant_id'', tenant)] tm1
      in if variance \<noteq> 0 then
           (DrillVariance variance, snd (trigger_alert (de_now env) tenant ''ledger.unreconciled_variance'' P1_CRITICAL
              (''Unreconciled bank ledger variance detected: '' @ show_int variance @ '' scaled units.'')
              (ff_of_int ff variance) (ff_zero ff) ''https://docs.pettyflow.internal/runbooks/ledger-variance'' tm2))
         else (DrillSuccess matched, tm2))"

definition execute_retry_storm_drill ::
  "'f floats \<Rightarrow> drill_env \<Rightarrow> string \<Rightarrow> int \<Rightarrow> 'f \<Rightarrow> 'f telemetry \<Rightarrow> 'f drill_result \<times> 'f telemetry" where
  "execute_retry_storm_drill ff env tenant attempted failure_rate tm =
     (let failures = ff_failures ff attempted failure_rate;
          tm1 = record_counter (de_time env) ''disbursement.requests.total'' (ff_of_int ff attempted) [(''tenant_id'', tenant)] tm;
          tm2 = record_counter (de_time env) ''disbursement.requests.failed'' (ff_of_int ff failures) [(''tenant_id'', tenant)] tm1
      in if ff_at_least_20 ff failure_rate then
           (DrillAlerted failure_rate, snd (trigger_alert (de_now env) tenant ''provider.failure_rate'' P2_HIGH
              (''High provider failure rate detected: '' @ ff_percent ff failure_rate @ ''%.'')
              failure_rate (ff_20 ff) ''https://docs.pettyflow.internal/runbooks/provider-outage'' tm2))
         else (DrillNormal failure_rate, tm2))"

section \<open>Histories\<close>

datatype 'f telemetry_op =
    Counted time string 'f tags
  | Timed time string 'f tags
  | Listen string
  | Alerted string string string severity string 'f 'f string
  | BankDrill drill_env string int int int
  | StormDrill drill_env string int 'f

fun telemetry_step :: "'f floats \<Rightarrow> 'f telemetry_op \<Rightarrow> 'f telemetry \<Rightarrow> 'f telemetry" where
  "telemetry_step ff (Counted now name v tags) tm = record_counter now name v tags tm"
| "telemetry_step ff (Timed now name v tags) tm = record_latency now name v tags tm"
| "telemetry_step ff (Listen l) tm = add_alert_listener l tm"
| "telemetry_step ff (Alerted now tenant name s message v lim url) tm =
     snd (trigger_alert now tenant name s message v lim url tm)"
| "telemetry_step ff (BankDrill env tenant m u v) tm = snd (execute_bank_reconciliation_drill ff env tenant m u v tm)"
| "telemetry_step ff (StormDrill env tenant n rate) tm = snd (execute_retry_storm_drill ff env tenant n rate tm)"

text \<open>The alert each operation calls for, with the id of the \<open>n\<close>-th alert: a call of \<open>trigger_alert\<close> the one it names,
  a drill on an unreconciled variance one of P1 and a drill on a failure rate above the limit one of P2,
  both for the tenant of the drill, with the measured value and its limit.\<close>

definition the_alert ::
  "nat \<Rightarrow> string \<Rightarrow> string \<Rightarrow> string \<Rightarrow> severity \<Rightarrow> string \<Rightarrow> 'f \<Rightarrow> 'f \<Rightarrow> string \<Rightarrow> 'f alert_event" where
  "the_alert n now tenant name severity message v lim url = \<lparr>al_alert_id = alert_id n, al_tenant_id = tenant,
     al_metric_name = name, al_severity = severity, al_message = message, al_current_value = v,
     al_threshold_value = lim, al_timestamp_utc = now, al_runbook_url = url\<rparr>"

fun called_for :: "'f floats \<Rightarrow> ('f \<Rightarrow> bool) \<Rightarrow> nat \<Rightarrow> 'f telemetry_op \<Rightarrow> 'f alert_event list" where
  "called_for ff exceeds n (Alerted now tenant name s message v lim url) =
     [the_alert n now tenant name s message v lim url]"
| "called_for ff exceeds n (BankDrill env tenant m u v) =
     (if v = 0 then [] else [the_alert n (de_now env) tenant ''ledger.unreconciled_variance'' P1_CRITICAL
        (''Unreconciled bank ledger variance detected: '' @ show_int v @ '' scaled units.'') (ff_of_int ff v) (ff_zero ff)
        ''https://docs.pettyflow.internal/runbooks/ledger-variance''])"
| "called_for ff exceeds n (StormDrill env tenant k rate) =
     (if exceeds rate then [the_alert n (de_now env) tenant ''provider.failure_rate'' P2_HIGH
        (''High provider failure rate detected: '' @ ff_percent ff rate @ ''%.'') rate (ff_20 ff)
        ''https://docs.pettyflow.internal/runbooks/provider-outage''] else [])"
| "called_for ff exceeds n _ = []"

fun new_listeners :: "'f telemetry_op \<Rightarrow> string list" where
  "new_listeners (Listen l) = [l]" | "new_listeners _ = []"

text \<open>All alerts of a history, and who hears of each: the listeners added before it.\<close>

fun all_called_for :: "'f floats \<Rightarrow> ('f \<Rightarrow> bool) \<Rightarrow> nat \<Rightarrow> 'f telemetry_op list \<Rightarrow> 'f alert_event list" where
  "all_called_for ff exceeds n [] = []"
| "all_called_for ff exceeds n (op1 # ops) =
     called_for ff exceeds n op1 @ all_called_for ff exceeds (n + length (called_for ff exceeds n op1)) ops"

fun all_notified ::
  "'f floats \<Rightarrow> ('f \<Rightarrow> bool) \<Rightarrow> nat \<Rightarrow> string list \<Rightarrow> 'f telemetry_op list \<Rightarrow> (string \<times> 'f alert_event) list" where
  "all_notified ff exceeds n ls [] = []"
| "all_notified ff exceeds n ls (op1 # ops) =
     concat (map (\<lambda>a. map (\<lambda>l. (l, a)) ls) (called_for ff exceeds n op1)) @
     all_notified ff exceeds (n + length (called_for ff exceeds n op1)) (ls @ new_listeners op1) ops"

text \<open>The runbook and the comment say above 20 percent, the code alerts from 20 percent on; this leaves the rate itself out.\<close>

fun off_limit :: "'f floats \<Rightarrow> 'f telemetry_op \<Rightarrow> bool" where
  "off_limit ff (StormDrill env tenant k rate) = (rate \<noteq> ff_20 ff)"
| "off_limit ff _ = True"

definition float_order :: "'f floats \<Rightarrow> ('f \<Rightarrow> bool) \<Rightarrow> bool" where
  "float_order ff exceeds \<longleftrightarrow> (\<forall>r. ff_at_least_20 ff r \<longleftrightarrow> exceeds r \<or> r = ff_20 ff)"

lemma record_counter_alerts [simp]:
  "tm_alerts (record_counter now name v tags tm) = tm_alerts tm" "tm_alerts (record_latency now name v tags tm) = tm_alerts tm"
  "tm_listeners (record_counter now name v tags tm) = tm_listeners tm" "tm_listeners (record_latency now name v tags tm) = tm_listeners tm"
  "tm_notified (record_counter now name v tags tm) = tm_notified tm" "tm_notified (record_latency now name v tags tm) = tm_notified tm"
  by (simp_all add: record_counter_def record_latency_def)

lemma alert_id_inject [simp]: "alert_id m = alert_id n \<longleftrightarrow> m = n"
  by (simp add: alert_id_def)

text \<open>A step files the alert it calls for, numbered by its position, and sends it to every listener once.\<close>

lemma telemetry_step_alerts:
  assumes "float_order ff exceeds" "off_limit ff op1"
  shows "tm_alerts (telemetry_step ff op1 tm) =
      tm_alerts tm @ called_for ff exceeds (Suc (length (tm_alerts tm))) op1"
    "tm_notified (telemetry_step ff op1 tm) = tm_notified tm @
      concat (map (\<lambda>a. map (\<lambda>l. (l, a)) (tm_listeners tm)) (called_for ff exceeds (Suc (length (tm_alerts tm))) op1))"
    "tm_listeners (telemetry_step ff op1 tm) = tm_listeners tm @ new_listeners op1"
  using assms
  by (cases op1; simp add: trigger_alert_def add_alert_listener_def execute_bank_reconciliation_drill_def
      execute_retry_storm_drill_def the_alert_def float_order_def Let_def)+

definition telemetry_run :: "'f floats \<Rightarrow> 'f telemetry_op list \<Rightarrow> 'f telemetry \<Rightarrow> 'f telemetry" where
  "telemetry_run ff ops tm = fold (telemetry_step ff) ops tm"

lemma telemetry_run_alerts:
  assumes "float_order ff exceeds" "list_all (off_limit ff) ops"
  shows "tm_alerts (telemetry_run ff ops tm) = tm_alerts tm @ all_called_for ff exceeds (Suc (length (tm_alerts tm))) ops"
    "tm_notified (telemetry_run ff ops tm) =
      tm_notified tm @ all_notified ff exceeds (Suc (length (tm_alerts tm))) (tm_listeners tm) ops"
  using assms(2)
  by (induction ops arbitrary: tm) (simp_all add: telemetry_run_def telemetry_step_alerts [OF assms(1)])

lemma called_for_ids: "map al_alert_id (called_for ff exceeds n op1) = map alert_id [n..<n + length (called_for ff exceeds n op1)]"
  by (cases op1) (simp_all add: the_alert_def)

lemma all_called_for_ids:
  "map al_alert_id (all_called_for ff exceeds n ops) = map alert_id [n..<n + length (all_called_for ff exceeds n ops)]"
proof (induction ops arbitrary: n)
  case (Cons op1 ops)
  have "[n..<n + k + m] = [n..<n + k] @ [n + k..<n + k + m]" for k m
    using upt_add_eq_append [of n "n + k" m] by simp
  then show ?case
    by (simp only: all_called_for.simps map_append length_append called_for_ids Cons.IH add.assoc [symmetric])
qed simp

text \<open>C38. After any operations the alerts on file are exactly those the operations called for, in order, each with its
  tenant, metric, severity, message, value, limit and time, and numbered alt-0001, alt-0002, and so on
  without repetition; every listener added before an alert is notified of it exactly once, in order. The
  health is CRITICAL when an alert of P1 is among them, else DEGRADED when one of P2 is, else HEALTHY. Drills
  at a failure rate of exactly 20 percent are left out, and the comparison of floats is an order.\<close>

theorem health_reports_alerts:
  assumes "float_order ff exceeds" "list_all (off_limit ff) ops" "tm = telemetry_run ff ops new_telemetry"
  shows "tm_alerts tm = all_called_for ff exceeds 1 ops \<and> tm_notified tm = all_notified ff exceeds 1 [] ops \<and>
    map al_alert_id (tm_alerts tm) = map alert_id [1..<Suc (length (tm_alerts tm))] \<and>
    distinct (map al_alert_id (tm_alerts tm)) \<and>
    hl_status (evaluate_system_health tm) =
      (if P1_CRITICAL \<in> al_severity ` set (all_called_for ff exceeds 1 ops) then ''CRITICAL''
       else if P2_HIGH \<in> al_severity ` set (all_called_for ff exceeds 1 ops) then ''DEGRADED'' else ''HEALTHY'')"
proof -
  have run: "tm_alerts tm = all_called_for ff exceeds 1 ops" "tm_notified tm = all_notified ff exceeds 1 [] ops"
    using telemetry_run_alerts [OF assms(1,2), of new_telemetry] assms(3) by (simp_all add: new_telemetry_def)
  have ids: "map al_alert_id (tm_alerts tm) = map alert_id [1..<Suc (length (tm_alerts tm))]"
    using all_called_for_ids [of ff exceeds 1 ops] by (simp add: run)
  moreover have "distinct (map alert_id [1..<k])" for k by (simp add: distinct_map inj_on_def)
  moreover have filed: "0 < length (filter (\<lambda>a. al_severity a = s) as) \<longleftrightarrow> s \<in> al_severity ` set as"
    for s and as :: "'a alert_event list"
    by (auto simp: filter_empty_conv)
  have "hl_status (evaluate_system_health tm) =
      (if P1_CRITICAL \<in> al_severity ` set (tm_alerts tm) then ''CRITICAL''
       else if P2_HIGH \<in> al_severity ` set (tm_alerts tm) then ''DEGRADED'' else ''HEALTHY'')"
    by (simp add: evaluate_system_health_def get_active_alerts_def Let_def filed del: length_greater_0_conv)
  ultimately show ?thesis using run by (simp only: simp_thms)
qed

text \<open>Filtering by a least severity drops what is more severe.\<close>

theorem least_severity_drops_critical:
  assumes "a \<in> set (tm_alerts tm)" "al_severity a = P1_CRITICAL"
  shows "a \<notin> set (get_active_alerts (Some P2_HIGH) tm)"
  using assms by (simp add: get_active_alerts_def)

lemma percentile_is_recorded:
  assumes "\<forall>vs. mset (ff_sort ff vs) = mset vs" "0 \<le> ff_rank ff p (length (metric_entries tm name))" "metric_entries tm name \<noteq> []"
  shows "\<exists>v. get_latency_percentile ff name p tm = Some v \<and> v \<in> (\<lambda>(_, v, _). v) ` set (metric_entries tm name)"
proof -
  let ?vs = "map (\<lambda>(_, v, _). v) (metric_entries tm name)"
  have l: "length (ff_sort ff ?vs) = length (metric_entries tm name)" "set (ff_sort ff ?vs) = set ?vs"
    using assms(1) by (metis length_map mset_eq_length) (metis assms(1) set_mset_mset)
  define k where "k = nat (min (ff_rank ff p (length (metric_entries tm name))) (int (length (metric_entries tm name)) - 1))"
  have k: "k < length (metric_entries tm name)" using assms(2,3) unfolding k_def length_greater_0_conv [symmetric] by linarith
  then have "ff_sort ff ?vs ! k \<in> set ?vs" using l nth_mem by metis
  moreover have "get_latency_percentile ff name p tm = Some (ff_sort ff ?vs ! k)"
    using assms(2,3) l(1) by (auto simp: get_latency_percentile_def py_index_def Let_def k_def)
  ultimately show ?thesis by auto
qed

definition demo_floats :: "int floats" where
  "demo_floats = \<lparr>ff_zero = 0, ff_add = (+), ff_of_int = id, ff_sort = sort, ff_rank = (\<lambda>p n. p * int n div 100),
     ff_failures = (\<lambda>n r. n * r div 100), ff_at_least_20 = (\<lambda>r. 20 \<le> r), ff_20 = 20, ff_percent = show_int\<rparr>"

definition demo_telemetry_ops :: "int telemetry_op list" where
  "demo_telemetry_ops = [Listen ''pager'', StormDrill \<lparr>de_time = 0, de_now = ''n''\<rparr> ''t'' 10 30,
     BankDrill \<lparr>de_time = 1, de_now = ''n''\<rparr> ''u'' 5 1 7]"

theorem health_reports_alerts_witness:
  "map al_tenant_id (tm_alerts (telemetry_run demo_floats demo_telemetry_ops new_telemetry)) = [''t'', ''u''] \<and>
   map fst (tm_notified (telemetry_run demo_floats demo_telemetry_ops new_telemetry)) = [''pager'', ''pager''] \<and>
   hl_status (evaluate_system_health (telemetry_run demo_floats demo_telemetry_ops new_telemetry)) = ''CRITICAL''"
proof -
  have "float_order demo_floats (\<lambda>r. 20 < r)" "list_all (off_limit demo_floats) demo_telemetry_ops"
    by (auto simp: float_order_def demo_floats_def demo_telemetry_ops_def)
  from health_reports_alerts [OF this refl] show ?thesis by (simp add: demo_telemetry_ops_def the_alert_def)
qed

end
