(* ===== verification/Migrations.thy ===== *)
theory Migrations
  imports Regex
begin

text \<open>
  \<^verbatim>\<open>src/infrastructure/migrations/engine.py\<close>: discovery of migration scripts, their adaptation to
  SQLite, dry runs, application and rollback under savepoints, and the ledger snapshots. What a
  single SQL statement of a script does to the connection is the parameter \<open>run\<close>; the digest is \<open>sha\<close>.
\<close>

section \<open>Scripts\<close>

record sql_file =
  sq_name :: string
  sq_bytes :: string
  sq_text :: string

record migration =
  mg_version :: nat
  mg_name :: string
  mg_up :: sql_file
  mg_down :: "sql_file option"

definition version_tag :: "migration \<Rightarrow> string" where
  "version_tag m = ''V'' @ zfill 3 (show_nat (mg_version m))"

definition script_pattern :: "string \<Rightarrow> rx" where
  "script_pattern letter = rx_seq [rx_word letter, RGroup 1 (rx_some is_digit), rx_word ''__'',
     RGroup 2 (rx_some (\<lambda>c. c \<noteq> CHR 0x0A)), rx_word ''.sql'', REnd]"

text \<open>The version and the name of a script's file name.\<close>

definition script_parts :: "string \<Rightarrow> string \<Rightarrow> (nat \<times> string) option" where
  "script_parts letter name =
     (case rx_match (script_pattern letter) None name of
        None \<Rightarrow> None
      | Some (_, _, gs) \<Rightarrow>
        (case (map_of gs 1, map_of gs 2) of (Some v, Some n) \<Rightarrow> Some (read_nat v, n) | _ \<Rightarrow> None))"

definition scan_file ::
  "sql_file \<Rightarrow> (nat \<times> string \<times> sql_file) list \<times> (nat \<times> sql_file) list \<Rightarrow>
   (nat \<times> string \<times> sql_file) list \<times> (nat \<times> sql_file) list" where
  "scan_file f s = (case s of (up_files, down_files) \<Rightarrow>
     (case script_parts ''V'' (sq_name f) of
        Some (v, name) \<Rightarrow> (AList.update v (name, f) up_files, down_files)
      | None \<Rightarrow>
        (case script_parts ''U'' (sq_name f) of
           Some (v, _) \<Rightarrow> (up_files, AList.update v f down_files)
         | None \<Rightarrow> (up_files, down_files))))"

text \<open>The files the directory yields for \<open>*.sql\<close>, in its order.\<close>

definition discover_migrations :: "sql_file list \<Rightarrow> migration list" where
  "discover_migrations files =
     (case fold scan_file files ([], []) of (up_files, down_files) \<Rightarrow>
        map (\<lambda>(v, name, f). \<lparr>mg_version = v, mg_name = name, mg_up = f, mg_down = map_of down_files v\<rparr>)
          (sort_key fst up_files))"

section \<open>Statements of a script\<close>

definition line_break :: "char \<Rightarrow> bool" where
  "line_break c = (char_code c \<in> {10, 11, 12, 13, 28, 29, 30, 133})"

fun lines_from :: "bool \<Rightarrow> string \<Rightarrow> string \<Rightarrow> string list" where
  "lines_from after_cr cur [] = (if cur = [] then [] else [cur])"
| "lines_from after_cr cur (c # s) =
     (if after_cr \<and> c = CHR 0x0A then lines_from False cur s
      else if line_break c then cur # lines_from (c = CHR 0x0D) [] s
      else lines_from False (cur @ [c]) s)"

definition py_splitlines :: "string \<Rightarrow> string list" where
  "py_splitlines s = lines_from False [] s"

definition add_statement :: "string list \<Rightarrow> string list \<Rightarrow> string list" where
  "add_statement current statements =
     (let stmt = py_strip (join [CHR 0x0A] current) in if stmt \<noteq> [] then statements @ [stmt] else statements)"

definition script_line :: "string \<Rightarrow> string list \<times> string list \<Rightarrow> string list \<times> string list" where
  "script_line line s = (case s of (statements, current) \<Rightarrow>
     (let stripped = py_strip line
      in if take 2 stripped = ''--'' \<or> stripped = [] then (statements, current)
         else if last stripped = CHR '';'' then (add_statement (current @ [line]) statements, [])
         else (statements, current @ [line])))"

definition script_statements :: "string \<Rightarrow> string list" where
  "script_statements sql_script =
     (case fold script_line (py_splitlines sql_script) ([], []) of (statements, current) \<Rightarrow>
        if current \<noteq> [] then add_statement current statements else statements)"

definition clean_statement :: "string \<Rightarrow> string" where
  "clean_statement stmt = py_strip (rev (dropWhile (\<lambda>c. c = CHR '';'') (rev stmt)))"

definition executed_statements :: "string \<Rightarrow> string list" where
  "executed_statements sql_script = filter (\<lambda>s. s \<noteq> []) (map clean_statement (script_statements sql_script))"

section \<open>From PostgreSQL to SQLite\<close>

definition not_semi :: "char \<Rightarrow> bool" where
  "not_semi c = (c \<noteq> CHR '';'')"

definition drop_match :: "(nat \<times> string) list \<Rightarrow> string" where
  "drop_match gs = []"

definition word_sub :: "string \<Rightarrow> string \<Rightarrow> string \<Rightarrow> string" where
  "word_sub from to_text s = rx_sub (rx_seq [RBound, rx_word_ci from, RBound]) (\<lambda>_. to_text) None s"

definition adapt_postgres_script_to_sqlite :: "string \<Rightarrow> string" where
  "adapt_postgres_script_to_sqlite sql0 =
     (let sql1 = rx_sub (rx_seq [rx_word_ci ''DO'', rx_some is_space, rx_word ''$$'', RSet (\<lambda>_. True) 0 None False, rx_word ''$$;''])
            drop_match None sql0;
          sql2 = rx_sub (rx_seq [rx_word_ci ''CREATE'', rx_some is_space, rx_word_ci ''EXTENSION'', rx_some not_semi, rx_word '';''])
            drop_match None sql1;
          sql3 = rx_sub (rx_seq [rx_word_ci ''CREATE'', rx_some is_space, rx_word_ci ''TABLE'', rx_some not_semi,
              rx_word_ci ''PARTITION'', rx_some is_space, rx_word_ci ''OF'', rx_some not_semi, rx_word '';''])
            drop_match None sql2;
          sql4 = rx_sub (rx_seq [rx_word_ci ''PARTITION'', rx_some is_space, rx_word_ci ''BY'', rx_some is_space,
              rx_some not_semi, RAhead (\<lambda>c. c = CHR '';'')])
            drop_match None sql3;
          sql5 = rx_sub (rx_seq [rx_word ''::'', rx_some is_word]) drop_match None sql4;
          sql6 = word_sub ''UUID'' ''TEXT'' sql5;
          sql7 = word_sub ''TIMESTAMPTZ'' ''TEXT'' sql6;
          sql8 = word_sub ''JSONB'' ''TEXT'' sql7;
          sql9 = word_sub ''BYTEA'' ''BLOB'' sql8;
          sql10 = rx_sub (rx_seq [rx_word_ci ''DEFAULT'', rx_some is_space, rx_word_ci ''uuid_generate_v4'', rx_word ''()''])
            drop_match None sql9
      in rx_sub (rx_seq [RGroup 1 (rx_seq [rx_word_ci ''DROP'', rx_some is_space, rx_word_ci ''TABLE'', rx_some not_semi]),
             RBound, rx_word_ci ''CASCADE'', RBound])
           (\<lambda>gs. case map_of gs 1 of Some g \<Rightarrow> g | None \<Rightarrow> []) None sql10)"

section \<open>The connection\<close>

datatype migration_status = PENDING | APPLIED | ROLLED_BACK | FAILED

record migration_row =
  mw_name :: string
  mw_applied_at :: string
  mw_checksum :: string
  mw_status :: migration_status

record 's database =
  db_tables :: 's
  db_migrations :: "(nat \<times> migration_row) list"

text \<open>What the connection sees, what is committed, and the open savepoints, the innermost first.\<close>

record 's conn =
  cn_now :: "'s database"
  cn_durable :: "'s database"
  cn_savepoints :: "(string \<times> 's database) list"

type_synonym 's sql = "string \<Rightarrow> 's conn \<Rightarrow> string option \<times> 's conn"

definition savepoint :: "string \<Rightarrow> 's conn \<Rightarrow> 's conn" where
  "savepoint n c = c\<lparr>cn_savepoints := (n, cn_now c) # cn_savepoints c\<rparr>"

text \<open>\<open>ROLLBACK TO\<close> keeps the savepoint it restores; \<open>RELEASE\<close> of the outermost one commits.\<close>

definition rollback_to :: "string \<Rightarrow> 's conn \<Rightarrow> 's conn option" where
  "rollback_to n c =
     (case dropWhile (\<lambda>p. fst p \<noteq> n) (cn_savepoints c) of
        [] \<Rightarrow> None
      | (m, d) # rest \<Rightarrow> Some (c\<lparr>cn_now := d, cn_savepoints := (m, d) # rest\<rparr>))"

definition release :: "string \<Rightarrow> 's conn \<Rightarrow> 's conn option" where
  "release n c =
     (case dropWhile (\<lambda>p. fst p \<noteq> n) (cn_savepoints c) of
        [] \<Rightarrow> None
      | _ # rest \<Rightarrow> Some (if rest = [] then c\<lparr>cn_savepoints := [], cn_durable := cn_now c\<rparr>
                         else c\<lparr>cn_savepoints := rest\<rparr>))"

definition commit :: "'s conn \<Rightarrow> 's conn" where
  "commit c = c\<lparr>cn_savepoints := [], cn_durable := cn_now c\<rparr>"

fun execute_statements :: "'s sql \<Rightarrow> string list \<Rightarrow> 's conn \<Rightarrow> string option \<times> 's conn" where
  "execute_statements run [] c = (None, c)"
| "execute_statements run (s # ss) c =
     (case run s c of (Some e, c') \<Rightarrow> (Some e, c') | (None, c') \<Rightarrow> execute_statements run ss c')"

definition execute_script_atomically :: "'s sql \<Rightarrow> string \<Rightarrow> 's conn \<Rightarrow> string option \<times> 's conn" where
  "execute_script_atomically run sql_script c = execute_statements run (executed_statements sql_script) c"

section \<open>The engine\<close>

datatype migration_error =
    ApplyFailed string string
  | NoUndoScript string
  | RollbackFailed string string
  | SavepointLost

definition get_applied_versions :: "'s conn \<Rightarrow> nat list" where
  "get_applied_versions c =
     map fst (filter (\<lambda>(_, row). mw_status row = APPLIED) (sort_key fst (db_migrations (cn_now c))))"

definition dry_run_migration :: "'s sql \<Rightarrow> migration \<Rightarrow> 's conn \<Rightarrow> (migration_error + bool \<times> string) \<times> 's conn" where
  "dry_run_migration run m c =
     (let clean_script = adapt_postgres_script_to_sqlite (sq_text (mg_up m));
          (err, c1) = execute_script_atomically run clean_script (savepoint ''dry_run_migration'' c)
      in case rollback_to ''dry_run_migration'' c1 of
        None \<Rightarrow> (Inl SavepointLost, c1)
      | Some c2 \<Rightarrow>
        (case err of
           None \<Rightarrow> (Inr (True, ''Dry-run for '' @ version_tag m @ '' succeeded.''), c2)
         | Some e \<Rightarrow> (Inr (False, ''Dry-run for '' @ version_tag m @ '' failed: '' @ e), c2)))"

definition abort :: "string \<Rightarrow> migration_error \<Rightarrow> 's conn \<Rightarrow> (migration_error + unit) \<times> 's conn" where
  "abort n e c = (case rollback_to n c of None \<Rightarrow> (Inl SavepointLost, c) | Some c' \<Rightarrow> (Inl e, c'))"

text \<open>The upsert of the tracking row, which keeps the name a version was first applied with. It cannot fail here:
  scripts leave the tracking table in place, and versions fit in 64 bits.\<close>

definition mark_applied :: "migration \<Rightarrow> string \<Rightarrow> string \<Rightarrow> 's database \<Rightarrow> 's database" where
  "mark_applied m now checksum d = d\<lparr>db_migrations := AList.update (mg_version m)
     (case map_of (db_migrations d) (mg_version m) of
        None \<Rightarrow> \<lparr>mw_name = mg_name m, mw_applied_at = now, mw_checksum = checksum, mw_status = APPLIED\<rparr>
      | Some row \<Rightarrow> row\<lparr>mw_status := APPLIED, mw_applied_at := now, mw_checksum := checksum\<rparr>)
     (db_migrations d)\<rparr>"

definition apply_migration ::
  "'s sql \<Rightarrow> (string \<Rightarrow> string) \<Rightarrow> string \<Rightarrow> migration \<Rightarrow> 's conn \<Rightarrow> (migration_error + unit) \<times> 's conn" where
  "apply_migration run sha now m c =
     (let checksum = sha (sq_bytes (mg_up m));
          clean_script = adapt_postgres_script_to_sqlite (sq_text (mg_up m))
      in case execute_script_atomically run clean_script (savepoint ''apply_tx'' c) of
        (Some e, c1) \<Rightarrow> abort ''apply_tx'' (ApplyFailed (version_tag m) e) c1
      | (None, c1) \<Rightarrow>
        (let c2 = c1\<lparr>cn_now := mark_applied m now checksum (cn_now c1)\<rparr>
         in case release ''apply_tx'' c2 of
           None \<Rightarrow> abort ''apply_tx'' (ApplyFailed (version_tag m) ''no such savepoint: apply_tx'') c2
         | Some c3 \<Rightarrow> (Inr (), commit c3)))"

definition mark_rolled_back :: "migration \<Rightarrow> 's database \<Rightarrow> 's database" where
  "mark_rolled_back m d = d\<lparr>db_migrations :=
     AList.map_entry (mg_version m) (\<lambda>row. row\<lparr>mw_status := ROLLED_BACK\<rparr>) (db_migrations d)\<rparr>"

definition rollback_migration ::
  "'s sql \<Rightarrow> (string \<Rightarrow> bool) \<Rightarrow> migration \<Rightarrow> 's conn \<Rightarrow> (migration_error + unit) \<times> 's conn" where
  "rollback_migration run exists_file m c =
     (case mg_down m of
        None \<Rightarrow> (Inl (NoUndoScript (version_tag m)), c)
      | Some f \<Rightarrow>
        (if \<not> exists_file (sq_name f) then (Inl (NoUndoScript (version_tag m)), c)
         else case execute_script_atomically run (adapt_postgres_script_to_sqlite (sq_text f)) (savepoint ''rollback_tx'' c) of
           (Some e, c1) \<Rightarrow> abort ''rollback_tx'' (RollbackFailed (version_tag m) e) c1
         | (None, c1) \<Rightarrow>
           (let c2 = c1\<lparr>cn_now := mark_rolled_back m (cn_now c1)\<rparr>
            in case release ''rollback_tx'' c2 of
              None \<Rightarrow> abort ''rollback_tx'' (RollbackFailed (version_tag m) ''no such savepoint: rollback_tx'') c2
            | Some c3 \<Rightarrow> (Inr (), commit c3))))"

section \<open>Ledger snapshots\<close>

record snapshot_posting =
  sp_tenant_id :: "string option"
  sp_entry_type :: string
  sp_amount_scaled :: scaled

record ledger_snapshot =
  ls_tenant_id :: string
  ls_total_debits_scaled :: scaled
  ls_total_credits_scaled :: scaled
  ls_postings_count :: nat
  ls_hash_chain_head :: string
  ls_timestamp_utc :: string

definition snapshot_balanced :: "ledger_snapshot \<Rightarrow> bool" where
  "snapshot_balanced s \<longleftrightarrow> ls_total_debits_scaled s = ls_total_credits_scaled s"

definition snapshot_digest :: "(string \<Rightarrow> string) \<Rightarrow> ledger_snapshot \<Rightarrow> string" where
  "snapshot_digest sha s = sha (utf8 (ls_tenant_id s @ '':'' @ show_int (ls_total_debits_scaled s) @ '':'' @
     show_int (ls_total_credits_scaled s) @ '':'' @ show_nat (ls_postings_count s) @ '':'' @ ls_hash_chain_head s))"

definition snapshot_step :: "string \<Rightarrow> snapshot_posting \<Rightarrow> scaled \<times> scaled \<times> nat \<Rightarrow> scaled \<times> scaled \<times> nat" where
  "snapshot_step tenant p s = (case s of (debits, credits, n) \<Rightarrow>
     (if sp_tenant_id p \<noteq> Some tenant then s
      else if py_upper (sp_entry_type p) = ''DEBIT'' then (debits + sp_amount_scaled p, credits, n + 1)
      else if py_upper (sp_entry_type p) = ''CREDIT'' then (debits, credits + sp_amount_scaled p, n + 1)
      else (debits, credits, n + 1)))"

definition compute_ledger_snapshot :: "string \<Rightarrow> string \<Rightarrow> snapshot_posting list \<Rightarrow> string \<Rightarrow> ledger_snapshot" where
  "compute_ledger_snapshot now tenant postings head =
     (case fold (snapshot_step tenant) postings (0, 0, 0) of (debits, credits, n) \<Rightarrow>
        \<lparr>ls_tenant_id = tenant, ls_total_debits_scaled = debits, ls_total_credits_scaled = credits,
         ls_postings_count = n, ls_hash_chain_head = head, ls_timestamp_utc = now\<rparr>)"

definition verify_state_continuity :: "ledger_snapshot \<Rightarrow> ledger_snapshot \<Rightarrow> bool" where
  "verify_state_continuity a b \<longleftrightarrow> ls_tenant_id a = ls_tenant_id b \<and>
     ls_total_debits_scaled a = ls_total_debits_scaled b \<and> ls_total_credits_scaled a = ls_total_credits_scaled b \<and>
     ls_postings_count a = ls_postings_count b \<and> ls_hash_chain_head a = ls_hash_chain_head b \<and>
     snapshot_balanced a \<and> snapshot_balanced b"

section \<open>Discovery\<close>

definition up_version :: "sql_file \<Rightarrow> nat option" where
  "up_version f = map_option fst (script_parts ''V'' (sq_name f))"

definition scan_ok :: "sql_file list \<Rightarrow> (nat \<times> string \<times> sql_file) list \<Rightarrow> bool" where
  "scan_ok files ups \<longleftrightarrow> distinct (map fst ups) \<and> fst ` set ups = {v. \<exists>f \<in> set files. up_version f = Some v} \<and>
     (\<forall>(v, name, f) \<in> set ups. f \<in> set files \<and> script_parts ''V'' (sq_name f) = Some (v, name))"

lemma scan_file_ok:
  assumes "scan_ok files ups" "scan_file f (ups, downs) = (ups', downs')"
  shows "scan_ok (files @ [f]) ups'"
proof (cases "script_parts ''V'' (sq_name f)")
  case None
  then have "ups' = ups" using assms(2) by (auto simp: scan_file_def split: option.splits)
  then show ?thesis using assms(1) None by (auto simp: scan_ok_def up_version_def)
next
  case (Some vn)
  obtain v name where vn: "vn = (v, name)" by (cases vn)
  then have ups': "ups' = AList.update v (name, f) ups" using assms(2) Some by (simp add: scan_file_def)
  have "set ups' \<subseteq> insert (v, name, f) (set ups)"
    unfolding ups' by (induction ups) auto
  moreover have "fst ` set ups' = insert v (fst ` set ups)"
    unfolding ups' by (simp add: dom_update)
  ultimately show ?thesis
    using assms(1) Some vn distinct_update [of ups v "(name, f)"]
    by (auto simp: scan_ok_def up_version_def ups')
qed

lemma scan_files_ok: "fst (fold scan_file files ([], [])) = ups \<Longrightarrow> scan_ok files ups"
proof (induction files arbitrary: ups rule: rev_induct)
  case Nil
  then show ?case by (simp add: scan_ok_def)
next
  case (snoc f files)
  then show ?case
    using scan_file_ok [of files "fst (fold scan_file files ([], []))" f "snd (fold scan_file files ([], []))"]
    by (metis fold_Cons fold_Nil fold_append comp_apply id_apply prod.collapse)
qed

text \<open>The discovered migrations have strictly increasing versions, one for each version some file name
  gives, and each is a file of the directory under the version and name its file name says.\<close>

theorem migrations_in_order:
  "sorted_wrt (<) (map mg_version (discover_migrations files)) \<and>
   set (map mg_version (discover_migrations files)) = {v. \<exists>f \<in> set files. up_version f = Some v} \<and>
   (\<forall>m \<in> set (discover_migrations files). mg_up m \<in> set files \<and>
      script_parts ''V'' (sq_name (mg_up m)) = Some (mg_version m, mg_name m))"
proof -
  obtain ups downs where fold: "fold scan_file files ([], []) = (ups, downs)" by (cases "fold scan_file files ([], [])")
  then have ok: "scan_ok files ups" by (intro scan_files_ok) simp
  have vs: "map mg_version (discover_migrations files) = map fst (sort_key fst ups)"
    by (auto simp: discover_migrations_def fold)
  have "distinct (map fst (sort_key fst ups))"
    using ok by (simp add: scan_ok_def distinct_map)
  then have "sorted_wrt (<) (map mg_version (discover_migrations files))"
    unfolding vs strict_sorted_iff by simp
  moreover have "set (map mg_version (discover_migrations files)) = {v. \<exists>f \<in> set files. up_version f = Some v}"
    unfolding vs using ok by (simp add: scan_ok_def)
  moreover have "mg_up m \<in> set files \<and> script_parts ''V'' (sq_name (mg_up m)) = Some (mg_version m, mg_name m)"
    if "m \<in> set (discover_migrations files)" for m
    using that ok by (auto simp: discover_migrations_def fold scan_ok_def)
  ultimately show ?thesis by blast
qed

section \<open>Atomicity\<close>

text \<open>Statements without transaction control act on what the connection sees, and on nothing else.\<close>

definition plain_script :: "'s sql \<Rightarrow> (string \<Rightarrow> 's database \<Rightarrow> string option \<times> 's database) \<Rightarrow> string \<Rightarrow> bool" where
  "plain_script run f txs \<longleftrightarrow> (\<forall>s \<in> set (executed_statements (adapt_postgres_script_to_sqlite txs)). \<forall>c.
     run s c = (fst (f s (cn_now c)), c\<lparr>cn_now := snd (f s (cn_now c))\<rparr>))"

fun apply_all :: "(string \<Rightarrow> 's database \<Rightarrow> string option \<times> 's database) \<Rightarrow> string list \<Rightarrow> 's database \<Rightarrow> string option \<times> 's database" where
  "apply_all f [] d = (None, d)"
| "apply_all f (s # ss) d = (case f s d of (Some e, d') \<Rightarrow> (Some e, d') | (None, d') \<Rightarrow> apply_all f ss d')"

lemma execute_plain:
  assumes "\<forall>s \<in> set ss. \<forall>c. run s c = (fst (f s (cn_now c)), c\<lparr>cn_now := snd (f s (cn_now c))\<rparr>)"
  shows "execute_statements run ss c = (fst (apply_all f ss (cn_now c)), c\<lparr>cn_now := snd (apply_all f ss (cn_now c))\<rparr>)"
  using assms
proof (induction ss arbitrary: c)
  case (Cons s ss)
  then show ?case by (cases "f s (cn_now c)"; cases "fst (f s (cn_now c))") auto
qed simp

lemma execute_script_plain:
  "plain_script run f txs \<Longrightarrow> execute_script_atomically run (adapt_postgres_script_to_sqlite txs) c =
    (let r = apply_all f (executed_statements (adapt_postgres_script_to_sqlite txs)) (cn_now c)
     in (fst r, c\<lparr>cn_now := snd r\<rparr>))"
  unfolding plain_script_def execute_script_atomically_def by (simp add: execute_plain Let_def)

text \<open>C12. A migration of plain statements is applied as a whole or not at all: on success everything its
  script did is committed with its version marked applied under its checksum, on an error the
  database is as before; a dry run never changes the database and announces exactly the outcome.\<close>

theorem migrations_atomic:
  assumes "plain_script run f (sq_text (mg_up m))"
    and "apply_migration run sha now m c = (r, c1)" "dry_run_migration run m c = (d, c2)"
  shows "(case r of
      Inl e \<Rightarrow> e \<noteq> SavepointLost \<and> cn_now c1 = cn_now c \<and> cn_durable c1 = cn_durable c
    | Inr _ \<Rightarrow> cn_savepoints c1 = [] \<and> cn_durable c1 = cn_now c1 \<and>
        db_tables (cn_now c1) = db_tables (snd (apply_all f (executed_statements
          (adapt_postgres_script_to_sqlite (sq_text (mg_up m)))) (cn_now c))) \<and>
        (\<exists>row. map_of (db_migrations (cn_now c1)) (mg_version m) = Some row \<and> mw_status row = APPLIED \<and>
           mw_checksum row = sha (sq_bytes (mg_up m)))) \<and>
    cn_now c2 = cn_now c \<and> cn_durable c2 = cn_durable c \<and> (\<exists>msg. d = Inr (r = Inr (), msg))"
proof -
  obtain err d1 where all: "apply_all f (executed_statements (adapt_postgres_script_to_sqlite (sq_text (mg_up m)))) (cn_now c) = (err, d1)"
    by (cases "apply_all f (executed_statements (adapt_postgres_script_to_sqlite (sq_text (mg_up m)))) (cn_now c)")
  note run = execute_script_plain [OF assms(1)]
  show ?thesis
    using assms(2,3)
    by (cases err)
      (auto simp: apply_migration_def dry_run_migration_def run savepoint_def all Let_def abort_def rollback_to_def
        release_def commit_def mark_applied_def update_conv' split: option.splits)
qed

text \<open>A rollback of plain statements is atomic in the same way, but it does not ask whether the migration
  was ever applied: it runs the undo script of a version the tracking table does not know.\<close>

theorem rollback_runs_unapplied:
  assumes "mg_down m = Some file" "exists_file (sq_name file)" "plain_script run f (sq_text file)"
    and "map_of (db_migrations (cn_now c)) (mg_version m) = None"
    and "apply_all f (executed_statements (adapt_postgres_script_to_sqlite (sq_text file))) (cn_now c) = (None, d)"
  shows "fst (rollback_migration run exists_file m c) = Inr () \<and>
    db_tables (cn_now (snd (rollback_migration run exists_file m c))) = db_tables d"
  using assms
  by (simp add: rollback_migration_def execute_script_plain savepoint_def Let_def release_def commit_def mark_rolled_back_def)

text \<open>A dry run, and an application that fails, leave their savepoint and so a transaction open.\<close>

theorem dry_run_stays_open:
  assumes "plain_script run f (sq_text (mg_up m))"
  shows "cn_savepoints (snd (dry_run_migration run m c)) = (''dry_run_migration'', cn_now c) # cn_savepoints c"
  using assms
  by (auto simp: dry_run_migration_def execute_script_plain savepoint_def Let_def rollback_to_def split: option.splits prod.splits)

text \<open>Two names of one version shadow each other without an error, a trigger body is split at its
  semicolons, a comment behind a semicolon joins two statements, and literals are rewritten.\<close>

definition named_file :: "string \<Rightarrow> sql_file" where
  "named_file n = \<lparr>sq_name = n, sq_bytes = [], sq_text = []\<rparr>"

theorem scripts_misread:
  "map mg_name (discover_migrations [named_file ''V1__a.sql'', named_file ''V001__b.sql'']) = [''b'']"
  "executed_statements (join [CHR 0x0A] [''CREATE TRIGGER t BEGIN'', ''DELETE FROM a;'', ''END;'']) =
     [join [CHR 0x0A] [''CREATE TRIGGER t BEGIN'', ''DELETE FROM a''], ''END'']"
  "executed_statements (join [CHR 0x0A] [''DROP TABLE a; -- old'', ''DROP TABLE b;'']) =
     [join [CHR 0x0A] [''DROP TABLE a; -- old'', ''DROP TABLE b'']]"
  "word_sub ''UUID'' ''TEXT'' (''INSERT INTO k VALUES ('' @ [CHR 0x27] @ ''uuid'' @ [CHR 0x27] @ '')'') =
     ''INSERT INTO k VALUES ('' @ [CHR 0x27] @ ''TEXT'' @ [CHR 0x27] @ '')''"
  by code_simp+

text \<open>The snapshots add up amounts per side, whatever the order of the postings.\<close>

lemma snapshot_fold:
  "fold (snapshot_step t) ps (a, b, n) =
    (a + sum_list (map sp_amount_scaled (filter (\<lambda>p. sp_tenant_id p = Some t \<and> py_upper (sp_entry_type p) = ''DEBIT'') ps)),
     b + sum_list (map sp_amount_scaled (filter (\<lambda>p. sp_tenant_id p = Some t \<and> py_upper (sp_entry_type p) = ''CREDIT'') ps)),
     n + length (filter (\<lambda>p. sp_tenant_id p = Some t) ps))"
  by (induction ps arbitrary: a b n) (auto simp: snapshot_step_def)

section \<open>A concrete migration\<close>

definition demo_migration :: migration where
  "demo_migration = \<lparr>mg_version = 1, mg_name = ''init'',
     mg_up = \<lparr>sq_name = ''V001__init.sql'', sq_bytes = ''b'', sq_text = ''A;''\<rparr>, mg_down = None\<rparr>"

definition demo_sql :: "string \<Rightarrow> nat database \<Rightarrow> string option \<times> nat database" where
  "demo_sql s d = (None, d\<lparr>db_tables := db_tables d + 1\<rparr>)"

definition demo_conn :: "nat conn" where
  "demo_conn = \<lparr>cn_now = \<lparr>db_tables = 0, db_migrations = []\<rparr>, cn_durable = \<lparr>db_tables = 0, db_migrations = []\<rparr>, cn_savepoints = []\<rparr>"

theorem migrations_atomic_witness:
  "cn_durable (snd (apply_migration (\<lambda>s c. (fst (demo_sql s (cn_now c)), c\<lparr>cn_now := snd (demo_sql s (cn_now c))\<rparr>))
     (\<lambda>b. b) ''now'' demo_migration demo_conn)) =
   cn_now (snd (apply_migration (\<lambda>s c. (fst (demo_sql s (cn_now c)), c\<lparr>cn_now := snd (demo_sql s (cn_now c))\<rparr>))
     (\<lambda>b. b) ''now'' demo_migration demo_conn))"
proof -
  let ?run = "\<lambda>s c. (fst (demo_sql s (cn_now c)), c\<lparr>cn_now := snd (demo_sql s (cn_now c))\<rparr>)"
  have "plain_script ?run demo_sql (sq_text (mg_up demo_migration))" by (simp add: plain_script_def)
  from migrations_atomic [OF this surjective_pairing surjective_pairing, of "\<lambda>b. b" "''now''" demo_conn]
  show ?thesis by (auto simp: demo_conn_def split: sum.splits)
qed

end
