(* ===== verification/Dev_Scripts.thy ===== *)
theory Dev_Scripts
  imports Migrations
begin

text \<open>
  \<^verbatim>\<open>scripts/commit_review.py\<close>, \<^verbatim>\<open>scripts/pre_push_check.py\<close> and \<^verbatim>\<open>scripts/push_with_checks.py\<close>: the gates
  in front of a commit and of a push. What git and the user answer is a record; the commands that
  change the repository are returned in the order they are run. Printed output is left out.
\<close>

section \<open>The commit helper\<close>

record commit_env =
  cv_guidance :: "string option"
  cv_status :: string
  cv_branch_rc :: int
  cv_log_rc :: int
  cv_diff :: string
  cv_untracked :: string
  cv_file :: "string \<Rightarrow> string option"
  cv_choice :: string
  cv_body :: string
  cv_confirm :: string
  cv_add_rc :: int
  cv_commit_rc :: int

datatype git_cmd = GitAdd | GitCommit string "string option" | GitPush "string list"

definition dash_or_underscore :: "char \<Rightarrow> bool" where
  "dash_or_underscore c = (c = CHR ''_'' \<or> c = CHR ''-'')"

definition quote_char :: "char \<Rightarrow> bool" where
  "quote_char c = (c = CHR 0x27 \<or> c = CHR 0x22)"

definition secret_char :: "char \<Rightarrow> bool" where
  "secret_char c = (\<not> is_space c \<and> \<not> quote_char c)"

definition secret_key :: rx where
  "secret_key =
     RAlt (rx_seq [rx_word_ci ''api'', rx_opt dash_or_underscore, rx_word_ci ''key''])
     (RAlt (rx_word_ci ''secret'') (RAlt (rx_word_ci ''password'') (RAlt (rx_word_ci ''token'')
     (RAlt (rx_seq [rx_word_ci ''private'', rx_opt dash_or_underscore, rx_word_ci ''key''])
     (RAlt (rx_word_ci ''aws_access_key'') (rx_word_ci ''database_url''))))))"

definition sensitive_pattern :: rx where
  "sensitive_pattern =
     RAlt (rx_seq [secret_key, rx_many is_space, rx_one (\<lambda>c. c = CHR '':'' \<or> c = CHR ''=''), rx_many is_space,
       rx_opt quote_char, RSet secret_char 8 None True])
     (RAlt (rx_seq [rx_word_ci ''AKIA'', rx_times (\<lambda>c. is_digit c \<or> is_alpha_ascii c) 16])
       (rx_seq [rx_word_ci ''-----BEGIN '', rx_many (\<lambda>c. is_alpha_ascii c \<or> c = CHR '' ''),
         rx_word_ci ''PRIVATE KEY-----'']))"

definition subject_pattern :: rx where
  "subject_pattern = rx_seq [rx_some is_lower_ascii,
     RAlt (rx_seq [rx_word ''('', rx_some (\<lambda>c. c \<noteq> CHR '')''), rx_word '')'']) REps,
     rx_opt (\<lambda>c. c = CHR ''!''), rx_word '': '', rx_some (\<lambda>c. c \<noteq> CHR 0x0A), rx_one (\<lambda>c. c \<noteq> CHR ''.''), REnd]"

definition untracked_files :: "commit_env \<Rightarrow> string list" where
  "untracked_files env = py_splitlines (cv_untracked env)"

definition scanned_text :: "commit_env \<Rightarrow> string" where
  "scanned_text env = cv_diff env @ join [CHR 0x0A] (List.map_filter (cv_file env) (untracked_files env))"

definition environment_files :: "commit_env \<Rightarrow> string list" where
  "environment_files env = filter (\<lambda>path. let name = last (split_on (CHR ''/'') path)
     in name = ''.env'' \<or> take 5 name = ''.env.'') (untracked_files env)"

definition commit_candidates :: "string list" where
  "commit_candidates = [''feat(storage): update persistence layer'', ''chore: update project automation'',
     ''docs: update project guidance'']"

definition commit_subject :: "string \<Rightarrow> string" where
  "commit_subject choice =
     (if choice = ''1'' then commit_candidates ! 0 else if choice = ''2'' then commit_candidates ! 1
      else if choice = ''3'' then commit_candidates ! 2 else choice)"

definition commit_review :: "commit_env \<Rightarrow> int \<times> git_cmd list" where
  "commit_review env =
     (case cv_guidance env of
        None \<Rightarrow> (1, [])
      | Some guidance \<Rightarrow>
        (let status = py_strip (cv_status env); subject = commit_subject (py_strip (cv_choice env));
             body = py_strip (cv_body env)
         in if \<not> is_infix ''Conventional Commits'' guidance then (1, [])
            else if status = [] then (0, [])
            else if cv_branch_rc env \<noteq> 0 then (cv_branch_rc env, [])
            else if cv_log_rc env \<noteq> 0 then (cv_log_rc env, [])
            else if rx_search sensitive_pattern None (scanned_text env) \<noteq> None \<or> environment_files env \<noteq> [] then (1, [])
            else if subject = [] then (0, [])
            else if length subject > 72 \<or> rx_match subject_pattern None subject = None then (1, [])
            else if list_ex (is_infix ''migrations/'') (py_splitlines status) \<and> body = [] then (1, [])
            else if py_lower (py_strip (cv_confirm env)) \<notin> {''y'', ''yes''} then (0, [])
            else if cv_add_rc env \<noteq> 0 then (1, [GitAdd])
            else (cv_commit_rc env, [GitAdd, GitCommit subject (if body = [] then None else Some body)])))"

section \<open>The push gate\<close>

text \<open>A step passes when its command returns zero; the first failing step stops the checks.\<close>

fun all_steps_pass :: "int list \<Rightarrow> bool" where
  "all_steps_pass [] = True"
| "all_steps_pass (rc # rcs) = (if rc = 0 then all_steps_pass rcs else False)"

definition pre_push_check :: "int \<Rightarrow> int \<Rightarrow> int" where
  "pre_push_check compile_rc test_rc = (if all_steps_pass [compile_rc, test_rc] then 0 else 1)"

definition push_with_checks :: "int \<Rightarrow> bool \<Rightarrow> string \<Rightarrow> string list \<Rightarrow> int \<Rightarrow> int \<times> git_cmd list" where
  "push_with_checks check_rc yes response push_args push_rc =
     (if check_rc \<noteq> 0 then (1, [])
      else if \<not> yes \<and> py_lower (py_strip response) \<notin> {''y'', ''yes''} then (0, [])
      else (push_rc, [GitPush push_args]))"

lemma pushes_are_checked:
  assumes "push_with_checks (pre_push_check c t) yes response args rc = (r, cmds)" "cmds \<noteq> []"
  shows "c = 0 \<and> t = 0 \<and> (yes \<or> py_lower (py_strip response) \<in> {''y'', ''yes''}) \<and> r = rc"
  using assms by (auto simp: push_with_checks_def pre_push_check_def split: if_splits)

section \<open>What the scan finds\<close>

text \<open>A pattern that can match somewhere is found.\<close>

lemma rx_search_found:
  assumes "\<And>p. rx_run r (p, s, []) \<noteq> []"
  shows "rx_search r p (pre @ s) \<noteq> None"
proof (induction pre arbitrary: p)
  case Nil
  then show ?case using assms [of p] by (cases s) (auto simp: rx_match_def split: list.splits)
next
  case (Cons c pre)
  have "rx_search r (Some c) (pre @ s) \<noteq> None" by (rule Cons)
  then show ?case by (auto split: option.splits)
qed

text \<open>Positions a pattern can end at.\<close>

lemma in_run_seq: "b \<in> set (rx_run r a) \<Longrightarrow> m \<in> set (rx_run q b) \<Longrightarrow> m \<in> set (rx_run (RSeq r q) a)"
  by auto

lemma in_run_set:
  assumes "list_all P w" "lo \<le> length w" "case hi of None \<Rightarrow> True | Some n \<Rightarrow> length w \<le> n"
  shows "\<exists>p'. (p', s, gs) \<in> set (rx_run (RSet P lo hi greedy) (p, w @ s, gs))"
proof -
  have "length w \<le> length (takeWhile P (w @ s))" using assms(1) by (simp add: takeWhile_append list_all_iff)
  then have "length w \<in> set (rx_counts P lo hi greedy (w @ s))"
    using assms(2,3) by (auto simp: rx_counts_def Let_def split: option.splits)
  then have "rx_advance (p, w @ s, gs) (length w) \<in> set (rx_run (RSet P lo hi greedy) (p, w @ s, gs))"
    unfolding rx_run.simps list.set_map fst_conv snd_conv by (rule imageI)
  moreover obtain p' where "rx_advance (p, w @ s, gs) (length w) = (p', s, gs)" by simp
  ultimately show ?thesis by metis
qed

lemma in_run_word:
  assumes "py_lower w' = py_lower w"
  shows "\<exists>p'. (p', s, gs) \<in> set (rx_run (rx_word_ci w) (p, w' @ s, gs))"
  using assms
proof (induction w arbitrary: w' p)
  case Nil
  then show ?case by (auto simp: rx_word_ci_def py_lower_def)
next
  case (Cons x w)
  then obtain y v where w': "w' = y # v" "lower_char y = lower_char x" "py_lower v = py_lower w"
    by (cases w') (auto simp: py_lower_def)
  obtain p1 where one: "(p1, v @ s, gs) \<in> set (rx_run (rx_one (\<lambda>c. lower_char c = lower_char x)) (p, [y] @ v @ s, gs))"
    using in_run_set [of "\<lambda>c. lower_char c = lower_char x" "[y]" 1 "Some 1" "v @ s" gs True p] w'(2)
    by (auto simp: rx_one_def)
  obtain p2 where "(p2, s, gs) \<in> set (rx_run (rx_word_ci w) (p1, v @ s, gs))" using Cons.IH [OF w'(3)] by blast
  with one show ?case
    unfolding w'(1) by (force simp: rx_word_ci_def intro: in_run_seq)
qed

definition plain_keys :: "string list" where
  "plain_keys = [''secret'', ''password'', ''token'', ''aws_access_key'', ''database_url'']"

lemma secret_is_found:
  assumes "py_lower k \<in> set plain_keys" "sep \<in> {CHR '':'', CHR ''=''}" "list_all secret_char v" "8 \<le> length v"
  shows "rx_search sensitive_pattern None (pre @ k @ [sep] @ v @ post) \<noteq> None"
proof (rule rx_search_found)
  fix p
  let ?s = "[sep] @ v @ post"
  obtain w where w: "w \<in> set plain_keys" "py_lower k = w" using assms(1) by blast
  have "py_lower w = w" using w(1) unfolding plain_keys_def by (auto simp: py_lower_def lower_char_def is_upper_ascii_def char_code_def)
  then obtain p1 where "(p1, ?s, []) \<in> set (rx_run (rx_word_ci w) (p, k @ ?s, []))"
    using in_run_word [of k w ?s "[]" p] w(2) by auto
  then have key: "(p1, ?s, []) \<in> set (rx_run secret_key (p, k @ ?s, []))"
    using w(1) by (auto simp: secret_key_def plain_keys_def)
  have spaces: "(q, t, []) \<in> set (rx_run (rx_many is_space) (q, t, []))" for q t
    by (force simp: rx_many_def rx_counts_def Let_def)
  have sep: "(Some sep, v @ post, []) \<in> set (rx_run (rx_one (\<lambda>c. c = CHR '':'' \<or> c = CHR ''='')) (p1, ?s, []))"
    using assms(2) by (auto simp: rx_one_def rx_counts_def Let_def)
  have quote: "(q, t, []) \<in> set (rx_run (rx_opt quote_char) (q, t, []))" for q t
    by (force simp: rx_opt_def rx_counts_def Let_def)
  have "\<exists>p2. (p2, post, []) \<in> set (rx_run (RSet secret_char 8 None True) (Some sep, v @ post, []))"
    by (rule in_run_set) (use assms in simp_all)
  then obtain p2 where "(p2, post, []) \<in> set (rx_run (RSet secret_char 8 None True) (Some sep, v @ post, []))" by blast
  then have "(p2, post, []) \<in> set (rx_run (rx_seq [secret_key, rx_many is_space, rx_one (\<lambda>c. c = CHR '':'' \<or> c = CHR ''=''),
      rx_many is_space, rx_opt quote_char, RSet secret_char 8 None True]) (p, k @ ?s, []))"
    unfolding rx_seq_simps
    by (intro in_run_seq [OF key] in_run_seq [OF spaces] in_run_seq [OF sep] in_run_seq [OF quote] in_run_seq) simp_all
  then show "rx_run sensitive_pattern (p, k @ ?s, []) \<noteq> []"
    unfolding sensitive_pattern_def by (auto simp del: rx_seq_simps)
qed

text \<open>The helper commits only after staging succeeded, with a subject of at most 72 characters in the
  conventional form, with a body when a migration changed, after a confirmation, when no environment
  file is untracked, and never while the difference or an untracked file assigns eight or more
  characters to a password, secret, token, access key or database url.\<close>

theorem commits_are_reviewed:
  assumes "commit_review env = (rc, cmds)" "GitCommit subject body \<in> set cmds"
  shows "cmds = [GitAdd, GitCommit subject body] \<and> cv_add_rc env = 0 \<and> rc = cv_commit_rc env \<and>
    subject \<noteq> [] \<and> length subject \<le> 72 \<and> rx_match subject_pattern None subject \<noteq> None \<and>
    (list_ex (is_infix ''migrations/'') (py_splitlines (py_strip (cv_status env))) \<longrightarrow> body \<noteq> None) \<and>
    py_lower (py_strip (cv_confirm env)) \<in> {''y'', ''yes''} \<and> environment_files env = [] \<and>
    (\<nexists>pre k sep v post. scanned_text env = pre @ k @ [sep] @ v @ post \<and> py_lower k \<in> set plain_keys \<and>
       sep \<in> {CHR '':'', CHR ''=''} \<and> list_all secret_char v \<and> 8 \<le> length v)"
proof -
  obtain g where g: "cv_guidance env = Some g" using assms by (cases "cv_guidance env") (auto simp: commit_review_def)
  have "rx_search sensitive_pattern None (scanned_text env) = None"
  proof (rule ccontr)
    assume "rx_search sensitive_pattern None (scanned_text env) \<noteq> None"
    then have "cmds = []" using assms(1) g by (auto simp: commit_review_def Let_def split: if_splits)
    with assms(2) show False by simp
  qed
  then have "\<nexists>pre k sep v post. scanned_text env = pre @ k @ [sep] @ v @ post \<and> py_lower k \<in> set plain_keys \<and>
       sep \<in> {CHR '':'', CHR ''=''} \<and> list_all secret_char v \<and> 8 \<le> length v"
    using secret_is_found by metis
  moreover have "cmds = [GitAdd, GitCommit subject body] \<and> cv_add_rc env = 0 \<and> rc = cv_commit_rc env \<and>
    subject \<noteq> [] \<and> length subject \<le> 72 \<and> rx_match subject_pattern None subject \<noteq> None \<and>
    (list_ex (is_infix ''migrations/'') (py_splitlines (py_strip (cv_status env))) \<longrightarrow> body \<noteq> None) \<and>
    py_lower (py_strip (cv_confirm env)) \<in> {''y'', ''yes''} \<and> environment_files env = []"
    using assms g by (auto simp: commit_review_def Let_def split: if_splits)
  ultimately show ?thesis by blast
qed

definition demo_commit :: commit_env where
  "demo_commit = \<lparr>cv_guidance = Some ''Conventional Commits'', cv_status = '' M a.py'', cv_branch_rc = 0, cv_log_rc = 0,
     cv_diff = ''+x = 1'', cv_untracked = [], cv_file = (\<lambda>_. None), cv_choice = ''fix(a): b c'', cv_body = [],
     cv_confirm = ''y'', cv_add_rc = 0, cv_commit_rc = 0\<rparr>"

theorem commits_are_reviewed_witness:
  "length ''fix(a): b c'' \<le> 72 \<and> snd (commit_review demo_commit) = [GitAdd, GitCommit ''fix(a): b c'' None]"
proof -
  have c: "commit_review demo_commit = (0, [GitAdd, GitCommit ''fix(a): b c'' None])" by code_simp
  show ?thesis using commits_are_reviewed [OF c, of "''fix(a): b c''" None] c by simp
qed

end
