(* ===== verification/Routes.thy ===== *)
theory Routes
  imports Prelude
begin

text \<open>
  The routing table \<^verbatim>\<open>src/api/app.py\<close> builds from its routers, and the paths \<^verbatim>\<open>benchmarks/locustfile.py\<close>
  requests. A path is the list of its segments between slashes, a template has literal and variable
  segments. The dispatcher of the web framework is a parameter: the hypothesis is that it takes the first
  registered route that matches.
\<close>

section \<open>The routing table\<close>

datatype meth = GET | POST | SOCKET

datatype seg = Lit string | Var string

datatype endpoint =
    CreateFund | AllocateFloat | IssueDisbursement | FundBalance
  | ExtractReceipt
  | DailyClosing | SignOff | ClosingHistory
  | AddRecord | SpendSummary | ExportCsv | ExportPdf
  | SubmitApproval | ListApprovals | ApprovalSummary | ApprovalDetails
  | ApproveRequest | RejectRequest | DisburseRequest | LiveFeed
  | StaticFile | IndexPage | ManifestFile | ServiceWorker
  | FrameworkPage string

datatype web_route = Route meth "seg list" endpoint | Mount "seg list" endpoint

definition under :: "seg list \<Rightarrow> (meth \<times> seg list \<times> endpoint) list \<Rightarrow> web_route list" where
  "under prefix = map (\<lambda>(m, t, e). Route m (prefix @ t) e)"

definition float_routes :: "web_route list" where
  "float_routes = under [Lit ''v1'', Lit ''funds'']
     [(POST, [], CreateFund),
      (POST, [Var ''fund_id'', Lit ''allocations''], AllocateFloat),
      (POST, [Var ''fund_id'', Lit ''disbursements''], IssueDisbursement),
      (GET, [Var ''fund_id'', Lit ''custodians'', Var ''custodian_id'', Lit ''balance''], FundBalance)]"

definition receipt_routes :: "web_route list" where
  "receipt_routes = under [Lit ''v1'', Lit ''receipts''] [(POST, [Lit ''extract''], ExtractReceipt)]"

definition reconciliation_routes :: "web_route list" where
  "reconciliation_routes = under [Lit ''api'', Lit ''v1'', Lit ''reconciliation'']
     [(POST, [Lit ''daily-closing''], DailyClosing),
      (POST, [Lit ''sign-off''], SignOff),
      (GET, [Lit ''history''], ClosingHistory)]"

definition reports_routes :: "web_route list" where
  "reports_routes = under [Lit ''api'', Lit ''v1'', Lit ''reports'']
     [(POST, [Lit ''records''], AddRecord),
      (GET, [Lit ''spend-summary''], SpendSummary),
      (GET, [Lit ''export'', Lit ''csv''], ExportCsv),
      (GET, [Lit ''export'', Lit ''pdf''], ExportPdf)]"

definition approval_routes :: "web_route list" where
  "approval_routes = under [Lit ''v1'', Lit ''approvals'']
     [(POST, [Lit ''submit''], SubmitApproval),
      (GET, [], ListApprovals),
      (GET, [Lit ''summary''], ApprovalSummary),
      (GET, [Var ''request_id''], ApprovalDetails),
      (POST, [Var ''request_id'', Lit ''approve''], ApproveRequest),
      (POST, [Var ''request_id'', Lit ''reject''], RejectRequest),
      (POST, [Var ''request_id'', Lit ''disburse''], DisburseRequest),
      (SOCKET, [Lit ''ws''], LiveFeed)]"

definition static_routes :: "web_route list" where
  "static_routes = [Mount [Lit ''static''] StaticFile, Route GET [] IndexPage,
     Route GET [Lit ''manifest.json''] ManifestFile, Route GET [Lit ''sw.js''] ServiceWorker]"

text \<open>The pages a \<open>FastAPI\<close> application serves by default, registered when it is made.\<close>

definition framework_routes :: "web_route list" where
  "framework_routes =
     [Route GET [Lit ''openapi.json''] (FrameworkPage ''openapi.json''),
      Route GET [Lit ''docs''] (FrameworkPage ''docs''),
      Route GET [Lit ''docs'', Lit ''oauth2-redirect''] (FrameworkPage ''docs/oauth2-redirect''),
      Route GET [Lit ''redoc''] (FrameworkPage ''redoc'')]"

text \<open>The routes in the order \<open>create_app\<close> registers them; the argument says whether \<open>static\<close> exists.\<close>

definition app_routes :: "bool \<Rightarrow> web_route list" where
  "app_routes static_exists = framework_routes @ float_routes @ receipt_routes @ reconciliation_routes @ reports_routes @
     approval_routes @ (if static_exists then static_routes else [])"

section \<open>Dispatching\<close>

text \<open>A template matches a path of the same length; a variable takes any non-empty segment.\<close>

fun seg_match :: "seg list \<Rightarrow> string list \<Rightarrow> string list option" where
  "seg_match [] [] = Some []"
| "seg_match (Lit s # ts) (p # ps) = (if p = s then seg_match ts ps else None)"
| "seg_match (Var x # ts) (p # ps) = (if p = [] then None else map_option ((#) p) (seg_match ts ps))"
| "seg_match _ _ = None"

text \<open>A mount takes everything below its prefix.\<close>

fun route_match :: "meth \<Rightarrow> string list \<Rightarrow> web_route \<Rightarrow> (endpoint \<times> string list) option" where
  "route_match m p (Route m' t e) = (if m = m' then map_option (Pair e) (seg_match t p) else None)"
| "route_match m p (Mount t e) =
     (if length t < length p \<and> seg_match t (take (length t) p) \<noteq> None then Some (e, drop (length t) p) else None)"

fun first_match :: "web_route list \<Rightarrow> meth \<Rightarrow> string list \<Rightarrow> (endpoint \<times> string list) option" where
  "first_match [] m p = None"
| "first_match (r # rs) m p = (case route_match m p r of Some x \<Rightarrow> Some x | None \<Rightarrow> first_match rs m p)"

datatype selection = Selected endpoint "string list" | WrongMethod | NoRoute

text \<open>A path that is registered, but for other methods.\<close>

fun other_method :: "string list \<Rightarrow> web_route \<Rightarrow> bool" where
  "other_method p (Route m t e) = (m \<noteq> SOCKET \<and> seg_match t p \<noteq> None)"
| "other_method p (Mount t e) = False"

type_synonym dispatcher = "web_route list \<Rightarrow> meth \<Rightarrow> string list \<Rightarrow> selection"

definition dispatch :: dispatcher where
  "dispatch rs m p =
     (case first_match rs m p of
        Some (e, xs) \<Rightarrow> Selected e xs
      | None \<Rightarrow> if m \<noteq> SOCKET \<and> list_ex (other_method p) rs then WrongMethod else NoRoute)"

text \<open>What the framework documents: the first registered match is taken. For a path with an empty
  segment (a doubled or a trailing slash) it may also redirect, so there only soundness is assumed.\<close>

definition takes_first_match :: "dispatcher \<Rightarrow> bool" where
  "takes_first_match sel \<longleftrightarrow>
     (\<forall>rs m p e xs. sel rs m p = Selected e xs \<longrightarrow> first_match rs m p = Some (e, xs)) \<and>
     (\<forall>rs m p. [] \<notin> set p \<longrightarrow> sel rs m p = dispatch rs m p)"

lemma dispatch_takes_first_match: "takes_first_match dispatch"
  by (auto simp: takes_first_match_def dispatch_def split: option.splits if_splits)

section \<open>No route shadows another\<close>

text \<open>Two templates are compatible when some path matches both.\<close>

fun compatible :: "seg list \<Rightarrow> seg list \<Rightarrow> bool" where
  "compatible [] [] = True"
| "compatible (Lit s # ts) (Lit u # us) = (s = u \<and> compatible ts us)"
| "compatible (Lit s # ts) (Var x # us) = compatible ts us"
| "compatible (Var x # ts) (b # us) = compatible ts us"
| "compatible _ _ = False"

fun may_overlap :: "web_route \<Rightarrow> web_route \<Rightarrow> bool" where
  "may_overlap (Route m t e) (Route n u f) = (m = n \<and> compatible t u)"
| "may_overlap (Mount t e) (Route n u f) = compatible t (take (length t) u)"
| "may_overlap (Route m t e) (Mount u f) = compatible (take (length u) t) u"
| "may_overlap (Mount t e) (Mount u f) = True"

fun overlaps :: "web_route list \<Rightarrow> (web_route \<times> web_route) list" where
  "overlaps [] = []"
| "overlaps (r # rs) = map (Pair r) (filter (may_overlap r) rs) @ overlaps rs"

lemma seg_match_length: "seg_match t p = Some xs \<Longrightarrow> length t = length p"
  by (induction t p arbitrary: xs rule: seg_match.induct) (auto split: if_splits)

lemma seg_match_take: "seg_match t p = Some xs \<Longrightarrow> \<exists>ys. seg_match (take n t) (take n p) = Some ys"
  by (induction t p arbitrary: n xs rule: seg_match.induct) (auto simp: take_Cons split: if_splits nat.splits)

lemma seg_match_compatible: "seg_match t p = Some xs \<Longrightarrow> seg_match u p = Some ys \<Longrightarrow> compatible t u"
proof (induction t p arbitrary: u xs ys rule: seg_match.induct)
  case (2 s ts p ps)
  then show ?case by (cases u; cases "hd u") (auto split: if_splits)
next
  case (3 x ts p ps)
  then show ?case by (cases u; cases "hd u") (auto split: if_splits)
qed (auto dest: seg_match_length)

lemma both_match_overlap:
  assumes "route_match m p r \<noteq> None" "route_match m p r' \<noteq> None"
  shows "may_overlap r r'"
  using assms
proof (cases r; cases r')
  fix m1 t e m2 u f
  assume "r = Route m1 t e" "r' = Route m2 u f"
  with assms show ?thesis by (auto split: if_splits intro: seg_match_compatible)
next
  fix t e n u f
  assume r: "r = Mount t e" "r' = Route n u f"
  with assms obtain xs ys where "seg_match t (take (length t) p) = Some xs" "seg_match u p = Some ys"
    by (auto split: if_splits)
  with seg_match_take [of u p ys "length t"] r show ?thesis by (auto intro: seg_match_compatible)
next
  fix n u f t e
  assume r: "r = Route n u f" "r' = Mount t e"
  with assms obtain xs ys where "seg_match t (take (length t) p) = Some xs" "seg_match u p = Some ys"
    by (auto split: if_splits)
  with seg_match_take [of u p ys "length t"] r show ?thesis by (auto intro: seg_match_compatible)
qed simp

lemma overlaps_complete:
  "i < j \<Longrightarrow> j < length rs \<Longrightarrow> may_overlap (rs ! i) (rs ! j) \<Longrightarrow> (rs ! i, rs ! j) \<in> set (overlaps rs)"
proof (induction rs arbitrary: i j)
  case (Cons r rs)
  then show ?case by (cases i; cases j) (auto simp: image_iff)
qed simp

lemma app_overlaps:
  "overlaps (app_routes s) = [(Route GET [Lit ''v1'', Lit ''approvals'', Lit ''summary''] ApprovalSummary,
     Route GET [Lit ''v1'', Lit ''approvals'', Var ''request_id''] ApprovalDetails)]"
  by (cases s) (simp only:, code_simp)+

text \<open>C39. Every endpoint is reached: a request to the path of an endpoint, with any non-empty segments for its
  parameters, is dispatched to that endpoint with those parameters. No route is shadowed: at most one route
  matches a request, except that \<open>GET /v1/approvals/summary\<close> also matches the route of the request
  details, which is registered later, so that every id but \<open>summary\<close> reaches the details.\<close>

theorem requests_reach_their_endpoints:
  assumes "takes_first_match sel" "f \<noteq> []" "c \<noteq> []" "i \<noteq> []"
  defines "reach \<equiv> \<lambda>m p e xs. \<forall>s. sel (app_routes s) m p = Selected e xs"
  shows "reach POST [''v1'', ''funds''] CreateFund [] \<and>
    reach POST [''v1'', ''funds'', f, ''allocations''] AllocateFloat [f] \<and>
    reach POST [''v1'', ''funds'', f, ''disbursements''] IssueDisbursement [f] \<and>
    reach GET [''v1'', ''funds'', f, ''custodians'', c, ''balance''] FundBalance [f, c] \<and>
    reach POST [''v1'', ''receipts'', ''extract''] ExtractReceipt [] \<and>
    reach POST [''api'', ''v1'', ''reconciliation'', ''daily-closing''] DailyClosing [] \<and>
    reach POST [''api'', ''v1'', ''reconciliation'', ''sign-off''] SignOff [] \<and>
    reach GET [''api'', ''v1'', ''reconciliation'', ''history''] ClosingHistory [] \<and>
    reach POST [''api'', ''v1'', ''reports'', ''records''] AddRecord [] \<and>
    reach GET [''api'', ''v1'', ''reports'', ''spend-summary''] SpendSummary [] \<and>
    reach GET [''api'', ''v1'', ''reports'', ''export'', ''csv''] ExportCsv [] \<and>
    reach GET [''api'', ''v1'', ''reports'', ''export'', ''pdf''] ExportPdf [] \<and>
    reach POST [''v1'', ''approvals'', ''submit''] SubmitApproval [] \<and>
    reach GET [''v1'', ''approvals''] ListApprovals [] \<and>
    reach GET [''v1'', ''approvals'', ''summary''] ApprovalSummary [] \<and>
    reach POST [''v1'', ''approvals'', i, ''approve''] ApproveRequest [i] \<and>
    reach POST [''v1'', ''approvals'', i, ''reject''] RejectRequest [i] \<and>
    reach POST [''v1'', ''approvals'', i, ''disburse''] DisburseRequest [i] \<and>
    reach SOCKET [''v1'', ''approvals'', ''ws''] LiveFeed [] \<and>
    (i \<noteq> ''summary'' \<longrightarrow> reach GET [''v1'', ''approvals'', i] ApprovalDetails [i]) \<and>
    (\<forall>s m p a b. a < b \<and> b < length (app_routes s) \<and> route_match m p (app_routes s ! a) \<noteq> None \<and>
       route_match m p (app_routes s ! b) \<noteq> None \<longrightarrow> m = GET \<and> p = [''v1'', ''approvals'', ''summary''])"
proof -
  have reach: "reach m p e xs \<longleftrightarrow> (\<forall>s. dispatch (app_routes s) m p = Selected e xs)" if "[] \<notin> set p" for m p e xs
    using assms(1) that by (simp add: reach_def takes_first_match_def)
  have one: "m = GET \<and> p = [''v1'', ''approvals'', ''summary'']"
    if "a < b" "b < length (app_routes s)" "route_match m p (app_routes s ! a) \<noteq> None"
      "route_match m p (app_routes s ! b) \<noteq> None" for s m p a b
  proof -
    have "(app_routes s ! a, app_routes s ! b) \<in> set (overlaps (app_routes s))"
      using that both_match_overlap overlaps_complete by blast
    then have "app_routes s ! a = Route GET [Lit ''v1'', Lit ''approvals'', Lit ''summary''] ApprovalSummary"
      by (simp add: app_overlaps)
    with that(3) show ?thesis
      by (cases p; cases "tl p"; cases "tl (tl p)"; cases "tl (tl (tl p))") (auto split: if_splits)
  qed
  note table = app_routes_def framework_routes_def float_routes_def receipt_routes_def reconciliation_routes_def reports_routes_def
    approval_routes_def under_def
  have unshadowed: "\<forall>s m p a b. a < b \<and> b < length (app_routes s) \<and> route_match m p (app_routes s ! a) \<noteq> None \<and>
       route_match m p (app_routes s ! b) \<noteq> None \<longrightarrow> m = GET \<and> p = [''v1'', ''approvals'', ''summary'']"
    using one by blast
  show ?thesis
    using assms(2-4) by (intro conjI unshadowed) (simp_all add: reach dispatch_def table)
qed

theorem requests_reach_their_endpoints_witness:
  "dispatch (app_routes True) GET [''v1'', ''approvals'', ''r1''] = Selected ApprovalDetails [''r1'']"
  using requests_reach_their_endpoints [OF dispatch_takes_first_match, of "''f1''" "''c1''" "''r1''"] by simp

section \<open>The load test\<close>

text \<open>\<^verbatim>\<open>benchmarks/locustfile.py\<close>: the tasks of a simulated user, by weight.\<close>

definition load_tasks :: "(nat \<times> meth \<times> string list) list" where
  "load_tasks =
     [(60, GET, [''api'', ''v1'', ''float'', ''balance'']),
      (20, GET, [''api'', ''v1'', ''reports'', ''spend-summary'']),
      (10, POST, [''api'', ''v1'', ''float'', ''disburse'']),
      (10, GET, [''api'', ''v1'', ''reconciliation'', ''history''])]"

text \<open>Seventy of a hundred simulated requests go to paths the application does not have.\<close>

theorem load_test_misses_the_api:
  assumes "takes_first_match sel"
  shows "sum_list (map fst load_tasks) = 100 \<and>
    sum_list (map fst (filter (\<lambda>(w, m, p). sel (app_routes s) m p = NoRoute) load_tasks)) = 70"
proof -
  have "sel (app_routes s) m p = dispatch (app_routes s) m p" if "(w, m, p) \<in> set load_tasks" for w m p
    using assms that by (auto simp: takes_first_match_def load_tasks_def)
  then have "filter (\<lambda>(w, m, p). sel (app_routes s) m p = NoRoute) load_tasks =
      filter (\<lambda>(w, m, p). dispatch (app_routes s) m p = NoRoute) load_tasks"
    by (intro filter_cong) auto
  moreover have "sum_list (map fst load_tasks) = 100 \<and>
      sum_list (map fst (filter (\<lambda>(w, m, p). dispatch (app_routes s) m p = NoRoute) load_tasks)) = 70"
    by (cases s) (simp only:, code_simp)+
  ultimately show ?thesis by simp
qed

end
