(* ===== verification/Routed_Part.thy ===== *)
theory Routed_Part
  imports Prelude
begin

text \<open>
  The contract between an application and a part it routes events to. The application answers an event
  and moves to its next state; an event picked for the part is answered by the part's own step, and every
  other event leaves the part alone. Then a run of the application, seen from the part, is a run of the
  part on the calls picked for it.
\<close>

section \<open>Runs with their answers\<close>

fun run_log :: "('c \<Rightarrow> 's \<Rightarrow> 'a \<times> 's) \<Rightarrow> 'c list \<Rightarrow> 's \<Rightarrow> ('c \<times> 'a) list \<times> 's" where
  "run_log step [] s = ([], s)"
| "run_log step (c # cs) s =
     (let (x, s1) = step c s; (log, s2) = run_log step cs s1 in ((c, x) # log, s2))"

lemma run_log_Cons:
  "run_log step (c # cs) s =
     ((c, fst (step c s)) # fst (run_log step cs (snd (step c s))), snd (run_log step cs (snd (step c s))))"
  by (simp add: Let_def split: prod.split)

lemma run_log_state: "snd (run_log step cs s) = fold (\<lambda>c s. snd (step c s)) cs s"
  by (induction cs arbitrary: s) (simp_all add: run_log_Cons del: run_log.simps(2))

lemma run_log_calls: "map fst (fst (run_log step cs s)) = cs"
  by (induction cs arbitrary: s) (simp_all add: run_log_Cons del: run_log.simps(2))

lemma run_log_invariant:
  assumes "P s" "\<And>c s. P s \<Longrightarrow> P (snd (step c s))"
  shows "P (snd (run_log step cs s))"
  using assms(1) by (induction cs arbitrary: s) (simp_all add: run_log_Cons assms(2) del: run_log.simps(2))

text \<open>The entries of a log that concern one part, with the part's own calls and answers.\<close>

definition entries :: "('ev \<Rightarrow> 'c option) \<Rightarrow> ('ans \<Rightarrow> 'a option) \<Rightarrow> ('ev \<times> 'ans) list \<Rightarrow> ('c \<times> 'a) list" where
  "entries pick view log = List.map_filter (\<lambda>(ev, x).
     case (pick ev, view x) of (Some c, Some y) \<Rightarrow> Some (c, y) | _ \<Rightarrow> None) log"

lemma entries_simps [simp]:
  "entries pick view [] = []"
  "entries pick view ((ev, x) # log) = (case (pick ev, view x) of
     (Some c, Some y) \<Rightarrow> (c, y) # entries pick view log | _ \<Rightarrow> entries pick view log)"
  by (simp_all add: entries_def map_filter_simps split: option.split)

section \<open>The contract\<close>

locale routed_part =
  fixes app_step :: "'ev \<Rightarrow> 'app \<Rightarrow> 'ans \<times> 'app"
    and part :: "'app \<Rightarrow> 's"
    and pick :: "'ev \<Rightarrow> 'c option"
    and step :: "'c \<Rightarrow> 's \<Rightarrow> 'a \<times> 's"
    and answer :: "'a \<Rightarrow> 'ans"
  assumes picked: "pick ev = Some c \<Longrightarrow> app_step ev app = (x, app') \<Longrightarrow>
      x = answer (fst (step c (part app))) \<and> part app' = snd (step c (part app))"
    and skipped: "pick ev = None \<Longrightarrow> part (snd (app_step ev app)) = part app"
begin

text \<open>The calls of a part among the events of a run, and their answers.\<close>

lemma part_step: "part (snd (app_step ev app)) =
    (case pick ev of None \<Rightarrow> part app | Some c \<Rightarrow> snd (step c (part app)))"
proof (cases "pick ev")
  case None
  then show ?thesis by (simp add: skipped)
next
  case (Some c)
  with picked [of ev c app "fst (app_step ev app)" "snd (app_step ev app)"] show ?thesis by simp
qed

lemma part_answer: "pick ev = Some c \<Longrightarrow> fst (app_step ev app) = answer (fst (step c (part app)))"
  using picked [of ev c app "fst (app_step ev app)" "snd (app_step ev app)"] by simp

lemma part_run:
  "part (snd (run_log app_step evs app)) = snd (run_log step (List.map_filter pick evs) (part app))"
proof (induction evs arbitrary: app)
  case (Cons ev evs)
  then show ?case
    by (cases "pick ev") (simp_all add: run_log_Cons part_step map_filter_simps del: run_log.simps(2))
qed (simp add: map_filter_simps)

lemma part_entries:
  assumes "\<And>x. view (answer x) = Some x"
  shows "entries pick view (fst (run_log app_step evs app)) =
    fst (run_log step (List.map_filter pick evs) (part app))"
proof (induction evs arbitrary: app)
  case (Cons ev evs)
  show ?case
  proof (cases "pick ev")
    case None
    with Cons [of "snd (app_step ev app)"] show ?thesis
      by (simp add: run_log_Cons part_step map_filter_simps del: run_log.simps(2))
  next
    case (Some c)
    with Cons [of "snd (app_step ev app)"] part_answer [OF Some, of app] show ?thesis
      by (simp add: run_log_Cons part_step map_filter_simps assms del: run_log.simps(2))
  qed
qed (simp add: map_filter_simps)

end

end
