(* ===== verification/App.thy ===== *)
theory App
  imports Routes Float_Api Receipt_Api Recon_Api Reports Approval_Api Routed_Part
begin

text \<open>
  \<^verbatim>\<open>src/api/app.py\<close>: the web application, the state behind its routers and how it answers a request. The
  typed inputs of a request stand for its parsed query and body, with the clock readings and uuids its
  endpoint draws; inputs of another shape than the endpoint declares are answered 422 (the records endpoint
  declares a dictionary, see Reports). What is deployed
  around the application (dispatcher, uuid parser, imaging library, formats, static files, the framework's own pages) is a record.
  A session of the live feed is one step: broadcasts between two of its messages are not interleaved.
\<close>

section \<open>Deployment and state\<close>

record 'img site =
  wb_dispatch :: dispatcher
  wb_uuid :: "string \<Rightarrow> uuid option"
  wb_imaging :: "'img imaging"
  wb_money :: "scaled \<Rightarrow> string"
  wb_fmt :: spend_fmt
  wb_render :: "string list \<times> string list list \<Rightarrow> string"
  wb_static :: "(string list \<Rightarrow> string option) option"
  wb_page :: "string \<Rightarrow> string"

record app =
  ap_funds :: fund_state
  ap_recon :: recon_api
  ap_records :: "spend_record list"
  ap_approvals :: approval_api

text \<open>The services a caller passes, or fresh ones; the number names the router's event listener.\<close>

definition create_app :: "nat \<Rightarrow> fund_state option \<Rightarrow> workflow_service option \<Rightarrow> app" where
  "create_app cb service approval_service =
     \<lparr>ap_funds = (case service of None \<Rightarrow> empty_funds | Some s \<Rightarrow> s),
      ap_recon = new_recon_api, ap_records = [],
      ap_approvals = create_approval_router cb
        (case approval_service of None \<Rightarrow> new_service DEFAULT_PETTYFLOW_POLICY | Some s \<Rightarrow> s)\<rparr>"

section \<open>The calls of each router\<close>

datatype fund_call =
    NewFund uuid uuid string string uuid scaled
  | MoveFloat mutation uuid uuid uuid scaled
  | AskBalance uuid uuid uuid

datatype fund_answer = FundAnswer "fund http" | BalanceAnswer "custodian_balance http"

fun fund_step :: "fund_call \<Rightarrow> fund_state \<Rightarrow> fund_answer \<times> fund_state" where
  "fund_step (NewFund new_id t name currency custodian amount) st =
     apfst FundAnswer (rest_create_fund new_id st t name currency custodian amount)"
| "fund_step (MoveFloat m t fid custodian amount) st = apfst BalanceAnswer (rest_mutate m st t fid custodian amount)"
| "fund_step (AskBalance t fid custodian) st = (BalanceAnswer (rest_get_balance st t fid custodian), st)"

fun record_step :: "string \<times> record_body \<Rightarrow> spend_record list \<Rightarrow> json http \<times> spend_record list" where
  "record_step (now, b) records = add_spend_record now b records"

datatype approval_answer =
    SubmitAnswer "(request_dto \<times> policy_dto) http"
  | DecisionAnswer "request_dto http"
  | FeedAnswer bool
  | LoopAnswer

fun approval_step :: "api_env \<times> rest_call \<Rightarrow> approval_api \<Rightarrow> approval_answer \<times> approval_api" where
  "approval_step (env, PostSubmit rid u1 u2 now b) st = apfst SubmitAnswer (rest_submit env rid u1 u2 now b st)"
| "approval_step (env, PostApprove uid now i b) st = apfst DecisionAnswer (rest_approve env uid now i b st)"
| "approval_step (env, PostReject uid now i b) st = apfst DecisionAnswer (rest_reject env uid now i b st)"
| "approval_step (env, PostDisburse uid now i d) st = apfst DecisionAnswer (rest_disburse env uid now i d st)"
| "approval_step (env, RunTask alive) st = (LoopAnswer, run_task alive st)"
| "approval_step (env, Session now w is) st =
     apfst FeedAnswer (websocket_live_feed now w is (ws_open now True w st))"

section \<open>Queries\<close>

datatype query =
    ReceiptOf ocr_env "string option" "string option"
  | ClosingsOf string
  | SpendOf string
  | CsvOf string string
  | PdfOf string string
  | QueueOf api_env string "string option" "string option" "string option" int int
  | StatsOf api_env string
  | DetailsOf api_env string string
  | FileOf nat "string list"
  | PageOf string

datatype page =
    JsonPage "json http"
  | SpendPage spend_summary
  | DownloadPage "string \<times> string"
  | QueuePage "queue_dto http"
  | DetailsPage "request_dto http"
  | FilePage "string http"

text \<open>\<open>get_summary\<close>: the aggregates of the service with their dollar texts.\<close>

definition get_summary :: "api_env \<Rightarrow> string \<Rightarrow> approval_api \<Rightarrow> json" where
  "get_summary env tenant_id st =
     (let s = get_summary_stats (aa_service st) tenant_id
      in JDict [(''tenant_id'', JStr (py_strip tenant_id)), (''total_requests'', JInt (int (ss_total s))),
           (''pending_count'', JInt (int (ss_pending s))), (''approved_count'', JInt (int (ss_approved s))),
           (''rejected_count'', JInt (int (ss_rejected s))), (''disbursed_count'', JInt (int (ss_disbursed s))),
           (''tier_1_auto_count'', JInt (int (ss_tier_1_auto s))),
           (''tier_2_manager_count'', JInt (int (ss_tier_2_manager s))),
           (''tier_3_cfo_count'', JInt (int (ss_tier_3_cfo s))),
           (''total_pending_scaled'', JInt (ss_total_pending_scaled s)),
           (''total_pending_formatted'', JStr (ae_money env (ss_total_pending_scaled s))),
           (''total_approved_scaled'', JInt (ss_total_approved_scaled s)),
           (''total_approved_formatted'', JStr (ae_money env (ss_total_approved_scaled s)))])"

fun ask :: "'img site \<Rightarrow> query \<Rightarrow> app \<Rightarrow> page" where
  "ask site (ReceiptOf env file txs) st =
     JsonPage (fst (extract_receipt (wb_money site) env (wb_imaging site) default_preprocessor None file txs))"
| "ask site (ClosingsOf t) st = JsonPage (HttpOk 200 (recon_get_history (wb_money site) t (ap_recon st)))"
| "ask site (SpendOf t) st = SpendPage (get_spend_summary (wb_fmt site) t (ap_records st))"
| "ask site (CsvOf today t) st = DownloadPage (export_csv_statement (wb_money site) today t (ap_records st))"
| "ask site (PdfOf today t) st =
     DownloadPage (export_pdf_statement (wb_render site) (wb_money site) (wb_fmt site) today t (ap_records st))"
| "ask site (QueueOf env t s tier c limit offset) st =
     QueuePage (list_approvals env t s tier c limit offset (ap_approvals st))"
| "ask site (StatsOf env t) st = JsonPage (HttpOk 200 (get_summary env t (ap_approvals st)))"
| "ask site (DetailsOf env i t) st = DetailsPage (get_approval_details env i t (ap_approvals st))"
| "ask site (FileOf missing path) st =
     FilePage (case wb_static site of None \<Rightarrow> HttpError missing
       | Some files \<Rightarrow> (case files path of None \<Rightarrow> HttpError missing | Some content \<Rightarrow> HttpOk 200 content))"
| "ask site (PageOf name) st = FilePage (HttpOk 200 (wb_page site name))"

section \<open>From a request to a call\<close>

datatype inputs =
    FundIn uuid uuid string string uuid scaled
  | MutationIn uuid uuid scaled
  | TenantUuidIn uuid
  | UploadIn ocr_env "string option" "string option"
  | ClosingIn closing_env closing_request
  | SignIn string sign_off_request
  | RecordIn string record_body
  | TenantIn string string
  | SubmitIn api_env string string string time submit_body
  | QueueIn api_env string "string option" "string option" "string option" int int
  | StatsIn api_env string
  | DetailsIn api_env string
  | ActionIn api_env string time action_body
  | DisburseIn api_env string time disburse_body
  | FeedIn api_env string nat "ws_input list"
  | NoInput

datatype app_call =
    FundCall fund_call
  | ReconCall recon_cmd
  | RecordCall "string \<times> record_body"
  | ApprovalCall "api_env \<times> rest_call"
  | QueryCall query

text \<open>The call an endpoint makes of the path parameters and the inputs; \<open>None\<close> when they do not parse.\<close>

definition mutation_call :: "'img site \<Rightarrow> mutation \<Rightarrow> string list \<Rightarrow> inputs \<Rightarrow> app_call option" where
  "mutation_call site m xs inp =
     (case inp of
        MutationIn t c a \<Rightarrow> map_option (\<lambda>fid. FundCall (MoveFloat m t fid c a)) (wb_uuid site (xs ! 0))
      | _ \<Rightarrow> None)"

definition action_call :: "(string \<Rightarrow> time \<Rightarrow> action_body \<Rightarrow> rest_call) \<Rightarrow> inputs \<Rightarrow> app_call option" where
  "action_call mk inp =
     (case inp of ActionIn env uid now b \<Rightarrow> Some (ApprovalCall (env, mk uid now b)) | _ \<Rightarrow> None)"

text \<open>A file that is missing below a mount is 404; a file response of one fails with 500.\<close>

definition file_call :: "nat \<Rightarrow> string list \<Rightarrow> app_call option" where
  "file_call missing path = Some (QueryCall (FileOf missing path))"

definition call_of :: "'img site \<Rightarrow> endpoint \<Rightarrow> string list \<Rightarrow> inputs \<Rightarrow> app_call option" where
  "call_of site e xs inp =
     (case e of
        CreateFund \<Rightarrow> (case inp of FundIn new_id t name currency custodian amount \<Rightarrow>
            Some (FundCall (NewFund new_id t name currency custodian amount)) | _ \<Rightarrow> None)
      | AllocateFloat \<Rightarrow> mutation_call site Allocate xs inp
      | IssueDisbursement \<Rightarrow> mutation_call site Issue xs inp
      | FundBalance \<Rightarrow> (case (inp, wb_uuid site (xs ! 0), wb_uuid site (xs ! 1)) of
            (TenantUuidIn t, Some fid, Some c) \<Rightarrow> Some (FundCall (AskBalance t fid c)) | _ \<Rightarrow> None)
      | ExtractReceipt \<Rightarrow> (case inp of UploadIn env file txs \<Rightarrow> Some (QueryCall (ReceiptOf env file txs)) | _ \<Rightarrow> None)
      | DailyClosing \<Rightarrow> (case inp of ClosingIn env r \<Rightarrow> Some (ReconCall (Close env r)) | _ \<Rightarrow> None)
      | SignOff \<Rightarrow> (case inp of SignIn now r \<Rightarrow> Some (ReconCall (Sign now r)) | _ \<Rightarrow> None)
      | ClosingHistory \<Rightarrow> (case inp of TenantIn today t \<Rightarrow> Some (QueryCall (ClosingsOf t)) | _ \<Rightarrow> None)
      | AddRecord \<Rightarrow> (case inp of RecordIn now b \<Rightarrow> Some (RecordCall (now, b)) | _ \<Rightarrow> None)
      | SpendSummary \<Rightarrow> (case inp of TenantIn today t \<Rightarrow> Some (QueryCall (SpendOf t)) | _ \<Rightarrow> None)
      | ExportCsv \<Rightarrow> (case inp of TenantIn today t \<Rightarrow> Some (QueryCall (CsvOf today t)) | _ \<Rightarrow> None)
      | ExportPdf \<Rightarrow> (case inp of TenantIn today t \<Rightarrow> Some (QueryCall (PdfOf today t)) | _ \<Rightarrow> None)
      | SubmitApproval \<Rightarrow> (case inp of SubmitIn env rid u1 u2 now b \<Rightarrow>
            Some (ApprovalCall (env, PostSubmit rid u1 u2 now b)) | _ \<Rightarrow> None)
      | ListApprovals \<Rightarrow> (case inp of QueueIn env t s tier c limit offset \<Rightarrow>
            Some (QueryCall (QueueOf env t s tier c limit offset)) | _ \<Rightarrow> None)
      | ApprovalSummary \<Rightarrow> (case inp of StatsIn env t \<Rightarrow> Some (QueryCall (StatsOf env t)) | _ \<Rightarrow> None)
      | ApprovalDetails \<Rightarrow> (case inp of DetailsIn env t \<Rightarrow> Some (QueryCall (DetailsOf env (xs ! 0) t)) | _ \<Rightarrow> None)
      | ApproveRequest \<Rightarrow> action_call (\<lambda>uid now. PostApprove uid now (xs ! 0)) inp
      | RejectRequest \<Rightarrow> action_call (\<lambda>uid now. PostReject uid now (xs ! 0)) inp
      | DisburseRequest \<Rightarrow> (case inp of DisburseIn env uid now d \<Rightarrow>
            Some (ApprovalCall (env, PostDisburse uid now (xs ! 0) d)) | _ \<Rightarrow> None)
      | LiveFeed \<Rightarrow> (case inp of FeedIn env now w is \<Rightarrow> Some (ApprovalCall (env, Session now w is)) | _ \<Rightarrow> None)
      | StaticFile \<Rightarrow> file_call 404 xs
      | IndexPage \<Rightarrow> file_call 500 [''index.html'']
      | ManifestFile \<Rightarrow> file_call 500 [''manifest.json'']
      | ServiceWorker \<Rightarrow> file_call 500 [''sw.js'']
      | FrameworkPage name \<Rightarrow> Some (QueryCall (PageOf name)))"

section \<open>Steps of the application\<close>

text \<open>A request, or the event loop running a scheduled broadcast.\<close>

datatype app_event = Request meth "string list" inputs | LoopTask api_env "nat \<Rightarrow> bool"

fun resolve :: "'img site \<Rightarrow> app_event \<Rightarrow> nat + app_call" where
  "resolve site (Request m p inp) =
     (case wb_dispatch site (app_routes (wb_static site \<noteq> None)) m p of
        NoRoute \<Rightarrow> Inl 404
      | WrongMethod \<Rightarrow> Inl 405
      | Selected e xs \<Rightarrow>
        (if e = StaticFile \<and> m \<noteq> GET then Inl 405
         else case call_of site e xs inp of None \<Rightarrow> Inl 422 | Some c \<Rightarrow> Inr c))"
| "resolve site (LoopTask env alive) = Inr (ApprovalCall (env, RunTask alive))"

datatype app_answer =
    FundReply fund_answer
  | ReconReply "json http"
  | RecordReply "json http"
  | ApprovalReply approval_answer
  | PageReply page
  | Refused nat

fun perform :: "'img site \<Rightarrow> app_call \<Rightarrow> app \<Rightarrow> app_answer \<times> app" where
  "perform site (FundCall c) st =
     (case fund_step c (ap_funds st) of (x, s) \<Rightarrow> (FundReply x, st\<lparr>ap_funds := s\<rparr>))"
| "perform site (ReconCall c) st =
     (case recon_step 0 default_analyzer c (ap_recon st) of (x, s) \<Rightarrow> (ReconReply x, st\<lparr>ap_recon := s\<rparr>))"
| "perform site (RecordCall c) st =
     (case record_step c (ap_records st) of (x, s) \<Rightarrow> (RecordReply x, st\<lparr>ap_records := s\<rparr>))"
| "perform site (ApprovalCall c) st =
     (case approval_step c (ap_approvals st) of (x, s) \<Rightarrow> (ApprovalReply x, st\<lparr>ap_approvals := s\<rparr>))"
| "perform site (QueryCall q) st = (PageReply (ask site q st), st)"

definition app_step :: "'img site \<Rightarrow> app_event \<Rightarrow> app \<Rightarrow> app_answer \<times> app" where
  "app_step site ev st =
     (case resolve site ev of Inl n \<Rightarrow> (Refused n, st) | Inr c \<Rightarrow> perform site c st)"

section \<open>The routers are parts of the application\<close>

fun fund_calls :: "nat + app_call \<Rightarrow> fund_call option" where
  "fund_calls (Inr (FundCall c)) = Some c" | "fund_calls _ = None"

fun recon_calls :: "nat + app_call \<Rightarrow> recon_cmd option" where
  "recon_calls (Inr (ReconCall c)) = Some c" | "recon_calls _ = None"

fun record_calls :: "nat + app_call \<Rightarrow> (string \<times> record_body) option" where
  "record_calls (Inr (RecordCall c)) = Some c" | "record_calls _ = None"

fun approval_calls :: "nat + app_call \<Rightarrow> (api_env \<times> rest_call) option" where
  "approval_calls (Inr (ApprovalCall c)) = Some c" | "approval_calls _ = None"

lemma resolved_cases [case_names Refused Fund Recon Record Approval Query]:
  obtains n where "r = Inl n" | c where "r = Inr (FundCall c)" | c where "r = Inr (ReconCall c)"
    | c where "r = Inr (RecordCall c)" | c where "r = Inr (ApprovalCall c)" | q where "r = Inr (QueryCall q)"
  by (cases r; cases "projr r") auto

lemma calls_Some [simp]:
  "fund_calls r = Some c \<longleftrightarrow> r = Inr (FundCall c)" "recon_calls r = Some d \<longleftrightarrow> r = Inr (ReconCall d)"
  "record_calls r = Some e \<longleftrightarrow> r = Inr (RecordCall e)" "approval_calls r = Some f \<longleftrightarrow> r = Inr (ApprovalCall f)"
  by (cases r rule: resolved_cases; simp)+

lemma app_step_parts:
  "ap_funds (snd (app_step site ev st)) = (case fund_calls (resolve site ev) of None \<Rightarrow> ap_funds st
     | Some c \<Rightarrow> snd (fund_step c (ap_funds st)))"
  "ap_recon (snd (app_step site ev st)) = (case recon_calls (resolve site ev) of None \<Rightarrow> ap_recon st
     | Some c \<Rightarrow> snd (recon_step 0 default_analyzer c (ap_recon st)))"
  "ap_records (snd (app_step site ev st)) = (case record_calls (resolve site ev) of None \<Rightarrow> ap_records st
     | Some c \<Rightarrow> snd (record_step c (ap_records st)))"
  "ap_approvals (snd (app_step site ev st)) = (case approval_calls (resolve site ev) of None \<Rightarrow> ap_approvals st
     | Some c \<Rightarrow> snd (approval_step c (ap_approvals st)))"
  by (cases "resolve site ev" rule: resolved_cases; simp add: app_step_def split: prod.split)+

lemma app_step_routed: "resolve site ev = Inr c \<Longrightarrow> app_step site ev st = perform site c st"
  by (simp add: app_step_def)

lemmas part_simps = app_step_parts app_step_routed

interpretation funds_part: routed_part "app_step site" ap_funds "\<lambda>ev. fund_calls (resolve site ev)" fund_step FundReply
  for site :: "'img site"
  by unfold_locales (auto simp: part_simps split: prod.splits)

interpretation recon_part: routed_part "app_step site" ap_recon "\<lambda>ev. recon_calls (resolve site ev)"
    "recon_step 0 default_analyzer" ReconReply
  for site :: "'img site"
  by unfold_locales (auto simp: part_simps split: prod.splits)

interpretation records_part: routed_part "app_step site" ap_records "\<lambda>ev. record_calls (resolve site ev)"
    record_step RecordReply
  for site :: "'img site"
  by unfold_locales (auto simp: part_simps split: prod.splits)

interpretation approvals_part: routed_part "app_step site" ap_approvals "\<lambda>ev. approval_calls (resolve site ev)"
    approval_step ApprovalReply
  for site :: "'img site"
  by unfold_locales (auto simp: part_simps split: prod.splits)

end
