(* ===== verification/App_Books.thy ===== *)
theory App_Books
  imports App
begin

text \<open>
  What the answers of the application say about its state: the books of every router are accounted for by
  the requests it accepted, and nothing but an accepted request changes them.
\<close>

section \<open>Funds\<close>

text \<open>What an answered call pays into a fund, and what it pays out of it.\<close>

fun paid_in :: "uuid \<times> uuid \<Rightarrow> fund_call \<times> fund_answer \<Rightarrow> int" where
  "paid_in tf (NewFund new_id t name currency custodian amount, FundAnswer (HttpOk n f)) =
     (if tf = (t, new_id) then amount else 0)"
| "paid_in tf _ = 0"

fun paid_out :: "uuid \<times> uuid \<Rightarrow> fund_call \<times> fund_answer \<Rightarrow> int" where
  "paid_out tf (MoveFloat Issue t fid custodian amount, BalanceAnswer (HttpOk n b)) =
     (if tf = (t, fid) then amount else 0)"
| "paid_out tf _ = 0"

definition total_in :: "(fund_call \<times> fund_answer) list \<Rightarrow> uuid \<times> uuid \<Rightarrow> int" where
  "total_in log tf = sum_list (map (paid_in tf) log)"

definition total_out :: "(fund_call \<times> fund_answer) list \<Rightarrow> uuid \<times> uuid \<Rightarrow> int" where
  "total_out log tf = sum_list (map (paid_out tf) log)"

fun new_fund_ids :: "fund_call list \<Rightarrow> uuid list" where
  "new_fund_ids [] = []"
| "new_fund_ids (NewFund new_id t name currency custodian amount # cs) = new_id # new_fund_ids cs"
| "new_fund_ids (_ # cs) = new_fund_ids cs"

lemma totals_Cons [simp]:
  "total_in [] tf = 0" "total_out [] tf = 0"
  "total_in (e # log) tf = paid_in tf e + total_in log tf" "total_out (e # log) tf = paid_out tf e + total_out log tf"
  by (simp_all add: total_in_def total_out_def)

lemma no_fund_no_money: "fund_history ini out st \<Longrightarrow> fs_funds st tf = None \<Longrightarrow> ini tf = 0"
proof (induction rule: fund_history.induct)
  case (create ini out st tenant new_id name currency custodian amount f st')
  then show ?case using create_fund_Inr [OF create(3)] by (auto split: if_splits)
next
  case (allocate ini out st tenant fid custodian amount b st')
  then show ?case by (auto elim!: allocate_float_Inr split: if_splits)
next
  case (issue ini out st tenant fid custodian amount b st')
  then show ?case by (auto elim!: issue_disbursement_Inr)
qed simp

lemma fund_step_history:
  assumes h: "fund_history ini out st" and fresh: "\<forall>n \<in> set (new_fund_ids [c]). \<forall>t. fs_funds st (t, n) = None"
    and s: "fund_step c st = (x, st')"
  shows "fund_history (\<lambda>tf. ini tf + paid_in tf (c, x)) (\<lambda>tf. out tf + paid_out tf (c, x)) st' \<and>
    (\<forall>t n. n \<notin> set (new_fund_ids [c]) \<longrightarrow> fs_funds st (t, n) = None \<longrightarrow> fs_funds st' (t, n) = None)"
proof (cases c)
  case (NewFund new_id t name currency custodian amount)
  show ?thesis
  proof (cases "create_request_valid name currency amount")
    case False
    with s h NewFund show ?thesis by (auto simp: rest_create_fund_def)
  next
    case True
    obtain r st1 where r: "create_fund new_id st t (py_strip name) (py_upper currency) custodian amount = (r, st1)"
      by (cases "create_fund new_id st t (py_strip name) (py_upper currency) custodian amount")
    show ?thesis
    proof (cases r)
      case (Inl e)
      then have "st1 = st" using r failed_operation_keeps_state(1) by blast
      with s h NewFund True r Inl show ?thesis by (auto simp: rest_create_fund_def)
    next
      case (Inr f)
      then have x: "x = FundAnswer (HttpOk 201 f)" "st' = st1" using s NewFund True r by (auto simp: rest_create_fund_def)
      have none: "fs_funds st (t, new_id) = None" using fresh NewFund by simp
      have "fund_history (ini((t, new_id) := amount)) out st1"
        using h none r Inr by (auto intro: fund_history.create)
      moreover have "ini((t, new_id) := amount) = (\<lambda>tf. ini tf + paid_in tf (c, x))"
        using no_fund_no_money [OF h none] by (auto simp: x NewFund)
      ultimately show ?thesis
        using create_fund_Inr [OF r [unfolded Inr]] by (auto simp: x NewFund)
    qed
  qed
next
  case (MoveFloat m t fid custodian amount)
  show ?thesis
  proof (cases "amount \<le> 0")
    case True
    with s h MoveFloat show ?thesis by (auto simp: rest_mutate_def)
  next
    case False
    obtain r st1 where r: "run_mutation m st t fid custodian amount = (r, st1)"
      by (cases "run_mutation m st t fid custodian amount")
    show ?thesis
    proof (cases r)
      case (Inl e)
      then have "st1 = st" using r failed_operation_keeps_state(2,3) by (cases m) (auto simp: run_mutation_def)
      with s h MoveFloat False r Inl show ?thesis by (auto simp: rest_mutate_def)
    next
      case (Inr b)
      then have x: "x = BalanceAnswer (HttpOk 200 b)" "st' = st1" using s MoveFloat False r by (auto simp: rest_mutate_def)
      show ?thesis
      proof (cases m)
        case Allocate
        then have a: "allocate_float st t fid custodian amount = (Inr b, st1)" using r Inr by (simp add: run_mutation_def)
        have "fs_funds st1 k = None" if "fs_funds st k = None" for k
          by (rule allocate_float_Inr [OF a]) (use that in auto)
        with fund_history.allocate [OF h a] show ?thesis by (simp add: x MoveFloat Allocate)
      next
        case Issue
        then have a: "issue_disbursement st t fid custodian amount = (Inr b, st1)" using r Inr by (simp add: run_mutation_def)
        have "out((t, fid) := out (t, fid) + amount) = (\<lambda>tf. out tf + paid_out tf (c, x))"
          by (auto simp: x MoveFloat Issue)
        moreover have "fs_funds st1 = fs_funds st" by (rule issue_disbursement_Inr [OF a])
        ultimately show ?thesis using fund_history.issue [OF h a] by (simp add: x MoveFloat Issue)
      qed
    qed
  qed
next
  case (AskBalance t fid custodian)
  with s h show ?thesis by auto
qed

lemma new_fund_ids_Cons: "new_fund_ids (c # cs) = new_fund_ids [c] @ new_fund_ids cs"
  by (cases c) simp_all

lemma fund_run_history:
  assumes "fund_history ini out st" "distinct (new_fund_ids cs)"
    and "\<forall>n \<in> set (new_fund_ids cs). \<forall>t. fs_funds st (t, n) = None"
  shows "fund_history (\<lambda>tf. ini tf + total_in (fst (run_log fund_step cs st)) tf)
    (\<lambda>tf. out tf + total_out (fst (run_log fund_step cs st)) tf) (snd (run_log fund_step cs st))"
  using assms
proof (induction cs arbitrary: ini out st)
  case (Cons c cs)
  obtain x st1 where s: "fund_step c st = (x, st1)" by (cases "fund_step c st")
  have ids: "set (new_fund_ids [c]) \<inter> set (new_fund_ids cs) = {}" "distinct (new_fund_ids cs)"
    "\<forall>n \<in> set (new_fund_ids [c]). \<forall>t. fs_funds st (t, n) = None"
    "\<forall>n \<in> set (new_fund_ids cs). \<forall>t. fs_funds st (t, n) = None"
    using Cons.prems(2,3) unfolding new_fund_ids_Cons [of c cs] by auto
  note one = fund_step_history [OF Cons.prems(1) ids(3) s]
  have "\<forall>n \<in> set (new_fund_ids cs). \<forall>t. fs_funds st1 (t, n) = None" using one ids(1,4) by blast
  from Cons.IH [OF conjunct1 [OF one] ids(2) this] show ?case
    by (simp add: run_log_Cons s add.assoc del: run_log.simps(2))
qed simp

section \<open>The other routers\<close>

lemma recon_run_log: "recon_run tol vz cs st = run_log (recon_step tol vz) cs st"
  by (induction cs arbitrary: st) (simp_all add: Let_def)

text \<open>The closings that were answered, each with the environment of its request and the answered document;
  a stored closing is filed when it has the id drawn for it and reads as it was answered.\<close>

fun accepted_closing :: "recon_cmd \<times> json http \<Rightarrow> (closing_env \<times> json) option" where
  "accepted_closing (Close env r, HttpOk n j) = Some (env, j)"
| "accepted_closing _ = None"

definition filed_as :: "string \<times> closing_entry \<Rightarrow> closing_env \<times> json \<Rightarrow> bool" where
  "filed_as ie a = (case a of (env, j) \<Rightarrow>
     fst ie = ''REC-'' @ py_upper (take 12 (le_rec_uuid env)) \<and> j = closing_response (le_money env) (snd ie))"

lemma recon_step_filed:
  assumes "set (closing_ids [c]) \<inter> fst ` set (rh_history st) = {}"
  obtains (none) "accepted_closing (c, fst (recon_step tol vz c st)) = None"
      "rh_history (snd (recon_step tol vz c st)) = rh_history st"
  | (filed) ie a where "accepted_closing (c, fst (recon_step tol vz c st)) = Some a" "filed_as ie a"
      "set (closing_ids [c]) = {fst ie}" "rh_history (snd (recon_step tol vz c st)) = rh_history st @ [ie]"
proof (cases c)
  case (Close env r)
  show thesis
  proof (cases rule: closing_cases [of tol vz env r st])
    case (refused n)
    with Close show thesis by (intro none) simp_all
  next
    case (accepted e)
    let ?i = "''REC-'' @ py_upper (take 12 (le_rec_uuid env))"
    show thesis
      by (rule filed [of "(env, closing_response (le_money env) e)" "(?i, e)"])
        (use accepted(2) assms Close in \<open>simp_all add: filed_as_def update_new\<close>)
  qed
next
  case (Sign now r)
  then show thesis
    by (intro none) (auto simp: sign_off_reconciliation_def Let_def split: option.splits)
qed

lemma recon_run_filed:
  assumes "distinct (closing_ids cs)" "set (closing_ids cs) \<inter> fst ` set (rh_history st) = {}"
  shows "\<exists>new. rh_history (snd (run_log (recon_step tol vz) cs st)) = rh_history st @ new \<and>
    list_all2 filed_as new (List.map_filter accepted_closing (fst (run_log (recon_step tol vz) cs st)))"
  using assms
proof (induction cs arbitrary: st)
  case Nil
  then show ?case by (simp add: map_filter_simps)
next
  case (Cons c cs)
  let ?st1 = "snd (recon_step tol vz c st)"
  have ids: "set (closing_ids [c]) \<inter> fst ` set (rh_history st) = {}" "distinct (closing_ids cs)"
    "set (closing_ids [c]) \<inter> set (closing_ids cs) = {}" "set (closing_ids cs) \<inter> fst ` set (rh_history st) = {}"
    using Cons.prems closing_ids_Cons [of c cs] by auto
  show ?case
  proof (cases rule: recon_step_filed [OF ids(1), of tol vz, case_names none filed])
    case none
    with Cons.IH [of ?st1] ids show ?thesis
      by (simp add: run_log_Cons map_filter_simps del: run_log.simps(2))
  next
    case (filed ie a)
    then have "set (closing_ids cs) \<inter> fst ` set (rh_history ?st1) = {}" using ids(3,4) by auto
    with Cons.IH [of ?st1] ids(2) obtain new where
      "rh_history (snd (run_log (recon_step tol vz) cs ?st1)) = rh_history ?st1 @ new"
      "list_all2 filed_as new (List.map_filter accepted_closing (fst (run_log (recon_step tol vz) cs ?st1)))"
      by blast
    with filed show ?thesis
      by (intro exI [of _ "ie # new"]) (simp add: run_log_Cons map_filter_simps del: run_log.simps(2))
  qed
qed

fun accepted_record :: "(string \<times> record_body) \<times> json http \<Rightarrow> spend_record option" where
  "accepted_record ((now, b), HttpOk n j) = record_of_body now b"
| "accepted_record (_, HttpError n) = None"

lemma record_run:
  "snd (run_log record_step cs rs) = rs @ List.map_filter accepted_record (fst (run_log record_step cs rs))"
proof (induction cs arbitrary: rs)
  case (Cons c cs)
  obtain now b where c: "c = (now, b)" by (cases c)
  show ?case
    using Cons by (cases "record_of_body now b")
      (simp_all add: c run_log_Cons add_spend_record_def map_filter_simps del: run_log.simps(2))
qed (simp add: map_filter_simps)

lemma approval_step_serve: "snd (approval_step (env, c) st) = serve env c st"
  by (cases c) simp_all

lemma approval_run_typed: "api_typed st \<Longrightarrow> api_typed (snd (run_log approval_step cs st))"
  by (erule run_log_invariant) (auto simp: approval_step_serve api_typed_serve)

text \<open>The requests shown by the answers, with the environment they are written in, and the last one that
  was shown under a tenant and an id.\<close>

fun shown :: "(api_env \<times> rest_call) \<times> approval_answer \<Rightarrow> (api_env \<times> request_dto) option" where
  "shown ((env, c), SubmitAnswer (HttpOk n (d, p))) = Some (env, d)"
| "shown ((env, c), DecisionAnswer (HttpOk n d)) = Some (env, d)"
| "shown _ = None"

definition last_shown ::
  "(api_env \<times> request_dto) list \<Rightarrow> string \<times> string \<Rightarrow> (api_env \<times> request_dto) option" where
  "last_shown xs k = find (\<lambda>(env, d). (rd_tenant_id d, rd_request_id d) = k) (rev xs)"

text \<open>A store reads as it was shown: nothing under a key that was never shown, else the request of the last
  answer, of which only the receipt is not compared.\<close>

definition reads_as :: "approval_request option \<Rightarrow> (api_env \<times> request_dto) option \<Rightarrow> bool" where
  "reads_as x s = (case s of
     None \<Rightarrow> x = None | Some (env, d) \<Rightarrow> (\<exists>r m. x = Some r \<and> d = to_response_dto env r m))"

definition stored_as_shown :: "approval_api \<Rightarrow> (api_env \<times> request_dto) list \<Rightarrow> bool" where
  "stored_as_shown st xs \<longleftrightarrow> (\<forall>k. reads_as (map_of (ws_requests (aa_service st)) k) (last_shown xs k))"

text \<open>What an endpoint does that answers with a request: it refuses and changes nothing, or it stores the
  request it shows under its tenant and id.\<close>

definition stores_shown :: "api_env \<Rightarrow> approval_api \<Rightarrow> request_dto http \<times> approval_api \<Rightarrow> bool" where
  "stores_shown env st out \<longleftrightarrow> (\<exists>n. out = (HttpError n, st)) \<or>
     (\<exists>n r m st'. out = (HttpOk n (to_response_dto env r m), st') \<and>
        ws_requests (aa_service st') = AList.update (ar_tenant_id r, ar_request_id r) r (ws_requests (aa_service st)))"

lemma refusal_stores_nothing [simp]: "stores_shown env st (HttpError n, st)"
  by (simp add: stores_shown_def)

lemma stores_shownI:
  "ws_requests (aa_service st') = AList.update (ar_tenant_id r, ar_request_id r) r (ws_requests (aa_service st)) \<Longrightarrow>
   stores_shown env st (HttpOk n (to_response_dto env r m), st')"
  unfolding stores_shown_def by blast

lemma decision_stores:
  assumes st: "api_typed st"
  shows "stores_shown env st (decision_response env status t i (call_service env
    (\<lambda>svc. apply_decision uid now svc (py_strip t) (py_strip i) actor nts ev check ety pl) st))"
proof (cases rule: apply_decision_cases [of uid now "aa_service st" "py_strip t" "py_strip i" actor nts ev check ety pl])
  case (failed e)
  then show ?thesis by (simp add: decision_response_of [OF refl])
next
  case (accepted r s rec r')
  have "request_ok (py_strip t, py_strip i) r"
    using st map_of_SomeD [OF accepted(1)] by (auto simp: api_typed_def service_ok_def)
  then have "(ar_tenant_id r', ar_request_id r') = (py_strip t, py_strip i)" by (simp add: request_ok_def accepted(4))
  with accepted(9,10) show ?thesis by (simp add: decision_response_of [OF refl] stores_shownI)
qed

lemma submit_stores:
  "stores_shown env st (apfst (\<lambda>h. case h of HttpOk n dp \<Rightarrow> HttpOk n (fst dp) | HttpError n \<Rightarrow> HttpError n)
     (rest_submit env rid u1 u2 now b st))"
proof (cases "submit_valid b")
  case False
  then show ?thesis by (simp add: rest_submit_def)
next
  case valid: True
  let ?f = "\<lambda>svc. submit_request rid u1 u2 now svc (sb_tenant_id b) (sb_custodian_id b)
    (sb_amount_scaled b) (submit_normalize_currency b) (sb_description b) (sb_receipt_metadata b)
    (sb_auto_approve_if_eligible b) (sb_notes b)"
  show ?thesis
  proof (cases rule: submit_request_cases [of rid u1 u2 now "aa_service st" "sb_tenant_id b" "sb_custodian_id b"
      "sb_amount_scaled b" "submit_normalize_currency b" "sb_description b" "sb_receipt_metadata b"
      "sb_auto_approve_if_eligible b" "sb_notes b"])
    case (failed e)
    with valid show ?thesis by (simp add: rest_submit_def call_service_kept)
  next
    case (accepted res draft r1 r)
    obtain st' where st': "call_service env ?f st = (Inr (r, res), st')"
      using accepted(12) call_service_simps(1) [of env ?f st] by (metis prod.collapse)
    then have "ws_requests (aa_service st') = AList.update (py_strip (sb_tenant_id b), rid) r (ws_requests (aa_service st))"
      using accepted(13) call_service_simps(2) [of env ?f st] by simp
    moreover have "(ar_tenant_id r, ar_request_id r) = (py_strip (sb_tenant_id b), rid)"
      unfolding accepted(11,10) using accepted(6,7) by (simp add: transition_def Let_def split: option.split)
    ultimately show ?thesis using valid st' by (simp add: rest_submit_def stores_shownI)
  qed
qed

lemma endpoint_stores:
  assumes "api_typed st"
  shows "stores_shown env st (rest_approve env uid now i b st)" "stores_shown env st (rest_reject env uid now i b st)"
    "stores_shown env st (rest_disburse env uid now i d st)"
  unfolding endpoint_eqs using decision_stores [OF assms] by auto

lemma approval_step_shown:
  assumes "api_typed st"
  obtains (none) "shown ((env, c), fst (approval_step (env, c) st)) = None"
      "ws_requests (aa_service (snd (approval_step (env, c) st))) = ws_requests (aa_service st)"
  | (some) r m where "shown ((env, c), fst (approval_step (env, c) st)) = Some (env, to_response_dto env r m)"
      "ws_requests (aa_service (snd (approval_step (env, c) st))) =
        AList.update (ar_tenant_id r, ar_request_id r) r (ws_requests (aa_service st))"
proof (cases c)
  case (PostSubmit rid u1 u2 now b)
  obtain h st' where h: "rest_submit env rid u1 u2 now b st = (h, st')" by (cases "rest_submit env rid u1 u2 now b st")
  with PostSubmit submit_stores [of env st rid u1 u2 now b] show thesis
    by (cases h) (auto simp: stores_shown_def intro: none some)
next
  case (PostApprove uid now i b)
  with endpoint_stores(1) [OF assms, of env uid now i b] show thesis
    by (auto simp: stores_shown_def intro: none some)
next
  case (PostReject uid now i b)
  with endpoint_stores(2) [OF assms, of env uid now i b] show thesis
    by (auto simp: stores_shown_def intro: none some)
next
  case (PostDisburse uid now i d)
  with endpoint_stores(3) [OF assms, of env uid now i d] show thesis
    by (auto simp: stores_shown_def intro: none some)
next
  case (RunTask alive)
  then show thesis
    by (intro none) (simp_all add: run_task_def broadcast_json_def Let_def disconnect_all split: list.split)
next
  case (Session now w "is")
  then show thesis
    by (intro none) (simp_all add: ws_open_def feed_connect_def Let_def feed_runs feed_disconnect_def)
qed

lemma last_shown_snoc:
  "last_shown (xs @ [(env, d)]) k = (if (rd_tenant_id d, rd_request_id d) = k then Some (env, d) else last_shown xs k)"
  by (simp add: last_shown_def)

lemma stored_as_shown_update:
  assumes "stored_as_shown st xs"
    "ws_requests (aa_service st') = AList.update (ar_tenant_id r, ar_request_id r) r (ws_requests (aa_service st))"
  shows "stored_as_shown st' (xs @ [(env, to_response_dto env r m)])"
proof -
  have key: "rd_tenant_id (to_response_dto env r m) = ar_tenant_id r" "rd_request_id (to_response_dto env r m) = ar_request_id r"
    by (simp_all add: to_response_dto_def)
  have "reads_as (Some r) (Some (env, to_response_dto env r m))" by (auto simp: reads_as_def)
  with assms(1) show ?thesis by (simp add: stored_as_shown_def last_shown_snoc assms(2) update_conv key)
qed

lemma approval_run_shown:
  assumes "api_typed st" "stored_as_shown st xs"
  shows "stored_as_shown (snd (run_log approval_step cs st))
    (xs @ List.map_filter shown (fst (run_log approval_step cs st)))"
  using assms
proof (induction cs arbitrary: st xs)
  case (Cons ec cs)
  obtain env c where ec: "ec = (env, c)" by (cases ec)
  let ?st1 = "snd (approval_step (env, c) st)"
  have typed: "api_typed ?st1" using Cons.prems(1) by (simp add: approval_step_serve api_typed_serve)
  show ?case
  proof (cases rule: approval_step_shown [OF Cons.prems(1), of env c, case_names none some])
    case none
    have "stored_as_shown ?st1 xs" using Cons.prems(2) unfolding stored_as_shown_def none(2) .
    from Cons.IH [OF typed this] none(1) show ?thesis
      by (simp add: ec run_log_Cons map_filter_simps del: run_log.simps(2))
  next
    case (some r m)
    from Cons.IH [OF typed stored_as_shown_update [OF Cons.prems(2) some(2)]] some(1) show ?thesis
      by (simp add: ec run_log_Cons map_filter_simps del: run_log.simps(2))
  qed
qed (simp add: map_filter_simps)

text \<open>The books of a fund service and of a reconciliation router that started empty.\<close>

lemma fund_books:
  assumes "run_log fund_step cs empty_funds = (log, st)" "distinct (new_fund_ids cs)" "fs_funds st tf = Some f"
  shows "fd_available_amount_scaled f + custody st tf = total_in log tf - total_out log tf \<and>
    0 \<le> fd_available_amount_scaled f \<and> 0 \<le> custody st tf"
proof -
  have "fund_history (total_in log) (total_out log) st"
    using fund_run_history [OF fund_history.start assms(2)] assms(1) by (simp add: empty_funds_def)
  then have inv: "fund_inv (total_in log) (total_out log) st" by (rule fund_history_inv)
  show ?thesis
    using fund_invD(4) [OF inv assms(3)] fund_invD(2) [OF inv] by (simp add: custody_def held_in_nonneg)
qed

lemma recon_books:
  assumes "run_log (recon_step tol vz) cs new_recon_api = (log, st)" "distinct (closing_ids cs)"
    and "map_of (rh_history st) i = Some e"
  shows "rh_signoffs st i = Some (accepted_signatures i log) \<and>
    (\<forall>b. va_adjustment_batch (ce_analysis e) = Some b \<longrightarrow> validate_balance b = Inr True)"
proof -
  have kept: "recon_kept new_recon_api log st (closing_ids cs)"
    by (rule recon_run_kept) (use assms(1,2) in \<open>simp_all add: recon_run_log new_recon_api_def recon_ok_def\<close>)
  have mem: "(i, e) \<in> set (rh_history st)" using assms(3) by (rule map_of_SomeD)
  then have "i \<in> fst ` set (rh_history st)" by (rule image_eqI [rotated]) simp
  then have "i \<in> dom (rh_signoffs st)" using kept by (simp add: recon_kept_def recon_ok_def)
  moreover have "signatures_of st i = accepted_signatures i log"
    using kept by (simp add: recon_kept_def signatures_of_def new_recon_api_def)
  moreover have "entry_ok (i, e)" using kept mem by (simp add: recon_kept_def)
  ultimately show ?thesis by (auto simp: signatures_of_def entry_ok_def)
qed

section \<open>The answered requests of each router\<close>

fun fund_view :: "app_answer \<Rightarrow> fund_answer option" where
  "fund_view (FundReply x) = Some x" | "fund_view _ = None"

fun recon_view :: "app_answer \<Rightarrow> json http option" where
  "recon_view (ReconReply x) = Some x" | "recon_view _ = None"

fun approval_view :: "app_answer \<Rightarrow> approval_answer option" where
  "approval_view (ApprovalReply x) = Some x" | "approval_view _ = None"

fun record_view :: "app_answer \<Rightarrow> json http option" where
  "record_view (RecordReply x) = Some x" | "record_view _ = None"

type_synonym app_log = "(app_event \<times> app_answer) list"

definition fund_log :: "'img site \<Rightarrow> app_log \<Rightarrow> (fund_call \<times> fund_answer) list" where
  "fund_log site = entries (\<lambda>ev. fund_calls (resolve site ev)) fund_view"

definition recon_log :: "'img site \<Rightarrow> app_log \<Rightarrow> (recon_cmd \<times> json http) list" where
  "recon_log site = entries (\<lambda>ev. recon_calls (resolve site ev)) recon_view"

definition record_log :: "'img site \<Rightarrow> app_log \<Rightarrow> ((string \<times> record_body) \<times> json http) list" where
  "record_log site = entries (\<lambda>ev. record_calls (resolve site ev)) record_view"

definition approval_log :: "'img site \<Rightarrow> app_log \<Rightarrow> ((api_env \<times> rest_call) \<times> approval_answer) list" where
  "approval_log site = entries (\<lambda>ev. approval_calls (resolve site ev)) approval_view"

text \<open>The ids drawn by a sequence of events: those of new funds, and those of closings.\<close>

definition drawn_fund_ids :: "'img site \<Rightarrow> app_event list \<Rightarrow> uuid list" where
  "drawn_fund_ids site evs = new_fund_ids (List.map_filter (\<lambda>ev. fund_calls (resolve site ev)) evs)"

definition drawn_closing_ids :: "'img site \<Rightarrow> app_event list \<Rightarrow> string list" where
  "drawn_closing_ids site evs = closing_ids (List.map_filter (\<lambda>ev. recon_calls (resolve site ev)) evs)"

text \<open>C5. After any requests to a fresh application, whatever their order and outcome, its state is accounted for
  by what it answered. In every fund, what is available and what its custodians hold is what accepted
  requests paid in less what accepted disbursements paid out. The stored closings are the answered ones, in
  order, each under the id drawn for it and with the content it was answered with; the signatures of every
  closing are the accepted sign-offs, and its adjusting batch balances. The spend records are the
  accepted ones, in order. An approval request is stored exactly when an answer showed it, as the last answer
  under its tenant and id showed it (its receipt is not compared), and every stored one is filed under its own
  tenant and id, has a positive amount and a trail that is its history. The uuids drawn for funds and closings
  are assumed to differ.\<close>

theorem books_account_for_answers:
  assumes run: "run_log (app_step site) evs (create_app cb None None) = (log, st)"
    and ids: "distinct (drawn_fund_ids site evs)" "distinct (drawn_closing_ids site evs)"
  shows "(\<forall>tf f. fs_funds (ap_funds st) tf = Some f \<longrightarrow>
      fd_available_amount_scaled f + custody (ap_funds st) tf =
        total_in (fund_log site log) tf - total_out (fund_log site log) tf \<and>
      0 \<le> fd_available_amount_scaled f \<and> 0 \<le> custody (ap_funds st) tf) \<and>
    list_all2 filed_as (rh_history (ap_recon st)) (List.map_filter accepted_closing (recon_log site log)) \<and>
    (\<forall>i e. map_of (rh_history (ap_recon st)) i = Some e \<longrightarrow>
      rh_signoffs (ap_recon st) i = Some (accepted_signatures i (recon_log site log)) \<and>
      (\<forall>b. va_adjustment_batch (ce_analysis e) = Some b \<longrightarrow> validate_balance b = Inr True)) \<and>
    ap_records st = List.map_filter accepted_record (record_log site log) \<and>
    (\<forall>k. reads_as (map_of (ws_requests (aa_service (ap_approvals st))) k)
      (last_shown (List.map_filter shown (approval_log site log)) k)) \<and>
    (\<forall>(k, r) \<in> set (ws_requests (aa_service (ap_approvals st))). request_ok k r)"
proof -
  let ?app = "create_app cb None None"
  have st: "st = snd (run_log (app_step site) evs ?app)" "log = fst (run_log (app_step site) evs ?app)"
    using run by simp_all
  have parts: "run_log fund_step (List.map_filter (\<lambda>ev. fund_calls (resolve site ev)) evs) empty_funds =
      (fund_log site log, ap_funds st)"
    "run_log (recon_step 0 default_analyzer) (List.map_filter (\<lambda>ev. recon_calls (resolve site ev)) evs) new_recon_api =
      (recon_log site log, ap_recon st)"
    "run_log record_step (List.map_filter (\<lambda>ev. record_calls (resolve site ev)) evs) [] = (record_log site log, ap_records st)"
    "run_log approval_step (List.map_filter (\<lambda>ev. approval_calls (resolve site ev)) evs) (ap_approvals ?app) =
      (approval_log site log, ap_approvals st)"
    by (simp_all add: st prod_eq_iff fund_log_def recon_log_def record_log_def approval_log_def create_app_def
        funds_part.part_entries funds_part.part_run recon_part.part_entries recon_part.part_run
        records_part.part_entries records_part.part_run approvals_part.part_entries approvals_part.part_run)
  have typed: "api_typed (ap_approvals ?app)" by (simp add: create_app_def api_typed_start)
  have "stored_as_shown (ap_approvals ?app) []"
    by (simp add: stored_as_shown_def reads_as_def last_shown_def create_app_def create_approval_router_def
        subscribe_def new_service_def)
  from approval_run_shown [OF typed this, of "List.map_filter (\<lambda>ev. approval_calls (resolve site ev)) evs"]
  have shown: "\<forall>k. reads_as (map_of (ws_requests (aa_service (ap_approvals st))) k)
      (last_shown (List.map_filter shown (approval_log site log)) k)"
    by (simp add: parts(4) stored_as_shown_def)
  have "api_typed (ap_approvals st)"
    using approval_run_typed [OF typed, of "List.map_filter (\<lambda>ev. approval_calls (resolve site ev)) evs"] parts(4) by simp
  then have "\<forall>(k, r) \<in> set (ws_requests (aa_service (ap_approvals st))). request_ok k r"
    by (auto simp: api_typed_def service_ok_def)
  moreover have "ap_records st = List.map_filter accepted_record (record_log site log)"
    using record_run [of _ "[]"] parts(3) by (metis append_Nil fst_conv snd_conv)
  moreover have "list_all2 filed_as (rh_history (ap_recon st)) (List.map_filter accepted_closing (recon_log site log))"
    using recon_run_filed [of _ new_recon_api 0 default_analyzer, OF ids(2) [unfolded drawn_closing_ids_def]] parts(2)
    by (simp add: new_recon_api_def)
  ultimately show ?thesis
    using fund_books [OF parts(1)] recon_books [OF parts(2)] ids shown
    unfolding drawn_fund_ids_def drawn_closing_ids_def by (intro conjI allI impI) blast+
qed

section \<open>Only accepted requests change a router\<close>

fun is_ok :: "'a http \<Rightarrow> bool" where
  "is_ok (HttpOk n x) = True" | "is_ok (HttpError n) = False"

fun fund_ok :: "fund_answer \<Rightarrow> bool" where
  "fund_ok (FundAnswer h) = is_ok h" | "fund_ok (BalanceAnswer h) = is_ok h"

fun approval_ok :: "approval_answer \<Rightarrow> bool" where
  "approval_ok (SubmitAnswer h) = is_ok h" | "approval_ok (DecisionAnswer h) = is_ok h" | "approval_ok _ = True"

fun accepted :: "app_answer \<Rightarrow> bool" where
  "accepted (FundReply x) = fund_ok x"
| "accepted (ReconReply h) = is_ok h"
| "accepted (RecordReply h) = is_ok h"
| "accepted (ApprovalReply x) = approval_ok x"
| "accepted (PageReply x) = True"
| "accepted (Refused n) = False"

lemma fund_refused: "\<not> fund_ok (fst (fund_step c st)) \<Longrightarrow> snd (fund_step c st) = st"
  by (cases c) (auto simp: rest_create_fund_def rest_mutate_def run_mutation_def
      dest: failed_operation_keeps_state split: prod.splits sum.splits if_splits mutation.splits)

lemma recon_refused:
  assumes "\<not> is_ok (fst (recon_step tol vz c st))"
  shows "snd (recon_step tol vz c st) = st"
proof (cases c)
  case (Close env r)
  with assms show ?thesis by (cases rule: closing_cases [of tol vz env r st]) simp_all
next
  case (Sign now r)
  with assms show ?thesis by (auto simp: sign_off_reconciliation_def Let_def split: option.splits if_splits)
qed

lemma record_refused: "\<not> is_ok (fst (record_step c records)) \<Longrightarrow> snd (record_step c records) = records"
  by (cases c) (auto simp: add_spend_record_def split: option.splits)

lemma decision_refused:
  assumes "f = (\<lambda>svc. apply_decision uid now svc (py_strip t) (py_strip i) actor nts ev check ety pl)"
    and "\<not> is_ok (fst (decision_response env status t i (call_service env f st)))"
  shows "snd (decision_response env status t i (call_service env f st)) = st"
  using assms(2) unfolding decision_response_of [OF assms(1)] by (auto split: sum.splits)

lemma submit_refused:
  assumes "\<not> is_ok (fst (rest_submit env rid u1 u2 now b st))"
  shows "snd (rest_submit env rid u1 u2 now b st) = st"
proof (cases rule: submit_request_cases [of rid u1 u2 now "aa_service st" "sb_tenant_id b" "sb_custodian_id b"
      "sb_amount_scaled b" "submit_normalize_currency b" "sb_description b" "sb_receipt_metadata b"
      "sb_auto_approve_if_eligible b" "sb_notes b"])
  case (failed e)
  then show ?thesis by (simp add: rest_submit_def call_service_kept)
next
  case (accepted res draft r1 r)
  then have "is_ok (fst (rest_submit env rid u1 u2 now b st)) \<or> \<not> submit_valid b"
    by (auto simp: rest_submit_def call_service_def Let_def split: prod.split)
  with assms show ?thesis by (auto simp: rest_submit_def)
qed

lemma approval_refused:
  assumes "\<not> approval_ok (fst (approval_step (env, c) st))"
  shows "snd (approval_step (env, c) st) = st"
proof (cases c)
  case (PostSubmit rid u1 u2 now b)
  with assms submit_refused show ?thesis by simp
next
  case (PostApprove uid now i b)
  with assms show ?thesis
    by (auto simp: rest_approve_eq decision_refused [OF refl] simp del: decision_response_state split: if_splits)
next
  case (PostReject uid now i b)
  with assms show ?thesis
    by (auto simp: rest_reject_eq decision_refused [OF refl] simp del: decision_response_state split: if_splits)
next
  case (PostDisburse uid now i d)
  with assms show ?thesis
    by (auto simp: rest_disburse_eq decision_refused [OF refl] simp del: decision_response_state split: if_splits)
qed (use assms in simp_all)

lemma perform_refused: "\<not> accepted (fst (perform site c st)) \<Longrightarrow> snd (perform site c st) = st"
  by (cases c) (auto simp: case_prod_unfold fund_refused recon_refused record_refused approval_refused
      simp del: fund_step.simps recon_step.simps record_step.simps approval_step.simps)

section \<open>Where a call comes from\<close>

lemma seg_match_Some:
  "seg_match [] p = Some xs \<longleftrightarrow> p = [] \<and> xs = []"
  "seg_match (Lit s # ts) p = Some xs \<longleftrightarrow> (\<exists>ps. p = s # ps \<and> seg_match ts ps = Some xs)"
  "seg_match (Var x # ts) p = Some xs \<longleftrightarrow> (\<exists>q ps ys. p = q # ps \<and> q \<noteq> [] \<and> xs = q # ys \<and> seg_match ts ps = Some ys)"
  by (cases p; auto)+

lemma first_match_in: "first_match rs m p = Some x \<Longrightarrow> \<exists>r \<in> set rs. route_match m p r = Some x"
  by (induction rs) (auto split: option.splits)

text \<open>The method and the prefix under which each changing endpoint is registered.\<close>

fun home :: "endpoint \<Rightarrow> meth \<times> string list" where
  "home CreateFund = (POST, [''v1'', ''funds''])"
| "home AllocateFloat = (POST, [''v1'', ''funds''])"
| "home IssueDisbursement = (POST, [''v1'', ''funds''])"
| "home DailyClosing = (POST, [''api'', ''v1'', ''reconciliation''])"
| "home SignOff = (POST, [''api'', ''v1'', ''reconciliation''])"
| "home AddRecord = (POST, [''api'', ''v1'', ''reports''])"
| "home SubmitApproval = (POST, [''v1'', ''approvals''])"
| "home ApproveRequest = (POST, [''v1'', ''approvals''])"
| "home RejectRequest = (POST, [''v1'', ''approvals''])"
| "home DisburseRequest = (POST, [''v1'', ''approvals''])"
| "home LiveFeed = (SOCKET, [''v1'', ''approvals''])"
| "home _ = (GET, [])"

lemma selected_home:
  assumes "first_match (app_routes s) m p = Some (e, xs)" "snd (home e) \<noteq> []"
  shows "m = fst (home e) \<and> take (length (snd (home e))) p = snd (home e)"
proof -
  obtain r where r: "r \<in> set (app_routes s)" "route_match m p r = Some (e, xs)"
    using first_match_in [OF assms(1)] by blast
  have "list_all (\<lambda>r. case r of Mount t e \<Rightarrow> snd (home e) = [] | Route m t e \<Rightarrow> snd (home e) = [] \<or>
      (m = fst (home e) \<and> take (length (snd (home e))) t = map Lit (snd (home e)))) (app_routes s)"
    by (cases s) (simp only:, code_simp)+
  then have "case r of Mount t e \<Rightarrow> snd (home e) = [] | Route m t e \<Rightarrow> snd (home e) = [] \<or>
      (m = fst (home e) \<and> take (length (snd (home e))) t = map Lit (snd (home e)))"
    using r(1) unfolding list_all_iff by (rule bspec)
  with assms(2) r(2) obtain t where t: "m = fst (home e)" "take (length (snd (home e))) t = map Lit (snd (home e))"
      "seg_match t p = Some xs"
    by (cases r) (auto split: if_splits)
  have "take n p = us" if "take n t = map Lit us" "seg_match t p = Some xs" for n us
    using that by (induction t p arbitrary: n us xs rule: seg_match.induct)
      (auto simp: take_Cons Cons_eq_map_conv split: nat.splits if_splits)
  with t show ?thesis by blast
qed

text \<open>A call that can change a router is made under the prefix of that router, by another method than \<open>GET\<close>.\<close>

fun changes_under :: "app_call \<Rightarrow> string list" where
  "changes_under (FundCall (AskBalance t fid c)) = []"
| "changes_under (FundCall c) = [''v1'', ''funds'']"
| "changes_under (ReconCall c) = [''api'', ''v1'', ''reconciliation'']"
| "changes_under (RecordCall c) = [''api'', ''v1'', ''reports'']"
| "changes_under (ApprovalCall c) = [''v1'', ''approvals'']"
| "changes_under (QueryCall q) = []"

lemma call_home:
  "call_of site e xs inp = Some c \<Longrightarrow> changes_under c \<noteq> [] \<Longrightarrow>
   fst (home e) \<noteq> GET \<and> snd (home e) = changes_under c"
  by (cases e) (auto simp: call_of_def mutation_call_def action_call_def file_call_def split: inputs.splits option.splits)

lemma perform_query: "changes_under c = [] \<Longrightarrow> snd (perform site c st) = st"
  by (cases c rule: changes_under.cases) auto

lemma request_resolved:
  assumes "takes_first_match (wb_dispatch site)" "resolve site (Request m p inp) = Inr c" "changes_under c \<noteq> []"
  shows "m \<noteq> GET \<and> take (length (changes_under c)) p = changes_under c"
proof -
  obtain e xs where e: "wb_dispatch site (app_routes (wb_static site \<noteq> None)) m p = Selected e xs"
      "call_of site e xs inp = Some c"
    using assms(2) by (auto split: selection.splits option.splits if_splits)
  have "first_match (app_routes (wb_static site \<noteq> None)) m p = Some (e, xs)"
    using assms(1) e(1) by (simp add: takes_first_match_def)
  from selected_home [OF this] call_home [OF e(2) assms(3)] assms(3) show ?thesis by simp
qed

text \<open>C40. Only accepted requests change anything, and only where they are addressed. A refused request, a
  request that is not routed, and every \<open>GET\<close> leave the whole application as it was; a request changes the
  funds, the closings, the spend records or the approvals only under the path prefix of their router.\<close>

theorem requests_change_only_their_router:
  assumes "takes_first_match (wb_dispatch site)" "app_step site (Request m p inp) st = (x, st')"
  shows "(\<not> accepted x \<longrightarrow> st' = st) \<and> (m = GET \<longrightarrow> st' = st) \<and>
    (take 2 p \<noteq> [''v1'', ''funds''] \<longrightarrow> ap_funds st' = ap_funds st) \<and>
    (take 3 p \<noteq> [''api'', ''v1'', ''reconciliation''] \<longrightarrow> ap_recon st' = ap_recon st) \<and>
    (take 3 p \<noteq> [''api'', ''v1'', ''reports''] \<longrightarrow> ap_records st' = ap_records st) \<and>
    (take 2 p \<noteq> [''v1'', ''approvals''] \<longrightarrow> ap_approvals st' = ap_approvals st)"
proof (cases "resolve site (Request m p inp)")
  case (Inl n)
  with assms(2) show ?thesis by (simp add: app_step_def del: resolve.simps)
next
  case (Inr c)
  then have run: "perform site c st = (x, st')" using assms(2) app_step_routed by metis
  show ?thesis
  proof (cases "changes_under c = []")
    case True
    with perform_query [of c site st] run show ?thesis by simp
  next
    case False
    note under = request_resolved [OF assms(1) Inr False]
    have "\<not> accepted x \<longrightarrow> st' = st" using perform_refused [of site c st] run by simp
    with under run show ?thesis
      by (cases c rule: changes_under.cases) (auto simp: numeral_2_eq_2 numeral_3_eq_3 split: prod.splits)
  qed
qed

section \<open>A concrete application\<close>

definition demo_site :: "nat site" where
  "demo_site = \<lparr>wb_dispatch = dispatch, wb_uuid = Some, wb_imaging = demo_imaging, wb_money = (\<lambda>_. ''$''),
     wb_fmt = \<lparr>sf_money = (\<lambda>_. ''$''), sf_share = (\<lambda>_ _. ''0'')\<rparr>, wb_render = (\<lambda>_. ''pdf''), wb_static = None, wb_page = (\<lambda>_. ''html'')\<rparr>"

definition demo_events :: "app_event list" where
  "demo_events =
     [Request POST [''v1'', ''funds''] (FundIn ''f1'' ''t1'' ''petty'' ''usd'' ''c0'' 100),
      Request POST [''v1'', ''funds'', ''f1'', ''allocations''] (MutationIn ''t1'' ''c1'' 60),
      Request POST [''v1'', ''funds'', ''f1'', ''disbursements''] (MutationIn ''t1'' ''c1'' 25),
      Request POST [''v1'', ''funds'', ''f1'', ''disbursements''] (MutationIn ''t1'' ''c1'' 99)]"

definition demo_run :: "app_log \<times> app" where
  "demo_run = run_log (app_step demo_site) demo_events (create_app 1 None None)"

theorem books_account_for_answers_witness:
  "custody (ap_funds (snd demo_run)) (''t1'', ''f1'') = 35"
proof -
  have "map_option fd_available_amount_scaled (fs_funds (ap_funds (snd demo_run)) (''t1'', ''f1'')) = Some 40"
    by code_simp
  then obtain f where f: "fs_funds (ap_funds (snd demo_run)) (''t1'', ''f1'') = Some f"
      "fd_available_amount_scaled f = 40"
    by auto
  have totals: "total_in (fund_log demo_site (fst demo_run)) (''t1'', ''f1'') = 100"
    "total_out (fund_log demo_site (fst demo_run)) (''t1'', ''f1'') = 25" by code_simp+
  have ids: "distinct (drawn_fund_ids demo_site demo_events)" "distinct (drawn_closing_ids demo_site demo_events)"
    by code_simp+
  have run: "run_log (app_step demo_site) demo_events (create_app 1 None None) = (fst demo_run, snd demo_run)"
    by (simp add: demo_run_def)
  have "fd_available_amount_scaled f + custody (ap_funds (snd demo_run)) (''t1'', ''f1'') =
      total_in (fund_log demo_site (fst demo_run)) (''t1'', ''f1'') -
      total_out (fund_log demo_site (fst demo_run)) (''t1'', ''f1'')"
    using conjunct1 [OF books_account_for_answers [OF run ids]] f(1) by blast
  with f(2) totals show ?thesis by simp
qed

theorem requests_change_only_their_router_witness:
  "snd (app_step demo_site (Request POST [''v1'', ''float''] NoInput) (snd demo_run)) = snd demo_run"
proof -
  have "accepted (fst (app_step demo_site (Request POST [''v1'', ''float''] NoInput) (snd demo_run))) = False"
    by code_simp
  moreover have "takes_first_match (wb_dispatch demo_site)"
    by (simp add: demo_site_def dispatch_takes_first_match)
  ultimately show ?thesis
    using requests_change_only_their_router [of demo_site POST "[''v1'', ''float'']" NoInput "snd demo_run"]
    by (metis prod.collapse)
qed

end
