(* ===== verification/Disbursement_Audit.thy ===== *)
theory Disbursement_Audit
  imports Disbursement_Manager
begin

text \<open>
  The disbursement manager and the audit log together: whatever the manager is asked to do, the trail of
  results it shows a tenant and the tamper-evident log of that tenant say the same.
\<close>

text \<open>The results a log records, and the record of a result.\<close>

definition logged_results :: "audit_logger \<Rightarrow> string \<Rightarrow> string list" where
  "logged_results lg tenant = map ae_payload_json
     (filter (\<lambda>e. ae_event_type e = ''DISBURSEMENT_CANONICAL_RESULT'') (get_entries lg tenant))"

definition result_record :: "float_result \<Rightarrow> string" where
  "result_record res = dumps Spaced True (JDict
     [(''idempotency_key'', JStr (fr_idempotency_key res)),
      (''disbursement_id'', JStr (fr_disbursement_id res)), (''status'', JStr (fr_status res))])"

definition agrees :: "platform \<Rightarrow> string \<Rightarrow> manager \<Rightarrow> bool" where
  "agrees pf t m \<longleftrightarrow> (\<exists>evs. log_records (pf_hmac pf) (dm_audit_logger m) evs t) \<and>
     logged_results (dm_audit_logger m) t = map result_record (get_audit_trail m t)"

lemma audit_log_event:
  "dm_audit_logger (audit pf env tenant event d m) = log_event (pf_hmac pf) (dm_audit_logger m)
     \<lparr>ev_uuid_hex = dv_audit_uuid env, ev_now = dv_audit_now env, ev_tenant = tenant, ev_type = event,
      ev_actor = ''system'', ev_payload = JDict d\<rparr>"
  by (simp add: audit_def log_event_def)

lemma audit_logged:
  "logged_results (dm_audit_logger (audit pf env tenant event d m)) t = logged_results (dm_audit_logger m) t @
     (if t = tenant \<and> event = ''DISBURSEMENT_CANONICAL_RESULT'' then [dumps Spaced True (JDict d)] else [])"
  by (simp add: logged_results_def audit_def append_event_def get_entries_def Let_def)

lemma agrees_books:
  "dm_audit_logger m' = dm_audit_logger m \<Longrightarrow> dm_audit_trail m' = dm_audit_trail m \<Longrightarrow> agrees pf t m' = agrees pf t m"
  by (simp add: agrees_def get_audit_trail_def)

lemma agrees_store [simp]: "agrees pf t (m\<lparr>dm_store := st\<rparr>) = agrees pf t m"
  by (rule agrees_books) simp_all

lemma agrees_audit:
  assumes "agrees pf t m" "event \<noteq> ''DISBURSEMENT_CANONICAL_RESULT''"
  shows "agrees pf t (audit pf env tenant event d m)"
  using assms unfolding agrees_def audit_logged
  by (auto simp: get_audit_trail_def audit_log_event dest: log_event_records)

lemma agrees_result:
  assumes "agrees pf t m" "fr_tenant_id res = fq_tenant_id r" "fr_idempotency_key res = fq_idempotency_key r"
  shows "agrees pf t (audit pf env (fq_tenant_id r) ''DISBURSEMENT_CANONICAL_RESULT''
     [(''idempotency_key'', JStr (fq_idempotency_key r)), (''disbursement_id'', JStr (fr_disbursement_id res)),
      (''status'', JStr (fr_status res))] (record_idempotent_result now r res m))"
  using assms unfolding agrees_def audit_logged
  by (auto simp: get_audit_trail_def audit_log_event record_idempotent_result_def result_record_def
      dest: log_event_records)

lemma agrees_store_result:
  assumes "agrees pf t m" "echoes r res"
  shows "agrees pf t (snd (store_result pf env r fp res m))"
proof (cases "complete (dm_store m) (fq_tenant_id r) (fq_idempotency_key r) fp
    (dumps Spaced True (result_to_dict (pf_money pf) res))")
  case (Pair x st)
  have "agrees pf t (m\<lparr>dm_store := st\<rparr>)" using assms(1) by simp
  from agrees_result [OF this] assms Pair show ?thesis
    by (cases x) (simp_all add: store_result_def echoes_def)
qed

lemma agrees_disburse:
  assumes "agrees pf t m"
  shows "agrees pf t (snd (disburse_float pf env r m))"
proof -
  let ?fp = "request_fingerprint (pf_sha256 pf) (request_payload r)"
  obtain x st where g: "get_or_reserve (dv_store_now env) (dm_store m) (fq_tenant_id r) (fq_idempotency_key r) ?fp None = (x, st)"
    by (metis surj_pair)
  obtain y m' where rt: "route pf env r (m\<lparr>dm_store := st\<rparr>) = (y, m')" by (metis surj_pair)
  have m': "agrees pf t m'"
    using assms route_books [of "m\<lparr>dm_store := st\<rparr>" pf env r] agrees_books [of m' "m\<lparr>dm_store := st\<rparr>" pf t]
    by (simp add: rt same_books_def)
  show ?thesis
  proof (cases x)
    case (Inl e)
    with assms g show ?thesis by (simp add: disburse_float_def Let_def agrees_audit)
  next
    case (Inr stored)
    show ?thesis
    proof (cases stored)
      case (Some row)
      with assms g Inr show ?thesis by (simp add: disburse_float_def reuse_result_def Let_def agrees_audit)
    next
      case None
      with g Inr rt m' show ?thesis
        by (cases y) (auto simp: disburse_float_def downstream_failure_def Let_def agrees_audit
            intro: agrees_store_result route_echoes)
    qed
  qed
qed

lemma agrees_ingest: "agrees pf t m \<Longrightarrow> agrees pf t (snd (ingest_provider_event pf env tn p ev payload current m))"
  by (simp add: ingest_provider_event_def Let_def agrees_audit split: prod.split sum.split option.split)

lemma agrees_run: "agrees pf t m \<Longrightarrow> agrees pf t (foldl (run_op pf) m ops)"
proof (induction ops arbitrary: m)
  case (Cons op ops)
  then show ?case by (cases op) (simp_all add: agrees_disburse agrees_ingest)
qed simp

text \<open>C7. Whatever payments and provider callbacks a new manager handles, for whatever tenants, every tenant's
  audit log verifies, and the payments it records as results are exactly those of the trail the manager
  shows that tenant, in the same order, with their keys, ids and states: no result is missing in the log
  and none is logged twice, also when requests are replayed, refused or fail downstream.\<close>

theorem trail_matches_log:
  assumes "new_manager ci ma ttl store (new_audit_logger secret) = Inr m"
  shows "audit_verify_integrity (pf_hmac pf) (dm_audit_logger (foldl (run_op pf) m ops)) t = Inr True \<and>
    logged_results (dm_audit_logger (foldl (run_op pf) m ops)) t =
      map result_record (get_audit_trail (foldl (run_op pf) m ops) t)"
proof -
  have "log_records (pf_hmac pf) (new_audit_logger secret) [] t"
    using log_all_records [of "pf_hmac pf" secret "[]" t] by (simp add: log_all_def)
  then have "agrees pf t m"
    using assms by (auto simp: new_manager_def agrees_def logged_results_def get_audit_trail_def
        new_audit_logger_def get_entries_def split: if_splits)
  from agrees_run [OF this, of ops] show ?thesis
    by (auto simp: agrees_def log_records_def audit_verify_entries)
qed

theorem trail_matches_log_witness:
  "\<exists>m. new_manager (new_card_issuer MockIssuer) (new_mobile_adapter MockMobile False) 60 demo_store (new_audit_logger ''k'') = Inr m \<and>
     logged_results (dm_audit_logger (foldl (run_op demo_platform) m [PayFloat (demo_env 100) (demo_float MobileMoney 7)])) ''acme'' =
       map result_record (get_audit_trail (foldl (run_op demo_platform) m [PayFloat (demo_env 100) (demo_float MobileMoney 7)]) ''acme'')"
proof -
  obtain m where m: "new_manager (new_card_issuer MockIssuer) (new_mobile_adapter MockMobile False) 60 demo_store
      (new_audit_logger ''k'') = Inr m"
    by (simp add: new_manager_def)
  from trail_matches_log [OF m] m show ?thesis by blast
qed

end
