(* ===== verification/Ledger_Books.thy ===== *)
theory Ledger_Books
  imports Hash_Chain Reconciliation
begin

text \<open>
  The accounts as the hash chain holds them, and how a reconciliation reaches them: the postings stored in
  the blocks of \<^verbatim>\<open>domain/ledger/hash_chain.py\<close>, read as account balances, and the adjusting batches of
  \<^verbatim>\<open>domain/reconciliation/\<close> appended to them.
\<close>

section \<open>Balances of a chain\<close>

definition payload_effect :: "string \<Rightarrow> leg_payload \<Rightarrow> int" where
  "payload_effect a l = (if lg_acct l \<noteq> a then 0 else if lg_type l = ''DEBIT'' then lg_amt l else - lg_amt l)"

definition block_effect :: "string \<Rightarrow> ledger_block \<Rightarrow> int" where
  "block_effect a b = sum_list (map (payload_effect a) (lb_legs_payload b))"

definition chain_balance :: "ledger_chain \<Rightarrow> string \<Rightarrow> int" where
  "chain_balance ch a = sum_list (map (block_effect a) (lc_blocks ch))"

definition chain_accounts :: "ledger_chain \<Rightarrow> string set" where
  "chain_accounts ch = (\<Union>b \<in> set (lc_blocks ch). lg_acct ` set (lb_legs_payload b))"

lemma payload_effect_leg:
  "(\<Sum>l\<leftarrow>legs. payload_effect a (leg_dict l)) = account_effect a legs"
proof (induction legs)
  case (Cons l legs)
  then show ?case
    by (cases "pl_entry_type l") (auto simp: account_effect_Cons payload_effect_def leg_dict_def)
qed (simp add: account_effect_def)

lemma block_effect_sealed: "block_effect a (sealed_block mac ch tx) = account_effect a (tb_legs tx)"
  by (simp add: block_effect_def payload_effect_leg comp_def)

lemma chain_records_balance:
  assumes "chain_records mac ch txs"
  shows "chain_balance ch a = (\<Sum>tx\<leftarrow>txs. account_effect a (tb_legs tx))"
proof -
  have "map (block_effect a) (lc_blocks ch) =
      map (\<lambda>ls. sum_list (map (payload_effect a) ls)) (map lb_legs_payload (lc_blocks ch))"
    by (simp add: block_effect_def comp_def)
  also have "\<dots> = map (\<lambda>tx. account_effect a (tb_legs tx)) txs"
    using assms unfolding chain_records_def by (simp add: comp_def payload_effect_leg)
  finally show ?thesis by (simp only: chain_balance_def)
qed

lemma chain_records_accounts:
  assumes "chain_records mac ch txs"
  shows "chain_accounts ch = (\<Union>tx \<in> set txs. pl_account_id ` set (tb_legs tx))"
proof -
  have "chain_accounts ch = (\<Union>ls \<in> set (map lb_legs_payload (lc_blocks ch)). lg_acct ` set ls)"
    by (simp add: chain_accounts_def)
  also have "\<dots> = (\<Union>tx \<in> set txs. pl_account_id ` set (tb_legs tx))"
    using assms by (simp only: chain_records_def) (simp add: image_image leg_dict_def)
  finally show ?thesis .
qed

lemma trial_balance:
  assumes "\<forall>tx \<in> set txs. validate_balance tx = Inr True" "finite A"
    and "\<forall>tx \<in> set txs. pl_account_id ` set (tb_legs tx) \<subseteq> A"
  shows "(\<Sum>a\<in>A. \<Sum>tx\<leftarrow>txs. account_effect a (tb_legs tx)) = 0"
  using assms
proof (induction txs)
  case (Cons tx txs)
  then have "(\<Sum>a\<in>A. account_effect a (tb_legs tx)) = 0"
    using account_effect_sum [of A "tb_legs tx"] validate_balance_totals [of tx] by (auto split: if_splits)
  with Cons show ?case by (simp add: sum.distrib)
qed simp

lemma fresh_chain_records:
  "chain_records mac (fst (append_all mac (new_chain tenant key) Map.empty txs)) (filter (admissible tenant) txs)"
proof -
  have "chain_records mac (new_chain tenant key) []"
    by (simp add: chain_records_def new_chain_def verify_integrity_def)
  then show ?thesis
    using append_all_records [of Map.empty mac "new_chain tenant key" "[]" txs] by (simp add: new_chain_def)
qed

text \<open>C3. Zero-sum ledger: whatever batches are fed to a fresh chain, what its blocks hold for an account is the
  sum of the effects of the accepted batches on it, debits less credits, and over all accounts the chain
  mentions these balances add up to zero.\<close>

theorem ledger_always_balances:
  defines "chain \<equiv> \<lambda>mac tenant key txs. fst (append_all mac (new_chain tenant key) Map.empty txs)"
  shows "chain_balance (chain mac tenant key txs) a =
      (\<Sum>tx\<leftarrow>filter (admissible tenant) txs. account_effect a (tb_legs tx)) \<and>
    (\<Sum>a \<in> chain_accounts (chain mac tenant key txs). chain_balance (chain mac tenant key txs) a) = 0"
proof -
  have rec: "chain_records mac (chain mac tenant key txs) (filter (admissible tenant) txs)"
    unfolding chain_def by (rule fresh_chain_records)
  have "(\<Sum>a \<in> chain_accounts (chain mac tenant key txs).
      \<Sum>tx\<leftarrow>filter (admissible tenant) txs. account_effect a (tb_legs tx)) = 0"
    by (rule trial_balance) (auto simp: chain_records_accounts [OF rec] admissible_def)
  then show ?thesis by (simp add: chain_records_balance [OF rec])
qed

section \<open>From a cash count to the ledger\<close>

lemma analysis_batch_tenant:
  assumes "analyze money env vz rr acct = Inr va" "va_adjustment_batch va = Some b"
  shows "tb_tenant_id b = rr_tenant_id rr"
proof -
  have v: "rr_cash_variance_scaled rr \<noteq> 0" using assms by (auto simp: analyze_def)
  obtain reason where "generate_adjustment_batch money env vz (rr_tenant_id rr) acct (rr_cash_variance_scaled rr) reason = Inr b"
    using assms v by (auto simp: analyze_def Let_def bind_result_Inr_iff split: if_splits)
  then show ?thesis by (auto simp: generate_adjustment_batch_def bind_result_Inr_iff Let_def split: if_splits)
qed

lemma reconcile_tenant: "reconcile money tol u now cc sf feed = Inr rr \<Longrightarrow> rr_tenant_id rr = cc_tenant_id cc"
  by (auto simp: reconcile_def Let_def split: if_splits prod.splits)

lemma appended_balance:
  assumes "cache_ok cache" "tb_tenant_id tx = lc_tenant_id ch" "validate_balance tx = Inr True"
    and "verify_integrity mac ch = Inr True"
  obtains blk ch' cache' where "append_transaction mac ch cache tx = (Inr blk, ch', cache')"
    "verify_integrity mac ch' = Inr True"
    "\<And>a. chain_balance ch' a = chain_balance ch a + account_effect a (tb_legs tx)"
proof -
  obtain c where "append_transaction mac ch cache tx = (Inr (sealed_block mac ch tx),
      ch\<lparr>lc_blocks := lc_blocks ch @ [sealed_block mac ch tx]\<rparr>, c)"
    using append_accepted [OF assms(1-3), of mac] by blast
  then show thesis
    by (rule that) (simp_all add: sealed_block_verifies assms(4) chain_balance_def block_effect_sealed)
qed

text \<open>C11. A cash count reaches the ledger. When the chain of the tenant verifies and holds the balance the system
  expects for the fund account, the analysis of a count either needs no adjustment (there is no variance, or
  it exceeds the manager limit and is escalated), or its adjusting batch is accepted by the chain, which
  still verifies and then holds the counted amount for the account.\<close>

theorem counted_cash_reaches_ledger:
  assumes count: "reconcile money tol u now cc sf feed = Inr rr"
    and policy: "vz_auto_adjust_threshold_scaled vz \<le> vz_manager_threshold_scaled vz"
      "acct \<noteq> vz_cash_over_short_account_id vz"
    and chain: "verify_integrity mac ch = Inr True" "lc_tenant_id ch = cc_tenant_id cc" "cache_ok cache"
      "chain_balance ch acct = expected_balance sf"
  shows "\<exists>va. analyze money' env vz rr acct = Inr va \<and>
    (case va_adjustment_batch va of
       None \<Rightarrow> rr_cash_variance_scaled rr = 0 \<or>
         vz_manager_threshold_scaled vz < \<bar>rr_cash_variance_scaled rr\<bar> \<and> va_requires_escalation va
     | Some b \<Rightarrow> \<not> va_requires_escalation va \<and>
        (\<exists>blk ch' cache'. append_transaction mac ch cache b = (Inr blk, ch', cache') \<and>
           verify_integrity mac ch' = Inr True \<and>
           chain_balance ch' acct = denominations_total (cc_denominations cc)))"
proof -
  obtain va where va: "analyze money' env vz rr acct = Inr va"
    "case va_adjustment_batch va of
       None \<Rightarrow> rr_cash_variance_scaled rr = 0 \<or>
         vz_manager_threshold_scaled vz < \<bar>rr_cash_variance_scaled rr\<bar> \<and> va_requires_escalation va
     | Some b \<Rightarrow> validate_balance b = Inr True \<and> \<not> va_requires_escalation va \<and>
         expected_balance sf + account_effect acct (tb_legs b) = denominations_total (cc_denominations cc) \<and>
         (va_is_auto_adjusted va \<longleftrightarrow> \<bar>rr_cash_variance_scaled rr\<bar> \<le> vz_auto_adjust_threshold_scaled vz)"
    using adjustment_settles_variance [OF count policy] by blast
  show ?thesis
  proof (cases "va_adjustment_batch va")
    case None
    with va show ?thesis by (intro exI [of _ va]) simp
  next
    case (Some b)
    then have b: "validate_balance b = Inr True"
        "expected_balance sf + account_effect acct (tb_legs b) = denominations_total (cc_denominations cc)"
      using va(2) by simp_all
    have "tb_tenant_id b = lc_tenant_id ch"
      using analysis_batch_tenant [OF va(1) Some] reconcile_tenant [OF count] chain(2) by simp
    from appended_balance [OF chain(3) this b(1) chain(1)] obtain blk ch' cache' where
      "append_transaction mac ch cache b = (Inr blk, ch', cache')" "verify_integrity mac ch' = Inr True"
      "chain_balance ch' acct = chain_balance ch acct + account_effect acct (tb_legs b)"
      by metis
    with va Some b(2) chain(4) show ?thesis by (intro exI [of _ va]) simp
  qed
qed

definition opening_batch :: transaction_batch where
  "opening_batch = \<lparr>tb_transaction_id = ''tx-0'', tb_tenant_id = ''acme'', tb_description = ''opening'',
     tb_legs = [\<lparr>pl_account_id = ''cash'', pl_entry_type = DEBIT, pl_amount_scaled = 1000000\<rparr>,
                \<lparr>pl_account_id = ''bank'', pl_entry_type = CREDIT, pl_amount_scaled = 1000000\<rparr>],
     tb_timestamp = ''t''\<rparr>"

definition opening_chain :: ledger_chain where
  "opening_chain = fst (append_all demo_mac (new_chain ''acme'' ''k'') Map.empty [opening_batch])"

lemma opening_tenant: "lc_tenant_id opening_chain = ''acme''"
proof -
  have "validate_balance opening_batch = Inr True" "tb_tenant_id opening_batch = lc_tenant_id (new_chain ''acme'' ''k'')"
    by (simp_all add: opening_batch_def validate_balance_def new_chain_def)
  then obtain c where "append_transaction demo_mac (new_chain ''acme'' ''k'') Map.empty opening_batch =
      (Inr (sealed_block demo_mac (new_chain ''acme'' ''k'') opening_batch), (new_chain ''acme'' ''k'')\<lparr>lc_blocks :=
        lc_blocks (new_chain ''acme'' ''k'') @ [sealed_block demo_mac (new_chain ''acme'' ''k'') opening_batch]\<rparr>, c)"
    using append_accepted [OF cache_ok_empty] by blast
  then show ?thesis by (simp add: opening_chain_def new_chain_def)
qed

theorem counted_cash_reaches_ledger_witness:
  "\<exists>rr va b blk ch' cache'. reconcile (\<lambda>n. ''$'') 0 ''00'' ''t0'' (demo_count 3) demo_sf None = Inr rr \<and>
    analyze (\<lambda>n. ''$'') demo_adjust_env default_analyzer rr ''cash'' = Inr va \<and> va_adjustment_batch va = Some b \<and>
    append_transaction demo_mac opening_chain Map.empty b = (Inr blk, ch', cache') \<and> chain_balance ch' ''cash'' = 1000300"
proof -
  obtain rr where rr: "reconcile (\<lambda>n. ''$'') 0 ''00'' ''t0'' (demo_count 3) demo_sf None = Inr rr"
    by (simp add: reconcile_def demo_count_def demo_sf_def case_prod_unfold Let_def)
  have v: "rr_cash_variance_scaled rr = 300"
    using reconcile_variances(3) [OF rr]
    by (simp add: demo_count_def demo_sf_def denominations_total_def expected_balance_def)
  have policy: "vz_auto_adjust_threshold_scaled default_analyzer \<le> vz_manager_threshold_scaled default_analyzer"
    "''cash'' \<noteq> vz_cash_over_short_account_id default_analyzer"
    by (simp_all add: default_analyzer_def)
  have ok: "admissible ''acme'' opening_batch"
    by (simp add: admissible_def opening_batch_def validate_balance_def)
  have rec: "chain_records demo_mac opening_chain [opening_batch]"
    using fresh_chain_records [of demo_mac "''acme''" "''k''" "[opening_batch]"] ok by (simp add: opening_chain_def)
  have chain: "verify_integrity demo_mac opening_chain = Inr True" "lc_tenant_id opening_chain = cc_tenant_id (demo_count 3)"
    "chain_balance opening_chain ''cash'' = expected_balance demo_sf"
    using rec opening_tenant
    by (simp_all add: chain_records_def chain_records_balance [OF rec] demo_count_def demo_sf_def expected_balance_def
        opening_batch_def account_effect_def)
  from counted_cash_reaches_ledger [OF rr policy chain(1,2) cache_ok_empty chain(3), of "\<lambda>n. ''$''" demo_adjust_env] rr v
  show ?thesis
    by (auto simp: default_analyzer_def demo_count_def denominations_total_def split: option.splits)
qed

end
