(* ===== verification/Install_Hooks.thy ===== *)
theory Install_Hooks
  imports Prelude "HOL-Library.Word"
begin

text \<open>
  \<^verbatim>\<open>scripts/install_hooks.py\<close>: the installation of the pre-push hook into a repository. The file system is
  the list of its directories and an association list of its files with their modes; the mode a new file
  gets is an argument. Printed output is left out.
\<close>

unbundle bit_operations_syntax

record hook_file =
  hf_content :: string
  hf_mode :: nat

record hook_fs =
  hs_dirs :: "string list"
  hs_files :: "(string \<times> hook_file) list"

definition HOOK_SCRIPT_CONTENT :: string where
  "HOOK_SCRIPT_CONTENT = concat (map (\<lambda>l. l @ [CHR 0x0A])
     [''#!/bin/sh'', ''# PettyFlow Automated Pre-Push Review Hook'',
      ''echo '' @ [CHR 0x22] @ ''[INFO] Executing PettyFlow Pre-Push Code Review & Verification...'' @ [CHR 0x22],
      ''python scripts/pre_push_check.py'', ''if [ $? -ne 0 ]; then'',
      ''    echo '' @ [CHR 0x22] @ ''[ERROR] Git Push Aborted due to pre-push check failures.'' @ [CHR 0x22],
      ''    exit 1'', ''fi'', ''exit 0''])"

definition S_IEXEC :: nat where
  "S_IEXEC = 64"

text \<open>Opening for writing keeps the mode of a file that exists.\<close>

definition write_file :: "nat \<Rightarrow> string \<Rightarrow> string \<Rightarrow> hook_fs \<Rightarrow> hook_fs" where
  "write_file new_mode path content fs =
     fs\<lparr>hs_files := AList.update path \<lparr>hf_content = content,
        hf_mode = (case map_of (hs_files fs) path of None \<Rightarrow> new_mode | Some f \<Rightarrow> hf_mode f)\<rparr> (hs_files fs)\<rparr>"

definition mode_of :: "string \<Rightarrow> hook_fs \<Rightarrow> nat" where
  "mode_of path fs = (case map_of (hs_files fs) path of None \<Rightarrow> 0 | Some f \<Rightarrow> hf_mode f)"

definition chmod :: "string \<Rightarrow> nat \<Rightarrow> hook_fs \<Rightarrow> hook_fs" where
  "chmod path mode fs =
     (case map_of (hs_files fs) path of None \<Rightarrow> fs
      | Some f \<Rightarrow> fs\<lparr>hs_files := AList.update path (f\<lparr>hf_mode := mode\<rparr>) (hs_files fs)\<rparr>)"

text \<open>The exit status, and the file system it leaves.\<close>

definition install_git_hooks :: "nat \<Rightarrow> string \<Rightarrow> hook_fs \<Rightarrow> int \<times> hook_fs" where
  "install_git_hooks new_mode repo_root fs =
     (let git_hooks_dir = repo_root @ ''/.git/hooks''; pre_push_path = git_hooks_dir @ ''/pre-push''
      in if git_hooks_dir \<notin> set (hs_dirs fs) then (1, fs)
         else (let fs1 = write_file new_mode pre_push_path HOOK_SCRIPT_CONTENT fs
               in (0, chmod pre_push_path (mode_of pre_push_path fs1 OR S_IEXEC) fs1)))"

lemma update_twice: "AList.update k v (AList.update k w d) = AList.update k v d"
  by (induction d) auto

definition old_mode :: "nat \<Rightarrow> string \<Rightarrow> hook_fs \<Rightarrow> nat" where
  "old_mode new_mode path fs = (case map_of (hs_files fs) path of None \<Rightarrow> new_mode | Some f \<Rightarrow> hf_mode f)"

lemma write_and_chmod:
  "chmod path (mode_of path (write_file new_mode path content fs) OR x) (write_file new_mode path content fs) =
   fs\<lparr>hs_files := AList.update path \<lparr>hf_content = content, hf_mode = old_mode new_mode path fs OR x\<rparr> (hs_files fs)\<rparr>"
  by (simp add: chmod_def mode_of_def write_file_def old_mode_def update_conv' update_twice)

text \<open>The installer refuses a directory that is no repository and then changes nothing; otherwise the hook holds
  the script, whatever was there before, its owner may run it, no permission it had is lost, and every
  other file is as before. Installing again changes nothing.\<close>

theorem hook_installed:
  assumes "install_git_hooks new_mode root fs = (rc, fs')"
  defines "path \<equiv> root @ ''/.git/hooks/pre-push''"
  shows "if root @ ''/.git/hooks'' \<notin> set (hs_dirs fs) then rc = 1 \<and> fs' = fs
    else rc = 0 \<and> hs_dirs fs' = hs_dirs fs \<and>
      (\<exists>mode. map_of (hs_files fs') path = Some \<lparr>hf_content = HOOK_SCRIPT_CONTENT, hf_mode = mode\<rparr> \<and> bit mode 6 \<and>
         (\<forall>f n. map_of (hs_files fs) path = Some f \<and> bit (hf_mode f) n \<longrightarrow> bit mode n)) \<and>
      (\<forall>p. p \<noteq> path \<longrightarrow> map_of (hs_files fs') p = map_of (hs_files fs) p) \<and>
      install_git_hooks new_mode root fs' = (0, fs')"
proof (cases "root @ ''/.git/hooks'' \<in> set (hs_dirs fs)")
  case False
  with assms(1) show ?thesis by (simp add: install_git_hooks_def Let_def)
next
  case True
  define old where "old = old_mode new_mode path fs"
  have run: "install_git_hooks new_mode root fs = (0, fs\<lparr>hs_files := AList.update path
      \<lparr>hf_content = HOOK_SCRIPT_CONTENT, hf_mode = old_mode new_mode path fs OR S_IEXEC\<rparr> (hs_files fs)\<rparr>)"
    if "root @ ''/.git/hooks'' \<in> set (hs_dirs fs)" for fs
  proof -
    have "path = (root @ ''/.git/hooks'') @ ''/pre-push''" by (simp add: path_def)
    with that show ?thesis unfolding install_git_hooks_def Let_def by (simp only: write_and_chmod not_True_eq_False if_False)
  qed
  note eq = trans [OF assms(1) [symmetric] run [OF True]]
  have rc: "rc = 0" using arg_cong [OF eq, of fst] by (simp only: fst_conv)
  have fs': "fs' = fs\<lparr>hs_files := AList.update path
      \<lparr>hf_content = HOOK_SCRIPT_CONTENT, hf_mode = old OR S_IEXEC\<rparr> (hs_files fs)\<rparr>"
    using arg_cong [OF eq, of snd] by (simp only: snd_conv old_def)
  have "bit S_IEXEC 6" by code_simp
  then have "bit (old OR S_IEXEC) 6" by (simp add: bit_or_iff)
  moreover have "bit (old OR S_IEXEC) n" if "map_of (hs_files fs) path = Some f" "bit (hf_mode f) n" for f n
    using that by (simp add: old_def old_mode_def bit_or_iff)
  moreover have "install_git_hooks new_mode root fs' = (0, fs')"
    using True run [of fs'] by (simp add: fs' old_mode_def update_conv' update_twice or.assoc)
  ultimately show ?thesis using True rc by (simp add: fs' update_conv')
qed

end
