(* ===== verification/Numbered_Canvas.thy ===== *)
theory Numbered_Canvas
  imports Prelude
begin

text \<open>
  The page numbering of \<^verbatim>\<open>generate_pdf.py\<close>: a canvas that keeps the state of every finished page and draws
  the header and footer when the document is saved and the number of pages is known. What the drawing
  library does when it starts a page is a parameter; the dash of the footer is an argument.
\<close>

datatype draw =
    SetFont string nat
  | SetFillColor string
  | SetStrokeColor string
  | SetLineWidth string
  | DrawString int int string
  | DrawRightString int int string
  | DrawLine int int int int
  | SaveState
  | RestoreState
  | Content string

text \<open>The attributes of a canvas that belong to its current page.\<close>

record page_state =
  pg_number :: nat
  pg_code :: "draw list"

record canvas =
  nc_page :: page_state
  nc_saved :: "page_state list"
  nc_output :: "draw list list"

definition new_canvas :: canvas where
  "new_canvas = \<lparr>nc_page = \<lparr>pg_number = 1, pg_code = []\<rparr>, nc_saved = [], nc_output = []\<rparr>"

definition draw_on :: "draw \<Rightarrow> canvas \<Rightarrow> canvas" where
  "draw_on d c = c\<lparr>nc_page := (nc_page c)\<lparr>pg_code := pg_code (nc_page c) @ [d]\<rparr>\<rparr>"

definition page_label :: "nat \<Rightarrow> nat \<Rightarrow> string" where
  "page_label n page_count = ''Page '' @ show_nat n @ '' of '' @ show_nat page_count"

definition decorations :: "char list \<Rightarrow> nat \<Rightarrow> nat \<Rightarrow> draw list" where
  "decorations dash n page_count =
     [SaveState, SetFont ''Helvetica-Bold'' 8, SetFillColor ''#6B21A8'',
      DrawString 54 750 ''PETTYFLOW SYSTEM ARCHITECTURE & PRODUCT SPECIFICATION'',
      SetFont ''Helvetica'' 8, SetFillColor ''#6B7280'',
      DrawRightString (612 - 54) 750 ''JEFF DEAN DESIGN STANDARD'',
      SetStrokeColor ''#E9D5FF'', SetLineWidth ''0.75'', DrawLine 54 742 (612 - 54) 742,
      DrawLine 54 50 (612 - 54) 50,
      DrawString 54 38 (''CONFIDENTIAL & PROPRIETARY '' @ dash @ '' PETTYFLOW INC.''),
      DrawRightString (612 - 54) 38 (page_label n page_count), RestoreState]"

definition draw_page_decorations :: "char list \<Rightarrow> nat \<Rightarrow> canvas \<Rightarrow> canvas" where
  "draw_page_decorations dash page_count c =
     (if pg_number (nc_page c) = 1 then c
      else fold draw_on (decorations dash (pg_number (nc_page c)) page_count) c)"

text \<open>\<open>showPage\<close> keeps the state of the page; the inherited one puts the page into the document.\<close>

definition showPage :: "(page_state \<Rightarrow> page_state) \<Rightarrow> canvas \<Rightarrow> canvas" where
  "showPage start c = c\<lparr>nc_saved := nc_saved c @ [nc_page c], nc_page := start (nc_page c)\<rparr>"

definition super_showPage :: "(page_state \<Rightarrow> page_state) \<Rightarrow> canvas \<Rightarrow> canvas" where
  "super_showPage start c = c\<lparr>nc_output := nc_output c @ [pg_code (nc_page c)], nc_page := start (nc_page c)\<rparr>"

definition save_canvas :: "(page_state \<Rightarrow> page_state) \<Rightarrow> char list \<Rightarrow> canvas \<Rightarrow> canvas" where
  "save_canvas start dash c =
     (let num_pages = length (nc_saved c)
      in fold (\<lambda>st c. super_showPage start (draw_page_decorations dash num_pages (c\<lparr>nc_page := st\<rparr>))) (nc_saved c) c)"

text \<open>A document: the content of its pages, drawn page by page.\<close>

definition draw_document :: "(page_state \<Rightarrow> page_state) \<Rightarrow> draw list list \<Rightarrow> canvas" where
  "draw_document start pages = fold (\<lambda>p c. showPage start (fold draw_on p c)) pages new_canvas"

lemma draw_all: "fold draw_on ds c = c\<lparr>nc_page := (nc_page c)\<lparr>pg_code := pg_code (nc_page c) @ ds\<rparr>\<rparr>"
  by (induction ds arbitrary: c) (simp_all add: draw_on_def)

lemma enumerate_shift: "enumerate (Suc n) xs = map (\<lambda>(i, x). (Suc i, x)) (enumerate n xs)"
  by (induction xs arbitrary: n) simp_all

lemma pages_drawn:
  assumes "\<And>p. start p = \<lparr>pg_number = pg_number p + 1, pg_code = []\<rparr>" "pg_code (nc_page c) = []"
  shows "fold (\<lambda>p c. showPage start (fold draw_on p c)) pages c =
    c\<lparr>nc_saved := nc_saved c @ map (\<lambda>(i, p). \<lparr>pg_number = pg_number (nc_page c) + i, pg_code = p\<rparr>) (enumerate 0 pages),
      nc_page := \<lparr>pg_number = pg_number (nc_page c) + length pages, pg_code = []\<rparr>\<rparr>"
  using assms(2)
proof (induction pages arbitrary: c)
  case Nil
  then show ?case by simp
next
  case (Cons p pages)
  show ?case
    using Cons by (simp add: draw_all showPage_def assms(1) enumerate_shift [of 0] comp_def case_prod_unfold)
qed

text \<open>When the library starts every page with the next number and nothing drawn, a saved document of \<open>n\<close> pages
  shows each page once, in order, with its content; the first page has no header, and every other page
  \<open>i\<close> ends with the decorations that name it page \<open>i\<close> of \<open>n\<close>.\<close>

theorem pages_are_numbered:
  assumes "\<And>p. start p = \<lparr>pg_number = pg_number p + 1, pg_code = []\<rparr>"
  shows "nc_output (save_canvas start dash (draw_document start pages)) =
    map (\<lambda>(i, p). if i = 0 then p else p @ decorations dash (i + 1) (length pages)) (enumerate 0 pages)"
proof -
  let ?st = "\<lambda>(i, p). \<lparr>pg_number = 1 + i, pg_code = p\<rparr>"
  have doc: "nc_saved (draw_document start pages) = map ?st (enumerate 0 pages)" "nc_output (draw_document start pages) = []"
    using pages_drawn [of start new_canvas pages] assms by (simp_all add: draw_document_def new_canvas_def)
  have "nc_output (fold (\<lambda>st c. super_showPage start (draw_page_decorations dash n (c\<lparr>nc_page := st\<rparr>))) sts c) =
      nc_output c @ map (\<lambda>st. if pg_number st = 1 then pg_code st else pg_code st @ decorations dash (pg_number st) n) sts"
    for n sts c
    by (induction sts arbitrary: c) (simp_all add: super_showPage_def draw_page_decorations_def draw_all)
  then show ?thesis
    by (simp add: save_canvas_def doc comp_def case_prod_unfold)
qed

end
