(* ===== verification/Spec2Isabelle.thy ===== *)
theory Spec2Isabelle
  imports Hash_Chain Audit_Log Float_Api Currency Workflow_Service Disbursement_Manager
    Reconciliation Risk_Scorer Perceptual_Hash Evidence_Sealer Approval_Api Sap Netsuite Kms_Vault Jwt
    Balance_Cache Spend Plaid Receipt_Reading Receipt_Api Recon_Api Reports Telemetry Migrations Db_Session
    Dev_Scripts App_Books Disbursement_Audit Ledger_Books Install_Hooks Numbered_Canvas
begin

text \<open>
  PettyFlow is a multi-tenant petty cash service: tenants hold funds, custodians hold float from them,
  disbursements go through an approval workflow and out over card and mobile money providers, and
  everything is booked in double entry, chained by keyed hashes and reconciled against cash counts
  and bank feeds. Fraud detectors, ERP and bank adapters, receipts, reports and REST front ends stand
  around that core. The development models this core as functional programs over explicit states and
  proves what each part promises. All paths below are under \<^verbatim>\<open>src/\<close> of the repository.

  Every Python object that is mutated becomes a record that the operation returns updated; an operation
  that can raise returns \<open>'e + 'a\<close>, with one constructor per exception it raises; its conditions and
  early returns stand in the order of the code. Texts are lists of characters below U+0100, integers are
  unbounded as in Python (the places that depend on 64 bits say so), clocks, uuids and other fresh values
  are arguments. Prelude states these conventions and shares the string, decimal and list lemmas.

  \<^bold>\<open>Ledger.\<close>
  Journal is the double-entry contract (a locale); Ledger (\<^verbatim>\<open>domain/ledger/entry.py\<close>) interprets it with
  batches of posting legs: accepted batches conserve value over all accounts. Mac_Chain is the contract of
  a keyed hash chain; Hash_Chain (\<^verbatim>\<open>domain/ledger/hash_chain.py\<close>) and Audit_Log
  (\<^verbatim>\<open>infrastructure/audit/tamper_log.py\<close>) interpret it: what is appended verifies, and two verifying chains
  with the same head agree, up to the fields the digests do not cover, which the text names. Ledger_Books
  reads the blocks of a chain as account balances: they add up to zero over all accounts, and a cash count
  that needs an adjustment reaches the ledger through Reconciliation.

  \<^bold>\<open>Funds and currencies.\<close>
  Funds (\<^verbatim>\<open>domain/funds/service.py\<close>) keeps float conserved; Float_Api (\<^verbatim>\<open>api/rest/float_router.py\<close>,
  \<^verbatim>\<open>api/grpc/float_handler.py\<close>) shows that both front ends agree. Currency
  (\<^verbatim>\<open>domain/currency/exchange_rates.py\<close>) refines the memoised, indexed and bisected rate lookup to a search
  over the registered rates; the bisection ends because its interval shrinks. Balance_Cache
  (\<^verbatim>\<open>infrastructure/cache/redis_balance_cache.py\<close>) refines the Redis keys and the Lua script to a table.

  \<^bold>\<open>Approval.\<close>
  Ranked_Fsm is the contract of a life cycle that only moves forward; Workflow_Fsm
  (\<^verbatim>\<open>domain/workflow/state_machine.py\<close>) interprets it: without
  cancellations a request follows the documented graph. Policy (\<^verbatim>\<open>policy_evaluator.py\<close>), Workflow_Service
  (\<^verbatim>\<open>service.py\<close>) and Approval_Api (\<^verbatim>\<open>api/rest/approval_router.py\<close>) stack on it: audit trails are the
  history, stored requests are well governed, tenants do not interfere, every endpoint answers by an
  explicit status table, and a live-feed session answers its pings.

  \<^bold>\<open>Payment.\<close>
  Once_Per_Key is the contract of an operation that is idempotent in its key; Card_Issuer, Mobile_Money
  (\<^verbatim>\<open>infrastructure/adapters/\<close>) and Plaid (\<^verbatim>\<open>infrastructure/banking/plaid_adapter.py\<close>, over the element
  trees of Xml) interpret it. Settlement and Idempotency (\<^verbatim>\<open>domain/wallet/settlement.py\<close>,
  \<^verbatim>\<open>infrastructure/idempotency/store.py\<close>) are the states and the store that Disbursement and
  Disbursement_Manager (\<^verbatim>\<open>domain/wallet/disbursement_manager.py\<close>) compose: a request is paid once per key
  inside the retention. Disbursement_Audit puts the manager and the audit log together: the results a
  tenant is shown and the results its log holds are the same. Posting_Book is the contract of an ERP adapter over mutable entries named by
  address; Sap and Netsuite (\<^verbatim>\<open>infrastructure/erp/\<close>) interpret it and Journal.

  \<^bold>\<open>Reconciliation and reports.\<close>
  Reconciliation (\<^verbatim>\<open>domain/reconciliation/\<close>) matches counts, float and bank feed: the adjusting batch
  settles the variance. Recon_Api (\<^verbatim>\<open>api/rest/reconciliation_router.py\<close>) keeps closings with their
  signatures. Spend (\<^verbatim>\<open>services/analytics/spend_aggregator.py\<close>) proves its two engines equal within their
  sentinels; Reports (\<^verbatim>\<open>api/rest/reports_router.py\<close>, over the dialect of Csv) shows that a statement is
  complete and adds up to the summary.

  \<^bold>\<open>Fraud.\<close>
  Sliding_Window is the contract of the rolling windows of Velocity and Split_Tx
  (\<^verbatim>\<open>services/fraud/velocity_detector.py\<close>, \<^verbatim>\<open>split_tx_detector.py\<close>); Component_Search is the breadth first
  search of the latter, with its termination measure and its correctness. Category_Anomaly,
  Perceptual_Hash, Risk_Scorer and Evidence_Sealer are the other modules of that directory: alerts are
  raised exactly under their stated conditions, and sealed evidence verifies.

  \<^bold>\<open>Receipts.\<close>
  Regex models the backtracking matcher for the patterns of the source; Receipt and Receipt_Reading
  (\<^verbatim>\<open>services/ai/ocr_processor.py\<close>) show that a printed receipt is read back and what is misread;
  Receipt_Api (\<^verbatim>\<open>services/ai/preprocessor.py\<close>, \<^verbatim>\<open>api/rest/receipt_router.py\<close>) bounds what is decoded.

  \<^bold>\<open>The application.\<close>
  Routed_Part is the contract of one part of a composed program (a locale): a run of the whole, restricted
  to the calls of the part, is a run of the part. Routes is the routing table of \<^verbatim>\<open>api/app.py\<close> and of the
  routers, and what the load test of \<^verbatim>\<open>benchmarks/\<close> finds there. App is the application: its state is
  that of the four routers that keep one, a request is dispatched, turned into a call and answered. It
  interprets Routed_Part once for each of these routers, so that App_Books lifts what Funds, Recon_Api,
  Reports and Approval_Api prove to any sequence of requests: what is stored is what the answers said,
  and a request changes only the router it is addressed to.

  \<^bold>\<open>Infrastructure.\<close>
  Json and Base64 are the library formats with their round trips; Kms_Vault and Jwt
  (\<^verbatim>\<open>infrastructure/security/\<close>) build envelopes and tokens from them: what opens for a
  tenant was sealed for it; Telemetry (\<^verbatim>\<open>infrastructure/observability/telemetry.py\<close>) records, numbers and
  announces alerts and derives the health; Migrations
  (\<^verbatim>\<open>infrastructure/migrations/engine.py\<close>) is atomic under savepoints; Db_Session
  (\<^verbatim>\<open>infrastructure/db/connection.py\<close>) is the session scope. Dev_Scripts (\<^verbatim>\<open>scripts/\<close>) are the gates in
  front of commits and pushes: what the helper commits was reviewed and scanned; Install_Hooks installs
  one of them as a hook. Numbered_Canvas (\<^verbatim>\<open>generate_pdf.py\<close>) numbers the pages of a document.

  \<^bold>\<open>Termination and fuel.\<close>
  Decimal printing, string scanning, bisection, substitution and breadth first search are total functions
  with measures. The JSON and XML readers take fuel, twice the length of the text plus two and the length of the
  text; that this is enough for every printed value is part of their round trip lemmas. The bit-counting
  loop of the image hashes is a partial function whose termination is proved.

  \<^bold>\<open>Parameters.\<close>
  HMAC, SHA-256, MD5 and AES-GCM, float arithmetic and its formatting, the number conversions of Lua, single
  SQL statements, the imaging library, the vision extractor, what the drawing library does at the start of
  a page and the dispatcher of the web framework are arguments. What a property assumes of
  them (that distinct texts have distinct digests, that a ciphertext opens under the key, nonce and
  associated data it was sealed with and that nobody forges one, that amounts of whole cents convert and
  print exactly, that a failure rate at the limit exceeds or equals it, that statements without transaction
  control act on the visible database, that a dispatcher takes the first registered route that matches) is
  a named hypothesis with a witness that satisfies it. The XML reader is not code of the repository: it
  accepts part of what a parser of the standard does, as bank software reads the printed messages.

  \<^bold>\<open>Not modelled.\<close>
  The modules under \<^verbatim>\<open>proto/\<close> are generated. The story and the styles of \<^verbatim>\<open>generate_pdf.py\<close> are fixed data for a
  drawing library, the payloads and waits of \<^verbatim>\<open>benchmarks/\<close> are random. The answers about funds and approval
  requests are their records, not JSON text. Of the modelled modules the type checks by \<open>isinstance\<close>, error
  texts, locks, durations and float views of scaled amounts are left out, and characters from U+0100 are
  outside the text type, with the one operation that describes policies by such signs; case changes
  concern the ASCII letters. A posted spend record has values of the declared types, the tracking rows of
  migrations are always written, and a session of the live feed is one step of the application.
\<close>

end
